(* ===== verification/Prelude.thy ===== *)
theory Prelude
  imports Complex_Main "HOL-Library.Product_Lexorder" "HOL-Library.List_Lexorder"
    "HOL-Library.Char_ord"
begin

text \<open>
  What every component of the development shares: results that are either an error or a
  value (the model of a Python call that may raise), loops that stop at the first error,
  and the facts on lists that the tables of the model need. Nothing here is specific to
  the program.
\<close>

named_theorems res_simps "equations of the result combinators"

section \<open>Results: an exception or a value\<close>

text \<open>
  A call that may raise returns \<open>Inl e\<close> for the exception and \<open>Inr x\<close> for the value.
  \<open>bind_res r f\<close> is "run \<open>r\<close>; if it raised, so does the caller, else go on with \<open>f\<close>".
\<close>

fun bind_res :: "'e + 'a \<Rightarrow> ('a \<Rightarrow> 'e + 'b) \<Rightarrow> 'e + 'b" where
  "bind_res (Inl e) f = Inl e"
| "bind_res (Inr x) f = f x"

lemma bind_res_Inr_iff [res_simps]:
  "bind_res r f = Inr y \<longleftrightarrow> (\<exists>x. r = Inr x \<and> f x = Inr y)"
  by (cases r) auto

lemma bind_res_Inl_iff:
  "bind_res r f = Inl e \<longleftrightarrow> r = Inl e \<or> (\<exists>x. r = Inr x \<and> f x = Inl e)"
  by (cases r) auto

lemma bind_res_InrE:
  assumes "bind_res r f = Inr y"
  obtains x where "r = Inr x" "f x = Inr y"
  using assms by (auto simp: bind_res_Inr_iff)

lemma case_prod_InrE:
  assumes "(case p of (a, b) \<Rightarrow> f a b) = Inr y"
  obtains a b where "p = (a, b)" "f a b = Inr y"
  using assms by (cases p) auto

lemma Inr_pairE:
  assumes "Inr (a, b) = Inr (c, d)"
  obtains "a = c" "b = d"
  using assms by simp

lemmas run_elims = bind_res_InrE case_prod_InrE Inr_pairE

lemma bind_res_cong [fundef_cong]:
  "r = r' \<Longrightarrow> (\<And>x. r' = Inr x \<Longrightarrow> f x = g x) \<Longrightarrow> bind_res r f = bind_res r' g"
  by (cases r') auto

lemma bind_res_assoc:
  "bind_res (bind_res r f) g = bind_res r (\<lambda>x. bind_res (f x) g)"
  by (cases r) auto

text \<open>\<open>require b e\<close> is "if not b: raise e".\<close>

definition require :: "bool \<Rightarrow> 'e \<Rightarrow> 'e + unit" where
  "require b e = (if b then Inr () else Inl e)"

lemma require_Inr_iff [res_simps]: "require b e = Inr u \<longleftrightarrow> b"
  by (auto simp: require_def)

lemma require_Inl_iff: "require b e = Inl e' \<longleftrightarrow> \<not> b \<and> e' = e"
  by (auto simp: require_def)

lemma require_simps [simp]: "require True e = Inr ()" "require False e = Inl e"
  by (simp_all add: require_def)

lemma bind_require_Inr_iff [res_simps]:
  "bind_res (require b e) f = Inr y \<longleftrightarrow> b \<and> f () = Inr y"
  by (auto simp: require_def)

text \<open>\<open>the_res x e\<close> is "a query that must find a row, else raise e".\<close>

definition the_res :: "'a option \<Rightarrow> 'e \<Rightarrow> 'e + 'a" where
  "the_res x e = (case x of None \<Rightarrow> Inl e | Some y \<Rightarrow> Inr y)"

lemma the_res_Inr_iff [res_simps]: "the_res x e = Inr y \<longleftrightarrow> x = Some y"
  by (auto simp: the_res_def split: option.splits)

lemma the_res_simps [simp]: "the_res None e = Inl e" "the_res (Some y) e = Inr y"
  by (simp_all add: the_res_def)

text \<open>Whether a call returned rather than raised.\<close>

definition returns :: "'e + 'a \<Rightarrow> bool" where
  "returns r \<longleftrightarrow> (\<exists>x. r = Inr x)"

lemma returns_simps [simp]: "returns (Inr x)" "\<not> returns (Inl e)"
  by (auto simp: returns_def)

section \<open>Loops that stop at the first exception\<close>

text \<open>\<open>for x in xs: state = body(x, state)\<close>\<close>

fun fold_res :: "('a \<Rightarrow> 's \<Rightarrow> 'e + 's) \<Rightarrow> 'a list \<Rightarrow> 's \<Rightarrow> 'e + 's" where
  "fold_res f [] s = Inr s"
| "fold_res f (x # xs) s = bind_res (f x s) (fold_res f xs)"

lemma fold_res_append:
  "fold_res f (xs @ ys) s = bind_res (fold_res f xs s) (fold_res f ys)"
proof (induction xs arbitrary: s)
  case Nil
  show ?case by simp
next
  case (Cons x xs)
  then show ?case by (cases "f x s") simp_all
qed

text \<open>What every iteration keeps, the loop keeps.\<close>

lemma fold_res_invariant:
  assumes "fold_res f xs s = Inr t" and "P s"
    and step: "\<And>x s t. x \<in> set xs \<Longrightarrow> P s \<Longrightarrow> f x s = Inr t \<Longrightarrow> P t"
  shows "P t"
  using assms
proof (induction xs arbitrary: s)
  case Nil
  then show ?case by simp
next
  case (Cons x xs)
  from Cons.prems(1) obtain u where u: "f x s = Inr u" "fold_res f xs u = Inr t"
    by (auto simp: bind_res_Inr_iff)
  show ?case
  proof (rule Cons.IH [OF u(2)])
    show "P u" using Cons.prems(2,3) u(1) by (metis list.set_intros(1))
    show "\<And>x s t. x \<in> set xs \<Longrightarrow> P s \<Longrightarrow> f x s = Inr t \<Longrightarrow> P t"
      using Cons.prems(3) by (metis list.set_intros(2))
  qed
qed

text \<open>An invariant that knows which elements are still to come.\<close>

lemma fold_res_remaining:
  assumes "fold_res f xs s = Inr t" and "P xs s"
    and step: "\<And>x rest s t. f x s = Inr t \<Longrightarrow> P (x # rest) s \<Longrightarrow> P rest t"
  shows "P [] t"
  using assms(1,2)
proof (induction xs arbitrary: s)
  case Nil
  then show ?case by simp
next
  case (Cons x xs)
  then show ?case using step by (auto simp: bind_res_Inr_iff)
qed

lemma fold_res_cong [fundef_cong]:
  "xs = ys \<Longrightarrow> s = t \<Longrightarrow> (\<And>x u. x \<in> set ys \<Longrightarrow> f x u = g x u)
    \<Longrightarrow> fold_res f xs s = fold_res g ys t"
proof -
  assume "xs = ys" "s = t" and fg: "\<And>x u. x \<in> set ys \<Longrightarrow> f x u = g x u"
  have "fold_res f ys t = fold_res g ys t" using fg
  proof (induction ys arbitrary: t)
    case Nil
    show ?case by simp
  next
    case (Cons y ys)
    then show ?case by (cases "g y t") simp_all
  qed
  then show ?thesis using \<open>xs = ys\<close> \<open>s = t\<close> by simp
qed

section \<open>Lists as tables\<close>

text \<open>Replace every row that satisfies \<open>P\<close>: an SQL \<open>UPDATE ... WHERE P\<close>.\<close>

definition update_where :: "('a \<Rightarrow> bool) \<Rightarrow> ('a \<Rightarrow> 'a) \<Rightarrow> 'a list \<Rightarrow> 'a list" where
  "update_where P f xs = map (\<lambda>x. if P x then f x else x) xs"

lemma update_where_Nil [simp]: "update_where P f [] = []"
  by (simp add: update_where_def)

lemma update_where_Cons [simp]:
  "update_where P f (x # xs) = (if P x then f x else x) # update_where P f xs"
  by (simp add: update_where_def)

lemma update_where_append [simp]:
  "update_where P f (xs @ ys) = update_where P f xs @ update_where P f ys"
  by (simp add: update_where_def)

lemma length_update_where [simp]: "length (update_where P f xs) = length xs"
  by (simp add: update_where_def)

lemma set_update_where:
  "set (update_where P f xs) = (\<lambda>x. if P x then f x else x) ` set xs"
  by (simp add: update_where_def)

lemma map_update_where_same:
  "(\<And>x. P x \<Longrightarrow> g (f x) = g x) \<Longrightarrow> map g (update_where P f xs) = map g xs"
  by (simp add: update_where_def)

lemma update_where_none: "(\<And>x. x \<in> set xs \<Longrightarrow> \<not> P x) \<Longrightarrow> update_where P f xs = xs"
  by (simp add: update_where_def map_idI)

text \<open>A sum over a table, split at a row that was appended.\<close>

lemma sum_list_filter_append:
  "sum_list (map f (filter P (xs @ ys))) =
    (sum_list (map f (filter P xs)) + sum_list (map f (filter P ys)) :: 'a::monoid_add)"
  by simp

lemma sum_list_filter_nonneg:
  "(\<And>x. x \<in> set xs \<Longrightarrow> P x \<Longrightarrow> (0::rat) \<le> f x) \<Longrightarrow> 0 \<le> sum_list (map f (filter P xs))"
  by (auto intro!: sum_list_nonneg)

lemma sum_list_filter_split:
  "sum_list (map f (filter P xs)) =
    (sum_list (map f (filter (\<lambda>x. P x \<and> Q x) xs))
      + sum_list (map f (filter (\<lambda>x. P x \<and> \<not> Q x) xs)) :: 'a::comm_monoid_add)"
  by (induction xs) (auto simp: ac_simps)

lemma filter_update_where_same:
  "(\<And>x. P x \<Longrightarrow> Q (f x) = Q x) \<Longrightarrow> filter Q (update_where P f xs) = update_where P f (filter Q xs)"
  by (induction xs) auto

lemma sum_list_map_insort:
  "sum_list (map f (insort_key g x xs)) = (f x + sum_list (map f xs) :: 'a::comm_monoid_add)"
  by (induction xs) (simp_all add: ac_simps)

lemma sum_list_map_sort:
  "sum_list (map f (sort_key g xs)) = (sum_list (map f xs) :: 'a::comm_monoid_add)"
  by (induction xs) (simp_all add: sum_list_map_insort)

lemma find_Some_iff: "List.find P xs = Some x \<Longrightarrow> x \<in> set xs \<and> P x"
  by (induction xs) (auto split: if_splits)

lemma find_append1:
  "List.find P (xs @ [x]) = (case List.find P xs of None \<Rightarrow> if P x then Some x else None | r \<Rightarrow> r)"
  by (induction xs) auto

lemma find_None_iff': "List.find P xs = None \<longleftrightarrow> (\<forall>x \<in> set xs. \<not> P x)"
  by (induction xs) auto

lemma distinct_map_unique:
  "distinct (map f xs) \<Longrightarrow> x \<in> set xs \<Longrightarrow> y \<in> set xs \<Longrightarrow> f x = f y \<Longrightarrow> x = y"
  by (auto simp: distinct_map inj_on_def)

text \<open>SQL \<open>MIN\<close> and \<open>MAX\<close>: \<open>NULL\<close> over no rows.\<close>

definition agg_min :: "'a::linorder list \<Rightarrow> 'a option" where
  "agg_min xs = (case xs of [] \<Rightarrow> None | y # ys \<Rightarrow> Some (foldr min ys y))"

definition agg_max :: "'a::linorder list \<Rightarrow> 'a option" where
  "agg_max xs = (case xs of [] \<Rightarrow> None | y # ys \<Rightarrow> Some (foldr max ys y))"

lemma foldr_min_le: "x \<in> set (y # ys) \<Longrightarrow> foldr min ys y \<le> (x::'a::linorder)"
  by (induction ys) (auto simp: min_le_iff_disj)

lemma foldr_max_ge: "x \<in> set (y # ys) \<Longrightarrow> (x::'a::linorder) \<le> foldr max ys y"
  by (induction ys) (auto simp: le_max_iff_disj)

lemma foldr_min_in: "foldr min ys y \<in> set (y # ys)"
  by (induction ys) (auto simp: min_def)

lemma foldr_max_in: "foldr max ys y \<in> set (y # ys)"
  by (induction ys) (auto simp: max_def)

lemma agg_min_None [simp]: "agg_min xs = None \<longleftrightarrow> xs = []"
  by (simp add: agg_min_def split: list.splits)

lemma agg_max_None [simp]: "agg_max xs = None \<longleftrightarrow> xs = []"
  by (simp add: agg_max_def split: list.splits)

lemma agg_min_le: "agg_min xs = Some m \<Longrightarrow> x \<in> set xs \<Longrightarrow> m \<le> x"
  using foldr_min_le by (fastforce simp: agg_min_def split: list.splits)

lemma agg_max_ge: "agg_max xs = Some m \<Longrightarrow> x \<in> set xs \<Longrightarrow> x \<le> m"
  using foldr_max_ge by (fastforce simp: agg_max_def split: list.splits)

lemma agg_min_in: "agg_min xs = Some m \<Longrightarrow> m \<in> set xs"
  using foldr_min_in by (fastforce simp: agg_min_def split: list.splits)

lemma agg_max_in: "agg_max xs = Some m \<Longrightarrow> m \<in> set xs"
  using foldr_max_in by (fastforce simp: agg_max_def split: list.splits)

section \<open>The newest row\<close>

text \<open>\<open>.order_by("-k").first()\<close>: the row with the greatest key, \<open>None\<close> over no rows.\<close>

definition newest :: "('a \<Rightarrow> 'k::linorder) \<Rightarrow> 'a list \<Rightarrow> 'a option" where
  "newest g xs = (if xs = [] then None else Some (last (sort_key g xs)))"

lemma newest_None [simp]: "newest g xs = None \<longleftrightarrow> xs = []"
  by (simp add: newest_def)

lemma sort_key_Nil [simp]: "sort_key g xs = [] \<longleftrightarrow> xs = []"
  by (metis length_0_conv length_sort)

lemma newest_in: "newest g xs = Some x \<Longrightarrow> x \<in> set xs"
  using last_in_set [of "sort_key g xs"] by (auto simp: newest_def split: if_splits)

lemma newest_max: "newest g xs = Some x \<Longrightarrow> y \<in> set xs \<Longrightarrow> g y \<le> g x"
proof -
  assume n: "newest g xs = Some x" and y: "y \<in> set xs"
  have "\<forall>y \<in> set ys. g y \<le> g (last ys)" if "sorted (map g ys)" for ys
    using that by (cases ys rule: rev_cases) (auto simp: sorted_append)
  from this [of "sort_key g xs"] n y show ?thesis by (auto simp: newest_def split: if_splits)
qed

text \<open>With keys that differ, the greatest one decides.\<close>

lemma newest_eq:
  assumes "x \<in> set xs" and "\<And>y. y \<in> set xs \<Longrightarrow> g y \<le> g x"
    and "\<And>y. y \<in> set xs \<Longrightarrow> g y = g x \<Longrightarrow> y = x"
  shows "newest g xs = Some x"
proof (cases "newest g xs")
  case None
  with assms(1) show ?thesis by simp
next
  case (Some y)
  note y = newest_in [OF Some]
  with newest_max [OF Some assms(1)] assms(2) have "g y = g x" by (simp add: order_antisym)
  with assms(3) y Some show ?thesis by simp
qed

lemma find_newest: "List.find (\<lambda>_. True) (rev (sort_key g xs)) = newest g xs"
proof -
  have "List.find (\<lambda>_. True) (rev ys) = (if ys = [] then None else Some (last ys))" for ys :: "'a list"
    by (cases ys rule: rev_cases) simp_all
  then show ?thesis by (simp add: newest_def)
qed

end
