(* ===== verification/Errors.thy ===== *)
theory Errors
  imports Prelude
begin

text \<open>
  The errors the program raises: \<open>core/error_codes.py\<close> (the codes the API can answer with)
  and the exception classes of \<open>core/exceptions.py\<close> with the HTTP status each one carries,
  and the handler that turns any exception into the one response shape.
\<close>

section \<open>Error codes (core/error_codes.py)\<close>

datatype (plugins only:) error_code =
      VALIDATION_ERROR
    | NOT_FOUND
    | PERMISSION_DENIED
    | AUTHENTICATION_FAILED
    | INTERNAL_ERROR
    | THROTTLED
    | SERVICE_UNAVAILABLE
    | CONSTRAINT_VIOLATION
    | API_VERSION_SUNSET
    | INVALID_TAX_NUMBER
    | INVALID_NATIONAL_ID
    | INVALID_PHONE
    | INVALID_POSTAL_CODE
    | END_DATE_BEFORE_START_DATE
    | INSTALLATION_DATE_IN_FUTURE
    | PLANNED_DATE_OUTSIDE_PERIOD
    | PLANNED_DATE_IN_PAST
    | RECORD_IN_USE
    | DUPLICATE_REGISTRATION_NUMBER
    | DUPLICATE_CONTRACT_NUMBER
    | DUPLICATE_TAX_NUMBER
    | DUPLICATE_NATIONAL_ID
    | EMAIL_ALREADY_REGISTERED
    | INVITATION_ALREADY_PENDING
    | IDEMPOTENCY_KEY_REUSED
    | IDEMPOTENCY_KEY_REQUIRED
    | IDEMPOTENCY_KEY_IN_FLIGHT
    | ELEVATOR_ALREADY_CONTRACTED
    | NO_ACTIVE_CONTRACT_FOR_ELEVATOR
    | CONTACT_NOT_OF_CUSTOMER
    | CONTACT_HAS_NO_EMAIL
    | PORTAL_ACCOUNT_ALREADY_ACTIVE
    | PORTAL_EMAIL_IN_USE
    | INVOICE_TRANSITION_NOT_ALLOWED
    | SIGNATURE_EXISTS
    | SIGNATURE_NOT_EXPECTED
    | SIGNATURE_CANNOT_BE_DELETED
    | INVOICE_LINES_NEED_PRICE
    | MONTHLY_REPORT_NEEDS_EMAIL
    | REPORT_NO_RECIPIENT
    | REPORT_FILE_CANNOT_BE_DELETED
    | CATEGORY_NOT_UPLOADABLE
    | DUPLICATE_INVOICE_NUMBER
    | FAULT_TRANSITION_NOT_ALLOWED
    | PLAN_ROW_CLOSED
    | NOTIFICATION_EMAIL_LOCKED
    | LAST_OWNER_CANNOT_BE_DEACTIVATED
    | ONLY_TECHNICIANS_ARE_ASSIGNED
    | TECHNICIAN_RECORDS_OWN_VISITS
    | CANNOT_DEACTIVATE_SELF
    | BUILDING_CUSTOMER_MISMATCH
    | TERMINATION_REASON_REQUIRED
    | FIELD_REQUIRED_FOR_CUSTOMER_TYPE
    | FIELD_NOT_VALID_FOR_CUSTOMER_TYPE
    | STATUS_NOT_USER_SELECTABLE
    | CURRENCY_MISMATCH
    | PERIOD_CLOSED
    | ALREADY_REVERSED
    | INVOICE_HAS_COLLECTIONS
    | OVERPAYMENT_ON_INVOICE
    | INVALID_CREDENTIALS
    | ACCOUNT_LOCKED
    | ACCOUNT_INACTIVE
    | TOKEN_INVALID
    | TOKEN_EXPIRED
    | EMAIL_NOT_VERIFIED
    | FILE_TOO_LARGE
    | UNSUPPORTED_MIME_TYPE
    | UPLOAD_NOT_COMPLETED
    | ATTACHMENT_TARGET_MISMATCH

section \<open>Exceptions (core/exceptions.py)\<close>

text \<open>
  The code of one refused field: one of the project's codes (\<open>field_error\<close>), one of
  DRF's plain strings (\<open>invalid\<close>, \<open>required\<close>, ...), or none. DRF nests them in
  dictionaries and lists.
\<close>

datatype detail_code = Coded error_code | Plain string

datatype error_detail =
    Leaf "detail_code option"
  | Detail_list "error_detail list"
  | Detail_dict "(string \<times> error_detail) list"

text \<open>Exceptions nobody answers for: each is a bug, and the client sees a 500.\<close>

datatype crash =
    Tenant_mismatch | Movement_immutable | Does_not_exist | Invalid_operation
  | Value_error | Overflow_error | Assertion_error | Key_error | Type_error | Runtime_error
  | Data_error

datatype exn =
    Validation_error error_detail
  | Business_rule_error error_code
  | Bad_request error_code
  | Conflict error_code
  | Record_in_use error_code
  | Duplicate_record error_code
  | Service_unavailable error_code
  | Drf_not_found
  | Drf_permission_denied
  | Drf_not_authenticated
  | Drf_authentication_failed
  | Drf_throttled
  | Tenant_isolation_error
  | Http404
  | Protected_error
  | Integrity_error
  | Django_permission_denied
  | Crash crash

type_synonym 'a result = "exn + 'a"

definition field_error :: "string \<Rightarrow> error_code \<Rightarrow> exn" where
  "field_error field code = Validation_error (Detail_dict [(field, Leaf (Some (Coded code)))])"

text \<open>\<open>ValidationError({field: ErrorDetail(reason, code=code)})\<close>; the reason is prose.\<close>

definition invalid_with :: "string \<Rightarrow> string \<Rightarrow> exn" where
  "invalid_with field code = Validation_error (Detail_dict [(field, Leaf (Some (Plain code)))])"

definition invalid :: "string \<Rightarrow> exn" where
  "invalid field = invalid_with field ''invalid''"

section \<open>The answer to an exception\<close>

record detail_entry =
  entry_code :: detail_code
  entry_field :: string

text \<open>
  \<open>_field_details\<close>: the nested structure, flattened to one entry per leaf with the
  dotted path of the fields above it (the empty path where there is none).
\<close>

definition sub_path :: "string \<Rightarrow> string \<Rightarrow> string" where
  "sub_path prefix field = (if prefix = [] then field else prefix @ ''.'' @ field)"

fun field_details :: "error_detail \<Rightarrow> string \<Rightarrow> detail_entry list"
  and field_details_list :: "error_detail list \<Rightarrow> string \<Rightarrow> detail_entry list"
  and field_details_dict :: "(string \<times> error_detail) list \<Rightarrow> string \<Rightarrow> detail_entry list" where
  "field_details (Detail_dict kvs) prefix = field_details_dict kvs prefix"
| "field_details (Detail_list ds) prefix = field_details_list ds prefix"
| "field_details (Leaf c) prefix =
     [\<lparr>entry_code = (case c of None \<Rightarrow> Coded VALIDATION_ERROR | Some code \<Rightarrow> code),
       entry_field = prefix\<rparr>]"
| "field_details_list [] prefix = []"
| "field_details_list (d # ds) prefix = field_details d prefix @ field_details_list ds prefix"
| "field_details_dict [] prefix = []"
| "field_details_dict ((field, d) # kvs) prefix =
     field_details d (sub_path prefix field) @ field_details_dict kvs prefix"

record response_body =
  status :: nat
  body_code :: error_code
  body_details :: "detail_entry list"

text \<open>
  The first step of \<open>exception_handler\<close>: Django's own exceptions become the API's
  (\<open>TenantIsolationError\<close> is an \<open>Http404\<close>).
\<close>

fun convert :: "exn \<Rightarrow> exn" where
  "convert Http404 = Drf_not_found"
| "convert Tenant_isolation_error = Drf_not_found"
| "convert Protected_error = Record_in_use RECORD_IN_USE"
| "convert Integrity_error = Conflict CONSTRAINT_VIOLATION"
| "convert Django_permission_denied = Drf_permission_denied"
| "convert e = e"

text \<open>
  The status DRF's own handler gives each API exception (\<open>status_code\<close> of the class),
  or \<open>None\<close> for anything that is not one.
\<close>

fun drf_status :: "exn \<Rightarrow> nat option" where
  "drf_status (Validation_error d) = Some 400"
| "drf_status (Business_rule_error c) = Some 422"
| "drf_status (Bad_request c) = Some 400"
| "drf_status (Conflict c) = Some 409"
| "drf_status (Record_in_use c) = Some 409"
| "drf_status (Duplicate_record c) = Some 409"
| "drf_status (Service_unavailable c) = Some 503"
| "drf_status Drf_not_found = Some 404"
| "drf_status Drf_permission_denied = Some 403"
| "drf_status Drf_not_authenticated = Some 401"
| "drf_status Drf_authentication_failed = Some 401"
| "drf_status Drf_throttled = Some 429"
| "drf_status Tenant_isolation_error = Some 404"
| "drf_status Http404 = Some 404"
| "drf_status Django_permission_denied = Some 403"
| "drf_status e = None"

text \<open>\<open>_map_code\<close>; the fallback of a project exception is its own (upper-case) code.\<close>

fun map_code :: "exn \<Rightarrow> error_code" where
  "map_code Drf_not_found = NOT_FOUND"
| "map_code Drf_permission_denied = PERMISSION_DENIED"
| "map_code Drf_not_authenticated = AUTHENTICATION_FAILED"
| "map_code Drf_authentication_failed = AUTHENTICATION_FAILED"
| "map_code Drf_throttled = THROTTLED"
| "map_code (Validation_error d) = VALIDATION_ERROR"
| "map_code (Business_rule_error c) = c"
| "map_code (Bad_request c) = c"
| "map_code (Conflict c) = c"
| "map_code (Record_in_use c) = c"
| "map_code (Duplicate_record c) = c"
| "map_code (Service_unavailable c) = c"
| "map_code e = INTERNAL_ERROR"

definition exception_handler :: "exn \<Rightarrow> response_body" where
  "exception_handler exc =
    (let exc = convert exc in
     case drf_status exc of
       None \<Rightarrow> \<lparr>status = 500, body_code = INTERNAL_ERROR, body_details = []\<rparr>
     | Some st \<Rightarrow>
         \<lparr>status = st, body_code = map_code exc,
          body_details = (case exc of Validation_error d \<Rightarrow> field_details d [] | _ \<Rightarrow> [])\<rparr>)"

section \<open>What a client can rely on\<close>

fun detail_leaves :: "error_detail \<Rightarrow> nat"
  and detail_leaves_list :: "error_detail list \<Rightarrow> nat"
  and detail_leaves_dict :: "(string \<times> error_detail) list \<Rightarrow> nat" where
  "detail_leaves (Detail_dict kvs) = detail_leaves_dict kvs"
| "detail_leaves (Detail_list ds) = detail_leaves_list ds"
| "detail_leaves (Leaf c) = 1"
| "detail_leaves_list [] = 0"
| "detail_leaves_list (d # ds) = detail_leaves d + detail_leaves_list ds"
| "detail_leaves_dict [] = 0"
| "detail_leaves_dict ((field, d) # kvs) = detail_leaves d + detail_leaves_dict kvs"

text \<open>No leaf is lost or repeated by the flattening.\<close>

lemma length_field_details:
  "length (field_details d p) = detail_leaves d"
  "length (field_details_list ds p) = detail_leaves_list ds"
  "length (field_details_dict kvs p) = detail_leaves_dict kvs"
  by (induction d p and ds p and kvs p rule: field_details_field_details_list_field_details_dict.induct)
    simp_all

text \<open>Every flattened path extends the path the flattening started from.\<close>

lemma field_details_path:
  "x \<in> set (field_details d p) \<Longrightarrow> \<exists>q. entry_field x = p @ q"
  "x \<in> set (field_details_list ds p) \<Longrightarrow> \<exists>q. entry_field x = p @ q"
  "x \<in> set (field_details_dict kvs p) \<Longrightarrow> \<exists>q. entry_field x = p @ q"
  by (induction d p and ds p and kvs p rule: field_details_field_details_list_field_details_dict.induct)
    (auto simp: sub_path_def split: if_splits)

lemma drf_status_convert_None: "drf_status (convert e) = None \<longleftrightarrow> (\<exists>c. e = Crash c)"
  by (cases e) simp_all

lemma handler_field_error [simp]:
  "exception_handler (field_error f c) =
    \<lparr>status = 400, body_code = VALIDATION_ERROR,
     body_details = [\<lparr>entry_code = Coded c, entry_field = f\<rparr>]\<rparr>"
  by (simp add: exception_handler_def field_error_def sub_path_def)

end
