(* ===== verification/Calendar.thy ===== *)
theory Calendar
  imports Prelude
begin

text \<open>
  Dates as the program uses them: Python's \<open>datetime.date\<close> (the proleptic Gregorian
  calendar, years 1 to 9999), its order, its ordinals and \<open>timedelta(days=n)\<close>, and
  \<open>core/dates.py\<close>, the whole-month stepping that contract terms and billing periods share.

  A \<open>date\<close> of the model is any triple; \<open>valid_date\<close> says which ones Python would build.
  Whatever Python refuses (a date that does not exist, a sum outside the supported years)
  is \<open>None\<close>.
\<close>

section \<open>Dates and their order\<close>

datatype date = Date (year: int) (month: int) (day: int)

instantiation date :: linorder
begin

definition less_eq_date :: "date \<Rightarrow> date \<Rightarrow> bool" where
  "less_eq_date a b \<longleftrightarrow>
    year a < year b \<or> year a = year b \<and>
      (month a < month b \<or> month a = month b \<and> day a \<le> day b)"

definition less_date :: "date \<Rightarrow> date \<Rightarrow> bool" where
  "less_date a b \<longleftrightarrow>
    year a < year b \<or> year a = year b \<and>
      (month a < month b \<or> month a = month b \<and> day a < day b)"

instance
proof
  fix a b c :: date
  show "a < b \<longleftrightarrow> a \<le> b \<and> \<not> b \<le> a"
    by (auto simp: less_eq_date_def less_date_def)
  show "a \<le> a" by (simp add: less_eq_date_def)
  show "a \<le> b \<Longrightarrow> b \<le> c \<Longrightarrow> a \<le> c"
    by (auto simp: less_eq_date_def)
  show "a \<le> b \<Longrightarrow> b \<le> a \<Longrightarrow> a = b"
    by (cases a; cases b) (auto simp: less_eq_date_def)
  show "a \<le> b \<or> b \<le> a"
    by (auto simp: less_eq_date_def)
qed

end

lemma date_le [simp]:
  "Date y m d \<le> Date y' m' d' \<longleftrightarrow> y < y' \<or> y = y' \<and> (m < m' \<or> m = m' \<and> d \<le> d')"
  by (simp add: less_eq_date_def)

lemma date_less [simp]:
  "Date y m d < Date y' m' d' \<longleftrightarrow> y < y' \<or> y = y' \<and> (m < m' \<or> m = m' \<and> d < d')"
  by (simp add: less_date_def)

section \<open>The Gregorian calendar (Python's datetime and calendar modules)\<close>

definition is_leap :: "int \<Rightarrow> bool" where
  "is_leap y \<longleftrightarrow> y mod 4 = 0 \<and> (y mod 100 \<noteq> 0 \<or> y mod 400 = 0)"

text \<open>\<open>calendar.monthrange(y, m)[1]\<close>\<close>

definition days_in_month :: "int \<Rightarrow> int \<Rightarrow> int" where
  "days_in_month y m =
    (if m = 2 then (if is_leap y then 29 else 28)
     else if m = 4 \<or> m = 6 \<or> m = 9 \<or> m = 11 then 30 else 31)"

definition valid_date :: "date \<Rightarrow> bool" where
  "valid_date d \<longleftrightarrow> 1 \<le> year d \<and> year d \<le> 9999 \<and> 1 \<le> month d \<and> month d \<le> 12 \<and>
    1 \<le> day d \<and> day d \<le> days_in_month (year d) (month d)"

text \<open>The constructor \<open>date(y, m, d)\<close>: \<open>None\<close> is the \<open>ValueError\<close>.\<close>

definition mk_date :: "int \<Rightarrow> int \<Rightarrow> int \<Rightarrow> date option" where
  "mk_date y m d = (if valid_date (Date y m d) then Some (Date y m d) else None)"

definition days_before_year :: "int \<Rightarrow> int" where
  "days_before_year y = 365 * (y - 1) + (y - 1) div 4 - (y - 1) div 100 + (y - 1) div 400"

definition days_before_month :: "int \<Rightarrow> int \<Rightarrow> int" where
  "days_before_month y m =
    (let l = (if is_leap y then 1 else 0)
     in if m \<le> 1 then 0 else if m = 2 then 31 else if m = 3 then 59 + l
        else if m = 4 then 90 + l else if m = 5 then 120 + l else if m = 6 then 151 + l
        else if m = 7 then 181 + l else if m = 8 then 212 + l else if m = 9 then 243 + l
        else if m = 10 then 273 + l else if m = 11 then 304 + l else if m = 12 then 334 + l
        else 365 + l)"

text \<open>\<open>date.toordinal()\<close>: 1 January of year 1 is day 1.\<close>

definition ordinal :: "date \<Rightarrow> int" where
  "ordinal d = days_before_year (year d) + days_before_month (year d) (month d) + day d"

definition year_of_ordinal :: "int \<Rightarrow> int" where
  "year_of_ordinal n =
    (let y = (n * 400) div 146097 + 1
     in if n \<le> days_before_year y then y - 1
        else if days_before_year (y + 1) < n then y + 1 else y)"

definition month_of_day :: "int \<Rightarrow> int \<Rightarrow> int" where
  "month_of_day y r = int (length (filter (\<lambda>m. days_before_month y m < r) [1, 2, 3, 4, 5, 6, 7, 8, 9, 10, 11, 12]))"

text \<open>\<open>date.fromordinal(n)\<close>\<close>

definition of_ordinal :: "int \<Rightarrow> date" where
  "of_ordinal n =
    (let y = year_of_ordinal n; r = n - days_before_year y; m = month_of_day y r
     in Date y m (r - days_before_month y m))"

definition max_ordinal :: int where
  "max_ordinal = 3652059"

text \<open>\<open>day + timedelta(days=n)\<close>: \<open>None\<close> is the \<open>OverflowError\<close>.\<close>

definition add_days :: "date \<Rightarrow> int \<Rightarrow> date option" where
  "add_days d n =
    (let k = ordinal d + n in if 1 \<le> k \<and> k \<le> max_ordinal then Some (of_ordinal k) else None)"

text \<open>\<open>(a - b).days\<close>\<close>

definition days_between :: "date \<Rightarrow> date \<Rightarrow> int" where
  "days_between a b = ordinal a - ordinal b"

definition date_max :: date where
  "date_max = Date 9999 12 31"

section \<open>Ordinals\<close>

lemma div_pred:
  fixes c y :: int
  assumes "0 < c"
  shows "y div c = (y - 1) div c + (if y mod c = 0 then 1 else 0)"
proof (cases "y mod c = 0")
  case True
  then have "y - 1 = c * (y div c - 1) + (c - 1)"
    using div_mult_mod_eq [of y c] by (simp add: algebra_simps)
  then have "(y - 1) div c = y div c - 1"
    by (rule int_div_pos_eq) (use assms in auto)
  with True show ?thesis by simp
next
  case False
  have "y - 1 = c * (y div c) + (y mod c - 1)"
    using div_mult_mod_eq [of y c] by (simp add: algebra_simps)
  moreover have "0 \<le> y mod c - 1" "y mod c - 1 < c"
    using False pos_mod_sign [OF assms, of y] pos_mod_bound [OF assms, of y] by linarith+
  ultimately have "(y - 1) div c = y div c"
    by (intro int_div_pos_eq) auto
  with False show ?thesis by simp
qed

lemma div_bounds:
  fixes c z :: int
  shows "0 < c \<Longrightarrow> c * (z div c) \<le> z" and "0 < c \<Longrightarrow> z < c * (z div c) + c"
  using mult_div_mod_eq [of c z] pos_mod_sign [of c z] pos_mod_bound [of c z] by linarith+

lemma div_step:
  fixes y :: int
  shows "y div 4 = (y - 1) div 4 + (if y mod 4 = 0 then 1 else 0)"
    and "y div 100 = (y - 1) div 100 + (if y mod 100 = 0 then 1 else 0)"
    and "y div 400 = (y - 1) div 400 + (if y mod 400 = 0 then 1 else 0)"
  by (rule div_pred, simp)+

lemma mod_chain:
  fixes y :: int
  shows "y mod 400 = 0 \<Longrightarrow> y mod 100 = 0" "y mod 100 = 0 \<Longrightarrow> y mod 4 = 0"
  by (auto simp: mod_eq_0_iff_dvd elim!: dvd_trans [rotated])

lemma days_before_year_Suc:
  "days_before_year (y + 1) = days_before_year y + (if is_leap y then 366 else 365)"
proof -
  have "days_before_year (y + 1) - days_before_year y =
    365 + (y div 4 - (y - 1) div 4) - (y div 100 - (y - 1) div 100)
      + (y div 400 - (y - 1) div 400)"
    by (simp add: days_before_year_def)
  also have "\<dots> = 365 + (if y mod 4 = 0 then 1 else 0) - (if y mod 100 = 0 then 1 else 0)
      + (if y mod 400 = 0 then 1 else 0)"
    by (simp only: div_step [of y] add_diff_cancel_left')
  also have "\<dots> = (if is_leap y then 366 else 365)"
    unfolding is_leap_def using mod_chain [of y]
    by (cases "y mod 4 = 0"; cases "y mod 100 = 0"; cases "y mod 400 = 0") (simp_all only: if_True if_False, simp_all)
  finally show ?thesis by simp
qed

lemma days_before_year_mono_step:
  "y < z \<Longrightarrow> days_before_year y + (if is_leap y then 366 else 365) \<le> days_before_year z"
proof (induction "nat (z - y)" arbitrary: z)
  case 0
  then show ?case by simp
next
  case (Suc n)
  show ?case
  proof (cases "z = y + 1")
    case True
    then show ?thesis by (simp add: days_before_year_Suc)
  next
    case False
    with Suc.prems Suc.hyps(2) have "y < z - 1" "n = nat (z - 1 - y)" by auto
    from Suc.hyps(1) [OF this(2,1)] days_before_year_Suc [of "z - 1"]
    show ?thesis by (auto split: if_splits)
  qed
qed

lemma month_cases:
  assumes "1 \<le> (m::int)" "m \<le> 12"
  obtains "m = 1" | "m = 2" | "m = 3" | "m = 4" | "m = 5" | "m = 6"
    | "m = 7" | "m = 8" | "m = 9" | "m = 10" | "m = 11" | "m = 12"
proof -
  have "m = 1 \<or> m = 2 \<or> m = 3 \<or> m = 4 \<or> m = 5 \<or> m = 6
    \<or> m = 7 \<or> m = 8 \<or> m = 9 \<or> m = 10 \<or> m = 11 \<or> m = 12"
    using assms by presburger
  then show thesis using that by blast
qed

lemma days_in_month_ge: "28 \<le> days_in_month y m"
  by (simp add: days_in_month_def)

lemma days_in_month_le: "days_in_month y m \<le> 31"
  by (simp add: days_in_month_def)

lemma days_before_month_Suc:
  "1 \<le> m \<Longrightarrow> m \<le> 12 \<Longrightarrow> days_before_month y (m + 1) = days_before_month y m + days_in_month y m"
  by (erule (1) month_cases) (simp_all add: days_before_month_def days_in_month_def)

lemma days_before_month_mono:
  assumes "1 \<le> m" "m < n" "n \<le> 13"
  shows "days_before_month y m + days_in_month y m \<le> days_before_month y n"
  using assms
proof (induction "nat (n - m)" arbitrary: n)
  case 0
  then show ?case by simp
next
  case (Suc k)
  show ?case
  proof (cases "n = m + 1")
    case True
    with Suc.prems show ?thesis by (simp add: days_before_month_Suc)
  next
    case False
    with Suc.prems Suc.hyps(2) have *: "k = nat (n - 1 - m)" "m < n - 1" "n - 1 \<le> 13" by auto
    from Suc.hyps(1) [OF *(1) Suc.prems(1) *(2,3)]
      days_before_month_Suc [of "n - 1" y] days_in_month_ge [of y "n - 1"] Suc.prems
    show ?thesis by simp
  qed
qed

lemma days_before_month_13: "days_before_month y 13 = (if is_leap y then 366 else 365)"
  by (simp add: days_before_month_def)

lemma day_of_year_bound:
  assumes "valid_date d"
  shows "1 \<le> days_before_month (year d) (month d) + day d"
    and "days_before_month (year d) (month d) + day d \<le> (if is_leap (year d) then 366 else 365)"
proof -
  from assms have d: "1 \<le> month d" "month d \<le> 12" "1 \<le> day d"
    "day d \<le> days_in_month (year d) (month d)"
    by (auto simp: valid_date_def)
  have "0 \<le> days_before_month (year d) (month d)"
    by (simp add: days_before_month_def Let_def)
  with d(3) show "1 \<le> days_before_month (year d) (month d) + day d" by simp
  from days_before_month_mono [of "month d" 13 "year d"] d
  show "days_before_month (year d) (month d) + day d \<le> (if is_leap (year d) then 366 else 365)"
    by (simp add: days_before_month_13)
qed

lemma ordinal_less:
  assumes "valid_date a" "valid_date b" "a < b"
  shows "ordinal a < ordinal b"
proof -
  note va = day_of_year_bound [OF assms(1)] and vb = day_of_year_bound [OF assms(2)]
  from assms(3) consider "year a < year b"
    | "year a = year b" "month a < month b" | "year a = year b" "month a = month b" "day a < day b"
    by (cases a; cases b) auto
  then show ?thesis
  proof cases
    case 1
    from days_before_year_mono_step [OF this] va vb show ?thesis
      by (simp add: ordinal_def)
  next
    case 2
    with assms(1,2) days_before_month_mono [of "month a" "month b" "year b"]
    show ?thesis by (simp add: ordinal_def valid_date_def)
  next
    case 3
    then show ?thesis by (simp add: ordinal_def)
  qed
qed

lemma ordinal_le_iff:
  "valid_date a \<Longrightarrow> valid_date b \<Longrightarrow> ordinal a \<le> ordinal b \<longleftrightarrow> a \<le> b"
  using ordinal_less [of a b] ordinal_less [of b a]
  by (cases a b rule: linorder_cases) auto

lemma ordinal_less_iff:
  "valid_date a \<Longrightarrow> valid_date b \<Longrightarrow> ordinal a < ordinal b \<longleftrightarrow> a < b"
  using ordinal_le_iff [of b a] by (auto simp: not_le [symmetric])

lemma ordinal_eq_iff:
  "valid_date a \<Longrightarrow> valid_date b \<Longrightarrow> ordinal a = ordinal b \<longleftrightarrow> a = b"
  using ordinal_le_iff [of a b] ordinal_le_iff [of b a] by (auto simp: order.antisym)

lemma year_of_ordinal_bounds:
  "days_before_year (year_of_ordinal n) < n \<and> n \<le> days_before_year (year_of_ordinal n + 1)"
proof -
  define y where "y = (n * 400) div 146097 + 1"
  define k where "k = y - 1"
  have k: "146097 * k \<le> n * 400" "n * 400 < 146097 * (k + 1)"
    using div_mult_mod_eq [of "n * 400" 146097] pos_mod_sign [of 146097 "n * 400"]
      pos_mod_bound [of 146097 "n * 400"]
    by (simp_all add: k_def y_def)
  have dby: "days_before_year y = 365 * k + k div 4 - k div 100 + k div 400"
    by (simp add: days_before_year_def k_def)
  have lo: "days_before_year (y - 1) < n"
  proof -
    have "days_before_year (y - 1) = 365 * (k - 1) + (k - 1) div 4 - (k - 1) div 100 + (k - 1) div 400"
      by (simp add: days_before_year_def k_def algebra_simps)
    with k div_bounds [of 4 "k - 1"] div_bounds [of 100 "k - 1"] div_bounds [of 400 "k - 1"]
    show ?thesis by simp
  qed
  have hi: "n \<le> days_before_year (y + 2)"
  proof -
    have "days_before_year (y + 2) = 365 * (k + 2) + (k + 2) div 4 - (k + 2) div 100 + (k + 2) div 400"
      by (simp add: days_before_year_def k_def algebra_simps)
    with k div_bounds [of 4 "k + 2"] div_bounds [of 100 "k + 2"] div_bounds [of 400 "k + 2"]
    show ?thesis by simp
  qed
  show ?thesis
    using lo hi unfolding year_of_ordinal_def Let_def y_def [symmetric]
    by (auto simp: add.commute)
qed

lemma month_of_day_props:
  assumes "1 \<le> r" "r \<le> (if is_leap y then 366 else 365)"
  shows "1 \<le> month_of_day y r" "month_of_day y r \<le> 12"
    "days_before_month y (month_of_day y r) < r"
    "r \<le> days_before_month y (month_of_day y r) + days_in_month y (month_of_day y r)"
proof -
  define l where "l = (if is_leap y then 1 else (0::int))"
  have l: "0 \<le> l" "l \<le> 1" "r \<le> 365 + l" using assms(2) by (auto simp: l_def split: if_splits)
  have "r \<le> 31 \<or> 31 < r \<and> r \<le> 59 + l \<or> 59 + l < r \<and> r \<le> 90 + l
    \<or> 90 + l < r \<and> r \<le> 120 + l \<or> 120 + l < r \<and> r \<le> 151 + l \<or> 151 + l < r \<and> r \<le> 181 + l
    \<or> 181 + l < r \<and> r \<le> 212 + l \<or> 212 + l < r \<and> r \<le> 243 + l \<or> 243 + l < r \<and> r \<le> 273 + l
    \<or> 273 + l < r \<and> r \<le> 304 + l \<or> 304 + l < r \<and> r \<le> 334 + l \<or> 334 + l < r"
    by linarith
  moreover have "days_in_month y 2 = 28 + l"
    by (simp add: days_in_month_def l_def)
  ultimately have "1 \<le> month_of_day y r \<and> month_of_day y r \<le> 12 \<and>
    days_before_month y (month_of_day y r) < r \<and>
    r \<le> days_before_month y (month_of_day y r) + days_in_month y (month_of_day y r)"
    using assms(1) l
    by (elim disjE; simp add: month_of_day_def days_before_month_def l_def [symmetric] Let_def;
        simp add: days_in_month_def)
  then show "1 \<le> month_of_day y r" "month_of_day y r \<le> 12"
    "days_before_month y (month_of_day y r) < r"
    "r \<le> days_before_month y (month_of_day y r) + days_in_month y (month_of_day y r)"
    by blast+
qed

lemma ordinal_of_ordinal [simp]: "ordinal (of_ordinal n) = n"
  by (simp add: ordinal_def of_ordinal_def Let_def)

lemma valid_of_ordinal:
  assumes "1 \<le> n" "n \<le> max_ordinal"
  shows "valid_date (of_ordinal n)"
proof -
  define y where "y = year_of_ordinal n"
  from year_of_ordinal_bounds [of n] have b: "days_before_year y < n" "n \<le> days_before_year (y + 1)"
    by (simp_all add: y_def)
  have "1 \<le> n - days_before_year y" "n - days_before_year y \<le> (if is_leap y then 366 else 365)"
    using b days_before_year_Suc [of y] by auto
  note m = month_of_day_props [OF this]
  have "1 \<le> y"
  proof (rule ccontr)
    assume "\<not> 1 \<le> y"
    then have "days_before_year (y + 1) \<le> days_before_year 1"
      using days_before_year_mono_step [of "y + 1" 1] by (cases "y + 1 = 1") (auto split: if_splits)
    with b(2) assms(1) show False by (simp add: days_before_year_def)
  qed
  moreover have "y \<le> 9999"
  proof (rule ccontr)
    assume "\<not> y \<le> 9999"
    then have "days_before_year 10000 \<le> days_before_year y"
      using days_before_year_mono_step [of 10000 y] by (cases "y = 10000") (auto split: if_splits)
    with b(1) assms(2) show False by (simp add: days_before_year_def max_ordinal_def)
  qed
  ultimately show ?thesis
    using m by (simp add: valid_date_def of_ordinal_def Let_def y_def [symmetric])
qed

lemma ordinal_bounds:
  assumes "valid_date d" shows "1 \<le> ordinal d" "ordinal d \<le> max_ordinal"
proof -
  have v: "valid_date (Date 1 1 1)" "valid_date date_max"
    by (simp_all add: valid_date_def days_in_month_def date_max_def)
  have "Date 1 1 1 \<le> d" "d \<le> date_max"
    using assms days_in_month_le [of "year d" "month d"]
    by (cases d; auto simp: valid_date_def date_max_def)+
  then have "ordinal (Date 1 1 1) \<le> ordinal d" "ordinal d \<le> ordinal date_max"
    using v assms by (simp_all add: ordinal_le_iff)
  then show "1 \<le> ordinal d" "ordinal d \<le> max_ordinal"
    by (simp_all add: ordinal_def days_before_year_def days_before_month_def date_max_def
        max_ordinal_def is_leap_def)
qed

text \<open>Round trip: a date is determined by its ordinal.\<close>

lemma of_ordinal_ordinal: "valid_date d \<Longrightarrow> of_ordinal (ordinal d) = d"
  using ordinal_eq_iff [of "of_ordinal (ordinal d)" d] valid_of_ordinal ordinal_bounds
  by simp

lemma add_days_Some:
  assumes "add_days d n = Some e"
  shows "ordinal e = ordinal d + n" and "valid_date e"
  using assms valid_of_ordinal by (auto simp: add_days_def Let_def split: if_splits)

lemma add_days_defined:
  "1 \<le> ordinal d + n \<Longrightarrow> ordinal d + n \<le> max_ordinal \<Longrightarrow> \<exists>e. add_days d n = Some e"
  by (simp add: add_days_def)

lemma mk_date_Some: "mk_date y m d = Some e \<longleftrightarrow> valid_date (Date y m d) \<and> e = Date y m d"
  by (auto simp: mk_date_def)

end
