(* ===== verification/Tenancy.thy ===== *)
theory Tenancy
  imports Errors Calendar
begin

text \<open>
  The tenant boundary and the rows every table is made of: \<open>core/context.py\<close>
  (which company the work runs for), \<open>core/managers.py\<close> (what a query may see) and the
  base classes of \<open>core/models.py\<close> (soft delete, and the guard on every save).
\<close>

section \<open>The tenant context (core/context.py)\<close>

type_synonym pk = nat
type_synonym instant = int

text \<open>
  The two context variables: the company bound for the work, and the system mode, which
  is kept apart from "no company" on purpose.
\<close>

record tenant_ctx =
  current_company :: "pk option"
  system_mode :: bool

definition no_context :: tenant_ctx where
  "no_context = \<lparr>current_company = None, system_mode = False\<rparr>"

definition company_context :: "pk option \<Rightarrow> tenant_ctx \<Rightarrow> tenant_ctx" where
  "company_context c ctx = ctx\<lparr>current_company := c\<rparr>"

definition system_context :: "tenant_ctx \<Rightarrow> tenant_ctx" where
  "system_context ctx = ctx\<lparr>current_company := None, system_mode := True\<rparr>"

definition require_current_company_id :: "tenant_ctx \<Rightarrow> pk result" where
  "require_current_company_id ctx =
    (case current_company ctx of None \<Rightarrow> Inl (Crash Runtime_error) | Some c \<Rightarrow> Inr c)"

section \<open>Rows (core/models.py)\<close>

text \<open>
  The columns of \<open>UUIDPrimaryKeyModel\<close>, \<open>TimeStampedModel\<close>, \<open>SoftDeleteModel\<close> and
  \<open>CompanyOwnedModel\<close>. A primary key is a UUIDv7: unique and increasing in time, which a
  counter is.
\<close>

record row =
  pk :: pk
  company_id :: pk
  created_at :: instant
  updated_at :: instant
  created_by :: "pk option"
  updated_by :: "pk option"
  is_deleted :: bool
  deleted_at :: "instant option"

text \<open>
  What surrounds an operation: the tenant context, the clock (one reading per operation),
  the date of that reading in Istanbul (\<open>local_today()\<close>, core/scheduling.py) and in UTC, the
  server's own time zone (\<open>date.today()\<close>, config/settings/base.py).
\<close>

record env =
  ctx :: tenant_ctx
  now :: instant
  today :: date
  utc_today :: date

section \<open>What a query sees (core/managers.py)\<close>

definition alive :: "'a row_scheme list \<Rightarrow> 'a row_scheme list" where
  "alive rows = filter (\<lambda>r. \<not> is_deleted r) rows"

text \<open>
  \<open>TenantManager.get_queryset\<close>, for one row: soft-deleted rows are hidden; the system
  context sees every company, no context sees nothing, a company its own rows.
\<close>

definition visible :: "tenant_ctx \<Rightarrow> 'a row_scheme \<Rightarrow> bool" where
  "visible c r \<longleftrightarrow> \<not> is_deleted r \<and>
    (if system_mode c then True
     else case current_company c of None \<Rightarrow> False | Some co \<Rightarrow> company_id r = co)"

definition objects :: "tenant_ctx \<Rightarrow> 'a row_scheme list \<Rightarrow> 'a row_scheme list" where
  "objects c rows = filter (visible c) rows"

text \<open>\<open>.get(pk=k)\<close> and \<open>.filter(pk=k).first()\<close>\<close>

definition by_pk :: "pk \<Rightarrow> 'a row_scheme list \<Rightarrow> 'a row_scheme option" where
  "by_pk k rows = List.find (\<lambda>r. pk r = k) rows"

definition get_row :: "pk \<Rightarrow> 'a row_scheme list \<Rightarrow> 'a row_scheme result" where
  "get_row k rows = the_res (by_pk k rows) (Crash Does_not_exist)"

section \<open>The guard on every save (CompanyOwnedModel.save)\<close>

definition may_save :: "tenant_ctx \<Rightarrow> 'a row_scheme \<Rightarrow> bool" where
  "may_save c r \<longleftrightarrow>
    system_mode c \<or> (case current_company c of None \<Rightarrow> True | Some co \<Rightarrow> company_id r = co)"

definition guard_save :: "tenant_ctx \<Rightarrow> 'a row_scheme \<Rightarrow> unit result" where
  "guard_save c r = require (may_save c r) (Crash Tenant_mismatch)"

text \<open>Saving an existing row: the guard, then the row of the same key is replaced.\<close>

definition save_row ::
  "env \<Rightarrow> 'a row_scheme \<Rightarrow> 'a row_scheme list \<Rightarrow> 'a row_scheme list result" where
  "save_row e r rows =
    bind_res (guard_save (ctx e) r) (\<lambda>_.
      Inr (update_where (\<lambda>x. pk x = pk r) (\<lambda>_. r\<lparr>updated_at := now e\<rparr>) rows))"

text \<open>\<open>SoftDeleteModel.delete\<close>\<close>

definition soft_delete :: "env \<Rightarrow> 'a row_scheme \<Rightarrow> 'a row_scheme" where
  "soft_delete e r = r\<lparr>is_deleted := True, deleted_at := Some (now e), updated_at := now e\<rparr>"

text \<open>\<open>SoftDeleteQuerySet.delete\<close>: a bulk delete marks the rows too, and counts them.\<close>

definition queryset_delete ::
  "env \<Rightarrow> ('a row_scheme \<Rightarrow> bool) \<Rightarrow> 'a row_scheme list \<Rightarrow> 'a row_scheme list \<times> nat" where
  "queryset_delete e P rows =
    (update_where P (\<lambda>r. r\<lparr>is_deleted := True, deleted_at := Some (now e)\<rparr>) rows,
     length (filter P rows))"

section \<open>Laws of the boundary\<close>

lemma set_objects: "set (objects c rows) = {r \<in> set rows. visible c r}"
  by (simp add: objects_def)

lemma objects_Nil [simp]: "objects c [] = []"
  by (simp add: objects_def)

lemma objects_append [simp]: "objects c (xs @ ys) = objects c xs @ objects c ys"
  by (simp add: objects_def)

lemma objects_Cons [simp]:
  "objects c (r # rows) = (if visible c r then r # objects c rows else objects c rows)"
  by (simp add: objects_def)

lemma visible_company:
  "visible c r \<Longrightarrow> \<not> system_mode c \<Longrightarrow> current_company c = Some (company_id r)"
  by (auto simp: visible_def split: option.splits)

lemma visible_may_save: "visible c r \<Longrightarrow> may_save c r"
  by (auto simp: visible_def may_save_def split: option.splits if_splits)

lemma visible_not_deleted: "visible c r \<Longrightarrow> \<not> is_deleted r"
  by (simp add: visible_def)

lemma by_pk_SomeD: "by_pk k rows = Some r \<Longrightarrow> r \<in> set rows \<and> pk r = k"
  unfolding by_pk_def by (rule find_Some_iff)

lemma by_pk_None: "by_pk k rows = None \<longleftrightarrow> (\<forall>r \<in> set rows. pk r \<noteq> k)"
  by (simp add: by_pk_def find_None_iff')

lemma by_pk_unique:
  "distinct (map pk rows) \<Longrightarrow> r \<in> set rows \<Longrightarrow> by_pk (pk r) rows = Some r"
  by (induction rows) (auto simp: by_pk_def)

lemma get_row_Inr_iff [res_simps]: "get_row k rows = Inr r \<longleftrightarrow> by_pk k rows = Some r"
  by (simp add: get_row_def the_res_Inr_iff)

lemma guard_save_Inr_iff [res_simps]: "guard_save c r = Inr u \<longleftrightarrow> may_save c r"
  by (simp add: guard_save_def require_Inr_iff)

lemma map_pk_save:
  "pk r = k \<Longrightarrow> map pk (update_where (\<lambda>x. pk x = k) (\<lambda>_. r) rows) = map pk rows"
  by (rule map_update_where_same) simp

text \<open>With no company in context a query returns nothing at all, and the guard lets go.\<close>

lemma no_context_sees_nothing: "objects no_context rows = []"
  by (induction rows) (simp_all add: visible_def no_context_def)

end
