(* ===== verification/Decimals.thy ===== *)
theory Decimals
  imports Errors
begin

text \<open>
  Python's \<open>decimal.Decimal\<close> in the default context, as far as the program uses it, and
  \<open>apps/billing/money.py\<close>. A finite decimal is the rational it denotes. Multiplication
  and division round to 28 significant digits, half to even (the context); \<open>quantize\<close>
  rounds to a fixed number of places and raises \<open>InvalidOperation\<close> when the result would
  need more than 28 digits. Addition and subtraction are exact here: amounts live in
  \<open>numeric(14, 2)\<close> columns, so no sum of them comes near 28 digits.
\<close>

section \<open>Rounding\<close>

definition round_even :: "rat \<Rightarrow> int" where
  "round_even x =
    (let f = \<lfloor>x\<rfloor>; r = x - of_int f
     in if r < 1/2 then f else if 1/2 < r then f + 1 else if even f then f else f + 1)"

definition round_up :: "rat \<Rightarrow> int" where
  "round_up x = (if 0 \<le> x then \<lfloor>x + 1/2\<rfloor> else - \<lfloor>- x + 1/2\<rfloor>)"

text \<open>The number of decimal digits of a natural number (0 has none).\<close>

fun digit_count :: "nat \<Rightarrow> nat" where
  "digit_count n = (if n = 0 then 0 else Suc (digit_count (n div 10)))"

declare digit_count.simps [simp del]

definition ten_to :: "int \<Rightarrow> rat" where
  "ten_to k = (if 0 \<le> k then 10 ^ nat k else 1 / 10 ^ nat (- k))"

text \<open>The least \<open>k\<close> with \<open>|x| < 10^k\<close>, from the digits of numerator and denominator.\<close>

definition magnitude :: "rat \<Rightarrow> int" where
  "magnitude x =
    (let pq = quotient_of x;
         k = int (digit_count (nat \<bar>fst pq\<bar>)) - int (digit_count (nat (snd pq)))
     in if \<bar>x\<bar> < ten_to k then k else k + 1)"

text \<open>The same on integers kept in binary, for evaluation.\<close>

fun int_digits :: "int \<Rightarrow> int" where
  "int_digits n = (if n \<le> 0 then 0 else 1 + int_digits (n div 10))"

declare int_digits.simps [simp del]

lemma int_digits_eq: "int (digit_count n) = int_digits (int n)"
proof (induction n rule: digit_count.induct)
  case (1 n)
  show ?case
  proof (cases "n = 0")
    case True
    then show ?thesis by (simp add: digit_count.simps [of 0] int_digits.simps [of 0])
  next
    case False
    with 1 show ?thesis
      by (simp add: digit_count.simps [of n] int_digits.simps [of "int n"] zdiv_int)
  qed
qed

lemma magnitude_code [code]:
  "magnitude x =
    (let pq = quotient_of x; k = int_digits \<bar>fst pq\<bar> - int_digits (snd pq)
     in if \<bar>x\<bar> < ten_to k then k else k + 1)"
  by (simp add: magnitude_def int_digits_eq quotient_of_denom_pos' less_imp_le)

lemma ten_to_code [code]:
  "ten_to k = (if 0 \<le> k then of_int (10 ^ nat k) else 1 / of_int (10 ^ nat (- k)))"
  by (simp add: ten_to_def)

text \<open>The context: 28 significant digits, half to even.\<close>

definition ctx28 :: "rat \<Rightarrow> rat" where
  "ctx28 x =
    (if x = 0 then 0
     else let s = ten_to (28 - magnitude x) in of_int (round_even (x * s)) / s)"

definition d_mul :: "rat \<Rightarrow> rat \<Rightarrow> rat" where
  "d_mul a b = ctx28 (a * b)"

definition d_div :: "rat \<Rightarrow> rat \<Rightarrow> rat" where
  "d_div a b = ctx28 (a / b)"

text \<open>\<open>value.quantize(10^-places, rounding=...)\<close>\<close>

definition quantize :: "(rat \<Rightarrow> int) \<Rightarrow> nat \<Rightarrow> rat \<Rightarrow> rat result" where
  "quantize rnd places x =
    (let c = rnd (x * 10 ^ places)
     in if \<bar>c\<bar> < 10 ^ 28 then Inr (of_int c / 10 ^ places) else Inl (Crash Invalid_operation))"

text \<open>A decimal as a caller may pass it: NaN and the infinities are decimals too.\<close>

datatype decimal = Finite rat | Infinite | NaN

section \<open>Facts about the roundings\<close>

lemma floor_rat: "of_int \<lfloor>x\<rfloor> \<le> (x::rat)" "x < of_int \<lfloor>x\<rfloor> + 1"
  using floor_correct [of x] by simp_all

lemma round_even_error: "\<bar>of_int (round_even x) - x\<bar> \<le> 1 / 2"
proof -
  define f where "f = \<lfloor>x\<rfloor>"
  have "of_int f \<le> x" "x < of_int f + 1" by (simp_all add: f_def floor_rat)
  then show ?thesis
    unfolding round_even_def Let_def f_def [symmetric] by (auto simp: abs_le_iff)
qed

lemma round_even_of_int [simp]: "round_even (of_int i) = i"
  by (simp add: round_even_def)

lemma round_up_of_int [simp]: "round_up (of_int i) = i"
proof -
  have "\<lfloor>of_int i + (1/2 :: rat)\<rfloor> = i" "\<lfloor>- of_int i + (1/2 :: rat)\<rfloor> = - i"
    by (simp_all add: floor_eq_iff)
  then show ?thesis by (simp add: round_up_def)
qed

lemma round_up_error: "\<bar>of_int (round_up x) - x\<bar> \<le> 1 / 2"
proof (cases "0 \<le> x")
  case True
  from floor_rat [of "x + 1/2"] True show ?thesis
    unfolding round_up_def abs_le_iff by (simp only: if_True, intro conjI; linarith)
next
  case False
  from floor_rat [of "- x + 1/2"] False show ?thesis
    unfolding round_up_def abs_le_iff by (simp only: if_False of_int_minus, intro conjI; linarith)
qed

lemma round_up_minus: "round_up (- x) = - round_up x"
proof -
  have "\<lfloor>(1/2 :: rat)\<rfloor> = 0" by (simp add: floor_eq_iff)
  then show ?thesis by (cases "x = 0") (auto simp: round_up_def)
qed

lemma round_up_mono_nonneg: "0 \<le> x \<Longrightarrow> x \<le> y \<Longrightarrow> round_up x \<le> round_up y"
  by (auto simp: round_up_def intro!: floor_mono)

lemma round_up_nonneg: "0 \<le> x \<Longrightarrow> 0 \<le> round_up x"
  by (simp add: round_up_def)

lemma ten_to_pos [simp]: "0 < ten_to k"
  by (simp add: ten_to_def)

lemma ten_to_nonzero [simp]: "ten_to k \<noteq> 0"
  using ten_to_pos [of k] by linarith

lemma ten_to_Suc: "ten_to (k + 1) = 10 * ten_to k"
proof (cases "0 \<le> k")
  case True
  then have "nat (k + 1) = Suc (nat k)" by simp
  with True show ?thesis by (simp add: ten_to_def)
next
  case False
  show ?thesis
  proof (cases "k = -1")
    case True then show ?thesis by (simp add: ten_to_def)
  next
    case neq: False
    with False have "nat (- k) = Suc (nat (- (k + 1)))" by simp
    with False neq show ?thesis by (simp add: ten_to_def)
  qed
qed

lemma ten_to_add_nat: "ten_to (k + int n) = ten_to k * 10 ^ n"
proof (induction n)
  case 0
  show ?case by simp
next
  case (Suc n)
  have "ten_to (k + int (Suc n)) = ten_to ((k + int n) + 1)" by (simp add: ac_simps)
  also have "\<dots> = 10 * ten_to (k + int n)" by (rule ten_to_Suc)
  finally show ?case using Suc.IH by simp
qed

lemma ten_to_mono: "a \<le> b \<Longrightarrow> ten_to a \<le> ten_to b"
proof -
  assume "a \<le> b"
  then have "ten_to b = ten_to a * 10 ^ nat (b - a)"
    using ten_to_add_nat [of a "nat (b - a)"] by simp
  then show ?thesis by (simp add: mult_left_le_one_le)
qed

lemma ten_to_nat: "0 \<le> k \<Longrightarrow> ten_to k = 10 ^ nat k"
  by (simp add: ten_to_def)

lemma digit_count_bounds:
  "n < 10 ^ digit_count n \<and> (0 < n \<longrightarrow> 10 ^ digit_count n \<le> 10 * n)"
proof (induction n rule: digit_count.induct)
  case (1 n)
  show ?case
  proof (cases "n = 0")
    case True
    then show ?thesis by (simp add: digit_count.simps)
  next
    case False
    then have dc: "digit_count n = Suc (digit_count (n div 10))"
      by (simp add: digit_count.simps [of n])
    from 1 [OF False] have a: "n div 10 < 10 ^ digit_count (n div 10)" by simp
    have "10 ^ digit_count (n div 10) \<le> n"
    proof (cases "n div 10 = 0")
      case True
      with False show ?thesis by (simp add: digit_count.simps)
    next
      case nz: False
      with 1 [OF False] have "10 ^ digit_count (n div 10) \<le> 10 * (n div 10)" by simp
      also have "\<dots> \<le> n" by simp
      finally show ?thesis .
    qed
    with a show ?thesis by (simp add: dc)
  qed
qed

lemma magnitude_bounds:
  assumes "x \<noteq> 0"
  shows "\<bar>x\<bar> < ten_to (magnitude x)" and "ten_to (magnitude x - 1) \<le> \<bar>x\<bar>"
proof -
  obtain p q where pq: "quotient_of x = (p, q)" by (cases "quotient_of x")
  have q: "0 < q" and x: "x = of_int p / of_int q"
    using quotient_of_denom_pos [OF pq] quotient_of_div [OF pq] by simp_all
  define P Q where "P = nat \<bar>p\<bar>" and "Q = nat q"
  define a b where "a = digit_count P" and "b = digit_count Q"
  define k where "k = int a - int b"
  have P: "0 < P" and Q: "0 < Q" using assms x q by (auto simp: P_def Q_def)
  have absx: "\<bar>x\<bar> = of_nat P / of_nat Q"
    using x q by (simp add: P_def Q_def abs_divide)
  have nP: "P < 10 ^ a" "10 ^ a \<le> 10 * P" and nQ: "Q < 10 ^ b" "10 ^ b \<le> 10 * Q"
    using digit_count_bounds [of P] digit_count_bounds [of Q] P Q by (auto simp: a_def b_def)
  have rP: "(of_nat P :: rat) < 10 ^ a" "(10::rat) ^ a \<le> 10 * of_nat P"
    and rQ: "(of_nat Q :: rat) < 10 ^ b" "(10::rat) ^ b \<le> 10 * of_nat Q"
    using nP nQ by (metis of_nat_less_iff of_nat_power of_nat_numeral,
        metis of_nat_le_iff of_nat_power of_nat_numeral of_nat_mult,
        metis of_nat_less_iff of_nat_power of_nat_numeral,
        metis of_nat_le_iff of_nat_power of_nat_numeral of_nat_mult)
  have kk: "ten_to k * 10 ^ b = 10 ^ a"
    using ten_to_add_nat [of k b] by (simp add: k_def ten_to_nat)
  have Qpos: "(0::rat) < of_nat Q" using Q by simp
  have tk: "0 < ten_to k" by simp
  have up: "\<bar>x\<bar> < ten_to (k + 1)"
  proof -
    have "(of_nat P :: rat) < ten_to k * 10 ^ b" using rP(1) kk by simp
    also have "\<dots> \<le> ten_to k * (10 * of_nat Q)" using rQ(2) tk by (simp add: mult_left_mono)
    finally have "of_nat P < ten_to (k + 1) * of_nat Q" by (simp add: ten_to_Suc)
    then show ?thesis using Qpos by (simp add: absx pos_divide_less_eq)
  qed
  have lo: "ten_to (k - 1) \<le> \<bar>x\<bar>"
  proof -
    have "ten_to k * of_nat Q \<le> ten_to k * 10 ^ b" using rQ(1) tk by (simp add: mult_left_mono)
    also have "\<dots> \<le> 10 * of_nat P" using rP(2) kk by simp
    finally have "ten_to k \<le> 10 * \<bar>x\<bar>" using Qpos by (simp add: absx pos_le_divide_eq)
    then show ?thesis using ten_to_Suc [of "k - 1"] by simp
  qed
  have m: "magnitude x = (if \<bar>x\<bar> < ten_to k then k else k + 1)"
    by (simp add: magnitude_def pq k_def a_def b_def P_def Q_def Let_def)
  show "\<bar>x\<bar> < ten_to (magnitude x)" using up by (simp add: m)
  show "ten_to (magnitude x - 1) \<le> \<bar>x\<bar>" using lo by (simp add: m)
qed

lemma magnitude_le:
  assumes "x \<noteq> 0" "\<bar>x\<bar> < ten_to k" shows "magnitude x \<le> k"
proof (rule ccontr)
  assume "\<not> magnitude x \<le> k"
  then have "ten_to k \<le> ten_to (magnitude x - 1)" by (intro ten_to_mono) simp
  with magnitude_bounds(2) [OF assms(1)] assms(2) show False by linarith
qed

text \<open>The context is off by at most half a unit in the 28th digit.\<close>

lemma ctx28_error:
  assumes "\<bar>x\<bar> < ten_to k"
  shows "\<bar>ctx28 x - x\<bar> \<le> 1 / (2 * ten_to (28 - k))"
proof (cases "x = 0")
  case True
  then show ?thesis by (simp add: ctx28_def less_imp_le)
next
  case False
  define s where "s = ten_to (28 - magnitude x)"
  have s: "0 < s" "ten_to (28 - k) \<le> s"
    using magnitude_le [OF False assms] by (auto simp: s_def intro: ten_to_mono)
  have "ctx28 x - x = (of_int (round_even (x * s)) - x * s) / s"
    using False s(1) by (simp add: ctx28_def s_def [symmetric] Let_def field_simps)
  then have "\<bar>ctx28 x - x\<bar> = \<bar>of_int (round_even (x * s)) - x * s\<bar> / s"
    using s(1) by (simp add: abs_divide)
  also have "\<dots> \<le> (1/2) / s"
    using round_even_error [of "x * s"] s(1) by (intro divide_right_mono) auto
  also have "\<dots> \<le> (1/2) / ten_to (28 - k)"
    using s by (intro divide_left_mono) auto
  finally show ?thesis by simp
qed

text \<open>A value of at most 28 digits passes through the context unchanged.\<close>

lemma ctx28_exact:
  assumes "x * 10 ^ j = of_int n" "\<bar>x\<bar> < ten_to (28 - int j)"
  shows "ctx28 x = x"
proof (cases "x = 0")
  case True
  then show ?thesis by (simp add: ctx28_def)
next
  case False
  have "magnitude x \<le> 28 - int j" by (rule magnitude_le [OF False assms(2)])
  then have "28 - magnitude x = int j + int (nat (28 - magnitude x - int j))" by simp
  then have "ten_to (28 - magnitude x) = 10 ^ j * 10 ^ nat (28 - magnitude x - int j)"
    using ten_to_add_nat [of "int j" "nat (28 - magnitude x - int j)"] by (simp add: ten_to_nat)
  then have "x * ten_to (28 - magnitude x) = of_int (n * 10 ^ nat (28 - magnitude x - int j))"
    using assms(1) by (simp add: mult.assoc [symmetric])
  then obtain i where i: "x * ten_to (28 - magnitude x) = of_int i" by blast
  then have "ctx28 x = of_int i / ten_to (28 - magnitude x)"
    using False by (simp add: ctx28_def Let_def)
  also have "\<dots> = x" using i by (simp add: nonzero_divide_eq_eq)
  finally show ?thesis .
qed

section \<open>Amounts of money\<close>

text \<open>A whole number of cents, as every stored amount is.\<close>

definition cents :: "rat \<Rightarrow> bool" where
  "cents x \<longleftrightarrow> x * 100 \<in> \<int>"

text \<open>The bound of a \<open>numeric(digits, 2)\<close> column.\<close>

definition fits :: "nat \<Rightarrow> rat \<Rightarrow> bool" where
  "fits digits x \<longleftrightarrow> \<bar>x\<bar> < 10 ^ (digits - 2)"

lemma cents_0 [simp]: "cents 0"
  by (simp add: cents_def)

lemma cents_add [intro]: "cents a \<Longrightarrow> cents b \<Longrightarrow> cents (a + b)"
  by (simp add: cents_def distrib_right Ints_add)

lemma cents_diff [intro]: "cents a \<Longrightarrow> cents b \<Longrightarrow> cents (a - b)"
  by (simp add: cents_def left_diff_distrib Ints_diff)

lemma cents_minus [simp]: "cents (- a) \<longleftrightarrow> cents a"
  by (simp add: cents_def)

lemma cents_sum_list: "(\<And>x. x \<in> set xs \<Longrightarrow> cents x) \<Longrightarrow> cents (sum_list xs)"
  by (induction xs) auto

lemma cents_of_int_div [simp]: "cents (of_int i / 100)"
  by (simp add: cents_def)

lemma centsE: assumes "cents x" obtains i where "x = of_int i / 100"
proof -
  from assms obtain i where "x * 100 = of_int i" by (auto simp: cents_def elim: Ints_cases)
  then have "x = of_int i / 100" by simp
  then show thesis by (rule that)
qed

section \<open>apps/billing/money.py\<close>

definition round_money :: "rat \<Rightarrow> rat result" where
  "round_money value = quantize round_up 2 value"

definition round_quantity :: "rat \<Rightarrow> rat result" where
  "round_quantity value = quantize round_up 4 value"

definition prorated_quantity :: "int \<Rightarrow> int \<Rightarrow> int \<Rightarrow> rat result" where
  "prorated_quantity months covered_days period_days =
    (if period_days \<le> covered_days then round_quantity (of_int months)
     else if period_days = 0 then Inl (Crash Invalid_operation)
     else round_quantity (d_div (d_mul (of_int months) (of_int covered_days)) (of_int period_days)))"

definition line_amount_of :: "rat \<Rightarrow> rat option \<Rightarrow> rat result" where
  "line_amount_of quantity unit_price =
    (case unit_price of None \<Rightarrow> Inr 0 | Some p \<Rightarrow> round_money (d_mul quantity p))"

definition prorated_amount :: "rat option \<Rightarrow> int \<Rightarrow> int \<Rightarrow> int \<Rightarrow> rat result" where
  "prorated_amount unit_price months covered_days period_days =
    (case unit_price of
       None \<Rightarrow> Inr 0
     | Some p \<Rightarrow>
         if period_days = 0 then Inl (Crash Invalid_operation)
         else round_money
           (d_div (d_mul (d_mul p (of_int months)) (of_int covered_days)) (of_int period_days)))"

text \<open>(subtotal, VAT, total)\<close>

definition totals :: "rat list \<Rightarrow> rat \<Rightarrow> (rat \<times> rat \<times> rat) result" where
  "totals amounts vat_rate =
    bind_res (round_money (sum_list amounts)) (\<lambda>subtotal.
    bind_res (round_money (d_div (d_mul subtotal vat_rate) 100)) (\<lambda>vat.
    Inr (subtotal, vat, subtotal + vat)))"

end
