(* ===== verification/Permissions.thy ===== *)
theory Permissions
  imports Prelude
begin

text \<open>
  \<open>core/permissions.py\<close>: the roles (\<open>apps/users/models.py\<close>), the matrix of what each may read
  and write, the permission class that asks it, and the narrowing of a technician's lists to
  the customers assigned to them.
\<close>

section \<open>The matrix\<close>

datatype role = Owner | Admin | Operations | Technician | Accountant

datatype access = Read | Write

text \<open>One row: the resource, who reads it, who writes it.\<close>

definition MATRIX :: "(string \<times> role list \<times> role list) list" where
  "MATRIX = [
    (''company'', [Owner, Admin, Operations, Technician, Accountant], [Owner]),
    (''user'', [Owner, Admin], [Owner, Admin]),
    (''user_deactivation'', [], [Owner]),
    (''invitation'', [Owner, Admin], [Owner, Admin]),
    (''customer'', [Owner, Admin, Operations, Technician, Accountant], [Owner, Admin, Operations]),
    (''building'', [Owner, Admin, Operations, Technician], [Owner, Admin, Operations]),
    (''complex'', [Owner, Admin, Operations], [Owner, Admin, Operations]),
    (''elevator'', [Owner, Admin, Operations, Technician], [Owner, Admin, Operations]),
    (''contract'', [Owner, Admin, Operations, Accountant], [Owner, Admin, Operations]),
    (''contract_financials'', [Owner, Admin, Accountant], [Owner, Admin, Accountant]),
    (''qr_label'', [Owner, Admin, Operations, Technician], [Owner, Admin, Operations, Technician]),
    (''audit_log'', [Owner, Admin], []),
    (''attachment'', [Owner, Admin, Operations, Technician], [Owner, Admin, Operations]),
    (''maintenance_visit'', [Owner, Admin, Operations, Technician],
      [Owner, Admin, Operations, Technician]),
    (''maintenance_visit_edit'', [], [Owner, Admin]),
    (''fault'', [Owner, Admin, Operations, Technician], [Owner, Admin, Operations, Technician]),
    (''fault_office'', [], [Owner, Admin, Operations]),
    (''inspection'', [Owner, Admin, Operations, Technician], [Owner, Admin, Operations]),
    (''portal_access'', [Owner, Admin, Operations], [Owner, Admin, Operations]),
    (''invoice'', [Owner, Admin, Accountant], [Owner, Admin, Accountant]),
    (''customer_report'', [Owner, Admin, Operations, Accountant], [Owner, Admin, Operations]),
    (''customer_report_regenerate'', [], [Owner, Admin]),
    (''planned_visit'', [Owner, Admin, Operations, Technician], [Owner, Admin, Operations]),
    (''ledger'', [Owner, Admin, Accountant], []),
    (''ledger_document'', [Owner, Admin, Accountant], [Owner, Admin, Accountant, Operations]),
    (''ledger_picker'', [Owner, Admin, Accountant, Operations], []),
    (''ledger_statement_send'', [], [Owner, Admin, Accountant]),
    (''ledger_admin'', [Owner, Accountant], [Owner, Accountant])]"

definition allowed_roles :: "string \<Rightarrow> access \<Rightarrow> role list" where
  "allowed_roles resource act =
    (case map_of MATRIX resource of
       None \<Rightarrow> []
     | Some (readers, writers) \<Rightarrow> (case act of Read \<Rightarrow> readers | Write \<Rightarrow> writers))"

definition may :: "role option \<Rightarrow> string \<Rightarrow> access \<Rightarrow> bool" where
  "may r resource act =
    (case r of None \<Rightarrow> False | Some r \<Rightarrow> r \<in> set (allowed_roles resource act))"

definition may_see_balances :: "role option \<Rightarrow> bool" where
  "may_see_balances r \<longleftrightarrow> may r ''ledger'' Read \<or> may r ''ledger_document'' Write"

section \<open>Asking it (RolePermission)\<close>

text \<open>What a viewset declares, and what a request carries.\<close>

record view =
  v_resource :: "string option"
  v_by_action :: "(string \<times> string) list"
  v_action :: "string option"

record request =
  rq_authenticated :: bool
  rq_role :: "role option"
  rq_method :: string

definition SAFE_METHODS :: "string list" where
  "SAFE_METHODS = [''GET'', ''HEAD'', ''OPTIONS'']"

text \<open>\<open>overrides.get(action) or view.resource\<close>\<close>

definition resource_of :: "view \<Rightarrow> string option" where
  "resource_of v =
    (case Option.bind (v_action v) (map_of (v_by_action v)) of
       Some r \<Rightarrow> if r \<noteq> [] then Some r else v_resource v
     | None \<Rightarrow> v_resource v)"

definition has_permission :: "request \<Rightarrow> view \<Rightarrow> bool" where
  "has_permission rq v =
    (if \<not> rq_authenticated rq then False
     else case resource_of v of
       None \<Rightarrow> False
     | Some resource \<Rightarrow>
         may (rq_role rq) resource (if rq_method rq \<in> set SAFE_METHODS then Read else Write))"

section \<open>A technician's lists (TechnicianScopedQueryset)\<close>

definition scope_to_assignments :: "role option \<Rightarrow> 'k list \<Rightarrow> ('r \<Rightarrow> 'k) \<Rightarrow> 'r list \<Rightarrow> 'r list" where
  "scope_to_assignments r assigned customer_of rows =
    (if r \<noteq> Some Technician then rows else filter (\<lambda>x. customer_of x \<in> set assigned) rows)"

section \<open>Laws\<close>

lemma allowed_in_matrix:
  assumes "r \<in> set (allowed_roles resource act)"
  obtains readers writers where "(resource, readers, writers) \<in> set MATRIX"
    "r \<in> set (case act of Read \<Rightarrow> readers | Write \<Rightarrow> writers)"
proof (cases "map_of MATRIX resource")
  case None
  with assms show thesis by (simp add: allowed_roles_def)
next
  case (Some entry)
  with assms map_of_SomeD [OF Some] show thesis
    by (cases entry) (simp add: allowed_roles_def that)
qed

text \<open>A property of every row of the matrix is a property of every answer.\<close>

lemma may_matrix:
  assumes "list_all (\<lambda>(name, readers, writers).
      list_all (\<lambda>r. P name Read r) readers \<and> list_all (\<lambda>r. P name Write r) writers) MATRIX"
    and "may (Some r) resource act"
  shows "P resource act r"
proof -
  from assms(2) have "r \<in> set (allowed_roles resource act)" by (simp add: may_def)
  then obtain readers writers
    where "(resource, readers, writers) \<in> set MATRIX"
      "r \<in> set (case act of Read \<Rightarrow> readers | Write \<Rightarrow> writers)" by (rule allowed_in_matrix)
  with assms(1) show ?thesis by (cases act) (auto simp: list_all_iff)
qed

lemma may_owner:
  assumes "may r resource act" shows "may (Some Owner) resource act"
proof -
  from assms obtain x where "may (Some x) resource act" by (auto simp: may_def split: option.splits)
  then show ?thesis
    by (rule may_matrix [where P = "\<lambda>resource act _. may (Some Owner) resource act", rotated]) code_simp
qed

text \<open>The resources money is kept in.\<close>

definition money_resources :: "string list" where
  "money_resources = [''contract_financials'', ''invoice'', ''ledger'', ''ledger_document'',
    ''ledger_picker'', ''ledger_statement_send'', ''ledger_admin'']"

lemma technician_no_money: "resource \<in> set money_resources \<Longrightarrow> \<not> may (Some Technician) resource act"
  using may_matrix [where P = "\<lambda>resource act r. r = Technician \<longrightarrow> resource \<notin> set money_resources",
      of Technician resource act]
  by (auto simp: MATRIX_def money_resources_def)

lemma accountant_writes_money:
  "may (Some Accountant) resource Write \<Longrightarrow> resource \<in> set money_resources"
  using may_matrix [where P = "\<lambda>resource act r. r = Accountant \<and> act = Write \<longrightarrow> resource \<in> set money_resources",
      of Accountant resource Write]
  by (auto simp: MATRIX_def money_resources_def)

lemma has_permission_iff:
  "has_permission rq v \<longleftrightarrow> rq_authenticated rq \<and>
    (\<exists>resource r. resource_of v = Some resource \<and> rq_role rq = Some r \<and>
      may (Some r) resource (if rq_method rq \<in> set SAFE_METHODS then Read else Write))"
  by (auto simp: has_permission_def may_def split: option.splits if_splits)

lemma scope_subset: "set (scope_to_assignments r assigned customer_of rows) \<subseteq> set rows"
  by (simp add: scope_to_assignments_def)

lemma scope_technician:
  "x \<in> set (scope_to_assignments (Some Technician) assigned customer_of rows) \<longleftrightarrow>
    x \<in> set rows \<and> customer_of x \<in> set assigned"
  by (simp add: scope_to_assignments_def)

end
