(* ===== verification/Ledger_Model.thy ===== *)
theory Ledger_Model
  imports Tenancy Decimals Permissions
begin

text \<open>
  The tables money is recorded in: \<open>apps/ledger/models.py\<close>, \<open>apps/billing/models.py\<close> and
  the columns of \<open>companies\<close>, \<open>customers\<close> and \<open>users\<close> the ledger reads. A choice field is
  a datatype with the source's values (a blank one is \<open>None\<close>), a foreign key the key it
  holds, a nullable column an option. Every insert goes through \<open>db_insert\<close>: the tenant
  guard of \<open>CompanyOwnedModel.save\<close>, then what the column types refuse, then what the
  constraints of the table refuse.
\<close>

section \<open>Choices\<close>

datatype account_kind = Customer_account | Supplier_account | Staff_account
datatype cash_kind = Cash_till | Bank_account | Card_pos
datatype direction = Debit | Credit
datatype cash_direction = In | Out
datatype payment_method = By_cash | By_transfer | By_card
datatype transfer_kind = Between_accounts | Between_cash
datatype cash_role = Default_till | Carried_over
datatype movement_source =
  Invoice_src | Invoice_cancel_src | Collection_src | Payment_out_src | Manual_src
  | Transfer_src | Opening_src | Reversal_src
datatype invoice_status = Draft | Issued | Paid | Cancelled
datatype line_kind = Contract_fee | Elevator_fee | Fault_line | Manual_line

fun account_kind_value :: "account_kind \<Rightarrow> string" where
  "account_kind_value Customer_account = ''customer''"
| "account_kind_value Supplier_account = ''supplier''"
| "account_kind_value Staff_account = ''staff''"

fun direction_value :: "direction \<Rightarrow> string" where
  "direction_value Debit = ''debit''"
| "direction_value Credit = ''credit''"

fun cash_direction_value :: "cash_direction \<Rightarrow> string" where
  "cash_direction_value In = ''in''"
| "cash_direction_value Out = ''out''"

fun method_value :: "payment_method \<Rightarrow> string" where
  "method_value By_cash = ''cash''"
| "method_value By_transfer = ''transfer''"
| "method_value By_card = ''card''"

fun transfer_kind_value :: "transfer_kind \<Rightarrow> string" where
  "transfer_kind_value Between_accounts = ''account''"
| "transfer_kind_value Between_cash = ''cash''"

fun source_value :: "movement_source \<Rightarrow> string" where
  "source_value Invoice_src = ''invoice''"
| "source_value Invoice_cancel_src = ''invoice_cancel''"
| "source_value Collection_src = ''collection''"
| "source_value Payment_out_src = ''payment_out''"
| "source_value Manual_src = ''manual''"
| "source_value Transfer_src = ''transfer''"
| "source_value Opening_src = ''opening''"
| "source_value Reversal_src = ''reversal''"

text \<open>Reading a string as a choice: \<open>None\<close> when it is not one of the values.\<close>

definition account_kind_of :: "string \<Rightarrow> account_kind option" where
  "account_kind_of v =
    List.find (\<lambda>k. account_kind_value k = v) [Customer_account, Supplier_account, Staff_account]"

definition direction_of :: "string \<Rightarrow> direction option" where
  "direction_of v = List.find (\<lambda>k. direction_value k = v) [Debit, Credit]"

definition cash_direction_of :: "string \<Rightarrow> cash_direction option" where
  "cash_direction_of v = List.find (\<lambda>k. cash_direction_value k = v) [In, Out]"

definition method_of :: "string \<Rightarrow> payment_method option" where
  "method_of v = List.find (\<lambda>k. method_value k = v) [By_cash, By_transfer, By_card]"

definition transfer_kind_of :: "string \<Rightarrow> transfer_kind option" where
  "transfer_kind_of v = List.find (\<lambda>k. transfer_kind_value k = v) [Between_accounts, Between_cash]"

definition source_of :: "string \<Rightarrow> movement_source option" where
  "source_of v = List.find (\<lambda>k. source_value k = v)
    [Invoice_src, Invoice_cancel_src, Collection_src, Payment_out_src, Manual_src, Transfer_src,
     Opening_src, Reversal_src]"

lemma choice_of_value [simp]:
  "account_kind_of (account_kind_value k) = Some k"
  "direction_of (direction_value d) = Some d"
  "cash_direction_of (cash_direction_value c) = Some c"
  "method_of (method_value m) = Some m"
  "transfer_kind_of (transfer_kind_value t) = Some t"
  "source_of (source_value s) = Some s"
proof -
  show "account_kind_of (account_kind_value k) = Some k"
    by (cases k) (simp_all add: account_kind_of_def)
  show "direction_of (direction_value d) = Some d"
    by (cases d) (simp_all add: direction_of_def)
  show "cash_direction_of (cash_direction_value c) = Some c"
    by (cases c) (simp_all add: cash_direction_of_def)
  show "method_of (method_value m) = Some m"
    by (cases m) (simp_all add: method_of_def)
  show "transfer_kind_of (transfer_kind_value t) = Some t"
    by (cases t) (simp_all add: transfer_kind_of_def)
  show "source_of (source_value s) = Some s"
    by (cases s) (simp_all add: source_of_def)
qed

lemma choice_literals [simp]:
  "direction_of ''debit'' = Some Debit" "direction_of ''credit'' = Some Credit"
  "cash_direction_of ''in'' = Some In" "cash_direction_of ''out'' = Some Out"
  using choice_of_value(2) [of Debit] choice_of_value(2) [of Credit]
    choice_of_value(3) [of In] choice_of_value(3) [of Out] by simp_all

lemma value_nonempty [simp]:
  "direction_value d \<noteq> []" "cash_direction_value c \<noteq> []"
  by (cases d; simp) (cases c; simp)

definition DEFAULT_CURRENCY :: string where
  "DEFAULT_CURRENCY = ''TRY''"

section \<open>Rows\<close>


record company =
  co_pk :: pk
  co_is_deleted :: bool
  co_updated_at :: instant
  co_updated_by :: "pk option"
  co_is_active :: bool
  ledger_closed_through :: "date option"

record customer = row +
  cust_legal_name :: string

record supplier = row +
  sup_name :: string
  sup_tax_office :: string
  sup_tax_number :: string
  sup_phone :: string
  sup_email :: string
  sup_address_note :: string
  sup_notes :: string

text \<open>A user of the firm (one without a firm, a bare superuser, is no row of this model).\<close>

record staff = row +
  staff_first_name :: string
  staff_last_name :: string
  staff_email :: string
  staff_role :: role
  staff_is_active :: bool

record account = row +
  acc_kind :: account_kind
  acc_customer :: "pk option"
  acc_supplier :: "pk option"
  acc_user :: "pk option"
  acc_name :: string
  acc_currency :: string
  acc_is_active :: bool

record cash_account = row +
  cash_kind :: cash_kind
  cash_name :: string
  cash_role :: "cash_role option"
  cash_currency :: string
  cash_iban :: string
  cash_is_active :: bool

record movement = row +
  mv_account :: "pk option"
  mv_cash :: "pk option"
  mv_date :: date
  mv_direction :: "direction option"
  mv_amount :: rat
  mv_currency :: string
  mv_cash_direction :: "cash_direction option"
  mv_source :: movement_source
  mv_document_type :: string
  mv_document_id :: "pk option"
  mv_reverses :: "pk option"
  mv_description :: string

record counter = row +
  ctr_prefix :: string
  ctr_last :: nat

text \<open>The columns every document that moves money has.\<close>

record document = row +
  doc_amount :: rat
  doc_date :: date
  doc_cancelled_at :: "instant option"

record collection = document +
  col_number :: string
  col_account :: pk
  col_cash :: pk
  col_method :: payment_method
  col_note :: string

record application = row +
  app_collection :: pk
  app_invoice :: pk
  app_amount :: rat

record payment_out = document +
  pay_number :: string
  pay_account :: pk
  pay_cash :: pk
  pay_method :: payment_method
  pay_note :: string

record manual_entry = document +
  man_account :: pk
  man_direction :: direction
  man_reason :: string

record transfer = document +
  tr_kind :: transfer_kind
  tr_from_account :: "pk option"
  tr_to_account :: "pk option"
  tr_from_cash :: "pk option"
  tr_to_cash :: "pk option"
  tr_note :: string

record opening_balance = document +
  op_account :: "pk option"
  op_cash :: "pk option"
  op_direction :: direction

record invoice = row +
  inv_contract :: pk
  inv_customer :: pk
  inv_period_start :: date
  inv_period_end :: date
  inv_status :: invoice_status
  inv_currency :: string
  inv_vat_rate :: rat
  inv_subtotal :: rat
  inv_vat_amount :: rat
  inv_total :: rat
  inv_number :: string
  inv_date :: "date option"
  inv_paid_on :: "date option"
  inv_cancelled_at :: "instant option"
  inv_cancel_reason :: string
  inv_notes :: string

record invoice_line = row +
  ln_draft :: pk
  ln_kind :: line_kind
  ln_description :: string
  ln_elevator :: "pk option"
  ln_fault :: "pk option"
  ln_fault_released :: bool
  ln_quantity :: rat
  ln_months :: "int option"
  ln_covered_days :: "int option"
  ln_period_days :: "int option"
  ln_unit_price :: "rat option"
  ln_amount :: rat
  ln_needs_price :: bool
  ln_position :: int

section \<open>The database of a firm's money\<close>

record books =
  next_pk :: pk
  companies :: "company list"
  customers :: "customer list"
  suppliers :: "supplier list"
  staff_users :: "staff list"
  accounts :: "account list"
  cash_accounts :: "cash_account list"
  movements :: "movement list"
  counters :: "counter list"
  collections :: "collection list"
  applications :: "application list"
  payments_out :: "payment_out list"
  manual_entries :: "manual_entry list"
  transfers :: "transfer list"
  openings :: "opening_balance list"
  invoices :: "invoice list"
  invoice_lines :: "invoice_line list"

definition empty_books :: books where
  "empty_books = \<lparr>next_pk = 1, companies = [], customers = [], suppliers = [], staff_users = [],
    accounts = [], cash_accounts = [], movements = [], counters = [], collections = [],
    applications = [], payments_out = [], manual_entries = [], transfers = [], openings = [],
    invoices = [], invoice_lines = []\<rparr>"

text \<open>\<open>Company.objects.get(pk=...)\<close>: a company is not tenant-scoped, only soft-deleted.\<close>

definition get_company :: "pk \<Rightarrow> 'a books_scheme \<Rightarrow> company result" where
  "get_company k s =
    the_res (List.find (\<lambda>c. co_pk c = k \<and> \<not> co_is_deleted c) (companies s)) (Crash Does_not_exist)"

section \<open>Inserting\<close>

definition stamped :: "env \<Rightarrow> pk \<Rightarrow> 'r row_scheme \<Rightarrow> 'r row_scheme" where
  "stamped e k r = r\<lparr>pk := k, created_at := now e, updated_at := now e\<rparr>"

definition db_insert ::
  "env \<Rightarrow> (('r row_scheme list \<Rightarrow> 'r row_scheme list) \<Rightarrow> 'a books_scheme \<Rightarrow> 'a books_scheme)
    \<Rightarrow> bool \<Rightarrow> bool \<Rightarrow> 'r row_scheme \<Rightarrow> 'a books_scheme \<Rightarrow> ('r row_scheme \<times> 'a books_scheme) result"
where
  "db_insert e upd fits_columns constraints_hold r s =
    (if \<not> may_save (ctx e) r then Inl (Crash Tenant_mismatch)
     else if \<not> fits_columns then Inl (Crash Data_error)
     else if \<not> constraints_hold then Inl Integrity_error
     else let r' = stamped e (next_pk s) r
          in Inr (r', upd (\<lambda>rows. rows @ [r']) (s\<lparr>next_pk := Suc (next_pk s)\<rparr>)))"

lemma stamped_simps [simp]:
  "pk (stamped e k r) = k" "company_id (stamped e k r) = company_id r"
  "created_at (stamped e k r) = now e" "is_deleted (stamped e k r) = is_deleted r"
  "created_by (stamped e k r) = created_by r" "updated_by (stamped e k r) = updated_by r"
  by (simp_all add: stamped_def)

lemma visible_stamped [simp]: "visible c (stamped e k r) = visible c r"
  by (simp add: visible_def split: option.split)

lemma may_save_stamped [simp]: "may_save c (stamped e k r) = may_save c r"
  by (simp add: may_save_def split: option.split)

lemma db_insert_Inr_iff [res_simps]:
  "db_insert e upd fc ch r s = Inr (r', s') \<longleftrightarrow>
    may_save (ctx e) r \<and> fc \<and> ch \<and> r' = stamped e (next_pk s) r \<and>
    s' = upd (\<lambda>rows. rows @ [r']) (s\<lparr>next_pk := Suc (next_pk s)\<rparr>)"
  by (auto simp: db_insert_def Let_def)

section \<open>The constraints of each table\<close>

text \<open>
  A check is a condition on the new row; a unique constraint compares it with the rows the
  constraint's condition covers.
\<close>

fun party_matches_kind :: "account_kind \<Rightarrow> pk option \<Rightarrow> pk option \<Rightarrow> pk option \<Rightarrow> bool" where
  "party_matches_kind Customer_account c sp u \<longleftrightarrow> c \<noteq> None \<and> sp = None \<and> u = None"
| "party_matches_kind Supplier_account c sp u \<longleftrightarrow> c = None \<and> sp \<noteq> None \<and> u = None"
| "party_matches_kind Staff_account c sp u \<longleftrightarrow> c = None \<and> sp = None \<and> u \<noteq> None"

definition account_checks :: "account \<Rightarrow> bool" where
  "account_checks a \<longleftrightarrow>
    party_matches_kind (acc_kind a) (acc_customer a) (acc_supplier a) (acc_user a)"

text \<open>Two live accounts of one party in one currency.\<close>

definition accounts_clash :: "account \<Rightarrow> account \<Rightarrow> bool" where
  "accounts_clash a b \<longleftrightarrow> \<not> is_deleted a \<and> \<not> is_deleted b \<and> acc_currency a = acc_currency b \<and>
    (acc_customer a \<noteq> None \<and> acc_customer a = acc_customer b \<or>
     acc_supplier a \<noteq> None \<and> acc_supplier a = acc_supplier b \<or>
     acc_user a \<noteq> None \<and> acc_user a = acc_user b)"

definition tills_clash :: "cash_account \<Rightarrow> cash_account \<Rightarrow> bool" where
  "tills_clash a b \<longleftrightarrow> \<not> is_deleted a \<and> \<not> is_deleted b \<and> company_id a = company_id b \<and>
    (cash_role a = Some Default_till \<and> cash_role b = Some Default_till \<or>
     cash_role a = Some Carried_over \<and> cash_role b = Some Carried_over \<and>
       cash_currency a = cash_currency b)"

definition movement_checks :: "movement \<Rightarrow> bool" where
  "movement_checks m \<longleftrightarrow> 0 < mv_amount m \<and> (mv_account m \<noteq> None \<or> mv_cash m \<noteq> None) \<and>
    (mv_account m = None \<longleftrightarrow> mv_direction m = None) \<and>
    (mv_cash m = None \<longleftrightarrow> mv_cash_direction m = None)"

definition movements_clash :: "movement \<Rightarrow> movement \<Rightarrow> bool" where
  "movements_clash a b \<longleftrightarrow>
    mv_reverses a \<noteq> None \<and> mv_reverses a = mv_reverses b \<or>
    mv_source a = mv_source b \<and> mv_source a \<in> {Invoice_src, Invoice_cancel_src} \<and>
      mv_document_type a = mv_document_type b \<and>
      mv_document_id a \<noteq> None \<and> mv_document_id a = mv_document_id b"

definition counters_clash :: "counter \<Rightarrow> counter \<Rightarrow> bool" where
  "counters_clash a b \<longleftrightarrow> company_id a = company_id b \<and> ctr_prefix a = ctr_prefix b"

definition collections_clash :: "collection \<Rightarrow> collection \<Rightarrow> bool" where
  "collections_clash a b \<longleftrightarrow> company_id a = company_id b \<and> col_number a = col_number b"

definition applications_clash :: "application \<Rightarrow> application \<Rightarrow> bool" where
  "applications_clash a b \<longleftrightarrow> app_collection a = app_collection b \<and> app_invoice a = app_invoice b"

definition payments_out_clash :: "payment_out \<Rightarrow> payment_out \<Rightarrow> bool" where
  "payments_out_clash a b \<longleftrightarrow> company_id a = company_id b \<and> pay_number a = pay_number b"

definition transfer_checks :: "transfer \<Rightarrow> bool" where
  "transfer_checks t \<longleftrightarrow> 0 < doc_amount t \<and>
    (case tr_kind t of
       Between_accounts \<Rightarrow> tr_from_account t \<noteq> None \<and> tr_to_account t \<noteq> None \<and>
         tr_from_cash t = None \<and> tr_to_cash t = None \<and> tr_from_account t \<noteq> tr_to_account t
     | Between_cash \<Rightarrow> tr_from_account t = None \<and> tr_to_account t = None \<and>
         tr_from_cash t \<noteq> None \<and> tr_to_cash t \<noteq> None \<and> tr_from_cash t \<noteq> tr_to_cash t)"

definition opening_checks :: "opening_balance \<Rightarrow> bool" where
  "opening_checks o1 \<longleftrightarrow> 0 < doc_amount o1 \<and> (op_account o1 = None \<longleftrightarrow> op_cash o1 \<noteq> None)"

definition openings_clash :: "opening_balance \<Rightarrow> opening_balance \<Rightarrow> bool" where
  "openings_clash a b \<longleftrightarrow> \<not> is_deleted a \<and> \<not> is_deleted b \<and>
    doc_cancelled_at a = None \<and> doc_cancelled_at b = None \<and>
    (op_account a \<noteq> None \<and> op_account a = op_account b \<or>
     op_cash a \<noteq> None \<and> op_cash a = op_cash b)"

definition invoice_checks :: "invoice \<Rightarrow> bool" where
  "invoice_checks i \<longleftrightarrow> inv_period_start i \<le> inv_period_end i \<and>
    (inv_status i \<in> {Issued, Paid} \<longrightarrow> inv_number i \<noteq> [] \<and> inv_date i \<noteq> None) \<and>
    (inv_status i = Paid \<longrightarrow> inv_paid_on i \<noteq> None)"

definition invoices_clash :: "invoice \<Rightarrow> invoice \<Rightarrow> bool" where
  "invoices_clash a b \<longleftrightarrow> \<not> is_deleted a \<and> \<not> is_deleted b \<and>
    (inv_status a \<noteq> Cancelled \<and> inv_status b \<noteq> Cancelled \<and>
       inv_contract a = inv_contract b \<and> inv_period_start a = inv_period_start b \<or>
     inv_status a \<in> {Issued, Paid} \<and> inv_status b \<in> {Issued, Paid} \<and>
       company_id a = company_id b \<and> inv_number a = inv_number b)"

definition line_checks :: "invoice_line \<Rightarrow> bool" where
  "line_checks l \<longleftrightarrow> (ln_kind l = Fault_line \<longrightarrow> ln_fault l \<noteq> None) \<and>
    (ln_months l = None \<and> ln_covered_days l = None \<and> ln_period_days l = None \<or>
     ln_months l \<noteq> None \<and> ln_covered_days l \<noteq> None \<and>
       (case ln_period_days l of None \<Rightarrow> False | Some d \<Rightarrow> 0 < d))"

definition lines_clash :: "invoice_line \<Rightarrow> invoice_line \<Rightarrow> bool" where
  "lines_clash a b \<longleftrightarrow> ln_fault a \<noteq> None \<and> ln_fault a = ln_fault b \<and>
    \<not> ln_fault_released a \<and> \<not> ln_fault_released b \<and> \<not> is_deleted a \<and> \<not> is_deleted b"

text \<open>No row already there clashes with the new one.\<close>

definition unique_with :: "('r \<Rightarrow> 'r \<Rightarrow> bool) \<Rightarrow> 'r \<Rightarrow> 'r list \<Rightarrow> bool" where
  "unique_with clash r rows \<longleftrightarrow> (\<forall>x \<in> set rows. \<not> clash r x)"

text \<open>No two rows of the table clash.\<close>

definition all_unique :: "('r \<Rightarrow> 'r \<Rightarrow> bool) \<Rightarrow> 'r list \<Rightarrow> bool" where
  "all_unique clash rows \<longleftrightarrow> (\<forall>x \<in> set rows. \<forall>y \<in> set rows. clash x y \<longrightarrow> x = y)"

lemma all_unique_append1:
  "all_unique clash rows \<Longrightarrow> unique_with clash r rows \<Longrightarrow>
    (\<And>x. x \<in> set rows \<Longrightarrow> clash x r \<Longrightarrow> clash r x) \<Longrightarrow> all_unique clash (rows @ [r])"
  by (auto simp: all_unique_def unique_with_def)

section \<open>The rows the code creates, with the defaults of the models\<close>

definition blank_account :: account where
  "blank_account = \<lparr>pk = 0, company_id = 0, created_at = 0, updated_at = 0, created_by = None,
    updated_by = None, is_deleted = False, deleted_at = None,
    acc_kind = Customer_account, acc_customer = None, acc_supplier = None, acc_user = None,
    acc_name = [], acc_currency = DEFAULT_CURRENCY, acc_is_active = True\<rparr>"

definition blank_cash_account :: cash_account where
  "blank_cash_account = \<lparr>pk = 0, company_id = 0, created_at = 0, updated_at = 0, created_by = None,
    updated_by = None, is_deleted = False, deleted_at = None,
    cash_kind = Cash_till, cash_name = [], cash_role = None, cash_currency = DEFAULT_CURRENCY,
    cash_iban = [], cash_is_active = True\<rparr>"

definition blank_supplier :: supplier where
  "blank_supplier = \<lparr>pk = 0, company_id = 0, created_at = 0, updated_at = 0, created_by = None,
    updated_by = None, is_deleted = False, deleted_at = None,
    sup_name = [], sup_tax_office = [], sup_tax_number = [], sup_phone = [], sup_email = [],
    sup_address_note = [], sup_notes = []\<rparr>"

definition blank_movement :: movement where
  "blank_movement = \<lparr>pk = 0, company_id = 0, created_at = 0, updated_at = 0, created_by = None,
    updated_by = None, is_deleted = False, deleted_at = None,
    mv_account = None, mv_cash = None, mv_date = Date 1 1 1, mv_direction = None, mv_amount = 0,
    mv_currency = DEFAULT_CURRENCY, mv_cash_direction = None, mv_source = Manual_src,
    mv_document_type = [], mv_document_id = None, mv_reverses = None, mv_description = []\<rparr>"

definition blank_counter :: counter where
  "blank_counter = \<lparr>pk = 0, company_id = 0, created_at = 0, updated_at = 0, created_by = None,
    updated_by = None, is_deleted = False, deleted_at = None, ctr_prefix = [], ctr_last = 0\<rparr>"

definition blank_collection :: collection where
  "blank_collection = \<lparr>pk = 0, company_id = 0, created_at = 0, updated_at = 0, created_by = None,
    updated_by = None, is_deleted = False, deleted_at = None,
    doc_amount = 0, doc_date = Date 1 1 1, doc_cancelled_at = None,
    col_number = [], col_account = 0, col_cash = 0, col_method = By_cash, col_note = []\<rparr>"

definition blank_application :: application where
  "blank_application = \<lparr>pk = 0, company_id = 0, created_at = 0, updated_at = 0, created_by = None,
    updated_by = None, is_deleted = False, deleted_at = None,
    app_collection = 0, app_invoice = 0, app_amount = 0\<rparr>"

definition blank_payment_out :: payment_out where
  "blank_payment_out = \<lparr>pk = 0, company_id = 0, created_at = 0, updated_at = 0, created_by = None,
    updated_by = None, is_deleted = False, deleted_at = None,
    doc_amount = 0, doc_date = Date 1 1 1, doc_cancelled_at = None,
    pay_number = [], pay_account = 0, pay_cash = 0, pay_method = By_cash, pay_note = []\<rparr>"

definition blank_manual_entry :: manual_entry where
  "blank_manual_entry = \<lparr>pk = 0, company_id = 0, created_at = 0, updated_at = 0, created_by = None,
    updated_by = None, is_deleted = False, deleted_at = None,
    doc_amount = 0, doc_date = Date 1 1 1, doc_cancelled_at = None,
    man_account = 0, man_direction = Debit, man_reason = []\<rparr>"

definition blank_transfer :: transfer where
  "blank_transfer = \<lparr>pk = 0, company_id = 0, created_at = 0, updated_at = 0, created_by = None,
    updated_by = None, is_deleted = False, deleted_at = None,
    doc_amount = 0, doc_date = Date 1 1 1, doc_cancelled_at = None,
    tr_kind = Between_accounts, tr_from_account = None, tr_to_account = None,
    tr_from_cash = None, tr_to_cash = None, tr_note = []\<rparr>"

definition blank_opening :: opening_balance where
  "blank_opening = \<lparr>pk = 0, company_id = 0, created_at = 0, updated_at = 0, created_by = None,
    updated_by = None, is_deleted = False, deleted_at = None,
    doc_amount = 0, doc_date = Date 1 1 1, doc_cancelled_at = None,
    op_account = None, op_cash = None, op_direction = Debit\<rparr>"

end
