(* ===== verification/Balances.thy ===== *)
theory Balances
  imports Ledger_Model
begin

text \<open>
  \<open>apps/ledger/balances.py\<close>: balances are never stored, they are sums over the movements.
  The SQL expressions are translated as they stand (two filtered sums, their difference,
  rounded to the cent, quantized); \<open>account_total\<close> and \<open>cash_total\<close> are what they mean, and
  the refinement lemmas say the two agree on books whose amounts are whole cents.
\<close>

section \<open>The expressions\<close>

text \<open>\<open>Coalesce(Sum("amount", filter=P), 0)\<close>\<close>

definition sum_where :: "(movement \<Rightarrow> bool) \<Rightarrow> movement list \<Rightarrow> rat" where
  "sum_where P ms = sum_list (map mv_amount (filter P ms))"

text \<open>SQL \<open>ROUND(x, 2)\<close> (half away from zero) and \<open>x.quantize(Decimal("0.00"))\<close> (half even;
  an amount of more than 26 digits, which would raise, is out of reach of a sum of
  \<open>numeric(14, 2)\<close> columns).\<close>

definition db_round2 :: "rat \<Rightarrow> rat" where
  "db_round2 x = of_int (round_up (x * 100)) / 100"

definition quantize_zero :: "rat \<Rightarrow> rat" where
  "quantize_zero x = of_int (round_even (x * 100)) / 100"

definition signed_sum :: "(movement \<Rightarrow> bool) \<Rightarrow> (movement \<Rightarrow> bool) \<Rightarrow> movement list \<Rightarrow> rat" where
  "signed_sum positive negative ms = db_round2 (sum_where positive ms - sum_where negative ms)"

definition account_total_expr :: "movement list \<Rightarrow> rat" where
  "account_total_expr ms =
    signed_sum (\<lambda>m. mv_direction m = Some Debit) (\<lambda>m. mv_direction m = Some Credit) ms"

definition cash_total_expr :: "movement list \<Rightarrow> rat" where
  "cash_total_expr ms =
    signed_sum (\<lambda>m. mv_cash_direction m = Some In) (\<lambda>m. mv_cash_direction m = Some Out) ms"

definition account_balance :: "env \<Rightarrow> account \<Rightarrow> 'a books_scheme \<Rightarrow> rat" where
  "account_balance e a s =
    quantize_zero (account_total_expr
      (filter (\<lambda>m. mv_account m = Some (pk a)) (objects (ctx e) (movements s))))"

definition account_balance_before :: "env \<Rightarrow> account \<Rightarrow> date \<Rightarrow> 'a books_scheme \<Rightarrow> rat" where
  "account_balance_before e a before s =
    quantize_zero (account_total_expr
      (filter (\<lambda>m. mv_account m = Some (pk a) \<and> mv_date m < before) (objects (ctx e) (movements s))))"

definition cash_balance :: "env \<Rightarrow> cash_account \<Rightarrow> 'a books_scheme \<Rightarrow> rat" where
  "cash_balance e c s =
    quantize_zero (cash_total_expr
      (filter (\<lambda>m. mv_cash m = Some (pk c)) (objects (ctx e) (movements s))))"

text \<open>
  The annotations of the lists: a subquery grouped by the account (no row, no group), and
  zero when there is none.
\<close>

definition with_balance :: "env \<Rightarrow> account list \<Rightarrow> 'a books_scheme \<Rightarrow> (account \<times> rat) list" where
  "with_balance e qs s =
    map (\<lambda>a. let ms = filter (\<lambda>m. mv_account m = Some (pk a)) (objects (ctx e) (movements s))
             in (a, if ms = [] then 0 else account_total_expr ms)) qs"

definition with_cash_balance ::
  "env \<Rightarrow> cash_account list \<Rightarrow> 'a books_scheme \<Rightarrow> (cash_account \<times> rat) list" where
  "with_cash_balance e qs s =
    map (\<lambda>c. let ms = filter (\<lambda>m. mv_cash m = Some (pk c)) (objects (ctx e) (movements s))
             in (c, if ms = [] then 0 else cash_total_expr ms)) qs"

text \<open>TRY first, then the other currencies alphabetically.\<close>

definition customer_accounts :: "env \<Rightarrow> account list \<Rightarrow> 'a books_scheme \<Rightarrow> (account \<times> rat) list" where
  "customer_accounts e qs s =
    sort_key (\<lambda>(a, b). (acc_currency a \<noteq> DEFAULT_CURRENCY, acc_currency a, pk a)) (with_balance e qs s)"

section \<open>What a collection still pays\<close>

text \<open>An application counts while it and its collection stand.\<close>

definition collection_stands :: "'a books_scheme \<Rightarrow> pk \<Rightarrow> bool" where
  "collection_stands s k \<longleftrightarrow>
    (\<exists>c \<in> set (collections s). pk c = k \<and> doc_cancelled_at c = None \<and> \<not> is_deleted c)"

definition standing_applications :: "pk \<Rightarrow> 'a books_scheme \<Rightarrow> application list" where
  "standing_applications k s =
    filter (\<lambda>a. app_invoice a = k \<and> \<not> is_deleted a \<and> collection_stands s (app_collection a))
      (applications s)"

definition invoice_collected :: "invoice \<Rightarrow> 'a books_scheme \<Rightarrow> rat" where
  "invoice_collected d s =
    quantize_zero (sum_list (map app_amount (standing_applications (pk d) s)))"

definition invoice_remaining :: "invoice \<Rightarrow> 'a books_scheme \<Rightarrow> rat" where
  "invoice_remaining d s = quantize_zero (inv_total d - invoice_collected d s)"

definition with_collected :: "env \<Rightarrow> invoice list \<Rightarrow> 'a books_scheme \<Rightarrow> (invoice \<times> rat \<times> rat) list" where
  "with_collected e qs s =
    map (\<lambda>d. let apps = filter (\<lambda>a. app_invoice a = pk d \<and> collection_stands s (app_collection a))
                 (objects (ctx e) (applications s));
             collected = (if apps = [] then 0 else db_round2 (sum_list (map app_amount apps)))
         in (d, collected, db_round2 (inv_total d - collected))) qs"

section \<open>What they mean\<close>

definition signed_amount :: "movement \<Rightarrow> rat" where
  "signed_amount m =
    (case mv_direction m of None \<Rightarrow> 0 | Some Debit \<Rightarrow> mv_amount m | Some Credit \<Rightarrow> - mv_amount m)"

definition cash_amount :: "movement \<Rightarrow> rat" where
  "cash_amount m =
    (case mv_cash_direction m of None \<Rightarrow> 0 | Some In \<Rightarrow> mv_amount m | Some Out \<Rightarrow> - mv_amount m)"

definition account_total :: "pk \<Rightarrow> movement list \<Rightarrow> rat" where
  "account_total k ms = sum_list (map signed_amount (filter (\<lambda>m. mv_account m = Some k) ms))"

definition cash_total :: "pk \<Rightarrow> movement list \<Rightarrow> rat" where
  "cash_total k ms = sum_list (map cash_amount (filter (\<lambda>m. mv_cash m = Some k) ms))"

lemma totals_Nil [simp]: "account_total k [] = 0" "cash_total k [] = 0"
  by (simp_all add: account_total_def cash_total_def)

lemma totals_append [simp]:
  "account_total k (xs @ ys) = account_total k xs + account_total k ys"
  "cash_total k (xs @ ys) = cash_total k xs + cash_total k ys"
  by (simp_all add: account_total_def cash_total_def)

lemma totals_Cons [simp]:
  "account_total k (m # ms) =
    (if mv_account m = Some k then signed_amount m else 0) + account_total k ms"
  "cash_total k (m # ms) = (if mv_cash m = Some k then cash_amount m else 0) + cash_total k ms"
  by (simp_all add: account_total_def cash_total_def)

lemma sum_where_debit_credit:
  "sum_where (\<lambda>m. mv_direction m = Some Debit) ms - sum_where (\<lambda>m. mv_direction m = Some Credit) ms
    = sum_list (map signed_amount ms)"
  by (induction ms)
    (auto simp: sum_where_def signed_amount_def algebra_simps split: option.splits direction.splits)

lemma sum_where_in_out:
  "sum_where (\<lambda>m. mv_cash_direction m = Some In) ms - sum_where (\<lambda>m. mv_cash_direction m = Some Out) ms
    = sum_list (map cash_amount ms)"
  by (induction ms)
    (auto simp: sum_where_def cash_amount_def algebra_simps split: option.splits cash_direction.splits)

lemma round2_cents [simp]: "cents x \<Longrightarrow> db_round2 x = x" "cents x \<Longrightarrow> quantize_zero x = x"
  by (auto simp: db_round2_def quantize_zero_def elim!: centsE)

lemma cents_rounded [simp]: "cents (db_round2 x)" "cents (quantize_zero x)"
  by (simp_all add: db_round2_def quantize_zero_def)

lemma cents_signed: "cents (mv_amount m) \<Longrightarrow> cents (signed_amount m)"
  by (auto simp: signed_amount_def split: option.splits direction.splits)

lemma cents_cash: "cents (mv_amount m) \<Longrightarrow> cents (cash_amount m)"
  by (auto simp: cash_amount_def split: option.splits cash_direction.splits)

lemma expr_signed:
  assumes "\<forall>m \<in> set ms. cents (mv_amount m)"
  shows "account_total_expr ms = sum_list (map signed_amount ms)"
    and "cash_total_expr ms = sum_list (map cash_amount ms)"
  using assms
  by (auto simp: account_total_expr_def cash_total_expr_def signed_sum_def sum_where_debit_credit
      sum_where_in_out intro!: round2_cents cents_sum_list cents_signed cents_cash)

text \<open>The refinement: a balance is the signed sum of the movements the tenant sees.\<close>

lemma account_balance_eq:
  assumes "\<forall>m \<in> set (movements s). cents (mv_amount m)"
  shows "account_balance e a s = account_total (pk a) (objects (ctx e) (movements s))"
    and "account_balance_before e a before s =
      account_total (pk a) (filter (\<lambda>m. mv_date m < before) (objects (ctx e) (movements s)))"
  using assms
  by (auto simp: account_balance_def account_balance_before_def expr_signed account_total_def
      set_objects conj_commute intro!: round2_cents cents_sum_list cents_signed)

lemma cash_balance_eq:
  assumes "\<forall>m \<in> set (movements s). cents (mv_amount m)"
  shows "cash_balance e c s = cash_total (pk c) (objects (ctx e) (movements s))"
  using assms
  by (auto simp: cash_balance_def expr_signed cash_total_def set_objects
      intro!: round2_cents cents_sum_list cents_cash)

lemma total_expr_Nil [simp]: "account_total_expr [] = 0" "cash_total_expr [] = 0"
  using expr_signed [of "[]"] by simp_all

text \<open>The list pages and the detail pages cannot disagree.\<close>

lemma with_balance_eq:
  "with_balance e qs s = map (\<lambda>a. (a, account_balance e a s)) qs"
  "with_cash_balance e cs s = map (\<lambda>c. (c, cash_balance e c s)) cs"
  by (auto simp: with_balance_def with_cash_balance_def account_balance_def cash_balance_def Let_def
      simp del: filter_empty_conv)
    (simp_all add: account_total_expr_def cash_total_expr_def signed_sum_def)

end
