(* ===== verification/Posting.thy ===== *)
theory Posting
  imports Balances
begin

text \<open>
  \<open>apps/ledger/posting.py\<close>: the only code that writes movements. \<open>post\<close> writes one after
  every rule has been checked, \<open>reverse_document\<close> writes the mirror of each movement of a
  document that is not reversed yet. Both only append to the table of movements; what
  each can append, and what the mirrors do to the balances, is stated below. Row locks
  order concurrent transactions and change no row, so they do not appear here.
\<close>

section \<open>Checks\<close>

fun mirror_direction :: "direction option \<Rightarrow> direction option" where
  "mirror_direction (Some Debit) = Some Credit"
| "mirror_direction (Some Credit) = Some Debit"
| "mirror_direction None = None"

fun mirror_cash_direction :: "cash_direction option \<Rightarrow> cash_direction option" where
  "mirror_cash_direction (Some In) = Some Out"
| "mirror_cash_direction (Some Out) = Some In"
| "mirror_cash_direction None = None"

definition check_date :: "env \<Rightarrow> company \<Rightarrow> date \<Rightarrow> unit result" where
  "check_date e company dt =
    (if today e < dt then Inl (invalid ''date'')
     else case ledger_closed_through company of
       Some closed_through \<Rightarrow>
         if dt \<le> closed_through then Inl (field_error ''date'' PERIOD_CLOSED) else Inr ()
     | None \<Rightarrow> Inr ())"

fun is_money :: "decimal \<Rightarrow> bool result" where
  "is_money (Finite x) =
    (if 0 < x then bind_res (quantize round_even 2 x) (\<lambda>q. Inr (x = q)) else Inr False)"
| "is_money Infinite = Inr False"
| "is_money NaN = Inr False"

text \<open>The rational a finite amount is; only used after \<open>is_money\<close> has said yes.\<close>

fun rat_of :: "decimal \<Rightarrow> rat" where
  "rat_of (Finite x) = x"
| "rat_of Infinite = 0"
| "rat_of NaN = 0"

definition opening_stands :: "opening_balance \<Rightarrow> bool" where
  "opening_stands o1 \<longleftrightarrow> \<not> is_deleted o1 \<and> doc_cancelled_at o1 = None"

definition later_opening_on_account :: "account \<Rightarrow> date \<Rightarrow> 'a books_scheme \<Rightarrow> bool" where
  "later_opening_on_account a dt s \<longleftrightarrow>
    (\<exists>o1 \<in> set (openings s). opening_stands o1 \<and> dt < doc_date o1 \<and> op_account o1 = Some (pk a))"

definition later_opening_on_cash :: "cash_account \<Rightarrow> date \<Rightarrow> 'a books_scheme \<Rightarrow> bool" where
  "later_opening_on_cash c dt s \<longleftrightarrow>
    (\<exists>o1 \<in> set (openings s). opening_stands o1 \<and> dt < doc_date o1 \<and> op_cash o1 = Some (pk c))"

definition check_after_opening ::
  "account option \<Rightarrow> cash_account option \<Rightarrow> date \<Rightarrow> 'a books_scheme \<Rightarrow> unit result" where
  "check_after_opening acc cash dt s =
    (if (case acc of None \<Rightarrow> False | Some a \<Rightarrow> later_opening_on_account a dt s)
     then Inl (invalid ''date'')
     else if (case cash of None \<Rightarrow> False | Some c \<Rightarrow> later_opening_on_cash c dt s)
     then Inl (invalid ''date'')
     else Inr ())"

section \<open>Writing one movement\<close>

definition insert_movement ::
  "env \<Rightarrow> movement \<Rightarrow> 'a books_scheme \<Rightarrow> (movement \<times> 'a books_scheme) result" where
  "insert_movement e m s =
    db_insert e movements_update (fits 14 (mv_amount m) \<and> length (mv_description m) \<le> 500)
      (movement_checks m \<and> unique_with movements_clash m (movements s)) m s"

text \<open>\<open>not direction\<close> in Python: \<open>None\<close> and the empty string are false.\<close>

definition truthy :: "string option \<Rightarrow> bool" where
  "truthy v \<longleftrightarrow> v \<noteq> None \<and> v \<noteq> Some []"

text \<open>The firm and the currency of each side that is named.\<close>

definition sides_of :: "account option \<Rightarrow> cash_account option \<Rightarrow> (pk \<times> string) list" where
  "sides_of acc cash =
    (case acc of None \<Rightarrow> [] | Some a \<Rightarrow> [(company_id a, acc_currency a)]) @
    (case cash of None \<Rightarrow> [] | Some c \<Rightarrow> [(company_id c, cash_currency c)])"

definition post ::
  "env \<Rightarrow> account option \<Rightarrow> cash_account option \<Rightarrow> string option \<Rightarrow> string option \<Rightarrow> decimal
    \<Rightarrow> string \<Rightarrow> date \<Rightarrow> string \<Rightarrow> (string \<times> pk) option \<Rightarrow> string \<Rightarrow> pk option
    \<Rightarrow> 'a books_scheme \<Rightarrow> (movement \<times> 'a books_scheme) result" where
  "post e acc cash dir cash_dir amount currency dt source document description by s =
    (case source_of source of
       None \<Rightarrow> Inl (invalid ''source'')
     | Some src \<Rightarrow>
    if src = Reversal_src then Inl (invalid ''source'')
    else if acc = None \<and> cash = None then Inl (invalid ''account'')
    else if (acc = None) \<noteq> (\<not> truthy dir) \<or> (truthy dir \<and> direction_of (the dir) = None)
    then Inl (invalid ''direction'')
    else if (cash = None) \<noteq> (\<not> truthy cash_dir) \<or>
      (truthy cash_dir \<and> cash_direction_of (the cash_dir) = None)
    then Inl (invalid ''cash_direction'')
    else bind_res (is_money amount) (\<lambda>money.
    if \<not> money then Inl (invalid ''amount'')
    else let sides = sides_of acc cash in
    if length (remdups (map fst sides)) \<noteq> 1 then Inl (invalid ''cash_account'')
    else if list_ex (\<lambda>side. snd side \<noteq> currency) sides
    then Inl (field_error ''currency'' CURRENCY_MISMATCH)
    else bind_res (get_company (fst (hd sides)) s) (\<lambda>company.
    bind_res (check_date e company dt) (\<lambda>_.
    bind_res (if src = Opening_src then Inr () else check_after_opening acc cash dt s) (\<lambda>_.
    insert_movement e
      (blank_movement\<lparr>company_id := fst (hd sides),
        mv_account := map_option pk acc, mv_cash := map_option pk cash, mv_date := dt,
        mv_direction := Option.bind dir direction_of,
        mv_cash_direction := Option.bind cash_dir cash_direction_of,
        mv_amount := rat_of amount, mv_currency := currency, mv_source := src,
        mv_document_type := (case document of None \<Rightarrow> [] | Some d \<Rightarrow> fst d),
        mv_document_id := map_option snd document,
        mv_description := description, created_by := by, updated_by := by\<rparr>) s)))))"

section \<open>Reversing a document\<close>

definition is_reversed :: "'a books_scheme \<Rightarrow> movement \<Rightarrow> bool" where
  "is_reversed s m \<longleftrightarrow> (\<exists>r \<in> set (movements s). mv_reverses r = Some (pk m))"

definition of_document :: "string \<times> pk \<Rightarrow> movement \<Rightarrow> bool" where
  "of_document doc m \<longleftrightarrow> mv_document_type m = fst doc \<and> mv_document_id m = Some (snd doc)"

text \<open>The movements of a document still to be reversed, oldest first.\<close>

definition unreversed :: "env \<Rightarrow> string \<times> pk \<Rightarrow> 'a books_scheme \<Rightarrow> movement list" where
  "unreversed e doc s =
    sort_key (\<lambda>m. (mv_date m, created_at m, pk m))
      (filter (\<lambda>m. of_document doc m \<and> \<not> is_reversed s m \<and> mv_reverses m = None)
        (objects (ctx e) (movements s)))"

definition mirror :: "movement_source \<Rightarrow> date \<Rightarrow> pk option \<Rightarrow> movement \<Rightarrow> movement" where
  "mirror source dt by m =
    blank_movement\<lparr>company_id := company_id m, mv_account := mv_account m, mv_cash := mv_cash m,
      mv_date := dt, mv_direction := mirror_direction (mv_direction m),
      mv_cash_direction := mirror_cash_direction (mv_cash_direction m),
      mv_amount := mv_amount m, mv_currency := mv_currency m, mv_source := source,
      mv_document_type := mv_document_type m, mv_document_id := mv_document_id m,
      mv_reverses := Some (pk m), mv_description := mv_description m,
      created_by := by, updated_by := by\<rparr>"

fun insert_mirrors ::
  "env \<Rightarrow> movement_source \<Rightarrow> date \<Rightarrow> pk option \<Rightarrow> movement list \<Rightarrow> 'a books_scheme
    \<Rightarrow> (movement list \<times> 'a books_scheme) result" where
  "insert_mirrors e source dt by [] s = Inr ([], s)"
| "insert_mirrors e source dt by (m # ms) s =
    bind_res (insert_movement e (mirror source dt by m) s) (\<lambda>(r, s).
    bind_res (insert_mirrors e source dt by ms s) (\<lambda>(rs, s). Inr (r # rs, s)))"

text \<open>\<open>except IntegrityError: raise Conflict(...)\<close>\<close>

definition on_integrity_error :: "exn \<Rightarrow> 'a result \<Rightarrow> 'a result" where
  "on_integrity_error e r = (case r of Inl Integrity_error \<Rightarrow> Inl e | _ \<Rightarrow> r)"

definition reverse_document ::
  "env \<Rightarrow> string \<times> pk \<Rightarrow> date \<Rightarrow> pk option \<Rightarrow> movement_source \<Rightarrow> 'a books_scheme
    \<Rightarrow> (movement list \<times> 'a books_scheme) result" where
  "reverse_document e doc dt by source s =
    (if source \<notin> {Reversal_src, Invoice_cancel_src} then Inl (invalid ''source'')
     else on_integrity_error (Conflict ALREADY_REVERSED)
       (let originals = unreversed e doc s in
        if originals = [] then Inl (Conflict ALREADY_REVERSED)
        else bind_res (get_company (company_id (hd originals)) s) (\<lambda>company.
          bind_res (check_date e company dt) (\<lambda>_.
          insert_mirrors e source dt by originals s))))"

section \<open>What a posting writes\<close>

lemma on_integrity_error_Inr [res_simps]: "on_integrity_error e r = Inr x \<longleftrightarrow> r = Inr x"
  by (auto simp: on_integrity_error_def split: sum.splits exn.splits)

lemma check_date_Inr_iff [res_simps]:
  "check_date e c dt = Inr u \<longleftrightarrow> dt \<le> today e \<and>
    (\<forall>closed. ledger_closed_through c = Some closed \<longrightarrow> closed < dt)"
  by (auto simp: check_date_def split: option.splits)

lemma check_after_opening_Inr_iff [res_simps]:
  "check_after_opening acc cash dt s = Inr u \<longleftrightarrow>
    (\<forall>a. acc = Some a \<longrightarrow> \<not> later_opening_on_account a dt s) \<and>
    (\<forall>c. cash = Some c \<longrightarrow> \<not> later_opening_on_cash c dt s)"
  by (auto simp: check_after_opening_def split: option.splits)

lemma quantize_even_eq: "quantize round_even 2 x = Inr q \<Longrightarrow> cents q"
  unfolding quantize_def Let_def cents_def
  by (split if_split_asm) (simp, metis Ints_of_int, simp)

lemma is_money_True:
  assumes "is_money d = Inr True"
  shows "d = Finite (rat_of d)" "0 < rat_of d" "cents (rat_of d)"
proof -
  from assms obtain x where x: "d = Finite x" "0 < x"
    by (cases d) (auto split: if_splits)
  with assms obtain q where "quantize round_even 2 x = Inr q" "x = q"
    by (auto simp: bind_res_Inr_iff)
  with x show "d = Finite (rat_of d)" "0 < rat_of d" "cents (rat_of d)"
    by (auto dest: quantize_even_eq)
qed

lemma is_money_cents:
  assumes "cents x" "0 < x" "x < 10 ^ 26"
  shows "is_money (Finite x) = Inr True"
proof -
  from assms(1) obtain i where i: "x = of_int i / 100" by (rule centsE)
  have "\<bar>of_int i :: rat\<bar> < of_int (10 ^ 28)" using assms(2,3) i by simp
  then have "\<bar>i\<bar> < 10 ^ 28" by (simp only: of_int_abs [symmetric] of_int_less_iff)
  then show ?thesis using assms(2) by (simp add: quantize_def i Let_def)
qed

text \<open>Appending to the movements, and taking a key, is all that a write does.\<close>

definition add_movements :: "movement list \<Rightarrow> 'a books_scheme \<Rightarrow> 'a books_scheme" where
  "add_movements ms s = s\<lparr>movements := movements s @ ms, next_pk := next_pk s + length ms\<rparr>"

lemma add_movements_simps [simp]:
  "movements (add_movements ms s) = movements s @ ms"
  "next_pk (add_movements ms s) = next_pk s + length ms"
  "companies (add_movements ms s) = companies s"
  "accounts (add_movements ms s) = accounts s"
  "cash_accounts (add_movements ms s) = cash_accounts s"
  "counters (add_movements ms s) = counters s"
  "collections (add_movements ms s) = collections s"
  "applications (add_movements ms s) = applications s"
  "payments_out (add_movements ms s) = payments_out s"
  "manual_entries (add_movements ms s) = manual_entries s"
  "transfers (add_movements ms s) = transfers s"
  "openings (add_movements ms s) = openings s"
  "invoices (add_movements ms s) = invoices s"
  "invoice_lines (add_movements ms s) = invoice_lines s"
  by (simp_all add: add_movements_def)

lemma add_movements_Nil [simp]: "add_movements [] s = s"
  by (simp add: add_movements_def)

lemma add_movements_add [simp]: "add_movements ns (add_movements ms s) = add_movements (ms @ ns) s"
  by (simp add: add_movements_def)

lemma insert_movement_Inr_iff [res_simps]:
  "insert_movement e m s = Inr (m', s') \<longleftrightarrow>
    may_save (ctx e) m \<and> fits 14 (mv_amount m) \<and> length (mv_description m) \<le> 500 \<and>
    movement_checks m \<and> unique_with movements_clash m (movements s) \<and>
    m' = stamped e (next_pk s) m \<and> s' = add_movements [m'] s"
  by (auto simp: insert_movement_def db_insert_Inr_iff add_movements_def)

lemma stamped_movement [simp]:
  fixes m :: movement
  shows "mv_account (stamped e k m) = mv_account m" "mv_cash (stamped e k m) = mv_cash m"
    "mv_date (stamped e k m) = mv_date m" "mv_direction (stamped e k m) = mv_direction m"
    "mv_amount (stamped e k m) = mv_amount m" "mv_currency (stamped e k m) = mv_currency m"
    "mv_cash_direction (stamped e k m) = mv_cash_direction m"
    "mv_source (stamped e k m) = mv_source m" "mv_reverses (stamped e k m) = mv_reverses m"
    "mv_document_type (stamped e k m) = mv_document_type m"
    "mv_document_id (stamped e k m) = mv_document_id m"
    "mv_description (stamped e k m) = mv_description m"
  by (simp_all add: stamped_def)

lemma unique_stamped_movement:
  "unique_with movements_clash (stamped e k m) ms = unique_with movements_clash m ms"
  by (simp add: unique_with_def movements_clash_def)

text \<open>Everything a successful posting guarantees of the row it wrote.\<close>

definition posting_ok ::
  "env \<Rightarrow> account option \<Rightarrow> cash_account option \<Rightarrow> 'a books_scheme \<Rightarrow> movement \<Rightarrow> bool" where
  "posting_ok e acc cash s m \<longleftrightarrow>
    mv_account m = map_option pk acc \<and> mv_cash m = map_option pk cash \<and>
    movement_checks m \<and> cents (mv_amount m) \<and> fits 14 (mv_amount m) \<and>
    mv_reverses m = None \<and> mv_source m \<noteq> Reversal_src \<and> \<not> is_deleted m \<and>
    may_save (ctx e) m \<and> mv_date m \<le> today e \<and>
    (\<exists>c. get_company (company_id m) s = Inr c \<and>
      (\<forall>closed. ledger_closed_through c = Some closed \<longrightarrow> closed < mv_date m)) \<and>
    (\<forall>a. acc = Some a \<longrightarrow> company_id a = company_id m \<and> acc_currency a = mv_currency m) \<and>
    (\<forall>c. cash = Some c \<longrightarrow> company_id c = company_id m \<and> cash_currency c = mv_currency m) \<and>
    (mv_source m \<noteq> Opening_src \<longrightarrow>
      (\<forall>a. acc = Some a \<longrightarrow> \<not> later_opening_on_account a (mv_date m) s) \<and>
      (\<forall>c. cash = Some c \<longrightarrow> \<not> later_opening_on_cash c (mv_date m) s))"

lemma sides_one_firm:
  assumes "length (remdups (map fst (sides_of acc cash))) = 1"
  shows "\<forall>x \<in> set (sides_of acc cash). fst x = fst (hd (sides_of acc cash))"
  using assms
  by (auto simp: sides_of_def split: option.splits if_splits)

lemma sides_of_simps:
  "acc = Some a \<Longrightarrow> (company_id a, acc_currency a) \<in> set (sides_of acc cash)"
  "cash = Some c \<Longrightarrow> (company_id c, cash_currency c) \<in> set (sides_of acc cash)"
  by (auto simp: sides_of_def)

lemma blank_movement_simps [simp]:
  "is_deleted blank_movement = False" "mv_reverses blank_movement = None"
  "mv_account blank_movement = None" "mv_cash blank_movement = None"
  by (simp_all add: blank_movement_def)

lemma post_Inr:
  assumes "post e acc cash dir cash_dir amount currency dt source document description by s = Inr (m, s')"
  shows "posting_ok e acc cash s m" and "s' = add_movements [m] s" and "pk m = next_pk s"
    and "created_at m = now e" and "mv_date m = dt" and "mv_amount m = rat_of amount"
    and "mv_currency m = currency" and "source_of source = Some (mv_source m)"
    and "mv_direction m = Option.bind dir direction_of"
    and "mv_cash_direction m = Option.bind cash_dir cash_direction_of"
    and "mv_document_type m = (case document of None \<Rightarrow> [] | Some d \<Rightarrow> fst d)"
    and "mv_document_id m = map_option snd document"
    and "mv_description m = description"
    and "unique_with movements_clash m (movements s)"
    and "amount = Finite (rat_of amount)"
proof -
  obtain src where src: "source_of source = Some src" "src \<noteq> Reversal_src"
    using assms by (cases "source_of source") (auto simp: post_def split: if_splits)
  from assms src have guards: "is_money amount = Inr True"
    "length (remdups (map fst (sides_of acc cash))) = 1"
    "\<not> list_ex (\<lambda>side. snd side \<noteq> currency) (sides_of acc cash)"
    by (auto simp: post_def Let_def bind_res_Inr_iff split: if_splits)
  from assms src guards obtain c where c: "get_company (fst (hd (sides_of acc cash))) s = Inr c"
    and dates: "check_date e c dt = Inr ()"
    and after: "src \<noteq> Opening_src \<Longrightarrow> check_after_opening acc cash dt s = Inr ()"
    and ins: "insert_movement e
      (blank_movement\<lparr>company_id := fst (hd (sides_of acc cash)),
        mv_account := map_option pk acc, mv_cash := map_option pk cash, mv_date := dt,
        mv_direction := Option.bind dir direction_of,
        mv_cash_direction := Option.bind cash_dir cash_direction_of,
        mv_amount := rat_of amount, mv_currency := currency, mv_source := src,
        mv_document_type := (case document of None \<Rightarrow> [] | Some d \<Rightarrow> fst d),
        mv_document_id := map_option snd document,
        mv_description := description, created_by := by, updated_by := by\<rparr>) s = Inr (m, s')"
    by (auto simp: post_def Let_def bind_res_Inr_iff split: if_splits)
  note money = is_money_True [OF guards(1)]
  note firm = sides_one_firm [OF guards(2)]
  note ins = ins [unfolded insert_movement_Inr_iff, simplified]
  from ins have m: "company_id m = fst (hd (sides_of acc cash))" "mv_source m = src"
    "mv_date m = dt" "mv_amount m = rat_of amount" "mv_currency m = currency"
    "mv_account m = map_option pk acc" "mv_cash m = map_option pk cash"
    "mv_reverses m = None" "\<not> is_deleted m"
    by simp_all
  have curr: "\<forall>x \<in> set (sides_of acc cash). snd x = currency"
    using guards(3) by (auto simp: list_ex_iff)
  show "posting_ok e acc cash s m"
    unfolding posting_ok_def
  proof (intro conjI)
    show "\<forall>a. acc = Some a \<longrightarrow> company_id a = company_id m \<and> acc_currency a = mv_currency m"
      using firm curr sides_of_simps(1) m by fastforce
    show "\<forall>c. cash = Some c \<longrightarrow> company_id c = company_id m \<and> cash_currency c = mv_currency m"
      using firm curr sides_of_simps(2) m by fastforce
    show "\<exists>c. get_company (company_id m) s = Inr c \<and>
      (\<forall>closed. ledger_closed_through c = Some closed \<longrightarrow> closed < mv_date m)"
      using c dates m by (auto simp: check_date_Inr_iff)
    show "mv_source m \<noteq> Opening_src \<longrightarrow>
      (\<forall>a. acc = Some a \<longrightarrow> \<not> later_opening_on_account a (mv_date m) s) \<and>
      (\<forall>c. cash = Some c \<longrightarrow> \<not> later_opening_on_cash c (mv_date m) s)"
      using after m by (auto simp: check_after_opening_Inr_iff)
    show "mv_date m \<le> today e" using dates m by (simp add: check_date_Inr_iff)
    show "movement_checks m" "may_save (ctx e) m"
      using ins by (auto simp: movement_checks_def)
    show "fits 14 (mv_amount m)" using ins by simp
  qed (use m money src in simp_all)
  show "s' = add_movements [m] s" "pk m = next_pk s" "created_at m = now e" "mv_date m = dt"
    "mv_amount m = rat_of amount" "mv_currency m = currency" "source_of source = Some (mv_source m)"
    "mv_direction m = Option.bind dir direction_of"
    "mv_cash_direction m = Option.bind cash_dir cash_direction_of"
    "mv_document_type m = (case document of None \<Rightarrow> [] | Some d \<Rightarrow> fst d)"
    "mv_document_id m = map_option snd document" "mv_description m = description"
    "unique_with movements_clash m (movements s)"
    using ins src by (simp_all add: unique_stamped_movement)
  show "amount = Finite (rat_of amount)" by (fact money(1))
qed

section \<open>What a reversal writes\<close>

text \<open>\<open>r\<close> cancels \<open>o1\<close>: the same amount, sides and document, both directions flipped.\<close>

definition mirror_of :: "movement \<Rightarrow> movement \<Rightarrow> bool" where
  "mirror_of r o1 \<longleftrightarrow> mv_reverses r = Some (pk o1) \<and> company_id r = company_id o1 \<and>
    mv_account r = mv_account o1 \<and> mv_cash r = mv_cash o1 \<and>
    mv_direction r = mirror_direction (mv_direction o1) \<and>
    mv_cash_direction r = mirror_cash_direction (mv_cash_direction o1) \<and>
    mv_amount r = mv_amount o1 \<and> mv_currency r = mv_currency o1 \<and>
    mv_document_type r = mv_document_type o1 \<and> mv_document_id r = mv_document_id o1"

definition reversal_ok :: "env \<Rightarrow> movement_source \<Rightarrow> date \<Rightarrow> movement \<Rightarrow> movement \<Rightarrow> bool" where
  "reversal_ok e source dt o1 r \<longleftrightarrow> mirror_of r o1 \<and> mv_source r = source \<and> mv_date r = dt \<and>
    created_at r = now e \<and> \<not> is_deleted r \<and> may_save (ctx e) r \<and> movement_checks r \<and>
    fits 14 (mv_amount r) \<and> mv_description r = mv_description o1"

lemma mirror_fields [simp]:
  "mv_reverses (mirror src dt by m) = Some (pk m)" "company_id (mirror src dt by m) = company_id m"
  "mv_account (mirror src dt by m) = mv_account m" "mv_cash (mirror src dt by m) = mv_cash m"
  "mv_direction (mirror src dt by m) = mirror_direction (mv_direction m)"
  "mv_cash_direction (mirror src dt by m) = mirror_cash_direction (mv_cash_direction m)"
  "mv_amount (mirror src dt by m) = mv_amount m" "mv_currency (mirror src dt by m) = mv_currency m"
  "mv_document_type (mirror src dt by m) = mv_document_type m"
  "mv_document_id (mirror src dt by m) = mv_document_id m" "mv_source (mirror src dt by m) = src"
  "mv_date (mirror src dt by m) = dt" "\<not> is_deleted (mirror src dt by m)"
  "mv_description (mirror src dt by m) = mv_description m"
  by (simp_all add: mirror_def)

lemma mirror_signed:
  "mirror_of r o1 \<Longrightarrow> signed_amount r = - signed_amount o1"
  "mirror_of r o1 \<Longrightarrow> cash_amount r = - cash_amount o1"
  by (auto simp: mirror_of_def signed_amount_def cash_amount_def
      split: option.splits direction.splits cash_direction.splits)

lemma movement_checks_stamped [simp]: "movement_checks (stamped e k m) = movement_checks m"
  by (simp add: movement_checks_def)

lemma reversal_ok_stamped:
  "may_save (ctx e) (mirror source dt by m) \<Longrightarrow> movement_checks (mirror source dt by m) \<Longrightarrow>
    fits 14 (mv_amount m) \<Longrightarrow> reversal_ok e source dt m (stamped e k (mirror source dt by m))"
  by (simp add: reversal_ok_def mirror_of_def)

text \<open>The loop over the originals: one mirror each, appended, with the next keys.\<close>

lemma insert_mirrors_Inr:
  "insert_mirrors e source dt by os s = Inr (rs, s') \<Longrightarrow>
    s' = add_movements rs s \<and> list_all2 (reversal_ok e source dt) os rs \<and>
    map pk rs = [next_pk s ..< next_pk s + length rs]"
proof (induction os arbitrary: s rs)
  case Nil
  then show ?case by simp
next
  case (Cons m os)
  from Cons.prems obtain r s1 rs1 where r: "insert_movement e (mirror source dt by m) s = Inr (r, s1)"
    and rest: "insert_mirrors e source dt by os s1 = Inr (rs1, s')" and rs: "rs = r # rs1"
    by (auto simp: bind_res_Inr_iff)
  from r have s1: "s1 = add_movements [r] s" "pk r = next_pk s" "reversal_ok e source dt m r"
    by (auto simp: insert_movement_Inr_iff reversal_ok_stamped)
  from Cons.IH [OF rest] s1 rs show ?case
    by (simp add: upt_rec)
qed

lemma reverse_document_Inr:
  assumes "reverse_document e doc dt by source s = Inr (rs, s')"
  shows "s' = add_movements rs s"
    and "list_all2 (reversal_ok e source dt) (unreversed e doc s) rs"
    and "map pk rs = [next_pk s ..< next_pk s + length rs]"
    and "rs \<noteq> []" and "source \<in> {Reversal_src, Invoice_cancel_src}" and "dt \<le> today e"
    and "\<exists>c. get_company (company_id (hd (unreversed e doc s))) s = Inr c \<and>
      (\<forall>closed. ledger_closed_through c = Some closed \<longrightarrow> closed < dt)"
proof -
  from assms show src: "source \<in> {Reversal_src, Invoice_cancel_src}"
    by (auto simp: reverse_document_def split: if_splits)
  with assms obtain c where ne: "unreversed e doc s \<noteq> []"
    and c: "get_company (company_id (hd (unreversed e doc s))) s = Inr c"
    and dates: "check_date e c dt = Inr ()"
    and ins: "insert_mirrors e source dt by (unreversed e doc s) s = Inr (rs, s')"
    by (auto simp: reverse_document_def Let_def on_integrity_error_Inr bind_res_Inr_iff
        split: if_splits)
  from insert_mirrors_Inr [OF ins]
  show "s' = add_movements rs s" "list_all2 (reversal_ok e source dt) (unreversed e doc s) rs"
    "map pk rs = [next_pk s ..< next_pk s + length rs]"
    by simp_all
  then show "rs \<noteq> []" using ne by auto
  from dates show "dt \<le> today e" by (simp add: check_date_Inr_iff)
  from c dates show "\<exists>c. get_company (company_id (hd (unreversed e doc s))) s = Inr c \<and>
      (\<forall>closed. ledger_closed_through c = Some closed \<longrightarrow> closed < dt)"
    by (auto simp: check_date_Inr_iff)
qed

end
