(* ===== verification/Movement_Laws.thy ===== *)
theory Movement_Laws
  imports Posting
begin

text \<open>
  The invariant of the table of movements, that both writers of \<open>apps/ledger/posting.py\<close>
  keep it, and what it gives: the movements of a reversed document add up to nothing on
  every account and every till, so a cancellation puts every balance back.
\<close>

section \<open>The invariant\<close>

definition movements_ok :: "'a books_scheme \<Rightarrow> bool" where
  "movements_ok s \<longleftrightarrow>
    distinct (map pk (movements s)) \<and>
    (\<forall>m \<in> set (movements s). pk m < next_pk s \<and> movement_checks m \<and> cents (mv_amount m) \<and>
      fits 14 (mv_amount m) \<and> \<not> is_deleted m) \<and>
    all_unique movements_clash (movements s) \<and>
    (\<forall>r \<in> set (movements s). mv_reverses r \<noteq> None \<longrightarrow>
      (\<exists>o1 \<in> set (movements s). mirror_of r o1 \<and> mv_reverses o1 = None))"

lemma movements_okD:
  assumes "movements_ok s"
  shows "distinct (map pk (movements s))" and "distinct (movements s)"
    and "m \<in> set (movements s) \<Longrightarrow> pk m < next_pk s"
    and "m \<in> set (movements s) \<Longrightarrow> movement_checks m"
    and "m \<in> set (movements s) \<Longrightarrow> cents (mv_amount m)"
    and "m \<in> set (movements s) \<Longrightarrow> fits 14 (mv_amount m)"
    and "m \<in> set (movements s) \<Longrightarrow> \<not> is_deleted m"
    and "all_unique movements_clash (movements s)"
    and "r \<in> set (movements s) \<Longrightarrow> mv_reverses r \<noteq> None \<Longrightarrow>
      \<exists>o1 \<in> set (movements s). mirror_of r o1 \<and> mv_reverses o1 = None"
  using assms by (auto simp: movements_ok_def distinct_map)

lemma movements_clash_sym: "movements_clash a b \<Longrightarrow> movements_clash b a"
  unfolding movements_clash_def by (elim disjE conjE) simp_all

text \<open>A new row that satisfies the constraints keeps the invariant.\<close>

lemma movements_ok_add:
  assumes ok: "movements_ok s" and m: "pk m = next_pk s" "movement_checks m" "cents (mv_amount m)"
    "fits 14 (mv_amount m)" "\<not> is_deleted m" "unique_with movements_clash m (movements s)"
    and rev: "mv_reverses m \<noteq> None \<Longrightarrow>
      \<exists>o1 \<in> set (movements s). mirror_of m o1 \<and> mv_reverses o1 = None"
  shows "movements_ok (add_movements [m] s)"
proof -
  note old = movements_okD [OF ok]
  have "next_pk s \<notin> pk ` set (movements s)" using old(3) by fastforce
  moreover have "all_unique movements_clash (movements s @ [m])"
    using old(8) m(6) by (rule all_unique_append1) (rule movements_clash_sym)
  moreover have "\<exists>o1 \<in> set (movements s) \<union> {m}. mirror_of r o1 \<and> mv_reverses o1 = None"
    if "r \<in> set (movements s) \<union> {m}" "mv_reverses r \<noteq> None" for r
    using that old(9) [of r] rev by auto
  ultimately show ?thesis
    using old(1,3-7) m(1-5) by (auto simp: movements_ok_def less_Suc_eq)
qed

lemma post_keeps_ok:
  assumes "movements_ok s"
    "post e acc cash dir cash_dir amount currency dt source document description by s = Inr (m, s')"
  shows "movements_ok s'"
  using post_Inr [OF assms(2)] assms(1)
  by (auto simp: posting_ok_def intro!: movements_ok_add)

lemma insert_mirrors_keeps_ok:
  assumes "movements_ok s" "insert_mirrors e source dt by os s = Inr (rs, s')"
    "\<forall>o1 \<in> set os. o1 \<in> set (movements s) \<and> mv_reverses o1 = None"
  shows "movements_ok s'"
  using assms
proof (induction os arbitrary: s rs)
  case Nil
  then show ?case by simp
next
  case (Cons m os)
  from Cons.prems(2) obtain r s1 rs1 where r: "insert_movement e (mirror source dt by m) s = Inr (r, s1)"
    and rest: "insert_mirrors e source dt by os s1 = Inr (rs1, s')"
    by (auto simp: bind_res_Inr_iff)
  from Cons.prems(1,3) have m: "m \<in> set (movements s)" "mv_reverses m = None" "cents (mv_amount m)"
    by (auto dest: movements_okD(5))
  from r have s1: "s1 = add_movements [r] s"
    and rr: "r = stamped e (next_pk s) (mirror source dt by m)" "movement_checks r" "fits 14 (mv_amount r)"
      "unique_with movements_clash r (movements s)"
    by (auto simp: insert_movement_Inr_iff unique_stamped_movement)
  have "movements_ok s1"
    unfolding s1
  proof (rule movements_ok_add [OF Cons.prems(1) _ rr(2) _ rr(3) _ rr(4)])
    show "\<exists>o1 \<in> set (movements s). mirror_of r o1 \<and> mv_reverses o1 = None"
      using m by (intro bexI [of _ m]) (simp_all add: rr(1) mirror_of_def)
  qed (use m rr(1) in simp_all)
  from Cons.IH [OF this rest] Cons.prems(3) show ?case
    by (simp add: s1)
qed

lemma set_unreversed:
  "set (unreversed e doc s) =
    {m \<in> set (movements s). visible (ctx e) m \<and> of_document doc m \<and> \<not> is_reversed s m \<and>
      mv_reverses m = None}"
  by (auto simp: unreversed_def set_objects)

lemma reverse_document_keeps_ok:
  assumes "movements_ok s" "reverse_document e doc dt by source s = Inr (rs, s')"
  shows "movements_ok s'"
proof -
  from assms(2) obtain "insert_mirrors e source dt by (unreversed e doc s) s = Inr (rs, s')"
    by (auto simp: reverse_document_def Let_def on_integrity_error_Inr bind_res_Inr_iff
        split: if_splits)
  with assms(1) show ?thesis
    by (rule insert_mirrors_keeps_ok) (simp add: set_unreversed)
qed

section \<open>A movement and its mirror cancel out\<close>

definition orig :: "'a books_scheme \<Rightarrow> movement \<Rightarrow> movement" where
  "orig s r = hd (filter (\<lambda>o1. mirror_of r o1 \<and> mv_reverses o1 = None) (movements s) @ [r])"

lemma orig_props:
  assumes "movements_ok s" "r \<in> set (movements s)" "mv_reverses r \<noteq> None"
  shows "orig s r \<in> set (movements s)" "mirror_of r (orig s r)" "mv_reverses (orig s r) = None"
proof -
  from movements_okD(9) [OF assms] obtain o1 where
    "o1 \<in> set (movements s)" "mirror_of r o1" "mv_reverses o1 = None" by blast
  then have ne: "filter (\<lambda>o1. mirror_of r o1 \<and> mv_reverses o1 = None) (movements s) \<noteq> []"
    by (auto simp: filter_empty_conv)
  have "orig s r = hd (filter (\<lambda>o1. mirror_of r o1 \<and> mv_reverses o1 = None) (movements s))"
    unfolding orig_def by (rule hd_append2 [OF ne])
  then have "orig s r \<in> set (filter (\<lambda>o1. mirror_of r o1 \<and> mv_reverses o1 = None) (movements s))"
    using hd_in_set [OF ne] by (simp only:)
  then show "orig s r \<in> set (movements s)" "mirror_of r (orig s r)" "mv_reverses (orig s r) = None"
    by auto
qed

text \<open>Mirrors and reversed movements of a document correspond one to one.\<close>

lemma orig_bij:
  assumes ok: "movements_ok s"
  shows "bij_betw (orig s)
    {r \<in> set (movements s). of_document d r \<and> mv_reverses r \<noteq> None}
    {m \<in> set (movements s). of_document d m \<and> mv_reverses m = None \<and> is_reversed s m}"
    (is "bij_betw _ ?M ?R")
proof (rule bij_betwI')
  fix x y assume "x \<in> ?M" "y \<in> ?M"
  then have xy: "x \<in> set (movements s)" "y \<in> set (movements s)"
    "mv_reverses x \<noteq> None" "mv_reverses y \<noteq> None" by auto
  show "orig s x = orig s y \<longleftrightarrow> x = y"
  proof
    assume "orig s x = orig s y"
    then have "mv_reverses x = mv_reverses y"
      using orig_props(2) [OF ok xy(1,3)] orig_props(2) [OF ok xy(2,4)] by (simp add: mirror_of_def)
    with xy(3) have "movements_clash x y" by (simp add: movements_clash_def)
    with movements_okD(8) [OF ok] xy show "x = y" by (auto simp: all_unique_def)
  qed simp
next
  fix x assume "x \<in> ?M"
  then have x: "x \<in> set (movements s)" "of_document d x" "mv_reverses x \<noteq> None" by auto
  note p = orig_props [OF ok x(1,3)]
  then have "is_reversed s (orig s x)"
    using x(1) by (auto simp: is_reversed_def mirror_of_def)
  with p x(2) show "orig s x \<in> ?R" by (auto simp: of_document_def mirror_of_def)
next
  fix y assume "y \<in> ?R"
  then have y: "y \<in> set (movements s)" "of_document d y" "mv_reverses y = None" "is_reversed s y"
    by auto
  then obtain r where r: "r \<in> set (movements s)" "mv_reverses r = Some (pk y)"
    by (auto simp: is_reversed_def)
  then have rn: "mv_reverses r \<noteq> None" by simp
  note p = orig_props [OF ok r(1) rn]
  then have "pk (orig s r) = pk y" using r(2) by (simp add: mirror_of_def)
  then have "orig s r = y"
    using distinct_map_unique [OF movements_okD(1) [OF ok] p(1) y(1)] by simp
  with p(2) y(2) have "of_document d r" by (auto simp: mirror_of_def of_document_def)
  with r rn \<open>orig s r = y\<close> show "\<exists>x \<in> ?M. y = orig s x" by blast
qed

text \<open>
  So any figure that a mirror negates, summed over all movements of a document, is the sum
  over those that are still to be reversed.
\<close>

lemma document_sum:
  fixes f :: "movement \<Rightarrow> rat"
  assumes ok: "movements_ok s"
    and neg: "\<And>r o1. r \<in> set (movements s) \<Longrightarrow> mirror_of r o1 \<Longrightarrow> f r = - f o1"
  shows "sum_list (map f (filter (of_document d) (movements s))) =
    sum_list (map f (filter (\<lambda>m. of_document d m \<and> \<not> is_reversed s m \<and> mv_reverses m = None)
      (movements s)))"
proof -
  let ?A = "{m \<in> set (movements s). of_document d m}"
  let ?M = "{r \<in> set (movements s). of_document d r \<and> mv_reverses r \<noteq> None}"
  let ?R = "{m \<in> set (movements s). of_document d m \<and> mv_reverses m = None \<and> is_reversed s m}"
  let ?U = "{m \<in> set (movements s). of_document d m \<and> \<not> is_reversed s m \<and> mv_reverses m = None}"
  have dist: "distinct (movements s)" by (rule movements_okD(2) [OF ok])
  have fin: "finite ?M" "finite ?R" "finite ?U" by simp_all
  have "sum f ?M = (\<Sum>r \<in> ?M. - f (orig s r))"
    using neg orig_props(2) [OF ok] by (intro sum.cong) auto
  also have "\<dots> = - (\<Sum>r \<in> ?M. f (orig s r))" by (rule sum_negf)
  also have "(\<Sum>r \<in> ?M. f (orig s r)) = sum f ?R"
    by (rule sum.reindex_bij_betw [OF orig_bij [OF ok]])
  finally have cancel: "sum f ?M + sum f ?R = 0" by simp
  have "?A = (?M \<union> ?R) \<union> ?U" by auto
  then have "sum f ?A = sum f ((?M \<union> ?R) \<union> ?U)" by (rule arg_cong)
  moreover have "sum f ((?M \<union> ?R) \<union> ?U) = sum f (?M \<union> ?R) + sum f ?U"
    using fin by (intro sum.union_disjoint) auto
  moreover have "sum f (?M \<union> ?R) = sum f ?M + sum f ?R"
    using fin by (intro sum.union_disjoint) auto
  ultimately have "sum f ?A = sum f ?U" using cancel by simp
  moreover have "sum_list (map f (filter P (movements s))) = sum f {m \<in> set (movements s). P m}" for P
    using dist by (simp add: sum_list_distinct_conv_sum_set)
  ultimately show ?thesis by simp
qed

lemma account_total_document:
  assumes "movements_ok s"
  shows "account_total k (filter (of_document d) (movements s)) =
    account_total k (filter (\<lambda>m. of_document d m \<and> \<not> is_reversed s m \<and> mv_reverses m = None)
      (movements s))"
proof -
  have "sum_list (map signed_amount (filter (\<lambda>m. mv_account m = Some k) ms)) =
      sum_list (map (\<lambda>m. if mv_account m = Some k then signed_amount m else 0) ms)" for ms
    by (induction ms) auto
  then show ?thesis
    unfolding account_total_def
    by (simp del: filter_filter) (rule document_sum [OF assms], auto simp: mirror_of_def mirror_signed)
qed

lemma cash_total_document:
  assumes "movements_ok s"
  shows "cash_total k (filter (of_document d) (movements s)) =
    cash_total k (filter (\<lambda>m. of_document d m \<and> \<not> is_reversed s m \<and> mv_reverses m = None)
      (movements s))"
proof -
  have "sum_list (map cash_amount (filter (\<lambda>m. mv_cash m = Some k) ms)) =
      sum_list (map (\<lambda>m. if mv_cash m = Some k then cash_amount m else 0) ms)" for ms
    by (induction ms) auto
  then show ?thesis
    unfolding cash_total_def
    by (simp del: filter_filter) (rule document_sum [OF assms], auto simp: mirror_of_def mirror_signed)
qed

section \<open>A reversed document weighs nothing\<close>

lemma account_total_split:
  "account_total k ms =
    account_total k (filter P ms) + account_total k (filter (\<lambda>m. \<not> P m) ms)"
  by (induction ms) simp_all

lemma cash_total_split:
  "cash_total k ms = cash_total k (filter P ms) + cash_total k (filter (\<lambda>m. \<not> P m) ms)"
  by (induction ms) simp_all

lemma list_all2_setD: "list_all2 P xs ys \<Longrightarrow> y \<in> set ys \<Longrightarrow> \<exists>x \<in> set xs. P x y"
  by (induction rule: list_all2_induct) auto

lemma list_all2_setD1: "list_all2 P xs ys \<Longrightarrow> x \<in> set xs \<Longrightarrow> \<exists>y \<in> set ys. P x y"
  by (induction rule: list_all2_induct) auto

text \<open>The rows a reversal writes belong to the document, and leave none of it unreversed.\<close>

lemma reversal_of_document:
  assumes "reverse_document e doc dt by source s = Inr (rs, s')" "r \<in> set rs"
  shows "of_document doc r" "mv_reverses r \<noteq> None"
proof -
  from list_all2_setD [OF reverse_document_Inr(2) [OF assms(1)] assms(2)]
  obtain o1 where "o1 \<in> set (unreversed e doc s)" "reversal_ok e source dt o1 r" by blast
  then show "of_document doc r" "mv_reverses r \<noteq> None"
    by (auto simp: set_unreversed reversal_ok_def mirror_of_def of_document_def)
qed

lemma none_unreversed_after:
  assumes "reverse_document e doc dt by source s = Inr (rs, s')"
    "\<forall>m \<in> set (movements s). of_document doc m \<longrightarrow> visible (ctx e) m"
  shows "filter (\<lambda>m. of_document doc m \<and> \<not> is_reversed s' m \<and> mv_reverses m = None) (movements s') = []"
proof -
  note r = reverse_document_Inr [OF assms(1)]
  have "is_reversed s' m" if m: "m \<in> set (movements s')" "of_document doc m" "mv_reverses m = None" for m
  proof (cases "m \<in> set (movements s)")
    case True
    show ?thesis
    proof (cases "is_reversed s m")
      case True
      then show ?thesis by (auto simp: is_reversed_def r(1))
    next
      case False
      with True m assms(2) have "m \<in> set (unreversed e doc s)" by (simp add: set_unreversed)
      from list_all2_setD1 [OF r(2) this] obtain x where "x \<in> set rs" "mirror_of x m"
        by (auto simp: reversal_ok_def)
      then show ?thesis by (auto simp: is_reversed_def r(1) mirror_of_def)
    qed
  next
    case False
    with m(1) have "m \<in> set rs" by (simp add: r(1))
    from reversal_of_document(2) [OF assms(1) this] m(3) show ?thesis by simp
  qed
  then show ?thesis by (auto simp: filter_empty_conv)
qed

lemma reversed_document_nets:
  assumes ok: "movements_ok s" and rev: "reverse_document e doc dt by source s = Inr (rs, s')"
    and vis: "\<forall>m \<in> set (movements s). of_document doc m \<longrightarrow> visible (ctx e) m"
  shows "account_total k (filter (of_document doc) (movements s')) = 0"
    and "cash_total k (filter (of_document doc) (movements s')) = 0"
  using account_total_document [OF reverse_document_keeps_ok [OF ok rev], of k doc]
    cash_total_document [OF reverse_document_keeps_ok [OF ok rev], of k doc]
  unfolding none_unreversed_after [OF rev vis] by simp_all

text \<open>Every balance is what it is without the document; a second reversal is refused.\<close>

lemma reversal_restores:
  assumes ok: "movements_ok s" and rev: "reverse_document e doc dt by source s = Inr (rs, s')"
    and vis: "\<forall>m \<in> set (movements s). of_document doc m \<longrightarrow> visible (ctx e) m"
  shows "account_total k (movements s') =
      account_total k (filter (\<lambda>m. \<not> of_document doc m) (movements s))"
    and "cash_total k (movements s') =
      cash_total k (filter (\<lambda>m. \<not> of_document doc m) (movements s))"
proof -
  have "filter (\<lambda>m. \<not> of_document doc m) (movements s') =
      filter (\<lambda>m. \<not> of_document doc m) (movements s)"
    using reversal_of_document(1) [OF rev]
    by (auto simp: reverse_document_Inr(1) [OF rev] filter_empty_conv)
  then show "account_total k (movements s') =
      account_total k (filter (\<lambda>m. \<not> of_document doc m) (movements s))"
    "cash_total k (movements s') =
      cash_total k (filter (\<lambda>m. \<not> of_document doc m) (movements s))"
    using reversed_document_nets [OF assms]
      account_total_split [of k "movements s'" "of_document doc"]
      cash_total_split [of k "movements s'" "of_document doc"]
    by simp_all
qed

lemma second_reversal_refused:
  assumes "reverse_document e doc dt by source s = Inr (rs, s')"
    "\<forall>m \<in> set (movements s). of_document doc m \<longrightarrow> visible (ctx e) m"
    "source' \<in> {Reversal_src, Invoice_cancel_src}"
  shows "reverse_document e' doc dt' by' source' s' = Inl (Conflict ALREADY_REVERSED)"
proof -
  have "set (unreversed e' doc s') = {}"
    using none_unreversed_after [OF assms(1,2)]
    unfolding set_unreversed filter_empty_conv by auto
  with assms(3) show ?thesis
    by (auto simp: reverse_document_def Let_def on_integrity_error_def)
qed

end
