(* ===== verification/Documents.thy ===== *)
theory Documents
  imports Movement_Laws
begin

text \<open>
  The documents of \<open>apps/ledger/services.py\<close> that stand on their own: numbers, and the
  recording and cancelling of payments out, manual entries, transfers and opening
  balances. A document and its movements are written in one transaction, so an operation
  that raises returns the exception and no new state. Cancelling is one function for every
  document; the locale \<open>document_table\<close> states what it needs of a table and proves what it
  does, once.
\<close>

section \<open>Strings\<close>

definition digit_char :: "nat \<Rightarrow> char" where
  "digit_char n = char_of (48 + n mod 10)"

fun digits :: "nat \<Rightarrow> string" where
  "digits n = (if n < 10 then [digit_char n] else digits (n div 10) @ [digit_char n])"

declare digits.simps [simp del]

text \<open>\<open>f"{n:06d}"\<close>\<close>

definition padded :: "nat \<Rightarrow> nat \<Rightarrow> string" where
  "padded width n = replicate (width - length (digits n)) (CHR ''0'') @ digits n"

definition is_space :: "char \<Rightarrow> bool" where
  "is_space c \<longleftrightarrow>
    (let n = (of_char c :: nat) in 9 \<le> n \<and> n \<le> 13 \<or> 28 \<le> n \<and> n \<le> 32 \<or> n = 133 \<or> n = 160)"

text \<open>\<open>s.strip()\<close>\<close>

definition strip :: "string \<Rightarrow> string" where
  "strip v = rev (dropWhile is_space (rev (dropWhile is_space v)))"

section \<open>Checks and writes the documents share\<close>

text \<open>\<open>_same_firm\<close>, for one record: \<open>field\<close> names it, \<open>co\<close> is the firm it belongs to.\<close>

definition same_firm :: "pk \<Rightarrow> string \<Rightarrow> pk option \<Rightarrow> unit result" where
  "same_firm company field co =
    (case co of
       None \<Rightarrow> Inr ()
     | Some c \<Rightarrow> require (c = company) (invalid_with field ''does_not_exist''))"

definition check_amount :: "decimal \<Rightarrow> unit result" where
  "check_amount amount =
    bind_res (is_money amount) (\<lambda>ok. require ok (invalid ''amount''))"

definition check_method :: "string \<Rightarrow> payment_method result" where
  "check_method m = the_res (method_of m) (invalid ''method'')"

text \<open>\<open>row.save()\<close> of a row that is there: the tenant guard, the table's checks, the row.\<close>

definition db_update ::
  "env \<Rightarrow> (('r row_scheme list \<Rightarrow> 'r row_scheme list) \<Rightarrow> 's \<Rightarrow> 's) \<Rightarrow> bool \<Rightarrow> bool
    \<Rightarrow> 'r row_scheme \<Rightarrow> 's \<Rightarrow> ('r row_scheme \<times> 's) result" where
  "db_update e upd fits_columns constraints_hold r s =
    (if \<not> may_save (ctx e) r then Inl (Crash Tenant_mismatch)
     else if \<not> fits_columns then Inl (Crash Data_error)
     else if \<not> constraints_hold then Inl Integrity_error
     else let r' = r\<lparr>updated_at := now e\<rparr>
          in Inr (r', upd (update_where (\<lambda>x. pk x = pk r') (\<lambda>_. r')) s))"

section \<open>Numbers (next_number)\<close>

definition COLLECTION_PREFIX :: string where "COLLECTION_PREFIX = ''T-''"
definition PAYMENT_OUT_PREFIX :: string where "PAYMENT_OUT_PREFIX = ''O-''"

definition find_counter :: "pk \<Rightarrow> string \<Rightarrow> 'a books_scheme \<Rightarrow> counter option" where
  "find_counter co prefix s =
    List.find (\<lambda>c. company_id c = co \<and> ctr_prefix c = prefix) (counters s)"

definition create_counter :: "env \<Rightarrow> pk \<Rightarrow> string \<Rightarrow> 'a books_scheme \<Rightarrow> (counter \<times> 'a books_scheme) result" where
  "create_counter e co prefix s =
    (let c = blank_counter\<lparr>company_id := co, ctr_prefix := prefix\<rparr>
     in db_insert e counters_update (length prefix \<le> 10) (unique_with counters_clash c (counters s)) c s)"

definition number_text :: "string \<Rightarrow> nat \<Rightarrow> string" where
  "number_text prefix n = prefix @ padded 6 n"

definition next_number :: "env \<Rightarrow> pk \<Rightarrow> string \<Rightarrow> 'a books_scheme \<Rightarrow> (string \<times> 'a books_scheme) result" where
  "next_number e co prefix s =
    bind_res (case find_counter co prefix s of
        Some c \<Rightarrow> Inr (c, s)
      | None \<Rightarrow>
          (case create_counter e co prefix s of
             Inl Integrity_error \<Rightarrow>
               bind_res (the_res (find_counter co prefix s) (Crash Does_not_exist)) (\<lambda>c. Inr (c, s))
           | r \<Rightarrow> r))
      (\<lambda>(c, s).
    bind_res (db_update e counters_update (int (ctr_last c) + 1 \<le> 2147483647) True
        (c\<lparr>ctr_last := Suc (ctr_last c)\<rparr>) s) (\<lambda>(c, s).
    Inr (number_text prefix (ctr_last c), s)))"

section \<open>Cancelling a document (_lock, _stamp_cancelled, _cancel)\<close>

text \<open>\<open>document_type(document)\<close>: how a movement names its source document.\<close>

definition collection_type :: string where "collection_type = ''ledger.collection''"
definition payment_out_type :: string where "payment_out_type = ''ledger.paymentout''"
definition manual_entry_type :: string where "manual_entry_type = ''ledger.manualentry''"
definition transfer_type :: string where "transfer_type = ''ledger.transfer''"
definition opening_type :: string where "opening_type = ''ledger.openingbalance''"
definition invoice_type :: string where "invoice_type = ''billing.invoicedraft''"

lemma document_types_distinct [simp]:
  "collection_type \<noteq> invoice_type" "payment_out_type \<noteq> invoice_type"
  "manual_entry_type \<noteq> invoice_type" "transfer_type \<noteq> invoice_type" "opening_type \<noteq> invoice_type"
  by (simp_all add: collection_type_def payment_out_type_def manual_entry_type_def transfer_type_def
      opening_type_def invoice_type_def)

text \<open>A table of documents: the name its movements carry, its rows, and how they are replaced.\<close>

record ('s, 'd) doc_table =
  dt_name :: string
  dt_rows :: "'s \<Rightarrow> 'd list"
  dt_update :: "('d list \<Rightarrow> 'd list) \<Rightarrow> 's \<Rightarrow> 's"

definition lock_document ::
  "('s, 'd document_scheme) doc_table \<Rightarrow> pk \<Rightarrow> 's \<Rightarrow> 'd document_scheme result" where
  "lock_document t k s =
    bind_res (get_row k (dt_rows t s)) (\<lambda>locked.
    if doc_cancelled_at locked \<noteq> None then Inl (Conflict ALREADY_REVERSED) else Inr locked)"

definition stamp_cancelled ::
  "env \<Rightarrow> ('a books_scheme, 'd document_scheme) doc_table \<Rightarrow> 'd document_scheme \<Rightarrow> pk option
    \<Rightarrow> 'a books_scheme \<Rightarrow> ('d document_scheme \<times> 'a books_scheme) result" where
  "stamp_cancelled e t locked by s =
    bind_res (reverse_document e (dt_name t, pk locked) (today e) by Reversal_src s) (\<lambda>(_, s).
    db_update e (dt_update t) True True
      (locked\<lparr>doc_cancelled_at := Some (now e), updated_by := by\<rparr>) s)"

definition cancel_document ::
  "env \<Rightarrow> ('a books_scheme, 'd document_scheme) doc_table \<Rightarrow> pk \<Rightarrow> pk option
    \<Rightarrow> 'a books_scheme \<Rightarrow> ('d document_scheme \<times> 'a books_scheme) result" where
  "cancel_document e t k by s =
    bind_res (lock_document t k s) (\<lambda>locked. stamp_cancelled e t locked by s)"

definition collection_table :: "('a books_scheme, collection) doc_table" where
  "collection_table =
    \<lparr>dt_name = collection_type, dt_rows = collections, dt_update = collections_update\<rparr>"

definition payment_out_table :: "('a books_scheme, payment_out) doc_table" where
  "payment_out_table =
    \<lparr>dt_name = payment_out_type, dt_rows = payments_out, dt_update = payments_out_update\<rparr>"

definition manual_entry_table :: "('a books_scheme, manual_entry) doc_table" where
  "manual_entry_table =
    \<lparr>dt_name = manual_entry_type, dt_rows = manual_entries, dt_update = manual_entries_update\<rparr>"

definition transfer_table :: "('a books_scheme, transfer) doc_table" where
  "transfer_table =
    \<lparr>dt_name = transfer_type, dt_rows = transfers, dt_update = transfers_update\<rparr>"

definition opening_table :: "('a books_scheme, opening_balance) doc_table" where
  "opening_table =
    \<lparr>dt_name = opening_type, dt_rows = openings, dt_update = openings_update\<rparr>"

definition cancel_payment_out ::
  "env \<Rightarrow> pk \<Rightarrow> pk option \<Rightarrow> 'a books_scheme \<Rightarrow> (payment_out \<times> 'a books_scheme) result" where
  "cancel_payment_out e k by s = cancel_document e payment_out_table k by s"

definition cancel_manual_entry ::
  "env \<Rightarrow> pk \<Rightarrow> pk option \<Rightarrow> 'a books_scheme \<Rightarrow> (manual_entry \<times> 'a books_scheme) result" where
  "cancel_manual_entry e k by s = cancel_document e manual_entry_table k by s"

definition cancel_transfer ::
  "env \<Rightarrow> pk \<Rightarrow> pk option \<Rightarrow> 'a books_scheme \<Rightarrow> (transfer \<times> 'a books_scheme) result" where
  "cancel_transfer e k by s = cancel_document e transfer_table k by s"

definition cancel_opening ::
  "env \<Rightarrow> pk \<Rightarrow> pk option \<Rightarrow> 'a books_scheme \<Rightarrow> (opening_balance \<times> 'a books_scheme) result" where
  "cancel_opening e k by s = cancel_document e opening_table k by s"

section \<open>Inserting a document: what its table refuses\<close>

definition insert_payment_out ::
  "env \<Rightarrow> payment_out \<Rightarrow> 'a books_scheme \<Rightarrow> (payment_out \<times> 'a books_scheme) result" where
  "insert_payment_out e p s =
    db_insert e payments_out_update (fits 14 (doc_amount p))
      (0 < doc_amount p \<and> unique_with payments_out_clash p (payments_out s)) p s"

definition insert_manual_entry ::
  "env \<Rightarrow> manual_entry \<Rightarrow> 'a books_scheme \<Rightarrow> (manual_entry \<times> 'a books_scheme) result" where
  "insert_manual_entry e m s =
    db_insert e manual_entries_update (fits 14 (doc_amount m)) (0 < doc_amount m) m s"

definition insert_transfer ::
  "env \<Rightarrow> transfer \<Rightarrow> 'a books_scheme \<Rightarrow> (transfer \<times> 'a books_scheme) result" where
  "insert_transfer e t s =
    db_insert e transfers_update (fits 14 (doc_amount t)) (transfer_checks t) t s"

definition insert_opening ::
  "env \<Rightarrow> opening_balance \<Rightarrow> 'a books_scheme \<Rightarrow> (opening_balance \<times> 'a books_scheme) result" where
  "insert_opening e o1 s =
    db_insert e openings_update (fits 14 (doc_amount o1))
      (opening_checks o1 \<and> unique_with openings_clash o1 (openings s)) o1 s"

section \<open>Payments out\<close>

definition record_payment_out ::
  "env \<Rightarrow> account \<Rightarrow> cash_account \<Rightarrow> decimal \<Rightarrow> string \<Rightarrow> date \<Rightarrow> string \<Rightarrow> pk option
    \<Rightarrow> 'a books_scheme \<Rightarrow> (payment_out \<times> 'a books_scheme) result" where
  "record_payment_out e acc cash amount method_name dt note1 by s =
    bind_res (same_firm (company_id acc) ''cash_account'' (Some (company_id cash))) (\<lambda>_.
    bind_res (check_method method_name) (\<lambda>meth.
    bind_res (check_amount amount) (\<lambda>_.
    bind_res (next_number e (company_id acc) PAYMENT_OUT_PREFIX s) (\<lambda>(num, s).
    bind_res (insert_payment_out e (blank_payment_out\<lparr>company_id := company_id acc,
        pay_number := num, pay_account := pk acc, pay_cash := pk cash, doc_amount := rat_of amount,
        pay_method := meth, doc_date := dt, pay_note := note1, created_by := by, updated_by := by\<rparr>) s)
      (\<lambda>(p, s).
    bind_res (post e (Some acc) (Some cash) (Some (direction_value Debit))
        (Some (cash_direction_value Out)) amount (acc_currency acc) dt (source_value Payment_out_src)
        (Some (payment_out_type, pk p))
        (''Tediye '' @ pay_number p) by s) (\<lambda>(_, s).
    Inr (p, s)))))))"

section \<open>Manual entries\<close>

definition record_manual_entry ::
  "env \<Rightarrow> account \<Rightarrow> string \<Rightarrow> decimal \<Rightarrow> date \<Rightarrow> string \<Rightarrow> pk option
    \<Rightarrow> 'a books_scheme \<Rightarrow> (manual_entry \<times> 'a books_scheme) result" where
  "record_manual_entry e acc dir amount dt reason by s =
    (if strip reason = [] then Inl (invalid_with ''reason'' ''required'')
     else case direction_of dir of
       None \<Rightarrow> Inl (invalid ''direction'')
     | Some d \<Rightarrow>
    bind_res (check_amount amount) (\<lambda>_.
    bind_res (insert_manual_entry e (blank_manual_entry\<lparr>company_id := company_id acc,
        man_account := pk acc, man_direction := d, doc_amount := rat_of amount, doc_date := dt,
        man_reason := strip reason, created_by := by, updated_by := by\<rparr>) s) (\<lambda>(m, s).
    bind_res (post e (Some acc) None (Some dir) None amount (acc_currency acc) dt
        (source_value Manual_src)
        (Some (manual_entry_type, pk m))
        (take 500 (man_reason m)) by s) (\<lambda>(_, s).
    Inr (m, s)))))"

section \<open>Transfers\<close>

text \<open>The firm, the key and the currency of a side.\<close>

definition account_side :: "account \<Rightarrow> pk \<times> pk \<times> string" where
  "account_side a = (company_id a, pk a, acc_currency a)"

definition cash_side :: "cash_account \<Rightarrow> pk \<times> pk \<times> string" where
  "cash_side c = (company_id c, pk c, cash_currency c)"

text \<open>
  The choice of the two sides by kind: the kind, the source, the target and the names of
  their fields.
\<close>

definition transfer_sides ::
  "string \<Rightarrow> account option \<Rightarrow> account option \<Rightarrow> cash_account option \<Rightarrow> cash_account option
    \<Rightarrow> (transfer_kind \<times> (pk \<times> pk \<times> string) option \<times> (pk \<times> pk \<times> string) option) result" where
  "transfer_sides kind from_account to_account from_cash to_cash =
    (case transfer_kind_of kind of
       None \<Rightarrow> Inl (invalid ''kind'')
     | Some Between_accounts \<Rightarrow>
         if from_cash \<noteq> None \<or> to_cash \<noteq> None then Inl (invalid ''kind'')
         else Inr (Between_accounts, map_option account_side from_account, map_option account_side to_account)
     | Some Between_cash \<Rightarrow>
         if from_account \<noteq> None \<or> to_account \<noteq> None then Inl (invalid ''kind'')
         else Inr (Between_cash, map_option cash_side from_cash, map_option cash_side to_cash))"

fun source_field :: "transfer_kind \<Rightarrow> string" where
  "source_field Between_accounts = ''from_account''"
| "source_field Between_cash = ''from_cash''"

fun target_field :: "transfer_kind \<Rightarrow> string" where
  "target_field Between_accounts = ''to_account''"
| "target_field Between_cash = ''to_cash''"

text \<open>The two postings of a transfer: out of the source, into the target.\<close>

definition transfer_legs ::
  "transfer_kind \<Rightarrow> account option \<Rightarrow> account option \<Rightarrow> cash_account option \<Rightarrow> cash_account option
    \<Rightarrow> (account option \<times> cash_account option \<times> string option \<times> string option) list" where
  "transfer_legs kind from_account to_account from_cash to_cash =
    (case kind of
       Between_accounts \<Rightarrow>
         [(from_account, None, Some (direction_value Credit), None),
          (to_account, None, Some (direction_value Debit), None)]
     | Between_cash \<Rightarrow>
         [(None, from_cash, None, Some (cash_direction_value Out)),
          (None, to_cash, None, Some (cash_direction_value In))])"

definition record_transfer ::
  "env \<Rightarrow> string \<Rightarrow> decimal \<Rightarrow> date \<Rightarrow> string \<Rightarrow> pk option \<Rightarrow> account option \<Rightarrow> account option
    \<Rightarrow> cash_account option \<Rightarrow> cash_account option \<Rightarrow> 'a books_scheme
    \<Rightarrow> (transfer \<times> 'a books_scheme) result" where
  "record_transfer e kind amount dt note1 by from_account to_account from_cash to_cash s =
    bind_res (transfer_sides kind from_account to_account from_cash to_cash) (\<lambda>(k, source, target).
    bind_res (the_res source (invalid_with (source_field k) ''required'')) (\<lambda>(src_co, src_pk, src_cur).
    bind_res (the_res target (invalid_with (target_field k) ''required'')) (\<lambda>(tgt_co, tgt_pk, tgt_cur).
    bind_res (same_firm src_co (target_field k) (Some tgt_co)) (\<lambda>_.
    if src_pk = tgt_pk then Inl (invalid (target_field k))
    else if src_cur \<noteq> tgt_cur then Inl (field_error (target_field k) CURRENCY_MISMATCH)
    else bind_res (check_amount amount) (\<lambda>_.
    bind_res (insert_transfer e (blank_transfer\<lparr>company_id := src_co, tr_kind := k,
        tr_from_account := map_option pk from_account, tr_to_account := map_option pk to_account,
        tr_from_cash := map_option pk from_cash, tr_to_cash := map_option pk to_cash,
        doc_amount := rat_of amount, doc_date := dt, tr_note := note1,
        created_by := by, updated_by := by\<rparr>) s) (\<lambda>(t, s).
    bind_res (fold_res (\<lambda>(acc, cash, dir, cash_dir) s.
        bind_res (post e acc cash dir cash_dir amount src_cur dt (source_value Transfer_src)
          (Some (transfer_type, pk t))
          (if take 500 note1 = [] then ''Virman'' else take 500 note1) by s) (\<lambda>(_, s). Inr s))
        (transfer_legs k from_account to_account from_cash to_cash) s) (\<lambda>s.
    Inr (t, s))))))))"

section \<open>Opening balances\<close>

definition record_opening ::
  "env \<Rightarrow> string \<Rightarrow> decimal \<Rightarrow> date \<Rightarrow> pk option \<Rightarrow> account option \<Rightarrow> cash_account option
    \<Rightarrow> 'a books_scheme \<Rightarrow> (opening_balance \<times> 'a books_scheme) result" where
  "record_opening e dir amount dt by acc cash s =
    (if (acc = None) = (cash = None) then Inl (invalid ''account'')
     else case direction_of dir of
       None \<Rightarrow> Inl (invalid ''direction'')
     | Some d \<Rightarrow>
    bind_res (check_amount amount) (\<lambda>_.
    let field = (if acc \<noteq> None then ''account'' else ''cash_account'');
        co = (case acc of Some a \<Rightarrow> company_id a | None \<Rightarrow> company_id (the cash));
        currency = (case acc of Some a \<Rightarrow> acc_currency a | None \<Rightarrow> cash_currency (the cash));
        on_side = (\<lambda>a c. if acc \<noteq> None then a = map_option pk acc else c = map_option pk cash);
        standing = filter (\<lambda>o1. opening_stands o1 \<and> on_side (op_account o1) (op_cash o1)) (openings s);
        earliest = agg_min (map mv_date (filter (\<lambda>m. \<not> is_reversed s m \<and> mv_reverses m = None \<and>
            on_side (mv_account m) (mv_cash m)) (movements s)))
    in if standing \<noteq> [] then Inl (invalid_with field ''unique'')
    else if (case earliest of None \<Rightarrow> False | Some first \<Rightarrow> first < dt) then Inl (invalid ''date'')
    else
    bind_res (insert_opening e (blank_opening\<lparr>company_id := co, op_account := map_option pk acc,
        op_cash := map_option pk cash, op_direction := d, doc_amount := rat_of amount,
        doc_date := dt, created_by := by, updated_by := by\<rparr>) s) (\<lambda>(o1, s).
    bind_res (post e acc cash (if acc \<noteq> None then Some dir else None)
        (if cash = None then None
         else Some (cash_direction_value (if d = Debit then In else Out)))
        amount currency dt (source_value Opening_src)
        (Some (opening_type, pk o1))
        ''Devir'' by s) (\<lambda>(_, s).
    Inr (o1, s)))))"

end
