(* ===== verification/Parties.thy ===== *)
theory Parties
  imports Documents
begin

text \<open>
  Accounts, tills, suppliers and the closed-through date: the rest of
  \<open>apps/ledger/services.py\<close> that no document is needed for, and the receiver of
  \<open>apps/ledger/signals.py\<close> that keeps a customer's account in step.
\<close>

section \<open>Accounts\<close>

definition insert_account :: "env \<Rightarrow> account \<Rightarrow> 'a books_scheme \<Rightarrow> (account \<times> 'a books_scheme) result" where
  "insert_account e a s =
    db_insert e accounts_update (length (acc_name a) \<le> 200 \<and> length (acc_currency a) \<le> 3)
      (account_checks a \<and> unique_with accounts_clash a (accounts s)) a s"

definition live_account :: "(account \<Rightarrow> bool) \<Rightarrow> string \<Rightarrow> 'a books_scheme \<Rightarrow> account option" where
  "live_account of_party currency s =
    List.find (\<lambda>a. of_party a \<and> acc_currency a = currency \<and> \<not> is_deleted a) (accounts s)"

definition account_for_customer ::
  "env \<Rightarrow> customer \<Rightarrow> string \<Rightarrow> 'a books_scheme \<Rightarrow> (account \<times> 'a books_scheme) result" where
  "account_for_customer e c currency s =
    (let live = live_account (\<lambda>a. acc_customer a = Some (pk c)) currency s in
     case live of
       Some a \<Rightarrow> Inr (a, s)
     | None \<Rightarrow>
         (case insert_account e (blank_account\<lparr>company_id := company_id c, acc_kind := Customer_account,
             acc_customer := Some (pk c), acc_name := cust_legal_name c, acc_currency := currency\<rparr>) s of
            Inl Integrity_error \<Rightarrow> bind_res (the_res live (Crash Does_not_exist)) (\<lambda>a. Inr (a, s))
          | r \<Rightarrow> r))"

section \<open>Tills\<close>

definition insert_cash_account ::
  "env \<Rightarrow> cash_account \<Rightarrow> 'a books_scheme \<Rightarrow> (cash_account \<times> 'a books_scheme) result" where
  "insert_cash_account e c s =
    db_insert e cash_accounts_update (length (cash_name c) \<le> 200)
      (unique_with tills_clash c (cash_accounts s)) c s"

definition DEFAULT_CASH_ACCOUNT_NAME :: string where
  "DEFAULT_CASH_ACCOUNT_NAME = ''Merkez kasa''"

definition create_default_cash_account ::
  "env \<Rightarrow> company \<Rightarrow> 'a books_scheme \<Rightarrow> (cash_account \<times> 'a books_scheme) result" where
  "create_default_cash_account e company s =
    (case List.find (\<lambda>c. company_id c = co_pk company \<and> cash_role c = Some Default_till \<and>
        \<not> is_deleted c) (cash_accounts s) of
       Some till \<Rightarrow> Inr (till, s)
     | None \<Rightarrow> insert_cash_account e (blank_cash_account\<lparr>company_id := co_pk company,
         cash_kind := Cash_till, cash_role := Some Default_till,
         cash_name := DEFAULT_CASH_ACCOUNT_NAME\<rparr>) s)"

text \<open>Never an inactive till.\<close>

definition default_cash_account ::
  "env \<Rightarrow> pk \<Rightarrow> 'a books_scheme \<Rightarrow> (cash_account \<times> 'a books_scheme) result" where
  "default_cash_account e co s =
    bind_res (get_company co s) (\<lambda>company.
    bind_res (create_default_cash_account e company s) (\<lambda>(till, s).
    if \<not> cash_is_active till then Inl (invalid ''cash_account'') else Inr (till, s)))"

section \<open>Opening an account for a party (open_account)\<close>

text \<open>\<open>User.full_name\<close>\<close>

definition staff_full_name :: "staff \<Rightarrow> string" where
  "staff_full_name u = strip (staff_first_name u @ '' '' @ staff_last_name u)"

datatype party = Party_customer customer | Party_supplier supplier | Party_staff staff

fun party_field :: "account_kind \<Rightarrow> string" where
  "party_field Customer_account = ''customer''"
| "party_field Supplier_account = ''supplier''"
| "party_field Staff_account = ''user''"

fun party_company :: "party \<Rightarrow> pk" where
  "party_company (Party_customer c) = company_id c"
| "party_company (Party_supplier c) = company_id c"
| "party_company (Party_staff c) = company_id c"

fun party_name :: "party \<Rightarrow> string" where
  "party_name (Party_customer c) = cust_legal_name c"
| "party_name (Party_supplier c) = sup_name c"
| "party_name (Party_staff c) =
    (if staff_full_name c \<noteq> [] then staff_full_name c else staff_email c)"

fun account_of_party :: "party \<Rightarrow> account \<Rightarrow> bool" where
  "account_of_party (Party_customer c) a \<longleftrightarrow> acc_customer a = Some (pk c)"
| "account_of_party (Party_supplier c) a \<longleftrightarrow> acc_supplier a = Some (pk c)"
| "account_of_party (Party_staff c) a \<longleftrightarrow> acc_user a = Some (pk c)"

definition has_account :: "party \<Rightarrow> string \<Rightarrow> 'a books_scheme \<Rightarrow> bool" where
  "has_account p currency s \<longleftrightarrow>
    (\<exists>a \<in> set (accounts s). \<not> is_deleted a \<and> acc_currency a = currency \<and> account_of_party p a)"

text \<open>The parties given, in the order the code looks at them.\<close>

definition given_parties ::
  "customer option \<Rightarrow> supplier option \<Rightarrow> staff option \<Rightarrow> (account_kind \<times> party option) list" where
  "given_parties customer supplier user =
    [(Customer_account, map_option Party_customer customer),
     (Supplier_account, map_option Party_supplier supplier),
     (Staff_account, map_option Party_staff user)]"

definition open_account ::
  "env \<Rightarrow> pk \<Rightarrow> string \<Rightarrow> pk option \<Rightarrow> customer option \<Rightarrow> supplier option \<Rightarrow> staff option \<Rightarrow> string
    \<Rightarrow> 'a books_scheme \<Rightarrow> (account \<times> 'a books_scheme) result" where
  "open_account e co kind by customer supplier user currency s =
    (case account_kind_of kind of
       None \<Rightarrow> Inl (invalid ''kind'')
     | Some k \<Rightarrow>
    (case List.find (\<lambda>(other, p). other \<noteq> k \<and> p \<noteq> None) (given_parties customer supplier user) of
       Some (other, _) \<Rightarrow> Inl (invalid (party_field other))
     | None \<Rightarrow>
    bind_res (the_res (case List.find (\<lambda>(other, p). other = k) (given_parties customer supplier user) of
        None \<Rightarrow> None | Some (_, p) \<Rightarrow> p) (invalid_with (party_field k) ''required'')) (\<lambda>party.
    bind_res (same_firm co (party_field k) (Some (party_company party))) (\<lambda>_.
    let taken = invalid_with (party_field k) ''unique'' in
    if has_account party currency s then Inl taken
    else on_integrity_error taken
      (insert_account e (blank_account\<lparr>company_id := co, acc_kind := k,
        acc_customer := map_option pk customer, acc_supplier := map_option pk supplier,
        acc_user := map_option pk user, acc_name := take 200 (party_name party),
        acc_currency := currency, created_by := by, updated_by := by\<rparr>) s)))))"

section \<open>Suppliers\<close>

text \<open>The fields a caller may set, by name; a name that is no column changes no column.\<close>

definition set_supplier_field :: "string \<times> string \<Rightarrow> supplier \<Rightarrow> supplier" where
  "set_supplier_field change sp =
    (case change of (name, v) \<Rightarrow>
      if name = ''name'' then sp\<lparr>sup_name := v\<rparr>
      else if name = ''tax_office'' then sp\<lparr>sup_tax_office := v\<rparr>
      else if name = ''tax_number'' then sp\<lparr>sup_tax_number := v\<rparr>
      else if name = ''phone'' then sp\<lparr>sup_phone := v\<rparr>
      else if name = ''email'' then sp\<lparr>sup_email := v\<rparr>
      else if name = ''address_note'' then sp\<lparr>sup_address_note := v\<rparr>
      else if name = ''notes'' then sp\<lparr>sup_notes := v\<rparr>
      else sp)"

definition supplier_fits :: "supplier \<Rightarrow> bool" where
  "supplier_fits sp \<longleftrightarrow> length (sup_name sp) \<le> 200 \<and> length (sup_tax_office sp) \<le> 100 \<and>
    length (sup_tax_number sp) \<le> 11 \<and> length (sup_phone sp) \<le> 20 \<and> length (sup_email sp) \<le> 150"

definition create_supplier ::
  "env \<Rightarrow> pk \<Rightarrow> pk option \<Rightarrow> (string \<times> string) list \<Rightarrow> 'a books_scheme
    \<Rightarrow> (supplier \<times> 'a books_scheme) result" where
  "create_supplier e co by given s =
    (let sp = fold set_supplier_field given
       (blank_supplier\<lparr>company_id := co, created_by := by, updated_by := by\<rparr>)
     in bind_res (db_insert e suppliers_update (supplier_fits sp) True sp s) (\<lambda>(supplier, s).
        bind_res (insert_account e (blank_account\<lparr>company_id := co, acc_kind := Supplier_account,
          acc_supplier := Some (pk supplier), acc_name := sup_name supplier,
          created_by := by, updated_by := by\<rparr>) s) (\<lambda>(_, s).
        Inr (supplier, s))))"

text \<open>Saving an account under a new name (one of a party's, after a rename).\<close>

definition rename_account ::
  "env \<Rightarrow> string \<Rightarrow> pk option \<Rightarrow> account \<Rightarrow> 'a books_scheme \<Rightarrow> 'a books_scheme result" where
  "rename_account e name by a s =
    bind_res (db_update e accounts_update (length name \<le> 200) True
      (a\<lparr>acc_name := name, updated_by := by\<rparr>) s) (\<lambda>(_, s). Inr s)"

definition update_supplier ::
  "env \<Rightarrow> supplier \<Rightarrow> (string \<times> string) list \<Rightarrow> pk option \<Rightarrow> 'a books_scheme
    \<Rightarrow> (supplier \<times> 'a books_scheme) result" where
  "update_supplier e supplier changes by s =
    (let sp = (fold set_supplier_field changes supplier)\<lparr>updated_by := by\<rparr>
     in bind_res (db_update e suppliers_update (supplier_fits sp) True sp s) (\<lambda>(sp, s).
        bind_res (fold_res (rename_account e (sup_name sp) by)
          (filter (\<lambda>a. acc_supplier a = Some (pk sp) \<and> acc_name a \<noteq> sup_name sp)
            (objects (ctx e) (accounts s))) s) (\<lambda>s.
        Inr (sp, s))))"

section \<open>A customer's account (apps/ledger/signals.py)\<close>

definition keep_customer_account ::
  "env \<Rightarrow> customer \<Rightarrow> bool \<Rightarrow> bool \<Rightarrow> 'a books_scheme \<Rightarrow> 'a books_scheme result" where
  "keep_customer_account e c created raw s =
    (if raw then Inr s
     else bind_res (account_for_customer e c DEFAULT_CURRENCY s) (\<lambda>(_, s).
     if created then Inr s
     else fold_res (\<lambda>a. rename_account e (cust_legal_name c) (updated_by a) a)
       (filter (\<lambda>a. acc_customer a = Some (pk c) \<and> \<not> is_deleted a \<and> acc_name a \<noteq> cust_legal_name c)
         (accounts s)) s))"

section \<open>Closing the books (set_closed_through)\<close>

definition set_closed_through ::
  "env \<Rightarrow> pk \<Rightarrow> date option \<Rightarrow> pk option \<Rightarrow> 'a books_scheme \<Rightarrow> (company \<times> 'a books_scheme) result" where
  "set_closed_through e co dt by s =
    (if (case dt of None \<Rightarrow> False | Some d \<Rightarrow> today e < d) then Inl (invalid ''closed_through'')
     else bind_res (get_company co s) (\<lambda>company.
       if ledger_closed_through company \<noteq> dt
       then let company = company\<lparr>ledger_closed_through := dt, co_updated_by := by, co_updated_at := now e\<rparr>
            in Inr (company, s\<lparr>companies := update_where (\<lambda>c. co_pk c = co) (\<lambda>_. company) (companies s)\<rparr>)
       else Inr (company, s)))"

section \<open>Laws\<close>

lemma insert_account_Inr_iff [res_simps]:
  "insert_account e a s = Inr (a', s') \<longleftrightarrow>
    may_save (ctx e) a \<and> length (acc_name a) \<le> 200 \<and> length (acc_currency a) \<le> 3 \<and>
    account_checks a \<and> unique_with accounts_clash a (accounts s) \<and>
    a' = stamped e (next_pk s) a \<and>
    s' = accounts_update (\<lambda>rows. rows @ [a']) (s\<lparr>next_pk := Suc (next_pk s)\<rparr>)"
  by (auto simp: insert_account_def db_insert_Inr_iff)

lemma account_for_customer_frame:
  assumes "account_for_customer e c currency s = Inr (a, s')"
  shows "movements s' = movements s" and "openings s' = openings s" and "invoices s' = invoices s"
    and "applications s' = applications s" and "collections s' = collections s"
    and "counters s' = counters s" and "companies s' = companies s" and "next_pk s \<le> next_pk s'"
    and "customers s' = customers s" and "cash_accounts s' = cash_accounts s"
  using assms
  by (auto simp: account_for_customer_def Let_def insert_account_Inr_iff
      split: option.splits sum.splits exn.splits)

text \<open>It returns the customer's own live account in that currency, and one that is in the table.\<close>

lemma account_for_customer_Inr:
  assumes "account_for_customer e c currency s = Inr (a, s')"
  shows "acc_customer a = Some (pk c)" and "acc_currency a = currency" and "a \<in> set (accounts s')"
    and "\<not> is_deleted a"
proof -
  have "acc_customer a = Some (pk c) \<and> acc_currency a = currency \<and> a \<in> set (accounts s') \<and> \<not> is_deleted a"
  proof (cases "live_account (\<lambda>a. acc_customer a = Some (pk c)) currency s")
    case None
    with assms show ?thesis
      by (auto simp: account_for_customer_def Let_def insert_account_Inr_iff blank_account_def
          stamped_def split: sum.splits exn.splits)
  next
    case (Some a0)
    then have "a0 \<in> set (accounts s) \<and> acc_customer a0 = Some (pk c) \<and> acc_currency a0 = currency \<and>
        \<not> is_deleted a0"
      unfolding live_account_def by (drule_tac find_Some_iff) auto
    with assms Some show ?thesis by (auto simp: account_for_customer_def Let_def)
  qed
  then show "acc_customer a = Some (pk c)" "acc_currency a = currency" "a \<in> set (accounts s')"
    "\<not> is_deleted a" by auto
qed

text \<open>Asking again finds the same account and writes nothing.\<close>

lemma account_for_customer_idem:
  assumes "account_for_customer e c currency s = Inr (a, s')"
  shows "account_for_customer e' c currency s' = Inr (a, s')"
proof (cases "live_account (\<lambda>a. acc_customer a = Some (pk c)) currency s")
  case (Some a0)
  with assms show ?thesis by (simp add: account_for_customer_def Let_def)
next
  case None
  with assms have a: "a = stamped e (next_pk s) (blank_account\<lparr>company_id := company_id c,
      acc_kind := Customer_account, acc_customer := Some (pk c), acc_name := cust_legal_name c,
      acc_currency := currency\<rparr>)" and s': "accounts s' = accounts s @ [a]"
    by (auto simp: account_for_customer_def Let_def insert_account_Inr_iff split: sum.splits exn.splits)
  have "live_account (\<lambda>a. acc_customer a = Some (pk c)) currency s' = Some a"
    using None by (simp add: live_account_def s' find_append1) (simp add: a stamped_def blank_account_def)
  then show ?thesis by (simp add: account_for_customer_def Let_def)
qed

text \<open>At most one live account per party and currency, kept by every insert.\<close>

lemma accounts_clash_sym: "accounts_clash a b \<Longrightarrow> accounts_clash b a"
  unfolding accounts_clash_def by (elim conjE disjE) simp_all

lemma insert_account_keeps_unique:
  assumes "all_unique accounts_clash (accounts s)" "insert_account e a s = Inr (a', s')"
  shows "all_unique accounts_clash (accounts s')"
proof -
  from assms(2) have "unique_with accounts_clash a' (accounts s)" "accounts s' = accounts s @ [a']"
    by (auto simp: insert_account_Inr_iff unique_with_def accounts_clash_def stamped_def)
  with assms(1) show ?thesis
    using all_unique_append1 [of accounts_clash "accounts s" a'] accounts_clash_sym by auto
qed

text \<open>Setting the closed-through date: what it writes.\<close>

lemma set_closed_through_Inr:
  assumes "set_closed_through e co dt by s = Inr (c, s')"
  shows "ledger_closed_through c = dt" and "\<forall>d. dt = Some d \<longrightarrow> d \<le> today e"
    and "movements s' = movements s"
proof -
  from assms obtain company where g: "get_company co s = Inr company"
    and d: "\<forall>d. dt = Some d \<longrightarrow> d \<le> today e"
    by (auto simp: set_closed_through_def bind_res_Inr_iff not_less split: if_splits option.splits)
  then have "set_closed_through e co dt by s =
      (if ledger_closed_through company \<noteq> dt
       then let company = company\<lparr>ledger_closed_through := dt, co_updated_by := by, co_updated_at := now e\<rparr>
            in Inr (company, s\<lparr>companies := update_where (\<lambda>c. co_pk c = co) (\<lambda>_. company) (companies s)\<rparr>)
       else Inr (company, s))"
    by (auto simp: set_closed_through_def split: option.splits)
  with assms show "ledger_closed_through c = dt" "movements s' = movements s"
    by (auto simp: Let_def split: if_split_asm)
  show "\<forall>d. dt = Some d \<longrightarrow> d \<le> today e" by (fact d)
qed

end
