(* ===== verification/Document_Laws.thy ===== *)
theory Document_Laws
  imports Documents
begin

text \<open>
  What the documents promise: numbers that are never given twice, cancellations that undo,
  payments and transfers that move exactly the amount and nothing else.
\<close>

section \<open>Numbers are read back\<close>

definition undigits :: "string \<Rightarrow> nat" where
  "undigits ds = foldl (\<lambda>a c. 10 * a + (of_char c - 48)) 0 ds"

lemma undigits_append1 [simp]: "undigits (ds @ [digit_char n]) = 10 * undigits ds + n mod 10"
proof -
  have "n mod 10 < 10" by simp
  then have "48 + n mod 10 < 256" by linarith
  then show ?thesis by (simp add: undigits_def digit_char_def)
qed

lemma undigits_digits: "undigits (digits n) = n"
proof (induction n rule: digits.induct)
  case (1 n)
  show ?case
  proof (cases "n < 10")
    case True
    then show ?thesis
      using undigits_append1 [of "[]" n] by (simp add: digits.simps [of n] undigits_def)
  next
    case False
    with 1 show ?thesis by (simp add: digits.simps [of n])
  qed
qed

lemma undigits_zeros: "undigits (replicate k (CHR ''0'') @ ds) = undigits ds"
  by (induction k) (simp_all add: undigits_def)

lemma undigits_padded: "undigits (padded w n) = n"
  by (simp add: padded_def undigits_zeros undigits_digits)

lemma number_text_inj: "number_text p m = number_text p n \<longleftrightarrow> m = n"
  by (metis number_text_def same_append_eq undigits_padded)

lemma digits_length: "n < 10 ^ Suc k \<Longrightarrow> length (digits n) \<le> Suc k"
proof (induction k arbitrary: n)
  case 0
  then show ?case by (simp add: digits.simps [of n])
next
  case (Suc k)
  have "n div 10 < 10 ^ Suc k" using Suc.prems by (simp add: less_mult_imp_div_less)
  with Suc.IH show ?case by (simp add: digits.simps [of n])
qed

text \<open>Six digits up to 999999; the column holds twenty characters.\<close>

lemma number_text_length: "n < 10 ^ 6 \<Longrightarrow> length (number_text p n) = length p + 6"
  using digits_length [of n 5] by (simp add: number_text_def padded_def)

section \<open>The counter\<close>

definition last_number :: "pk \<Rightarrow> string \<Rightarrow> 'a books_scheme \<Rightarrow> nat" where
  "last_number co p s = (case find_counter co p s of None \<Rightarrow> 0 | Some c \<Rightarrow> ctr_last c)"

lemma find_counter_SomeD:
  "find_counter co p s = Some c \<Longrightarrow> c \<in> set (counters s) \<and> company_id c = co \<and> ctr_prefix c = p"
  unfolding find_counter_def by (drule find_Some_iff) auto

text \<open>The keys of the counters are distinct, and below the next key.\<close>

definition counters_ok :: "'a books_scheme \<Rightarrow> bool" where
  "counters_ok s \<longleftrightarrow> distinct (map pk (counters s)) \<and> (\<forall>c \<in> set (counters s). pk c < next_pk s)"

lemma find_update_where:
  assumes "distinct (map pk xs)" "List.find P xs = Some c" "pk c' = pk c" "P c'"
    "\<And>x. x \<in> set xs \<Longrightarrow> pk x = pk c \<Longrightarrow> Q x = Q c'"
  shows "List.find P (update_where (\<lambda>x. pk x = pk c') (\<lambda>_. c') xs) = Some c'"
    and "\<not> Q c' \<Longrightarrow> List.find Q (update_where (\<lambda>x. pk x = pk c') (\<lambda>_. c') xs) = List.find Q xs"
  using assms
proof (induction xs)
  case Nil
  { case 1 then show ?case by simp }
  { case 2 then show ?case by simp }
next
  case (Cons x xs)
  { case 1
    then show ?case
    proof (cases "P x")
      case True
      with 1 show ?thesis by auto
    next
      case False
      with 1 have "c \<in> set xs" by (auto dest: find_Some_iff)
      with 1 have "pk x \<noteq> pk c" by (auto simp: distinct_map image_iff)
      with 1 False Cons.IH(1) show ?thesis by auto
    qed }
  { case 2
    then show ?case
    proof (cases "pk x = pk c")
      case True
      with 2 have "update_where (\<lambda>y. pk y = pk c') (\<lambda>_. c') xs = xs"
        by (intro update_where_none) (auto simp: image_iff)
      moreover have "\<not> Q x" using 2 True by auto
      ultimately show ?thesis using 2 True by auto
    next
      case False
      show ?thesis
      proof (cases "P x")
        case True
        with 2 False show ?thesis by auto
      next
        case nP: False
        with 2 False Cons.IH(2) show ?thesis by auto
      qed
    qed }
qed

lemma counters_update_eq: "counters_update f s = s\<lparr>counters := f (counters s)\<rparr>"
  by (cases s) simp

lemma next_number_Inr:
  assumes ok: "counters_ok s" and "next_number e co p s = Inr (num, s')"
  shows "num = number_text p (Suc (last_number co p s))"
    and "last_number co p s' = Suc (last_number co p s)"
    and "counters_ok s'"
    and "(co', p') \<noteq> (co, p) \<Longrightarrow> last_number co' p' s' = last_number co' p' s"
    and "movements s' = movements s" and "next_pk s \<le> next_pk s'"
    and "\<exists>cs n. s' = s\<lparr>counters := cs, next_pk := n\<rparr>"
proof -
  define found where "found = (case find_counter co p s of
        Some c \<Rightarrow> Inr (c, s)
      | None \<Rightarrow>
          (case create_counter e co p s of
             Inl Integrity_error \<Rightarrow>
               bind_res (the_res (find_counter co p s) (Crash Does_not_exist)) (\<lambda>c. Inr (c, s))
           | r \<Rightarrow> r))"
  from assms(2) obtain c s1 where c: "found = Inr (c, s1)"
    and upd: "db_update e counters_update (Suc (ctr_last c) \<le> 2147483647) True
        (c\<lparr>ctr_last := Suc (ctr_last c)\<rparr>) s1 = Inr (c\<lparr>ctr_last := Suc (ctr_last c), updated_at := now e\<rparr>, s')"
    and num: "num = number_text p (Suc (ctr_last c))"
    unfolding next_number_def found_def [symmetric]
    by (auto simp: bind_res_Inr_iff db_update_def Let_def split: if_splits)
  have s1: "find_counter co p s1 = Some c \<and> counters_ok s1 \<and> ctr_last c = last_number co p s \<and>
      (\<forall>co' p'. (co', p') \<noteq> (co, p) \<longrightarrow> last_number co' p' s1 = last_number co' p' s) \<and>
      next_pk s \<le> next_pk s1 \<and> (\<exists>cs n. s1 = s\<lparr>counters := cs, next_pk := n\<rparr>)"
  proof (cases "find_counter co p s")
    case (Some c0)
    with c ok show ?thesis
      by (auto simp: found_def last_number_def intro!: exI [of _ "counters s"] exI [of _ "next_pk s"])
  next
    case None
    with c have "create_counter e co p s = Inr (c, s1)"
      by (auto simp: found_def split: sum.splits exn.splits)
    then have c1: "c = stamped e (next_pk s) (blank_counter\<lparr>company_id := co, ctr_prefix := p\<rparr>)"
      and s1: "s1 = s\<lparr>next_pk := Suc (next_pk s), counters := counters s @ [c]\<rparr>"
      by (auto simp: create_counter_def Let_def db_insert_Inr_iff)
    have cc: "pk c = next_pk s" "company_id c = co" "ctr_prefix c = p" "ctr_last c = 0"
      by (simp_all add: c1 stamped_def blank_counter_def)
    have 1: "counters_ok s1" using ok by (fastforce simp: counters_ok_def s1 cc(1))
    have 2: "find_counter co p s1 = Some c"
      using None cc by (simp add: find_counter_def s1 find_append1)
    have 3: "last_number co' p' s1 = last_number co' p' s" if "(co', p') \<noteq> (co, p)" for co' p'
      using that cc by (auto simp: last_number_def find_counter_def s1 find_append1 split: option.splits)
    have 4: "\<exists>cs n. s1 = s\<lparr>counters := cs, next_pk := n\<rparr>"
      by (intro exI [of _ "counters s @ [c]"] exI [of _ "Suc (next_pk s)"]) (simp add: s1)
    have 5: "next_pk s \<le> next_pk s1" by (simp add: s1)
    have 6: "last_number co p s = 0" using None by (simp add: last_number_def)
    show ?thesis
      by (intro conjI allI impI) (fact 2, fact 1, simp only: 6 cc(4), rule 3, assumption, fact 5, fact 4)
  qed
  define c' where "c' = c\<lparr>ctr_last := Suc (ctr_last c), updated_at := now e\<rparr>"
  have c': "pk c' = pk c" "company_id c' = company_id c" "ctr_prefix c' = ctr_prefix c"
    "ctr_last c' = Suc (ctr_last c)" by (simp_all add: c'_def)
  from upd have "s' = counters_update (update_where (\<lambda>x. pk x = pk c') (\<lambda>_. c')) s1"
    by (simp add: db_update_def Let_def c'_def split: if_splits)
  also have "\<dots> = s1\<lparr>counters := update_where (\<lambda>x. pk x = pk c') (\<lambda>_. c') (counters s1)\<rparr>"
    by (rule counters_update_eq)
  finally have s': "s' = s1\<lparr>counters := update_where (\<lambda>x. pk x = pk c') (\<lambda>_. c') (counters s1)\<rparr>" .
  from s1 have f: "find_counter co p s1 = Some c" and ok1: "counters_ok s1" by simp_all
  note fc = find_counter_SomeD [OF f]
  have dist: "distinct (map pk (counters s1))" using ok1 by (simp add: counters_ok_def)
  have uniq: "x = c" if "x \<in> set (counters s1)" "pk x = pk c" for x
    using distinct_map_unique [OF dist that(1)] fc that(2) by blast
  show "num = number_text p (Suc (last_number co p s))" using num s1 by simp
  have "find_counter co p s' = Some c'"
    unfolding find_counter_def s'
    using find_update_where(1) [OF dist f [unfolded find_counter_def] c'(1)] fc c'
    by simp
  then show "last_number co p s' = Suc (last_number co p s)"
    using s1 c' by (simp add: last_number_def)
  show "counters_ok s'"
    using ok1 fc c'(1) by (auto simp: counters_ok_def s' map_pk_save set_update_where)
  show "last_number co' p' s' = last_number co' p' s" if ne: "(co', p') \<noteq> (co, p)"
  proof -
    let ?Q = "\<lambda>x :: counter. company_id x = co' \<and> ctr_prefix x = p'"
    have "find_counter co' p' s' = find_counter co' p' s1"
      unfolding find_counter_def s'
      using find_update_where(2) [OF dist f [unfolded find_counter_def] c'(1), of ?Q] fc c' ne uniq
      by auto
    then have "last_number co' p' s' = last_number co' p' s1" by (simp add: last_number_def)
    with s1 ne show ?thesis by auto
  qed
  from s1 obtain cs n where "s1 = s\<lparr>counters := cs, next_pk := n\<rparr>" by blast
  then show "movements s' = movements s" by (simp add: s')
  show "next_pk s \<le> next_pk s'" using s1 by (simp add: s')
  show "\<exists>cs n. s' = s\<lparr>counters := cs, next_pk := n\<rparr>"
    using \<open>s1 = s\<lparr>counters := cs, next_pk := n\<rparr>\<close>
    by (intro exI [of _ "update_where (\<lambda>x. pk x = pk c') (\<lambda>_. c') cs"] exI [of _ n]) (simp add: s')
qed

text \<open>Any number of calls, one after the other.\<close>

fun take_numbers :: "env \<Rightarrow> pk \<Rightarrow> string \<Rightarrow> nat \<Rightarrow> 'a books_scheme \<Rightarrow> (string list \<times> 'a books_scheme) result" where
  "take_numbers e co p 0 s = Inr ([], s)"
| "take_numbers e co p (Suc n) s =
    bind_res (next_number e co p s) (\<lambda>(num, s).
    bind_res (take_numbers e co p n s) (\<lambda>(nums, s). Inr (num # nums, s)))"

lemma take_numbers_eq:
  "counters_ok s \<Longrightarrow> take_numbers e co p n s = Inr (nums, s') \<Longrightarrow>
    nums = map (number_text p) [Suc (last_number co p s) ..< Suc (last_number co p s) + n]"
proof (induction n arbitrary: s nums)
  case 0
  then show ?case by simp
next
  case (Suc n)
  from Suc.prems(2) obtain num s1 rest where 1: "next_number e co p s = Inr (num, s1)"
    and 2: "take_numbers e co p n s1 = Inr (rest, s')" and nums: "nums = num # rest"
    by (auto simp: bind_res_Inr_iff)
  note n1 = next_number_Inr [OF Suc.prems(1) 1]
  from Suc.IH [OF n1(3) 2] show ?case
    by (simp add: nums n1(1,2) upt_conv_Cons del: upt_Suc)
qed

section \<open>Cancelling\<close>

lemma by_pk_save:
  "by_pk k rows = Some d0 \<Longrightarrow> pk d = k \<Longrightarrow>
    by_pk k (update_where (\<lambda>x. pk x = k) (\<lambda>_. d) rows) = Some d"
  unfolding by_pk_def by (induction rows) (auto split: if_splits)

locale document_table =
  fixes t :: "('a books_scheme, 'd document_scheme) doc_table"
  assumes rows_update: "dt_rows t (dt_update t f s) = f (dt_rows t s)"
    and update_movements: "movements (dt_update t f s) = movements s"
    and update_next_pk: "next_pk (dt_update t f s) = next_pk s"
    and rows_add: "dt_rows t (add_movements ms s) = dt_rows t s"
begin

lemma cancel_Inr:
  assumes "cancel_document e t k by s = Inr (d, s')"
  obtains d0 rs where "by_pk k (dt_rows t s) = Some d0" "doc_cancelled_at d0 = None"
    "reverse_document e (dt_name t, k) (today e) by Reversal_src s = Inr (rs, add_movements rs s)"
    "d = d0\<lparr>doc_cancelled_at := Some (now e), updated_by := by, updated_at := now e\<rparr>"
    "s' = dt_update t (update_where (\<lambda>x. pk x = k) (\<lambda>_. d)) (add_movements rs s)"
    "may_save (ctx e) d0"
proof -
  from assms obtain d0 where d0: "by_pk k (dt_rows t s) = Some d0" "doc_cancelled_at d0 = None"
    and st: "stamp_cancelled e t d0 by s = Inr (d, s')"
    by (auto simp: cancel_document_def lock_document_def bind_res_Inr_iff get_row_Inr_iff
        split: if_splits)
  have k: "pk d0 = k" using by_pk_SomeD [OF d0(1)] by simp
  from st obtain rs s1 where r: "reverse_document e (dt_name t, pk d0) (today e) by Reversal_src s = Inr (rs, s1)"
    and u: "db_update e (dt_update t) True True
      (d0\<lparr>doc_cancelled_at := Some (now e), updated_by := by\<rparr>) s1 = Inr (d, s')"
    by (auto simp: stamp_cancelled_def bind_res_Inr_iff)
  have s1: "s1 = add_movements rs s" by (rule reverse_document_Inr(1) [OF r])
  from u have d: "d = d0\<lparr>doc_cancelled_at := Some (now e), updated_by := by, updated_at := now e\<rparr>"
    and s': "s' = dt_update t (update_where (\<lambda>x. pk x = k) (\<lambda>_. d)) s1"
    and g: "may_save (ctx e) (d0\<lparr>doc_cancelled_at := Some (now e), updated_by := by\<rparr>)"
    using k by (auto simp: db_update_def Let_def split: if_splits)
  have "may_save (ctx e) d0" using g by (simp add: may_save_def split: option.splits)
  with d0 r k s1 d s' show ?thesis using that by simp
qed

lemma cancel_movements:
  assumes "cancel_document e t k by s = Inr (d, s')"
  obtains rs where "movements s' = movements s @ rs" "\<forall>r \<in> set rs. mv_source r = Reversal_src"
  using assms
proof (rule cancel_Inr)
  fix d0 rs
  assume r: "reverse_document e (dt_name t, k) (today e) by Reversal_src s = Inr (rs, add_movements rs s)"
    and s': "s' = dt_update t (update_where (\<lambda>x. pk x = k) (\<lambda>_. d)) (add_movements rs s)"
  have "mv_source x = Reversal_src" if "x \<in> set rs" for x
    using list_all2_setD [OF reverse_document_Inr(2) [OF r] that] by (auto simp: reversal_ok_def)
  with s' that show thesis by (simp add: update_movements)
qed

lemma cancel_keeps_ok:
  assumes "movements_ok s" "cancel_document e t k by s = Inr (d, s')"
  shows "movements_ok s'"
  using assms(2)
proof (rule cancel_Inr)
  fix d0 rs
  assume r: "reverse_document e (dt_name t, k) (today e) by Reversal_src s = Inr (rs, add_movements rs s)"
    and s': "s' = dt_update t (update_where (\<lambda>x. pk x = k) (\<lambda>_. d)) (add_movements rs s)"
  from reverse_document_keeps_ok [OF assms(1) r] show ?thesis
    by (simp add: s' movements_ok_def update_movements update_next_pk)
qed

text \<open>Every balance is what it would be without the document.\<close>

lemma cancel_restores:
  assumes "movements_ok s" "cancel_document e t k by s = Inr (d, s')"
    "\<forall>m \<in> set (movements s). of_document (dt_name t, k) m \<longrightarrow> visible (ctx e) m"
  shows "account_total a (movements s') =
      account_total a (filter (\<lambda>m. \<not> of_document (dt_name t, k) m) (movements s))"
    and "cash_total a (movements s') =
      cash_total a (filter (\<lambda>m. \<not> of_document (dt_name t, k) m) (movements s))"
proof -
  from assms(2) obtain rs where
    r: "reverse_document e (dt_name t, k) (today e) by Reversal_src s = Inr (rs, add_movements rs s)"
    and m: "movements s' = movements (add_movements rs s)"
    by (rule cancel_Inr) (auto simp: update_movements)
  then show "account_total a (movements s') =
      account_total a (filter (\<lambda>m. \<not> of_document (dt_name t, k) m) (movements s))"
    "cash_total a (movements s') =
      cash_total a (filter (\<lambda>m. \<not> of_document (dt_name t, k) m) (movements s))"
    using reversal_restores [OF assms(1) r assms(3)] unfolding m by simp_all
qed

text \<open>The document is stamped, and a second cancellation is refused whatever came between,
  as long as the row kept its stamp.\<close>

lemma cancel_stamps:
  assumes "cancel_document e t k by s = Inr (d, s')"
  shows "by_pk k (dt_rows t s') = Some d" and "doc_cancelled_at d = Some (now e)"
proof -
  from assms obtain d0 rs where d0: "by_pk k (dt_rows t s) = Some d0"
    and d: "d = d0\<lparr>doc_cancelled_at := Some (now e), updated_by := by, updated_at := now e\<rparr>"
    and s': "s' = dt_update t (update_where (\<lambda>x. pk x = k) (\<lambda>_. d)) (add_movements rs s)"
    by (rule cancel_Inr)
  have "pk d = k" using by_pk_SomeD [OF d0] by (simp add: d)
  with d0 show "by_pk k (dt_rows t s') = Some d"
    unfolding s' rows_update rows_add by (rule by_pk_save)
  show "doc_cancelled_at d = Some (now e)" by (simp add: d)
qed

lemma cancelled_refused:
  assumes "by_pk k (dt_rows t s) = Some d" "doc_cancelled_at d \<noteq> None"
  shows "cancel_document e t k by s = Inl (Conflict ALREADY_REVERSED)"
  using assms by (simp add: cancel_document_def lock_document_def get_row_def)

end

interpretation collection_doc: document_table collection_table
  by unfold_locales (simp_all add: collection_table_def)

interpretation payment_out_doc: document_table payment_out_table
  by unfold_locales (simp_all add: payment_out_table_def)

interpretation manual_entry_doc: document_table manual_entry_table
  by unfold_locales (simp_all add: manual_entry_table_def)

interpretation transfer_doc: document_table transfer_table
  by unfold_locales (simp_all add: transfer_table_def)

interpretation opening_doc: document_table opening_table
  by unfold_locales (simp_all add: opening_table_def)

section \<open>What recording a document moves\<close>

lemma next_number_frame:
  assumes "next_number e co p s = Inr (num, s')"
  shows "movements s' = movements s" and "openings s' = openings s" and "invoices s' = invoices s"
    and "applications s' = applications s" and "collections s' = collections s"
    and "next_pk s \<le> next_pk s'" and "accounts s' = accounts s"
    and "companies s' = companies s" and "payments_out s' = payments_out s"
  using assms
  by (auto simp: next_number_def create_counter_def Let_def bind_res_Inr_iff db_insert_Inr_iff
      db_update_def split: option.splits sum.splits exn.splits if_splits)

lemma check_amount_Inr_iff [res_simps]:
  "check_amount d = Inr u \<longleftrightarrow> is_money d = Inr True"
  by (auto simp: check_amount_def bind_res_Inr_iff require_Inr_iff)

lemma same_firm_Inr_iff [res_simps]:
  "same_firm co f r = Inr u \<longleftrightarrow> (\<forall>c. r = Some c \<longrightarrow> c = co)"
  by (auto simp: same_firm_def require_Inr_iff split: option.splits)

lemma check_method_Inr_iff [res_simps]: "check_method m = Inr k \<longleftrightarrow> method_of m = Some k"
  by (simp add: check_method_def the_res_Inr_iff)

lemma insert_document_frame:
  "insert_payment_out e p s = Inr (p', s') \<Longrightarrow> movements s' = movements s"
  "insert_manual_entry e m s = Inr (m', s') \<Longrightarrow> movements s' = movements s"
  "insert_transfer e t s = Inr (t', s') \<Longrightarrow> movements s' = movements s"
  "insert_opening e o1 s = Inr (o1', s') \<Longrightarrow> movements s' = movements s"
  by (auto simp: insert_payment_out_def insert_manual_entry_def insert_transfer_def
      insert_opening_def db_insert_Inr_iff)

text \<open>The row a posting with these directions writes.\<close>

definition written ::
  "account option \<Rightarrow> cash_account option \<Rightarrow> direction option \<Rightarrow> cash_direction option \<Rightarrow> rat \<Rightarrow> date
    \<Rightarrow> movement_source \<Rightarrow> string \<times> pk \<Rightarrow> movement \<Rightarrow> bool" where
  "written acc cash d cd amount dt src doc m \<longleftrightarrow>
    mv_account m = map_option pk acc \<and> mv_cash m = map_option pk cash \<and> mv_direction m = d \<and>
    mv_cash_direction m = cd \<and> mv_amount m = amount \<and> mv_date m = dt \<and> mv_source m = src \<and>
    of_document doc m \<and> 0 < amount \<and> mv_reverses m = None"

lemma post_written:
  assumes "post e acc cash dir cash_dir amount currency dt (source_value src) (Some doc) description by s = Inr (m, s')"
  shows "movements s' = movements s @ [m] \<and>
    written acc cash (Option.bind dir direction_of) (Option.bind cash_dir cash_direction_of)
      (rat_of amount) dt src doc m"
  using post_Inr [OF assms]
  by (auto simp: written_def posting_ok_def of_document_def movement_checks_def)

lemma record_payment_out_Inr:
  assumes "record_payment_out e acc cash amount method_name dt note1 by s = Inr (p, s')"
  obtains m where "movements s' = movements s @ [m]"
    "written (Some acc) (Some cash) (Some Debit) (Some Out) (rat_of amount) dt Payment_out_src
      (payment_out_type, pk p) m"
  using assms unfolding record_payment_out_def
  by (auto simp: bind_res_Inr_iff dest!: post_written insert_document_frame(1)
      next_number_frame(1) simp del: direction_value.simps cash_direction_value.simps source_value.simps)

lemma record_manual_entry_Inr:
  assumes "record_manual_entry e acc dir amount dt reason by s = Inr (r, s')"
  obtains m d where "movements s' = movements s @ [m]" "direction_of dir = Some d"
    "written (Some acc) None (Some d) None (rat_of amount) dt Manual_src
      (manual_entry_type, pk r) m" "strip reason \<noteq> []"
  using assms unfolding record_manual_entry_def bind_res_Inr_iff
  by (auto simp: bind_res_Inr_iff dest!: post_written insert_document_frame(2)
      split: if_splits option.splits simp del: source_value.simps)

text \<open>A transfer is two movements, one out of its source and one into its target.\<close>

lemma two_legs:
  assumes "fold_res (\<lambda>(acc, cash, dir, cash_dir) s.
        bind_res (post e acc cash dir cash_dir amount currency dt (source_value Transfer_src)
          (Some doc) descr by s) (\<lambda>(_, s). Inr s)) [(a1, c1, d1, k1), (a2, c2, d2, k2)] s = Inr s'"
  obtains m1 m2 where "movements s' = movements s @ [m1, m2]"
    "written a1 c1 (Option.bind d1 direction_of) (Option.bind k1 cash_direction_of) (rat_of amount)
      dt Transfer_src doc m1"
    "written a2 c2 (Option.bind d2 direction_of) (Option.bind k2 cash_direction_of) (rat_of amount)
      dt Transfer_src doc m2"
proof -
  from assms obtain m1 s1 m2 where
    1: "post e a1 c1 d1 k1 amount currency dt (source_value Transfer_src) (Some doc) descr by s = Inr (m1, s1)"
    and 2: "post e a2 c2 d2 k2 amount currency dt (source_value Transfer_src) (Some doc) descr by s1 = Inr (m2, s')"
    by (auto simp: bind_res_Inr_iff)
  from post_written [OF 1] post_written [OF 2] show ?thesis by (intro that [of m1 m2]) auto
qed

lemma transfer_sides_Inr:
  assumes "transfer_sides kind fa ta fc tc = Inr (k, src, tgt)"
  shows "transfer_kind_of kind = Some k"
    and "k = Between_accounts \<Longrightarrow> fc = None \<and> tc = None \<and> src = map_option account_side fa \<and>
      tgt = map_option account_side ta"
    and "k = Between_cash \<Longrightarrow> fa = None \<and> ta = None \<and> src = map_option cash_side fc \<and>
      tgt = map_option cash_side tc"
  using assms
  by (auto simp: transfer_sides_def split: option.splits transfer_kind.splits if_splits)

lemma record_transfer_Inr:
  assumes "record_transfer e kind amount dt note1 by fa ta fc tc s = Inr (t, s')"
  obtains (accounts) a b m1 m2 where "fa = Some a" "ta = Some b" "pk a \<noteq> pk b" "fc = None" "tc = None"
      "acc_currency a = acc_currency b" "company_id a = company_id b"
      "movements s' = movements s @ [m1, m2]"
      "written (Some a) None (Some Credit) None (rat_of amount) dt Transfer_src (transfer_type, pk t) m1"
      "written (Some b) None (Some Debit) None (rat_of amount) dt Transfer_src (transfer_type, pk t) m2"
    | (cash) a b m1 m2 where "fc = Some a" "tc = Some b" "pk a \<noteq> pk b" "fa = None" "ta = None"
      "cash_currency a = cash_currency b" "company_id a = company_id b"
      "movements s' = movements s @ [m1, m2]"
      "written None (Some a) None (Some Out) (rat_of amount) dt Transfer_src (transfer_type, pk t) m1"
      "written None (Some b) None (Some In) (rat_of amount) dt Transfer_src (transfer_type, pk t) m2"
proof -
  from assms obtain k src tgt where ts: "transfer_sides kind fa ta fc tc = Inr (k, src, tgt)"
    by (auto simp: record_transfer_def bind_res_Inr_iff)
  with assms obtain sc sp scur tcu tr s1 descr where sides: "src = Some (sc, sp, scur)"
    "tgt = Some tcu" "fst tcu = sc" "sp \<noteq> fst (snd tcu)" "scur = snd (snd tcu)"
    and ins: "insert_transfer e tr s = Inr (t, s1)"
    and legs: "fold_res (\<lambda>(acc, cash, dir, cash_dir) s.
        bind_res (post e acc cash dir cash_dir amount scur dt (source_value Transfer_src)
          (Some (transfer_type, pk t))
          descr by s) (\<lambda>(_, s). Inr s))
        (transfer_legs k fa ta fc tc) s1 = Inr s'"
    by (auto simp: record_transfer_def bind_res_Inr_iff the_res_Inr_iff
        same_firm_Inr_iff split: if_splits)
  note s1 = insert_document_frame(3) [OF ins]
  note ts = transfer_sides_Inr [OF ts]
  show ?thesis
  proof (cases k)
    case Between_accounts
    with ts(2) sides obtain a b where ab: "fa = Some a" "ta = Some b" "fc = None" "tc = None"
      by (cases fa; cases ta) auto
    from legs [unfolded transfer_legs_def Between_accounts transfer_kind.case]
    obtain m1 m2 where "movements s' = movements s1 @ [m1, m2]"
      "written fa None (Some Credit) None (rat_of amount) dt Transfer_src (transfer_type, pk t) m1"
      "written ta None (Some Debit) None (rat_of amount) dt Transfer_src (transfer_type, pk t) m2"
      by (rule two_legs) auto
    with accounts [of a b m1 m2] ab ts(2) Between_accounts sides s1 show ?thesis
      by (auto simp: account_side_def)
  next
    case Between_cash
    with ts(3) sides obtain a b where ab: "fc = Some a" "tc = Some b" "fa = None" "ta = None"
      by (cases fc; cases tc) auto
    from legs [unfolded transfer_legs_def Between_cash transfer_kind.case]
    obtain m1 m2 where "movements s' = movements s1 @ [m1, m2]"
      "written None fc None (Some Out) (rat_of amount) dt Transfer_src (transfer_type, pk t) m1"
      "written None tc None (Some In) (rat_of amount) dt Transfer_src (transfer_type, pk t) m2"
      by (rule two_legs) auto
    with cash [of a b m1 m2] ab ts(3) Between_cash sides s1 show ?thesis
      by (auto simp: cash_side_def)
  qed
qed

lemma record_opening_Inr:
  assumes "record_opening e dir amount dt by acc cash s = Inr (r, s')"
  obtains m d where "movements s' = movements s @ [m]" "direction_of dir = Some d"
    "written acc cash (if acc = None then None else Some d)
      (if cash = None then None else Some (if d = Debit then In else Out))
      (rat_of amount) dt Opening_src (opening_type, pk r) m"
    "(acc = None) \<noteq> (cash = None)"
    "\<And>x. x \<in> set (movements s) \<Longrightarrow> \<not> is_reversed s x \<Longrightarrow> mv_reverses x = None \<Longrightarrow>
      (if acc \<noteq> None then mv_account x = map_option pk acc else mv_cash x = map_option pk cash) \<Longrightarrow>
      dt \<le> mv_date x"
proof -
  from assms obtain d where d: "direction_of dir = Some d" "(acc = None) \<noteq> (cash = None)"
    by (auto simp: record_opening_def split: if_splits option.splits)
  define dates where "dates = map mv_date (filter (\<lambda>m. \<not> is_reversed s m \<and> mv_reverses m = None \<and>
      (if acc \<noteq> None then mv_account m = map_option pk acc else mv_cash m = map_option pk cash))
      (movements s))"
  from assms d obtain op s1 m where ins: "insert_opening e op s = Inr (r, s1)"
    and first: "\<forall>x. agg_min dates = Some x \<longrightarrow> dt \<le> x"
    and post: "post e acc cash (if acc \<noteq> None then Some dir else None)
        (if cash = None then None
         else Some (cash_direction_value (if d = Debit then In else Out)))
        amount (case acc of Some a \<Rightarrow> acc_currency a | None \<Rightarrow> cash_currency (the cash)) dt
        (source_value Opening_src)
        (Some (opening_type, pk r))
        ''Devir'' by s1 = Inr (m, s')"
    unfolding dates_def
    by (auto simp: record_opening_def bind_res_Inr_iff Let_def not_less
        simp del: source_value.simps cash_direction_value.simps
        split: if_splits option.splits)
  note s1 = insert_document_frame(4) [OF ins]
  have "dt \<le> x" if "x \<in> set dates" for x
    using first that agg_min_le [of dates] by (cases "agg_min dates") force+
  with post_written [OF post] s1 d show ?thesis
    by (intro that [of m d]) (auto simp: dates_def split: if_splits)
qed

lemma written_totals:
  assumes "written acc cash d cd amount dt src doc m"
  shows "signed_amount m = (case d of None \<Rightarrow> 0 | Some Debit \<Rightarrow> amount | Some Credit \<Rightarrow> - amount)"
    and "cash_amount m = (case cd of None \<Rightarrow> 0 | Some In \<Rightarrow> amount | Some Out \<Rightarrow> - amount)"
    and "mv_account m = map_option pk acc" and "mv_cash m = map_option pk cash"
  using assms by (auto simp: written_def signed_amount_def cash_amount_def)

end
