(* ===== verification/Collections.thy ===== *)
theory Collections
  imports Parties Document_Laws
begin

text \<open>
  Collections and the invoices they pay: \<open>_apply\<close>, \<open>record_collection\<close>, \<open>apply_collection\<close>,
  \<open>cancel_collection\<close>, \<open>post_invoice\<close>, \<open>reverse_invoice\<close>, \<open>sync_invoice_status\<close> and
  \<open>collect_invoice\<close> of \<open>apps/ledger/services.py\<close>.
\<close>

section \<open>Invoices as the ledger sees them\<close>

definition payable :: "invoice \<Rightarrow> bool" where
  "payable i \<longleftrightarrow> inv_status i \<in> {Issued, Paid} \<and> inv_cancelled_at i = None"

text \<open>\<open>InvoiceDraft.objects.get(pk=...)\<close>\<close>

definition get_invoice :: "env \<Rightarrow> pk \<Rightarrow> 'a books_scheme \<Rightarrow> invoice result" where
  "get_invoice e k s = get_row k (objects (ctx e) (invoices s))"

definition invoice_fits :: "invoice \<Rightarrow> bool" where
  "invoice_fits i \<longleftrightarrow> fits 5 (inv_vat_rate i) \<and> fits 14 (inv_subtotal i) \<and> fits 14 (inv_vat_amount i) \<and>
    fits 14 (inv_total i) \<and> length (inv_number i) \<le> 40 \<and> length (inv_currency i) \<le> 3"

text \<open>\<open>draft.save(...)\<close>: the row is checked against the constraints of the table.\<close>

definition update_invoice :: "env \<Rightarrow> invoice \<Rightarrow> 'a books_scheme \<Rightarrow> (invoice \<times> 'a books_scheme) result" where
  "update_invoice e i s =
    db_update e invoices_update (invoice_fits i)
      (invoice_checks i \<and> unique_with invoices_clash i (filter (\<lambda>x. pk x \<noteq> pk i) (invoices s))) i s"

definition collection_date_of :: "pk \<Rightarrow> 'a books_scheme \<Rightarrow> date list" where
  "collection_date_of k s =
    map doc_date (filter (\<lambda>c. pk c = k \<and> doc_cancelled_at c = None \<and> \<not> is_deleted c) (collections s))"

text \<open>The latest date of the collections still applied.\<close>

definition latest_collection :: "pk \<Rightarrow> 'a books_scheme \<Rightarrow> date option" where
  "latest_collection k s =
    agg_max (concat (map (\<lambda>a. collection_date_of (app_collection a) s) (standing_applications k s)))"

definition status_by_collections :: "invoice \<Rightarrow> 'a books_scheme \<Rightarrow> invoice_status \<times> date option" where
  "status_by_collections i s =
    (if inv_total i = 0 then (Paid, inv_date i)
     else if invoice_remaining i s \<le> 0
     then (Paid, case latest_collection (pk i) s of Some d \<Rightarrow> Some d | None \<Rightarrow> inv_date i)
     else (Issued, None))"

definition sync_invoice_status :: "env \<Rightarrow> pk \<Rightarrow> 'a books_scheme \<Rightarrow> (invoice \<times> 'a books_scheme) result" where
  "sync_invoice_status e k s =
    bind_res (get_invoice e k s) (\<lambda>locked.
    if \<not> payable locked then Inr (locked, s)
    else let target = status_by_collections locked s in
      if (inv_status locked, inv_paid_on locked) \<noteq> target
      then update_invoice e (locked\<lparr>inv_status := fst target, inv_paid_on := snd target\<rparr>) s
      else Inr (locked, s))"

text \<open>\<open>for invoice_id in sorted(...): sync_invoice_status(...)\<close>\<close>

definition sync_all :: "env \<Rightarrow> pk list \<Rightarrow> 'a books_scheme \<Rightarrow> 'a books_scheme result" where
  "sync_all e ks s =
    fold_res (\<lambda>k s. bind_res (sync_invoice_status e k s) (\<lambda>(_, s). Inr s)) (sort (remdups ks)) s"

section \<open>Applying a collection to invoices (_apply)\<close>

text \<open>The amounts asked for, added up per invoice.\<close>

fun add_to :: "pk \<Rightarrow> rat \<Rightarrow> (pk \<times> rat) list \<Rightarrow> (pk \<times> rat) list" where
  "add_to k x [] = [(k, x)]"
| "add_to k x ((j, y) # rest) = (if j = k then (j, y + x) # rest else (j, y) # add_to k x rest)"

definition per_invoice :: "pk \<Rightarrow> (invoice \<times> decimal) list \<Rightarrow> (pk \<times> rat) list result" where
  "per_invoice co applies =
    fold_res (\<lambda>(i, amount) acc.
      bind_res (same_firm co ''applies'' (Some (company_id i))) (\<lambda>_.
      bind_res (is_money amount) (\<lambda>ok.
      if \<not> ok then Inl (invalid ''applies'') else Inr (add_to (pk i) (rat_of amount) acc)))) applies []"

definition insert_application ::
  "env \<Rightarrow> application \<Rightarrow> 'a books_scheme \<Rightarrow> (application \<times> 'a books_scheme) result" where
  "insert_application e a s =
    db_insert e applications_update (fits 14 (app_amount a))
      (0 < app_amount a \<and> unique_with applications_clash a (applications s)) a s"

definition apply_one ::
  "env \<Rightarrow> collection \<Rightarrow> account \<Rightarrow> pk option \<Rightarrow> pk \<times> rat \<Rightarrow> 'a books_scheme \<Rightarrow> 'a books_scheme result" where
  "apply_one e c acc by entry s =
    (case List.find (\<lambda>i. pk i = fst entry \<and> company_id i = company_id c) (objects (ctx e) (invoices s)) of
       None \<Rightarrow> Inl (invalid_with ''applies'' ''does_not_exist'')
     | Some i \<Rightarrow>
         if \<not> payable i \<or> acc_kind acc \<noteq> Customer_account \<or> Some (inv_customer i) \<noteq> acc_customer acc
         then Inl (invalid ''applies'')
         else if inv_currency i \<noteq> acc_currency acc then Inl (field_error ''applies'' CURRENCY_MISMATCH)
         else if invoice_remaining i s < snd entry
         then Inl (field_error ''applies'' OVERPAYMENT_ON_INVOICE)
         else if \<exists>a \<in> set (applications s). app_collection a = pk c \<and> app_invoice a = pk i
         then Inl (invalid_with ''applies'' ''unique'')
         else bind_res (insert_application e (blank_application\<lparr>company_id := company_id c,
             app_collection := pk c, app_invoice := pk i, app_amount := snd entry,
             created_by := by, updated_by := by\<rparr>) s) (\<lambda>(_, s). Inr s))"

definition apply_to_invoices ::
  "env \<Rightarrow> collection \<Rightarrow> account result \<Rightarrow> (invoice \<times> decimal) list \<Rightarrow> pk option \<Rightarrow> rat
    \<Rightarrow> 'a books_scheme \<Rightarrow> 'a books_scheme result" where
  "apply_to_invoices e c acc applies by limit s =
    bind_res (per_invoice (company_id c) applies) (\<lambda>amounts.
    if limit < sum_list (map snd amounts) then Inl (invalid ''applies'')
    else bind_res acc (\<lambda>acc.
      fold_res (apply_one e c acc by) (sort_key fst amounts) s))"

section \<open>Recording a collection\<close>

definition insert_collection ::
  "env \<Rightarrow> collection \<Rightarrow> 'a books_scheme \<Rightarrow> (collection \<times> 'a books_scheme) result" where
  "insert_collection e c s =
    db_insert e collections_update (fits 14 (doc_amount c))
      (0 < doc_amount c \<and> unique_with collections_clash c (collections s)) c s"

definition record_collection ::
  "env \<Rightarrow> account \<Rightarrow> cash_account \<Rightarrow> decimal \<Rightarrow> string \<Rightarrow> date \<Rightarrow> string \<Rightarrow> (invoice \<times> decimal) list
    \<Rightarrow> pk option \<Rightarrow> 'a books_scheme \<Rightarrow> (collection \<times> 'a books_scheme) result" where
  "record_collection e acc cash amount method_name dt note1 applies by s =
    bind_res (same_firm (company_id acc) ''cash_account'' (Some (company_id cash))) (\<lambda>_.
    bind_res (check_method method_name) (\<lambda>meth.
    bind_res (check_amount amount) (\<lambda>_.
    bind_res (next_number e (company_id acc) COLLECTION_PREFIX s) (\<lambda>(num, s).
    bind_res (insert_collection e (blank_collection\<lparr>company_id := company_id acc, col_number := num,
        col_account := pk acc, col_cash := pk cash, doc_amount := rat_of amount,
        col_method := meth, doc_date := dt, col_note := note1, created_by := by, updated_by := by\<rparr>) s)
      (\<lambda>(c, s).
    bind_res (apply_to_invoices e c (Inr acc) applies by (doc_amount c) s) (\<lambda>s.
    bind_res (post e (Some acc) (Some cash) (Some (direction_value Credit))
        (Some (cash_direction_value In)) amount (acc_currency acc) dt (source_value Collection_src)
        (Some (collection_type, pk c)) (''Tahsilat '' @ col_number c) by s) (\<lambda>(_, s).
    bind_res (sync_all e (map (\<lambda>(i, _). pk i) applies) s) (\<lambda>s.
    Inr (c, s)))))))))"

section \<open>Applying what is left of a collection\<close>

definition unallocated :: "collection \<Rightarrow> 'a books_scheme \<Rightarrow> rat" where
  "unallocated c s = quantize_zero (doc_amount c -
    sum_list (map app_amount (filter (\<lambda>a. app_collection a = pk c \<and> \<not> is_deleted a) (applications s))))"

definition apply_collection ::
  "env \<Rightarrow> pk \<Rightarrow> (invoice \<times> decimal) list \<Rightarrow> pk option \<Rightarrow> 'a books_scheme
    \<Rightarrow> (collection \<times> 'a books_scheme) result" where
  "apply_collection e k applies by s =
    (if applies = [] then Inl (invalid_with ''applies'' ''required'')
     else bind_res (lock_document collection_table k s) (\<lambda>locked.
     bind_res (apply_to_invoices e locked (get_row (col_account locked) (objects (ctx e) (accounts s)))
       applies by (unallocated locked s) s) (\<lambda>s.
     bind_res (sync_all e (map (\<lambda>(i, _). pk i) applies) s) (\<lambda>s.
     Inr (locked, s)))))"

section \<open>Cancelling a collection\<close>

definition CANCEL_ATTEMPTS :: nat where "CANCEL_ATTEMPTS = 3"

definition applied_invoice_ids :: "pk \<Rightarrow> 'a books_scheme \<Rightarrow> pk list" where
  "applied_invoice_ids c s =
    map app_invoice (filter (\<lambda>a. app_collection a = c \<and> \<not> is_deleted a) (applications s))"

text \<open>What runs under the locks, in one attempt.\<close>

definition cancel_locked ::
  "env \<Rightarrow> collection \<Rightarrow> pk option \<Rightarrow> 'a books_scheme \<Rightarrow> (collection \<times> 'a books_scheme) result" where
  "cancel_locked e locked by s =
    (let applied = applied_invoice_ids (pk locked) s in
     bind_res (stamp_cancelled e collection_table locked by s) (\<lambda>(locked, s).
     bind_res (sync_all e applied s) (\<lambda>s. Inr (locked, s))))"

text \<open>
  The attempts: the invoices are read, other transactions may commit before the locks are
  taken (\<open>meanwhile attempt\<close>), and an attempt that finds an invoice it had not read starts
  over, except the last. \<open>remaining\<close> counts the attempts left.
\<close>

fun cancel_attempts ::
  "env \<Rightarrow> (nat \<Rightarrow> 'a books_scheme \<Rightarrow> 'a books_scheme) \<Rightarrow> pk \<Rightarrow> pk option \<Rightarrow> nat \<Rightarrow> nat
    \<Rightarrow> 'a books_scheme \<Rightarrow> (collection \<times> 'a books_scheme) result" where
  "cancel_attempts e meanwhile c by 0 attempt s = Inl (Crash Assertion_error)"
| "cancel_attempts e meanwhile c by (Suc remaining) attempt s =
    (let invoice_ids = applied_invoice_ids c s;
         s = meanwhile attempt s
     in bind_res (lock_document collection_table c s) (\<lambda>locked.
        if \<not> set (applied_invoice_ids c s) \<subseteq> set invoice_ids \<and> attempt + 1 < CANCEL_ATTEMPTS
        then cancel_attempts e meanwhile c by remaining (attempt + 1) s
        else cancel_locked e locked by s))"

definition cancel_collection ::
  "env \<Rightarrow> (nat \<Rightarrow> 'a books_scheme \<Rightarrow> 'a books_scheme) \<Rightarrow> pk \<Rightarrow> pk option \<Rightarrow> 'a books_scheme
    \<Rightarrow> (collection \<times> 'a books_scheme) result" where
  "cancel_collection e meanwhile c by s = cancel_attempts e meanwhile c by CANCEL_ATTEMPTS 0 s"

section \<open>Invoices and the account\<close>

definition two_digits :: "int \<Rightarrow> string" where
  "two_digits n = padded 2 (nat n)"

text \<open>\<open>f"{day:%d.%m.%Y}"\<close>\<close>

definition dotted_date :: "date \<Rightarrow> string" where
  "dotted_date d = two_digits (day d) @ ''.'' @ two_digits (month d) @ ''.'' @ digits (nat (year d))"

text \<open>The dash of the description is one character of the source, three bytes here.\<close>

definition invoice_description :: "invoice \<Rightarrow> string" where
  "invoice_description i =
    take 500 (''Fatura '' @ inv_number i @ '' '' @ [char_of (226 :: nat), char_of (128 :: nat), char_of (148 :: nat)]
      @ '' '' @ dotted_date (inv_period_start i) @ ''-'' @ dotted_date (inv_period_end i))"

definition invoice_movement :: "pk \<Rightarrow> 'a books_scheme \<Rightarrow> movement option" where
  "invoice_movement k s =
    List.find (\<lambda>m. mv_source m = Invoice_src \<and> of_document (invoice_type, k) m) (movements s)"

definition post_invoice ::
  "env \<Rightarrow> pk \<Rightarrow> pk option \<Rightarrow> date option \<Rightarrow> 'a books_scheme \<Rightarrow> (movement option \<times> 'a books_scheme) result" where
  "post_invoice e k by dt s =
    bind_res (get_invoice e k s) (\<lambda>locked.
    if \<not> payable locked then Inl (invalid ''invoice'')
    else case inv_date locked of
      None \<Rightarrow> Inl (invalid_with ''invoice_date'' ''required'')
    | Some invoice_date \<Rightarrow>
        if invoice_movement (pk locked) s \<noteq> None \<or> inv_total locked = 0 then Inr (None, s)
        else bind_res (get_row (inv_customer locked) (objects (ctx e) (customers s))) (\<lambda>c.
          bind_res (account_for_customer e c (inv_currency locked) s) (\<lambda>(acc, s).
          bind_res (post e (Some acc) None (Some (direction_value Debit)) None (Finite (inv_total locked))
            (inv_currency locked) (case dt of Some d \<Rightarrow> d | None \<Rightarrow> invoice_date)
            (source_value Invoice_src) (Some (invoice_type, pk locked)) (invoice_description locked) by s)
            (\<lambda>(m, s). Inr (Some m, s)))))"

definition reverse_invoice :: "env \<Rightarrow> pk \<Rightarrow> pk option \<Rightarrow> 'a books_scheme \<Rightarrow> 'a books_scheme result" where
  "reverse_invoice e k by s =
    bind_res (get_invoice e k s) (\<lambda>locked.
    if 0 < invoice_collected locked s then Inl (Conflict INVOICE_HAS_COLLECTIONS)
    else if invoice_movement (pk locked) s = None then Inr s
    else bind_res (reverse_document e (invoice_type, pk locked) (today e) by Invoice_cancel_src s)
      (\<lambda>(_, s). Inr s))"

definition collect_invoice ::
  "env \<Rightarrow> invoice \<Rightarrow> date \<Rightarrow> pk option \<Rightarrow> cash_account option \<Rightarrow> string \<Rightarrow> string \<Rightarrow> 'a books_scheme
    \<Rightarrow> (collection \<times> 'a books_scheme) result" where
  "collect_invoice e d dt by cash method_name note1 s =
    bind_res (case cash of
        Some c \<Rightarrow> Inr (c, s)
      | None \<Rightarrow>
          bind_res (default_cash_account e (company_id d) s) (\<lambda>(till, s).
          if cash_currency till \<noteq> inv_currency d then Inl (field_error ''cash_account'' CURRENCY_MISMATCH)
          else Inr (till, s))) (\<lambda>(cash, s).
    let remaining = invoice_remaining d s in
    bind_res (get_row (inv_customer d) (objects (ctx e) (customers s))) (\<lambda>c.
    bind_res (account_for_customer e c (inv_currency d) s) (\<lambda>(acc, s).
    record_collection e acc cash (Finite remaining) method_name dt note1 [(d, Finite remaining)] by s)))"

end
