(* ===== verification/Months.thy ===== *)
theory Months
  imports Calendar
begin

text \<open>
  \<open>core/dates.py\<close>: moving a date by whole calendar months. Contract terms and billing
  periods both step with it, so what it promises (it lands in the month asked for, it
  keeps the day of the month unless that month is shorter, later steps are later dates)
  is proved once, here.
\<close>

definition add_months :: "date \<Rightarrow> int \<Rightarrow> date option" where
  "add_months d months =
    (let q = month d - 1 + months;
         y = year d + q div 12;
         m = q mod 12 + 1
     in mk_date y m (min (day d) (days_in_month y m)))"

text \<open>A month as one number: months since year 0.\<close>

definition month_no :: "date \<Rightarrow> int" where
  "month_no d = 12 * year d + (month d - 1)"

lemma month_no_less: "valid_date a \<Longrightarrow> valid_date b \<Longrightarrow> month_no a < month_no b \<Longrightarrow> a < b"
  by (cases a; cases b) (auto simp: month_no_def valid_date_def)

lemma month_no_mono: "valid_date a \<Longrightarrow> valid_date b \<Longrightarrow> a \<le> b \<Longrightarrow> month_no a \<le> month_no b"
  using month_no_less [of b a] by (auto simp: not_le [symmetric])

lemma month_no_bounds: "valid_date d \<Longrightarrow> 12 \<le> month_no d \<and> month_no d < 120000"
  by (auto simp: month_no_def valid_date_def)

lemma add_months_Some:
  assumes "add_months d n = Some e"
  shows "valid_date e" and "month_no e = month_no d + n"
    and "day e = min (day d) (days_in_month (year e) (month e))"
proof -
  define q where "q = month d - 1 + n"
  from assms have e: "valid_date e" "year e = year d + q div 12" "month e = q mod 12 + 1"
    "day e = min (day d) (days_in_month (year d + q div 12) (q mod 12 + 1))"
    by (auto simp: add_months_def Let_def mk_date_Some q_def)
  show "valid_date e" by (fact e(1))
  have "12 * (q div 12) + q mod 12 = q" by simp
  then show "month_no e = month_no d + n"
    by (simp add: month_no_def e(2,3) q_def)
  show "day e = min (day d) (days_in_month (year e) (month e))"
    by (simp add: e)
qed

text \<open>It fails only by leaving the years a \<open>date\<close> supports.\<close>

lemma add_months_defined_iff:
  assumes "valid_date d"
  shows "(\<exists>e. add_months d n = Some e) \<longleftrightarrow> 12 \<le> month_no d + n \<and> month_no d + n < 120000"
proof -
  define q where "q = month d - 1 + n"
  define y where "y = year d + q div 12"
  define m where "m = q mod 12 + 1"
  have m: "1 \<le> m" "m \<le> 12" unfolding m_def by simp_all
  have qm: "0 \<le> q mod 12" "q mod 12 \<le> 11" by simp_all
  have "1 \<le> min (day d) (days_in_month y m)"
    using assms days_in_month_ge [of y m] by (auto simp: valid_date_def)
  then have "(\<exists>e. add_months d n = Some e) \<longleftrightarrow> 1 \<le> y \<and> y \<le> 9999"
    using m qm by (auto simp: add_months_def Let_def mk_date_def valid_date_def q_def [symmetric]
        y_def [symmetric] m_def [symmetric])
  moreover have "month_no d + n = 12 * y + (m - 1)"
    using mult_div_mod_eq [of 12 q] by (simp add: month_no_def y_def m_def q_def)
  moreover from this have "1 \<le> y \<and> y \<le> 9999 \<longleftrightarrow> 12 \<le> month_no d + n \<and> month_no d + n < 120000"
    using m by (intro iffI conjI) linarith+
  ultimately show ?thesis by blast
qed

lemma add_months_0 [simp]: "valid_date d \<Longrightarrow> add_months d 0 = Some d"
  by (cases d) (auto simp: add_months_def Let_def mk_date_Some valid_date_def mod_pos_pos_trivial)

text \<open>A date is determined by its month number and its day.\<close>

lemma date_eqI_month_no:
  "valid_date a \<Longrightarrow> valid_date b \<Longrightarrow> month_no a = month_no b \<Longrightarrow> day a = day b \<Longrightarrow> a = b"
proof -
  assume a: "valid_date a" "valid_date b" "month_no a = month_no b" "day a = day b"
  then have b: "1 \<le> month a" "month a \<le> 12" "1 \<le> month b" "month b \<le> 12"
    and eq: "12 * year a + month a = 12 * year b + month b"
    by (auto simp: month_no_def valid_date_def)
  have "year a = year b"
    using b eq by (cases "year a" "year b" rule: linorder_cases) linarith+
  with eq have "month a = month b" by simp
  with \<open>year a = year b\<close> a(4) show "a = b" by (cases a; cases b) simp
qed

lemma add_months_strict_mono:
  "add_months d a = Some x \<Longrightarrow> add_months d b = Some y \<Longrightarrow> a < b \<Longrightarrow> x < y"
  using add_months_Some [of d a x] add_months_Some [of d b y] by (auto intro: month_no_less)

lemma add_months_mono:
  "add_months d a = Some x \<Longrightarrow> add_months d b = Some y \<Longrightarrow> a \<le> b \<Longrightarrow> x \<le> y"
  using add_months_strict_mono [of d a x b y] by (cases "a = b") auto

lemma add_months_pos_gt:
  "valid_date d \<Longrightarrow> add_months d n = Some e \<Longrightarrow> 0 < n \<Longrightarrow> d < e"
  using add_months_strict_mono [of d 0 d n e] by simp

text \<open>
  From a day every month has, steps compose; from the 29th on they do not, which is why
  the code always steps from a fixed origin.
\<close>

lemma add_months_add:
  assumes "valid_date d" "day d \<le> 28" "add_months d a = Some x" "add_months x b = Some y"
  shows "add_months d (a + b) = Some y"
proof -
  note x = add_months_Some [OF assms(3)] and y = add_months_Some [OF assms(4)]
  have "12 \<le> month_no d + (a + b)" "month_no d + (a + b) < 120000"
    using y(1,2) x(2) month_no_bounds [OF y(1)] by simp_all
  then obtain z where z: "add_months d (a + b) = Some z"
    using add_months_defined_iff [OF assms(1), of "a + b"] by auto
  note z' = add_months_Some [OF z]
  have dx: "day x = day d" using x(3) assms(2) days_in_month_ge [of "year x" "month x"] by simp
  have "day y = day d" using y(3) dx assms(2) days_in_month_ge [of "year y" "month y"] by simp
  moreover have "day z = day d"
    using z'(3) assms(2) days_in_month_ge [of "year z" "month z"] by simp
  moreover have "month_no z = month_no y" using z'(2) y(2) x(2) by simp
  ultimately have "z = y" using z'(1) y(1) by (intro date_eqI_month_no) auto
  with z show ?thesis by simp
qed

end
