(* ===== verification/Periods.thy ===== *)
theory Periods
  imports Months Errors
begin

text \<open>
  \<open>apps/billing/periods.py\<close>: the billing periods of a contract, stepped from its start
  date, the last one cut at its end date. The generator is a list of results: its elements
  in order, ended by the exception if the stepping leaves the calendar.
\<close>

text \<open>\<open>BillingPeriod\<close> of \<open>apps/contracts/models.py\<close>, and \<open>MONTHS\<close>.\<close>

datatype billing_period = Monthly | Quarterly | Semiannual | Annual

fun MONTHS :: "billing_period \<Rightarrow> int" where
  "MONTHS Monthly = 1"
| "MONTHS Quarterly = 3"
| "MONTHS Semiannual = 6"
| "MONTHS Annual = 12"

record period =
  p_start :: date
  p_end :: date
  p_nominal_end :: date
  p_months :: int

definition nominal_days :: "period \<Rightarrow> int" where
  "nominal_days p = days_between (p_nominal_end p) (p_start p) + 1"

definition start_of :: "date \<Rightarrow> billing_period \<Rightarrow> nat \<Rightarrow> date option" where
  "start_of start bp index = add_months start (int index * MONTHS bp)"

definition period_at :: "date \<Rightarrow> date \<Rightarrow> billing_period \<Rightarrow> nat \<Rightarrow> date \<Rightarrow> period result" where
  "period_at start stop bp index period_start =
    (case start_of start bp (index + 1) of
       None \<Rightarrow> Inl (Crash Value_error)
     | Some next_start \<Rightarrow>
         (case add_days next_start (-1) of
            None \<Rightarrow> Inl (Crash Overflow_error)
          | Some nominal_end \<Rightarrow>
              Inr \<lparr>p_start = period_start, p_end = min nominal_end stop,
                p_nominal_end = nominal_end, p_months = MONTHS bp\<rparr>))"

lemma MONTHS_pos [simp]: "0 < MONTHS bp" "0 \<le> MONTHS bp" "1 \<le> MONTHS bp" "MONTHS bp \<le> 12"
  by (cases bp; simp)+

lemma start_of_Some:
  assumes "start_of start bp index = Some s"
  shows "valid_date s" "month_no s = month_no start + int index * MONTHS bp"
  using add_months_Some [OF assms [unfolded start_of_def]] by simp_all

text \<open>The loop from \<open>index\<close> on.\<close>

function periods_from :: "date \<Rightarrow> date \<Rightarrow> billing_period \<Rightarrow> nat \<Rightarrow> period result list" where
  "periods_from start stop bp index =
    (case start_of start bp index of
       None \<Rightarrow> [Inl (Crash Value_error)]
     | Some period_start \<Rightarrow>
         if stop < period_start then []
         else (case period_at start stop bp index period_start of
             Inl e \<Rightarrow> [Inl e]
           | Inr p \<Rightarrow> Inr p # periods_from start stop bp (index + 1)))"
  by pat_completeness auto
termination
proof (relation "measure (\<lambda>(start, stop, bp, index). nat (120000 - month_no start - int index * MONTHS bp))")
  fix start stop bp index s p
  assume "start_of start bp index = Some s"
  from start_of_Some [OF this] month_no_bounds [of s]
  have "month_no start + int index * MONTHS bp < 120000" by simp
  moreover have "int index * MONTHS bp < int (index + 1) * MONTHS bp" by simp
  ultimately show "((start, stop, bp, index + 1), start, stop, bp, index)
      \<in> measure (\<lambda>(start, stop, bp, index). nat (120000 - month_no start - int index * MONTHS bp))"
    by simp
qed simp

declare periods_from.simps [simp del]

definition periods :: "date \<Rightarrow> date \<Rightarrow> billing_period \<Rightarrow> period result list" where
  "periods start stop bp = periods_from start stop bp 0"

text \<open>Inclusive ranges of days.\<close>

definition overlap_days :: "date \<times> date \<Rightarrow> date \<times> date \<Rightarrow> int" where
  "overlap_days r1 r2 =
    max 0 (days_between (min (snd r1) (snd r2)) (max (fst r1) (fst r2)) + 1)"

section \<open>The loop\<close>

lemma ordinal_min: "valid_date a \<Longrightarrow> valid_date b \<Longrightarrow> ordinal (min a b) = min (ordinal a) (ordinal b)"
  by (simp add: min_def ordinal_le_iff)

lemma ordinal_max: "valid_date a \<Longrightarrow> valid_date b \<Longrightarrow> ordinal (max a b) = max (ordinal a) (ordinal b)"
  by (simp add: max_def ordinal_le_iff)

lemma period_at_Inr:
  assumes "period_at start stop bp k s = Inr p"
  obtains t e where "start_of start bp (k + 1) = Some t" "valid_date t" "valid_date e"
    "ordinal t = ordinal e + 1" "p_start p = s" "p_end p = min e stop" "p_nominal_end p = e"
    "p_months p = MONTHS bp"
  using assms start_of_Some(1) add_days_Some
  by (fastforce simp: period_at_def split: option.splits)

lemma start_of_less:
  "start_of start bp k = Some s \<Longrightarrow> start_of start bp (k + 1) = Some t \<Longrightarrow> s < t"
  unfolding start_of_def by (rule add_months_strict_mono) (auto simp: distrib_right)

text \<open>With room of a period below year 10000, no step fails.\<close>

lemma period_at_defined:
  assumes "valid_date start" "start_of start bp k = Some s" "s \<le> stop" "valid_date stop"
    "month_no stop + MONTHS bp < 120000"
  shows "returns (period_at start stop bp k s)"
proof -
  note s = start_of_Some [OF assms(2)]
  have "month_no s \<le> month_no stop" using s assms by (intro month_no_mono)
  then have b: "month_no start + int (k + 1) * MONTHS bp < 120000"
    "month_no s \<le> month_no start + int (k + 1) * MONTHS bp"
    using s assms(5) by (auto simp: distrib_right)
  then obtain t where t: "start_of start bp (k + 1) = Some t"
    using add_months_defined_iff [OF assms(1), of "int (k + 1) * MONTHS bp"] month_no_bounds [OF s(1)]
    unfolding start_of_def by fastforce
  note t' = start_of_Some [OF t]
  have "ordinal s < ordinal t"
    using start_of_less [OF assms(2) t] s t' by (simp add: ordinal_less)
  then have "1 \<le> ordinal t + - 1" "ordinal t + - 1 \<le> max_ordinal"
    using ordinal_bounds [OF s(1)] ordinal_bounds [OF t'(1)] by simp_all
  from add_days_defined [OF this] obtain e where "add_days t (-1) = Some e" ..
  with t show ?thesis by (simp add: period_at_def)
qed

lemma periods_from_defined:
  assumes "valid_date start" "valid_date stop" "month_no stop + MONTHS bp < 120000"
    "returns (the_res (start_of start bp k) (Crash Value_error))"
  shows "\<forall>r \<in> set (periods_from start stop bp k). returns r"
  using assms
proof (induction start stop bp k rule: periods_from.induct)
  case (1 start stop bp k)
  from "1.prems"(4) obtain s where s: "start_of start bp k = Some s"
    by (auto simp: returns_def the_res_Inr_iff)
  show ?case
  proof (cases "stop < s")
    case True
    then show ?thesis by (simp add: periods_from.simps s)
  next
    case False
    from period_at_defined [OF "1.prems"(1) s _ "1.prems"(2,3)] False
    obtain p where p: "period_at start stop bp k s = Inr p" by (auto simp: returns_def not_less)
    then obtain t where "start_of start bp (k + 1) = Some t" by (rule period_at_Inr)
    with "1.IH" [OF s False p] "1.prems"(1-3)
    have "\<forall>r \<in> set (periods_from start stop bp (k + 1)). returns r" by simp
    with s False p show ?thesis by (subst periods_from.simps) simp
  qed
qed

text \<open>An inclusive range cut after one of its days.\<close>

lemma cut_range:
  fixes x y z a b :: int
  assumes "x \<le> y + 1" "y \<le> z"
  shows "max 0 (min y b - max x a + 1) + max 0 (min z b - max (y + 1) a + 1) =
    max 0 (min z b - max x a + 1)"
  using assms by (simp add: max_def min_def)

definition covered_by :: "period result list \<Rightarrow> date \<times> date \<Rightarrow> int" where
  "covered_by ps days =
    sum_list (map (\<lambda>r. case r of Inl _ \<Rightarrow> 0 | Inr p \<Rightarrow> overlap_days (p_start p, p_end p) days) ps)"

lemma periods_from_cover:
  assumes "valid_date stop" "valid_date a" "valid_date b"
    "start_of start bp k = Some s" "s \<le> stop"
    "\<forall>r \<in> set (periods_from start stop bp k). returns r"
  shows "covered_by (periods_from start stop bp k) (a, b) = overlap_days (s, stop) (a, b)"
  using assms
proof (induction start stop bp k arbitrary: s rule: periods_from.induct)
  case (1 start stop bp k)
  note s = "1.prems"(4) and valid = "1.prems"(1-3)
  from "1.prems"(5) have ns: "\<not> stop < s" by simp
  have "\<forall>e. period_at start stop bp k s \<noteq> Inl e"
    using "1.prems"(6) s ns by (subst (asm) periods_from.simps) auto
  then obtain p where p: "period_at start stop bp k s = Inr p"
    by (cases "period_at start stop bp k s") auto
  then obtain t e where t: "start_of start bp (k + 1) = Some t" "valid_date t" "valid_date e"
    "ordinal t = ordinal e + 1" and pp: "p_start p = s" "p_end p = min e stop"
    by (rule period_at_Inr)
  have unf: "periods_from start stop bp k = Inr p # periods_from start stop bp (k + 1)"
    by (subst periods_from.simps) (simp add: s ns p)
  note vs = start_of_Some(1) [OF s]
  have st: "ordinal s < ordinal t"
    using start_of_less [OF s t(1)] vs t(2) by (simp add: ordinal_less)
  show ?case
  proof (cases "t \<le> stop")
    case True
    from "1.IH" [OF s ns p valid t(1) True] "1.prems"(6)
    have ih: "covered_by (periods_from start stop bp (k + 1)) (a, b) = overlap_days (t, stop) (a, b)"
      by (simp add: unf)
    have "ordinal t \<le> ordinal stop" using True t(2) valid by (simp add: ordinal_le_iff)
    then have "e \<le> stop" using t(3,4) valid ordinal_le_iff [of e stop] by simp
    with ih show ?thesis
      using cut_range [of "ordinal s" "ordinal e" "ordinal stop" "ordinal b" "ordinal a"]
        st \<open>ordinal t \<le> ordinal stop\<close> vs t valid
      by (simp add: unf covered_by_def overlap_days_def days_between_def pp ordinal_min ordinal_max
          min_absorb1)
  next
    case False
    then have "stop < t" by simp
    then have "ordinal stop < ordinal t" using t(2) valid by (simp add: ordinal_less)
    then have "ordinal stop \<le> ordinal e" using t(4) by simp
    then have "stop \<le> e" using t(3) valid by (simp add: ordinal_le_iff)
    moreover have "periods_from start stop bp (k + 1) = []"
      using t(1) \<open>stop < t\<close> by (subst periods_from.simps) simp
    ultimately show ?thesis
      by (simp add: unf covered_by_def pp min_absorb2)
  qed
qed

text \<open>A day is in a range or not.\<close>

lemma overlap_one_day:
  "valid_date d \<Longrightarrow> valid_date x \<Longrightarrow> valid_date y \<Longrightarrow>
    overlap_days (x, y) (d, d) = (if x \<le> d \<and> d \<le> y then 1 else 0)"
  by (auto simp: overlap_days_def days_between_def ordinal_min ordinal_max ordinal_le_iff [symmetric])

lemma overlap_nonneg: "0 \<le> overlap_days r1 r2"
  by (simp add: overlap_days_def)

lemma overlap_commute: "overlap_days r1 r2 = overlap_days r2 r1"
  by (simp add: overlap_days_def min.commute max.commute)

lemma overlap_le_left:
  assumes "valid_date x" "valid_date y" "valid_date a" "valid_date b" "x \<le> y"
  shows "overlap_days (x, y) (a, b) \<le> days_between y x + 1"
proof -
  have "ordinal x \<le> ordinal y" using assms by (simp add: ordinal_le_iff)
  then show ?thesis
    using assms by (simp add: overlap_days_def days_between_def ordinal_min ordinal_max)
qed

text \<open>
  The periods of a contract tile its term: whatever range of days one asks about, the days
  the periods share with it add up to the days the term shares with it.
\<close>

lemma periods_cover:
  assumes "valid_date start" "valid_date stop" "start \<le> stop" "month_no stop + MONTHS bp < 120000"
    "valid_date a" "valid_date b"
  shows "(\<forall>r \<in> set (periods start stop bp). returns r) \<and>
    covered_by (periods start stop bp) (a, b) = overlap_days (start, stop) (a, b)"
proof -
  have s: "start_of start bp 0 = Some start" using assms(1) by (simp add: start_of_def)
  have "\<forall>r \<in> set (periods start stop bp). returns r"
    unfolding periods_def by (rule periods_from_defined) (use assms s in simp_all)
  with periods_from_cover [OF assms(2,5,6) s assms(3)] show ?thesis
    by (simp add: periods_def)
qed

lemma periods_from_in:
  assumes "Inr p \<in> set (periods_from start stop bp k)"
  shows "\<exists>j \<ge> k. \<exists>s. start_of start bp j = Some s \<and> s \<le> stop \<and> period_at start stop bp j s = Inr p"
  using assms
proof (induction start stop bp k rule: periods_from.induct)
  case (1 start stop bp k)
  from "1.prems" obtain s where s: "start_of start bp k = Some s" "\<not> stop < s"
    by (subst (asm) periods_from.simps) (auto split: option.splits if_splits)
  with "1.prems" obtain q where q: "period_at start stop bp k s = Inr q"
    "p = q \<or> Inr p \<in> set (periods_from start stop bp (k + 1))"
    by (subst (asm) periods_from.simps) (auto split: sum.splits)
  from q(2) show ?case
  proof
    assume "p = q"
    with s q(1) show ?case by (intro exI [of _ k]) auto
  next
    assume "Inr p \<in> set (periods_from start stop bp (k + 1))"
    from "1.IH" [OF s q(1) this] show ?case by (auto intro: Suc_leD)
  qed
qed

text \<open>Within a period the days covered never exceed the days of its nominal length.\<close>

lemma period_shape:
  assumes "Inr p \<in> set (periods start stop bp)" "valid_date stop"
  shows "valid_date (p_start p) \<and> valid_date (p_end p) \<and> valid_date (p_nominal_end p) \<and>
    p_start p \<le> p_end p \<and> p_end p \<le> p_nominal_end p \<and> p_end p \<le> stop \<and>
    p_months p = MONTHS bp \<and> 1 \<le> nominal_days p"
proof -
  from periods_from_in assms(1) obtain j s where s: "start_of start bp j = Some s" "s \<le> stop"
    and p: "period_at start stop bp j s = Inr p"
    unfolding periods_def by blast
  from p obtain t e where t: "start_of start bp (j + 1) = Some t" "valid_date t" "valid_date e"
    "ordinal t = ordinal e + 1" and pp: "p_start p = s" "p_end p = min e stop" "p_nominal_end p = e"
    "p_months p = MONTHS bp"
    by (rule period_at_Inr)
  note vs = start_of_Some(1) [OF s(1)]
  have "ordinal s < ordinal t" using start_of_less [OF s(1) t(1)] vs t(2) by (simp add: ordinal_less)
  then have "ordinal s \<le> ordinal e" using t(4) by simp
  moreover from this have "s \<le> e" using vs t(3) by (simp add: ordinal_le_iff)
  ultimately show ?thesis
    using s(2) vs t(3) assms(2)
    by (auto simp: pp min_def nominal_days_def days_between_def)
qed

end
