(* ===== verification/Notifications.thy ===== *)
theory Notifications
  imports Documents
begin

text \<open>
  \<open>apps/notifications/services.py\<close> and its models: raising a notification once per recipient,
  queueing its e-mail when the transaction commits, and a user's e-mail preferences. The
  unique constraint on (recipient, dedupe key) decides what is new, as in the code: the row is
  inserted first, and a refused insert is read as "already raised".
\<close>

section \<open>Kinds\<close>

datatype (plugins only:) notification_kind =
    Contract_renewal_due | Contract_expired | Contract_auto_renewed | Contract_auto_renewal_blocked
  | Maintenance_overdue | Visit_assigned | Fault_reported | Fault_emergency | Fault_assigned
  | Fault_resolved | Inspection_due | Correction_deadline_near | Correction_deadline_passed
  | Inspection_red_label | Billing_vat_missing | Invoice_drafts_ready | Monthly_reports_ready

definition all_kinds :: "(string \<times> notification_kind) list" where
  "all_kinds = [
    (''contract_renewal_due'', Contract_renewal_due), (''contract_expired'', Contract_expired),
    (''contract_auto_renewed'', Contract_auto_renewed),
    (''contract_auto_renewal_blocked'', Contract_auto_renewal_blocked),
    (''maintenance_overdue'', Maintenance_overdue), (''visit_assigned'', Visit_assigned),
    (''fault_reported'', Fault_reported), (''fault_emergency'', Fault_emergency),
    (''fault_assigned'', Fault_assigned), (''fault_resolved'', Fault_resolved),
    (''inspection_due'', Inspection_due), (''correction_deadline_near'', Correction_deadline_near),
    (''correction_deadline_passed'', Correction_deadline_passed),
    (''inspection_red_label'', Inspection_red_label), (''billing_vat_missing'', Billing_vat_missing),
    (''invoice_drafts_ready'', Invoice_drafts_ready),
    (''monthly_reports_ready'', Monthly_reports_ready)]"

text \<open>The kinds a user is not e-mailed about unless they ask (\<open>EMAIL_DEFAULTS\<close> says no).\<close>

definition EMAIL_DEFAULTS :: "string \<Rightarrow> bool" where
  "EMAIL_DEFAULTS kind \<longleftrightarrow> kind \<notin> {''maintenance_overdue'', ''fault_resolved''}"

definition EMAIL_ALWAYS :: "string list" where
  "EMAIL_ALWAYS = [''fault_emergency'', ''correction_deadline_passed'', ''inspection_red_label'']"

section \<open>Data\<close>

text \<open>A value of \<open>data\<close>; \<open>Opaque\<close> is one with no JSON form, such as a model instance.\<close>

datatype fact = Text string | Number int | Flag bool | Texts "string list" | Day date | Null | Opaque

text \<open>\<open>date.isoformat()\<close>\<close>

definition isoformat :: "date \<Rightarrow> string" where
  "isoformat d = padded 4 (nat (year d)) @ ''-'' @ padded 2 (nat (month d)) @ ''-'' @ padded 2 (nat (day d))"

fun normalize_fact :: "fact \<Rightarrow> fact result" where
  "normalize_fact (Day d) = Inr (Text (isoformat d))"
| "normalize_fact Opaque = Inl (Crash Type_error)"
| "normalize_fact (Text t) = Inr (Text t)"
| "normalize_fact (Number n) = Inr (Number n)"
| "normalize_fact (Flag b) = Inr (Flag b)"
| "normalize_fact (Texts ts) = Inr (Texts ts)"
| "normalize_fact Null = Inr Null"

fun normalize_data :: "(string \<times> fact) list \<Rightarrow> (string \<times> fact) list result" where
  "normalize_data [] = Inr []"
| "normalize_data ((k, v) # rest) =
    bind_res (normalize_fact v) (\<lambda>v. bind_res (normalize_data rest) (\<lambda>rest. Inr ((k, v) # rest)))"

section \<open>Tables\<close>

record notification = row +
  nt_recipient :: pk
  nt_kind :: string
  nt_subject_type :: string
  nt_subject_id :: pk
  nt_data :: "(string \<times> fact) list"
  nt_read_at :: "instant option"
  nt_dedupe_key :: string

record preference = row +
  pf_user :: pk
  pf_kind :: string
  pf_email :: bool

text \<open>
  \<open>mail_queue\<close>: the e-mail tasks enqueued when the transaction commits, by notification.
  \<open>mail_suppressed\<close>: inside \<open>core.mail.suppressed()\<close>.
\<close>

record desk = books +
  notifications :: "notification list"
  preferences :: "preference list"
  mail_queue :: "pk list"
  mail_suppressed :: bool

definition blank_notification :: notification where
  "blank_notification = \<lparr>pk = 0, company_id = 0, created_at = 0, updated_at = 0, created_by = None,
    updated_by = None, is_deleted = False, deleted_at = None, nt_recipient = 0, nt_kind = [],
    nt_subject_type = [], nt_subject_id = 0, nt_data = [], nt_read_at = None, nt_dedupe_key = []\<rparr>"

definition blank_preference :: preference where
  "blank_preference = \<lparr>pk = 0, company_id = 0, created_at = 0, updated_at = 0, created_by = None,
    updated_by = None, is_deleted = False, deleted_at = None, pf_user = 0, pf_kind = [], pf_email = False\<rparr>"

definition notifications_clash :: "notification \<Rightarrow> notification \<Rightarrow> bool" where
  "notifications_clash a b \<longleftrightarrow> \<not> is_deleted a \<and> \<not> is_deleted b \<and>
    nt_recipient a = nt_recipient b \<and> nt_dedupe_key a = nt_dedupe_key b"

definition preferences_clash :: "preference \<Rightarrow> preference \<Rightarrow> bool" where
  "preferences_clash a b \<longleftrightarrow> \<not> is_deleted a \<and> \<not> is_deleted b \<and>
    pf_user a = pf_user b \<and> pf_kind a = pf_kind b"

section \<open>Raising (notify)\<close>

text \<open>\<open>_create_once\<close>: \<open>None\<close> when the recipient already holds the key.\<close>

definition create_once ::
  "env \<Rightarrow> notification \<Rightarrow> 'a desk_scheme \<Rightarrow> (notification option \<times> 'a desk_scheme) result" where
  "create_once e n s =
    (case db_insert e notifications_update
        (length (nt_kind n) \<le> 40 \<and> length (nt_subject_type n) \<le> 40 \<and> length (nt_dedupe_key n) \<le> 255)
        (nt_kind n \<in> fst ` set all_kinds \<and> unique_with notifications_clash n (notifications s)) n s of
       Inl Integrity_error \<Rightarrow>
         if \<exists>x \<in> set (notifications s). nt_recipient x = nt_recipient n \<and>
              nt_dedupe_key x = nt_dedupe_key n \<and> \<not> is_deleted x
         then Inr (None, s) else Inl Integrity_error
     | Inl err \<Rightarrow> Inl err
     | Inr (n', s') \<Rightarrow> Inr (Some n', s'))"

text \<open>A user's explicit choice of the kind, whatever the tenant in context; \<open>None\<close> without one.\<close>

definition explicit_choice :: "pk \<Rightarrow> string \<Rightarrow> preference list \<Rightarrow> bool option" where
  "explicit_choice u kind rows =
    map_option pf_email
      (List.find (\<lambda>p. pf_user p = u \<and> pf_kind p = kind \<and> \<not> is_deleted p) (rev (sort_key pk rows)))"

definition wants_email :: "pk \<Rightarrow> string \<Rightarrow> 'a desk_scheme \<Rightarrow> bool" where
  "wants_email u kind s \<longleftrightarrow> kind \<in> set EMAIL_ALWAYS \<or>
    (case explicit_choice u kind (preferences s) of Some b \<Rightarrow> b | None \<Rightarrow> EMAIL_DEFAULTS kind)"

text \<open>The loop over the recipients.\<close>

fun notify_each ::
  "env \<Rightarrow> notification \<Rightarrow> staff list \<Rightarrow> 'a desk_scheme \<Rightarrow> (notification list \<times> 'a desk_scheme) result" where
  "notify_each e n [] s = Inr ([], s)"
| "notify_each e n (u # us) s =
    (if \<not> staff_is_active u \<or> is_deleted u then notify_each e n us s
     else bind_res (create_once e (n\<lparr>company_id := company_id u, nt_recipient := pk u\<rparr>) s)
       (\<lambda>(made, s). bind_res (notify_each e n us s) (\<lambda>(created, s).
         Inr ((case made of None \<Rightarrow> created | Some m \<Rightarrow> m # created), s))))"

definition notify ::
  "env \<Rightarrow> string \<Rightarrow> staff list \<Rightarrow> string \<Rightarrow> pk \<Rightarrow> (string \<times> fact) list \<Rightarrow> string \<Rightarrow> 'a desk_scheme
    \<Rightarrow> (notification list \<times> 'a desk_scheme) result" where
  "notify e kind recipients subject_type subject_id data dedupe_key s =
    (if kind \<notin> fst ` set all_kinds then Inl (Crash Value_error)
     else bind_res (normalize_data data) (\<lambda>payload.
     bind_res (notify_each e (blank_notification\<lparr>nt_kind := kind, nt_subject_type := subject_type,
         nt_subject_id := subject_id, nt_data := payload, nt_dedupe_key := dedupe_key\<rparr>) recipients s)
       (\<lambda>(created, s).
     let emailed = filter (\<lambda>n. \<not> mail_suppressed s \<and> wants_email (nt_recipient n) kind s) created
     in Inr (created, s\<lparr>mail_queue := mail_queue s @ map pk emailed\<rparr>))))"

section \<open>Sending (apps/notifications/tasks.py)\<close>

text \<open>The task: the user the e-mail goes to, or \<open>None\<close> when nobody is to receive it any more.\<close>

definition email_recipient :: "pk \<Rightarrow> 'a desk_scheme \<Rightarrow> staff option" where
  "email_recipient k s =
    (case List.find (\<lambda>n. pk n = k \<and> \<not> is_deleted n) (notifications s) of
       None \<Rightarrow> None
     | Some n \<Rightarrow>
         (case by_pk (nt_recipient n) (staff_users s) of
            None \<Rightarrow> None
          | Some u \<Rightarrow> if staff_is_active u \<and> \<not> is_deleted u then Some u else None))"

section \<open>Reading (apps/notifications/api/v1/views.py)\<close>

definition inbox :: "env \<Rightarrow> pk \<Rightarrow> 'a desk_scheme \<Rightarrow> notification list" where
  "inbox e u s = filter (\<lambda>n. nt_recipient n = u) (objects (ctx e) (notifications s))"

definition unread_count :: "env \<Rightarrow> pk \<Rightarrow> 'a desk_scheme \<Rightarrow> nat" where
  "unread_count e u s = length (filter (\<lambda>n. nt_read_at n = None) (inbox e u s))"

definition mark_read :: "env \<Rightarrow> pk \<Rightarrow> pk \<Rightarrow> 'a desk_scheme \<Rightarrow> (notification \<times> 'a desk_scheme) result" where
  "mark_read e u k s =
    bind_res (the_res (by_pk k (inbox e u s)) Http404) (\<lambda>n.
    if nt_read_at n = None
    then db_update e notifications_update True True (n\<lparr>nt_read_at := Some (now e)\<rparr>) s
    else Inr (n, s))"

definition read_all :: "env \<Rightarrow> pk \<Rightarrow> 'a desk_scheme \<Rightarrow> nat \<times> 'a desk_scheme" where
  "read_all e u s =
    (let unread = (\<lambda>n. nt_recipient n = u \<and> visible (ctx e) n \<and> nt_read_at n = None)
     in (length (filter unread (notifications s)),
         s\<lparr>notifications := update_where unread
           (\<lambda>n. n\<lparr>nt_read_at := Some (now e), updated_at := now e\<rparr>) (notifications s)\<rparr>))"

section \<open>Preferences\<close>

record preference_entry =
  pe_kind :: string
  pe_email :: bool
  pe_locked :: bool

definition preferences_for :: "env \<Rightarrow> pk \<Rightarrow> 'a desk_scheme \<Rightarrow> preference_entry list" where
  "preferences_for e u s =
    map (\<lambda>(kind, _). \<lparr>pe_kind = kind,
        pe_email = (kind \<in> set EMAIL_ALWAYS \<or>
          (case explicit_choice u kind (objects (ctx e) (preferences s)) of
             Some b \<Rightarrow> b | None \<Rightarrow> EMAIL_DEFAULTS kind)),
        pe_locked = (kind \<in> set EMAIL_ALWAYS)\<rparr>) all_kinds"

text \<open>\<open>{entry["kind"]: entry["email"] for entry in entries}\<close>: the last entry of a kind counts.\<close>

definition chosen :: "(string \<times> bool) list \<Rightarrow> string \<Rightarrow> bool option" where
  "chosen entries = map_of (rev entries)"

definition set_preference ::
  "env \<Rightarrow> staff \<Rightarrow> (string \<times> bool) list \<Rightarrow> preference list \<Rightarrow> string \<Rightarrow> 'a desk_scheme
    \<Rightarrow> 'a desk_scheme result" where
  "set_preference e u entries existing kind s =
    (let row = List.find (\<lambda>p. pf_kind p = kind) (rev (sort_key pk existing)) in
     case chosen entries kind of
       Some email \<Rightarrow>
         (case row of
            None \<Rightarrow>
              (let p = blank_preference\<lparr>company_id := company_id u, pf_user := pk u, pf_kind := kind,
                 pf_email := email, created_by := Some (pk u), updated_by := Some (pk u)\<rparr>
               in bind_res (db_insert e preferences_update (length kind \<le> 40)
                 (unique_with preferences_clash p (preferences s)) p s) (\<lambda>(_, s). Inr s))
          | Some p \<Rightarrow>
              if pf_email p \<noteq> email
              then bind_res (db_update e preferences_update True True
                (p\<lparr>pf_email := email, updated_by := Some (pk u)\<rparr>) s) (\<lambda>(_, s). Inr s)
              else Inr s)
     | None \<Rightarrow>
         (case row of
            None \<Rightarrow> Inr s
          | Some p \<Rightarrow>
              bind_res (db_update e preferences_update True True
                (soft_delete e (p\<lparr>updated_by := Some (pk u)\<rparr>)) s) (\<lambda>(_, s). Inr s)))"

definition set_preferences ::
  "env \<Rightarrow> staff \<Rightarrow> (string \<times> bool) list \<Rightarrow> 'a desk_scheme
    \<Rightarrow> (preference_entry list \<times> 'a desk_scheme) result" where
  "set_preferences e u entries s =
    (let existing = filter (\<lambda>p. pf_user p = pk u) (objects (ctx e) (preferences s))
     in bind_res (fold_res (set_preference e u entries existing) (map fst all_kinds) s) (\<lambda>s.
        Inr (preferences_for e (pk u) s, s)))"

end
