(* ===== verification/Contracts.thy ===== *)
theory Contracts
  imports Collections Periods Notifications
begin

text \<open>
  \<open>apps/contracts/models.py\<close> and \<open>apps/contracts/services.py\<close>: contracts, the elevators under
  them, and the transitions that end one (termination, renewal, expiry).
\<close>

section \<open>Tables\<close>

datatype contract_status = C_draft | C_active | C_expired | C_terminated | C_renewed
datatype scope = Maintenance_only | Maintenance_and_repair | Full_coverage
datatype pricing_type = Per_elevator | Flat
datatype vat_status = Vat_applied | Zero_rated | Vat_unset
datatype elevator_status = E_active | Suspended | Sealed | Out_of_service | Uncontracted

record contract = row +
  ct_customer :: pk
  ct_number :: string
  ct_status :: contract_status
  ct_scope :: scope
  ct_start_date :: date
  ct_end_date :: date
  ct_pricing_type :: pricing_type
  ct_monthly_fee :: "rat option"
  ct_currency :: string
  ct_vat_rate :: "rat option"
  ct_billing_period :: billing_period
  ct_auto_renew :: bool
  ct_renewal_notice_days :: int
  ct_previous :: "pk option"
  ct_terminated_at :: "date option"
  ct_termination_reason :: string

record contract_line = row +
  ce_contract :: pk
  ce_elevator :: pk
  ce_unit_price :: "rat option"
  ce_added_at :: date
  ce_removed_at :: "date option"

text \<open>The label an inspector leaves in the car; a lift never inspected has none.\<close>

datatype label = Green | Blue | Yellow | Red

text \<open>The columns of an elevator that some operation reads or writes.\<close>

record elevator = row +
  el_building :: pk
  el_name :: string
  el_registration_number :: string
  el_status :: elevator_status
  el_qr_token :: string
  el_maintenance_interval_days :: int
  el_last_inspection_date :: "date option"
  el_inspection_label :: "label option"
  el_next_inspection_date :: "date option"
  el_inspection_body :: string
  el_inspection_report_number :: string
  el_last_maintenance_date :: "date option"
  el_next_maintenance_date :: "date option"

text \<open>A fault (\<open>apps/faults/models.py\<close>): billing reads it, the fault board moves it.\<close>

datatype fault_status = F_open | F_assigned | F_on_site | F_resolved | F_closed | F_cancelled
datatype fault_channel = By_staff | Public_qr | Customer_portal
datatype fault_priority = Emergency | High | Normal

text \<open>A later public report of the same fault, merged into it.\<close>

record merged_report =
  mr_reported_at :: instant
  mr_description :: string
  mr_someone_trapped :: bool
  mr_elevator_stopped :: bool

record fault = row +
  fl_elevator :: pk
  fl_reference :: string
  fl_channel :: fault_channel
  fl_reported_by :: "pk option"
  fl_portal_account :: "pk option"
  fl_reporter_name :: string
  fl_reporter_phone :: string
  fl_description :: string
  fl_additional_reports :: "merged_report list"
  fl_priority :: fault_priority
  fl_status :: fault_status
  fl_technician :: "pk option"
  fl_reported_at :: instant
  fl_assigned_at :: "instant option"
  fl_on_site_at :: "instant option"
  fl_resolved_at :: "instant option"
  fl_closed_at :: "instant option"
  fl_cancelled_at :: "instant option"
  fl_cancel_reason :: string
  fl_resolution_notes :: string
  fl_parts_used :: string
  fl_billable :: "bool option"
  fl_billable_overridden :: bool
  fl_stopped_elevator :: bool

record building = row +
  bd_customer :: pk
  bd_name :: string

record estate = desk +
  buildings :: "building list"
  contracts :: "contract list"
  contract_lines :: "contract_line list"
  elevators :: "elevator list"
  faults :: "fault list"

text \<open>\<open>Contract.vat_status\<close>: a rate of zero is a decision, no rate is a gap.\<close>

definition vat_status_of :: "contract \<Rightarrow> vat_status" where
  "vat_status_of c =
    (case ct_vat_rate c of None \<Rightarrow> Vat_unset | Some r \<Rightarrow> if r = 0 then Zero_rated else Vat_applied)"

definition contract_checks :: "contract \<Rightarrow> bool" where
  "contract_checks c \<longleftrightarrow> ct_start_date c < ct_end_date c \<and>
    (ct_status c = C_terminated \<longrightarrow> ct_terminated_at c \<noteq> None) \<and>
    (case ct_vat_rate c of None \<Rightarrow> True | Some r \<Rightarrow> 0 \<le> r \<and> r \<le> 100)"

definition contracts_clash :: "contract \<Rightarrow> contract \<Rightarrow> bool" where
  "contracts_clash a b \<longleftrightarrow> \<not> is_deleted a \<and> \<not> is_deleted b \<and>
    company_id a = company_id b \<and> ct_number a = ct_number b"

definition open_line :: "contract_line \<Rightarrow> bool" where
  "open_line l \<longleftrightarrow> ce_removed_at l = None \<and> \<not> is_deleted l"

definition open_lines_clash :: "contract_line \<Rightarrow> contract_line \<Rightarrow> bool" where
  "open_lines_clash a b \<longleftrightarrow> open_line a \<and> open_line b \<and> ce_elevator a = ce_elevator b"

definition blank_contract_line :: contract_line where
  "blank_contract_line = \<lparr>pk = 0, company_id = 0, created_at = 0, updated_at = 0, created_by = None,
    updated_by = None, is_deleted = False, deleted_at = None, ce_contract = 0, ce_elevator = 0,
    ce_unit_price = None, ce_added_at = Date 1 1 1, ce_removed_at = None\<rparr>"

definition insert_contract :: "env \<Rightarrow> contract \<Rightarrow> 'a estate_scheme \<Rightarrow> (contract \<times> 'a estate_scheme) result" where
  "insert_contract e c s =
    db_insert e contracts_update (length (ct_number c) \<le> 30)
      (contract_checks c \<and> unique_with contracts_clash c (contracts s)) c s"

definition insert_contract_line ::
  "env \<Rightarrow> contract_line \<Rightarrow> 'a estate_scheme \<Rightarrow> (contract_line \<times> 'a estate_scheme) result" where
  "insert_contract_line e l s =
    db_insert e contract_lines_update (case ce_unit_price l of None \<Rightarrow> True | Some p \<Rightarrow> fits 12 p)
      (unique_with open_lines_clash l (contract_lines s)) l s"

text \<open>
  \<open>instance.save(update_fields=[...])\<close>: the tenant guard looks at the instance in hand, the
  listed columns (set by \<open>f\<close>) are written to the row of its key.
\<close>

definition save_fields ::
  "env \<Rightarrow> (('r row_scheme list \<Rightarrow> 'r row_scheme list) \<Rightarrow> 's \<Rightarrow> 's) \<Rightarrow> bool
    \<Rightarrow> ('r row_scheme \<Rightarrow> 'r row_scheme) \<Rightarrow> 'r row_scheme \<Rightarrow> 's \<Rightarrow> ('r row_scheme \<times> 's) result" where
  "save_fields e upd constraints_hold f r s =
    (if \<not> may_save (ctx e) r then Inl (Crash Tenant_mismatch)
     else if \<not> constraints_hold then Inl Integrity_error
     else Inr ((f r)\<lparr>updated_at := now e\<rparr>,
       upd (update_where (\<lambda>x. pk x = pk r) (\<lambda>x. (f x)\<lparr>updated_at := now e\<rparr>)) s))"

section \<open>Numbers\<close>

definition year_prefix :: "int \<Rightarrow> string" where
  "year_prefix y = digits (nat y) @ ''-''"

text \<open>\<open>int(text)\<close>, of plain digits; anything else is a \<open>ValueError\<close>.\<close>

definition is_digit :: "char \<Rightarrow> bool" where
  "is_digit c \<longleftrightarrow> (let n = (of_char c :: nat) in 48 \<le> n \<and> n \<le> 57)"

definition int_of_text :: "string \<Rightarrow> nat option" where
  "int_of_text t = (if t \<noteq> [] \<and> list_all is_digit t
     then Some (foldl (\<lambda>a c. 10 * a + (of_char c - 48)) 0 t) else None)"

text \<open>\<open>highest.split("-")[1]\<close>\<close>

definition second_part :: "string \<Rightarrow> string" where
  "second_part t = takeWhile (\<lambda>c. c \<noteq> CHR ''-'') (drop 1 (dropWhile (\<lambda>c. c \<noteq> CHR ''-'') t))"

definition next_contract_number :: "env \<Rightarrow> pk \<Rightarrow> 'a estate_scheme \<Rightarrow> string result" where
  "next_contract_number e co s =
    (let prefix = year_prefix (year (utc_today e));
         highest = agg_max (map ct_number
           (filter (\<lambda>c. company_id c = co \<and> take (length prefix) (ct_number c) = prefix) (contracts s)))
     in case highest of
          None \<Rightarrow> Inr (prefix @ padded 4 1)
        | Some h \<Rightarrow>
            bind_res (the_res (int_of_text (second_part h)) (Crash Value_error)) (\<lambda>n.
            Inr (prefix @ padded 4 (n + 1))))"

section \<open>Elevators under a contract\<close>

text \<open>\<open>line.elevator\<close>, through the tenant's manager.\<close>

definition get_elevator :: "env \<Rightarrow> pk \<Rightarrow> 'a estate_scheme \<Rightarrow> elevator result" where
  "get_elevator e k s = get_row k (objects (ctx e) (elevators s))"

definition set_elevator_status ::
  "env \<Rightarrow> elevator_status \<Rightarrow> elevator \<Rightarrow> 'a estate_scheme \<Rightarrow> 'a estate_scheme result" where
  "set_elevator_status e st el s =
    bind_res (save_fields e elevators_update True (\<lambda>x. x\<lparr>el_status := st\<rparr>) el s) (\<lambda>(_, s). Inr s)"

definition add_elevator ::
  "env \<Rightarrow> contract \<Rightarrow> rat option \<Rightarrow> pk \<Rightarrow> 'a estate_scheme \<Rightarrow> 'a estate_scheme result" where
  "add_elevator e c unit_price k s =
    (case by_pk k (objects (ctx e) (elevators s)) of
       None \<Rightarrow> Inl (Business_rule_error NOT_FOUND)
     | Some el \<Rightarrow>
         if \<exists>l \<in> set (objects (ctx e) (contract_lines s)). ce_elevator l = pk el \<and> ce_removed_at l = None
         then Inl (Business_rule_error ELEVATOR_ALREADY_CONTRACTED)
         else bind_res (insert_contract_line e (blank_contract_line\<lparr>company_id := company_id c,
             ce_contract := pk c, ce_elevator := pk el, ce_unit_price := unit_price,
             ce_added_at := utc_today e\<rparr>) s) (\<lambda>(_, s).
           if el_status el = Uncontracted then set_elevator_status e E_active el s else Inr s))"

definition add_elevators ::
  "env \<Rightarrow> contract \<Rightarrow> pk list \<Rightarrow> rat option \<Rightarrow> 'a estate_scheme \<Rightarrow> (nat \<times> 'a estate_scheme) result" where
  "add_elevators e c ks unit_price s =
    bind_res (fold_res (add_elevator e c unit_price) ks s) (\<lambda>s. Inr (length ks, s))"

text \<open>Closing a line: the day it stopped covering its elevator.\<close>

definition close_line :: "env \<Rightarrow> date \<Rightarrow> contract_line \<Rightarrow> 'a estate_scheme \<Rightarrow> 'a estate_scheme result" where
  "close_line e dt l s =
    bind_res (save_fields e contract_lines_update True (\<lambda>x. x\<lparr>ce_removed_at := Some dt\<rparr>) l s)
      (\<lambda>(_, s). Inr s)"

text \<open>Closing a line and letting its elevator fall back to uncontracted.\<close>

definition release_line :: "env \<Rightarrow> date \<Rightarrow> contract_line \<Rightarrow> 'a estate_scheme \<Rightarrow> 'a estate_scheme result" where
  "release_line e dt l s =
    bind_res (close_line e dt l s) (\<lambda>s.
    bind_res (get_elevator e (ce_elevator l) s) (\<lambda>el.
    set_elevator_status e Uncontracted el s))"

text \<open>The open lines of a contract, newest first as the model orders them.\<close>

definition open_lines_of :: "env \<Rightarrow> pk \<Rightarrow> 'a estate_scheme \<Rightarrow> contract_line list" where
  "open_lines_of e k s =
    rev (sort_key (\<lambda>l. (ce_added_at l, pk l))
      (filter (\<lambda>l. ce_contract l = k \<and> ce_removed_at l = None) (objects (ctx e) (contract_lines s))))"

definition remove_elevator ::
  "env \<Rightarrow> contract \<Rightarrow> pk \<Rightarrow> 'a estate_scheme \<Rightarrow> 'a estate_scheme result" where
  "remove_elevator e c k s =
    (case List.find (\<lambda>l. ce_elevator l = k) (open_lines_of e (pk c) s) of
       None \<Rightarrow> Inl (Business_rule_error NOT_FOUND)
     | Some l \<Rightarrow> release_line e (utc_today e) l s)"

section \<open>Ending a contract\<close>

definition terminate ::
  "env \<Rightarrow> contract \<Rightarrow> date \<Rightarrow> string \<Rightarrow> 'a estate_scheme \<Rightarrow> (contract \<times> 'a estate_scheme) result" where
  "terminate e c terminated_at reason s =
    (if strip reason = [] then Inl (Business_rule_error TERMINATION_REASON_REQUIRED)
     else if ct_status c \<in> {C_terminated, C_renewed} then Inl (Business_rule_error VALIDATION_ERROR)
     else bind_res (fold_res (release_line e terminated_at) (open_lines_of e (pk c) s) s) (\<lambda>s.
       let f = (\<lambda>x. x\<lparr>ct_status := C_terminated, ct_terminated_at := Some terminated_at,
             ct_termination_reason := reason, ct_auto_renew := False\<rparr>)
       in save_fields e contracts_update (contract_checks (f c)) f c s))"

text \<open>One line of a renewed contract: closed, and carried to the successor or let go.\<close>

definition carry_line ::
  "env \<Rightarrow> contract \<Rightarrow> contract \<Rightarrow> date \<Rightarrow> bool \<Rightarrow> bool \<Rightarrow> contract_line \<Rightarrow> 'a estate_scheme
    \<Rightarrow> 'a estate_scheme result" where
  "carry_line e c successor start carry copy_terms l s =
    bind_res (close_line e start l s) (\<lambda>s.
    bind_res (get_elevator e (ce_elevator l) s) (\<lambda>el.
    if carry
    then bind_res (insert_contract_line e (blank_contract_line\<lparr>company_id := company_id c,
        ce_contract := pk successor, ce_elevator := pk el,
        ce_unit_price := (if copy_terms then ce_unit_price l else None), ce_added_at := start\<rparr>) s)
      (\<lambda>(_, s). Inr s)
    else set_elevator_status e Uncontracted el s))"

definition successor_of :: "contract \<Rightarrow> string \<Rightarrow> date \<Rightarrow> date \<Rightarrow> bool \<Rightarrow> contract" where
  "successor_of c number start stop copy_terms =
    c\<lparr>created_by := None, updated_by := None, is_deleted := False, deleted_at := None,
      ct_number := number, ct_status := C_draft, ct_start_date := start, ct_end_date := stop,
      ct_monthly_fee := (if copy_terms then ct_monthly_fee c else None),
      ct_vat_rate := (if copy_terms then ct_vat_rate c else None),
      ct_previous := Some (pk c), ct_terminated_at := None, ct_termination_reason := []\<rparr>"

definition renew ::
  "env \<Rightarrow> contract \<Rightarrow> date \<Rightarrow> date \<Rightarrow> bool \<Rightarrow> bool \<Rightarrow> 'a estate_scheme
    \<Rightarrow> (contract \<times> 'a estate_scheme) result" where
  "renew e c start stop carry copy_terms s =
    (if ct_status c \<in> {C_terminated, C_renewed} then Inl (Business_rule_error VALIDATION_ERROR)
     else if stop \<le> start then Inl (Business_rule_error END_DATE_BEFORE_START_DATE)
     else bind_res (get_row (ct_customer c) (objects (ctx e) (customers s))) (\<lambda>_.
     bind_res (next_contract_number e (company_id c) s) (\<lambda>number.
     bind_res (insert_contract e (successor_of c number start stop copy_terms) s) (\<lambda>(successor, s).
     bind_res (fold_res (carry_line e c successor start carry copy_terms)
         (open_lines_of e (pk c) s) s) (\<lambda>s.
     bind_res (save_fields e contracts_update (contract_checks (c\<lparr>ct_status := C_renewed\<rparr>))
         (\<lambda>x. x\<lparr>ct_status := C_renewed\<rparr>) c s) (\<lambda>(_, s).
     Inr (successor, s)))))))"

text \<open>The term that follows (start, end), starting the day after it ends.\<close>

definition next_term :: "date \<Rightarrow> date \<Rightarrow> (date \<times> date) result" where
  "next_term start stop =
    bind_res (the_res (add_days stop 1) (Crash Overflow_error)) (\<lambda>new_start.
    let months = (year new_start - year start) * 12 + month new_start - month start in
    bind_res
      (if 0 < months \<and> day new_start = day start
       then bind_res (the_res (add_months start months) (Crash Value_error)) (\<lambda>d. Inr (d = new_start))
       else Inr False) (\<lambda>whole.
    if whole
    then bind_res (the_res (add_months new_start months) (Crash Value_error)) (\<lambda>next.
      bind_res (the_res (add_days next (-1)) (Crash Overflow_error)) (\<lambda>new_end.
      Inr (new_start, new_end)))
    else bind_res (the_res (add_days new_start (days_between stop start)) (Crash Overflow_error))
      (\<lambda>new_end. Inr (new_start, new_end))))"

datatype expiry_outcome =
    Expired contract
  | Auto_renewed contract contract
  | Auto_renewal_blocked contract contract

definition expire ::
  "env \<Rightarrow> contract \<Rightarrow> date \<Rightarrow> 'a estate_scheme \<Rightarrow> (expiry_outcome option \<times> 'a estate_scheme) result" where
  "expire e c dt s =
    (if ct_status c \<noteq> C_active \<or> dt \<le> ct_end_date c then Inr (None, s)
     else if ct_auto_renew c
     then bind_res (next_term (ct_start_date c) (ct_end_date c)) (\<lambda>(start, stop).
       bind_res (renew e c start stop True True s) (\<lambda>(successor, s).
       let old = c\<lparr>ct_status := C_renewed, updated_at := now e\<rparr> in
       if ct_vat_rate successor = None then Inr (Some (Auto_renewal_blocked old successor), s)
       else bind_res (save_fields e contracts_update (contract_checks (successor\<lparr>ct_status := C_active\<rparr>))
           (\<lambda>x. x\<lparr>ct_status := C_active\<rparr>) successor s) (\<lambda>(successor, s).
         Inr (Some (Auto_renewed old successor), s))))
     else bind_res (the_res (add_days (ct_end_date c) 1) (Crash Overflow_error)) (\<lambda>released_on.
       bind_res (fold_res (release_line e released_on) (open_lines_of e (pk c) s) s) (\<lambda>s.
       bind_res (save_fields e contracts_update (contract_checks (c\<lparr>ct_status := C_expired\<rparr>))
           (\<lambda>x. x\<lparr>ct_status := C_expired\<rparr>) c s) (\<lambda>(c, s).
       Inr (Some (Expired c), s)))))"

end
