(* ===== verification/Billing.thy ===== *)
theory Billing
  imports Contracts
begin

text \<open>
  \<open>apps/billing/services.py\<close>: drafting what a contract is billed for each period, and what a
  person does to a draft afterwards. The words of a line come from a template and the local
  clock from the time-zone database; both are parameters.
\<close>

section \<open>What is outside\<close>

text \<open>The values a line's template is given.\<close>

datatype line_words =
    Fee_words line_kind date date bool int int int "(string \<times> string) option"
  | Fault_words string string string string

text \<open>
  \<open>render\<close>: the template of a line; \<open>midnight\<close>: \<open>_local_midnight\<close>; \<open>date_at\<close>: the local date of
  an instant.
\<close>

record outside =
  render :: "line_words \<Rightarrow> string"
  midnight :: "date \<Rightarrow> instant"
  date_at :: "instant \<Rightarrow> date"

definition describe :: "outside \<Rightarrow> line_words \<Rightarrow> string" where
  "describe o1 w = take 500 (strip (render o1 w))"

section \<open>Rows\<close>

definition blank_invoice :: invoice where
  "blank_invoice = \<lparr>pk = 0, company_id = 0, created_at = 0, updated_at = 0, created_by = None,
    updated_by = None, is_deleted = False, deleted_at = None, inv_contract = 0, inv_customer = 0,
    inv_period_start = Date 1 1 1, inv_period_end = Date 1 1 1, inv_status = Draft,
    inv_currency = [], inv_vat_rate = 0, inv_subtotal = 0, inv_vat_amount = 0, inv_total = 0,
    inv_number = [], inv_date = None, inv_paid_on = None, inv_cancelled_at = None,
    inv_cancel_reason = [], inv_notes = []\<rparr>"

definition blank_line :: invoice_line where
  "blank_line = \<lparr>pk = 0, company_id = 0, created_at = 0, updated_at = 0, created_by = None,
    updated_by = None, is_deleted = False, deleted_at = None, ln_draft = 0, ln_kind = Manual_line,
    ln_description = [], ln_elevator = None, ln_fault = None, ln_fault_released = False,
    ln_quantity = 0, ln_months = None, ln_covered_days = None, ln_period_days = None,
    ln_unit_price = None, ln_amount = 0, ln_needs_price = False, ln_position = 0\<rparr>"

text \<open>A positive small integer column.\<close>

definition small :: "int option \<Rightarrow> bool" where
  "small n \<longleftrightarrow> (case n of None \<Rightarrow> True | Some k \<Rightarrow> 0 \<le> k \<and> k \<le> 32767)"

text \<open>The columns of a line; a quantity has four places, so eight digits before the point.\<close>

definition line_fits :: "invoice_line \<Rightarrow> bool" where
  "line_fits l \<longleftrightarrow> length (ln_description l) \<le> 500 \<and> fits 10 (ln_quantity l) \<and>
    (case ln_unit_price l of None \<Rightarrow> True | Some p \<Rightarrow> fits 12 p) \<and> fits 14 (ln_amount l) \<and>
    small (ln_months l) \<and> small (ln_covered_days l) \<and> small (ln_period_days l) \<and>
    small (Some (ln_position l))"

definition insert_invoice :: "env \<Rightarrow> invoice \<Rightarrow> 'a books_scheme \<Rightarrow> (invoice \<times> 'a books_scheme) result" where
  "insert_invoice e i s =
    db_insert e invoices_update (invoice_fits i)
      (invoice_checks i \<and> unique_with invoices_clash i (invoices s)) i s"

definition insert_line ::
  "env \<Rightarrow> invoice_line \<Rightarrow> 'a books_scheme \<Rightarrow> (invoice_line \<times> 'a books_scheme) result" where
  "insert_line e l s =
    db_insert e invoice_lines_update (line_fits l)
      (line_checks l \<and> unique_with lines_clash l (invoice_lines s)) l s"

text \<open>\<open>line.save()\<close>: every column of the instance in hand.\<close>

definition update_line ::
  "env \<Rightarrow> invoice_line \<Rightarrow> 'a books_scheme \<Rightarrow> (invoice_line \<times> 'a books_scheme) result" where
  "update_line e l s =
    db_update e invoice_lines_update (line_fits l)
      (line_checks l \<and> unique_with lines_clash l (filter (\<lambda>x. pk x \<noteq> pk l) (invoice_lines s))) l s"

text \<open>\<open>draft.save(update_fields=[...])\<close>: the columns set by \<open>f\<close>.\<close>

definition save_invoice ::
  "env \<Rightarrow> (invoice \<Rightarrow> invoice) \<Rightarrow> invoice \<Rightarrow> 'a books_scheme \<Rightarrow> (invoice \<times> 'a books_scheme) result" where
  "save_invoice e f d s =
    (if \<not> may_save (ctx e) d then Inl (Crash Tenant_mismatch)
     else if \<not> invoice_fits (f d) then Inl (Crash Data_error)
     else if \<not> (invoice_checks (f d) \<and>
       unique_with invoices_clash (f d) (filter (\<lambda>x. pk x \<noteq> pk d) (invoices s)))
     then Inl Integrity_error
     else Inr ((f d)\<lparr>updated_at := now e\<rparr>,
       invoices_update (update_where (\<lambda>x. pk x = pk d) (\<lambda>x. (f x)\<lparr>updated_at := now e\<rparr>)) s))"

text \<open>\<open>InvoiceLine.objects.filter(draft=draft)\<close>\<close>

definition lines_of :: "env \<Rightarrow> pk \<Rightarrow> 'a books_scheme \<Rightarrow> invoice_line list" where
  "lines_of e k s = filter (\<lambda>l. ln_draft l = k) (objects (ctx e) (invoice_lines s))"

section \<open>Totals\<close>

definition recompute :: "env \<Rightarrow> invoice \<Rightarrow> 'a books_scheme \<Rightarrow> (invoice \<times> 'a books_scheme) result" where
  "recompute e d s =
    (if inv_status d \<noteq> Draft then Inr (d, s)
     else bind_res (totals (map ln_amount (lines_of e (pk d) s)) (inv_vat_rate d)) (\<lambda>(sub, vat, total).
       save_invoice e (\<lambda>x. x\<lparr>inv_subtotal := sub, inv_vat_amount := vat, inv_total := total\<rparr>) d s))"

section \<open>Generation\<close>

definition last_billed_day :: "contract \<Rightarrow> date" where
  "last_billed_day c =
    (if ct_status c = C_terminated
     then (case ct_terminated_at c of Some t \<Rightarrow> min (ct_end_date c) t | None \<Rightarrow> ct_end_date c)
     else ct_end_date c)"

definition prorated_line ::
  "outside \<Rightarrow> line_kind \<Rightarrow> period \<Rightarrow> int \<Rightarrow> rat option \<Rightarrow> (string \<times> string) option \<Rightarrow> invoice_line result" where
  "prorated_line o1 kind p covered unit_price names =
    bind_res (prorated_quantity (p_months p) covered (nominal_days p)) (\<lambda>quantity.
    bind_res (prorated_amount unit_price (p_months p) covered (nominal_days p)) (\<lambda>amount.
    Inr (blank_line\<lparr>ln_kind := kind,
      ln_description := describe o1 (Fee_words kind (p_start p) (p_end p) (covered < nominal_days p)
        (p_months p) covered (nominal_days p) names),
      ln_quantity := quantity, ln_months := Some (p_months p), ln_covered_days := Some covered,
      ln_period_days := Some (nominal_days p), ln_unit_price := unit_price, ln_amount := amount,
      ln_needs_price := (unit_price = None)\<rparr>)))"

text \<open>How an elevator and its building are named on a line.\<close>

definition shown_name :: "elevator \<Rightarrow> string" where
  "shown_name el = (if el_name el \<noteq> [] then el_name el else el_registration_number el)"

definition joined_elevator :: "pk \<Rightarrow> 'a estate_scheme \<Rightarrow> (elevator \<times> building) result" where
  "joined_elevator k s =
    bind_res (get_row k (elevators s)) (\<lambda>el. bind_res (get_row (el_building el) (buildings s)) (\<lambda>b.
    Inr (el, b)))"

text \<open>The contract's lines that were open at some time in the period, oldest first.\<close>

definition contract_lines_in :: "env \<Rightarrow> contract \<Rightarrow> period \<Rightarrow> 'a estate_scheme \<Rightarrow> contract_line list" where
  "contract_lines_in e c p s =
    sort_key (\<lambda>l. (ce_added_at l, pk l))
      (filter (\<lambda>l. ce_contract l = pk c \<and> ce_added_at l \<le> p_end p \<and>
          (case ce_removed_at l of None \<Rightarrow> True | Some r \<Rightarrow> p_start p \<le> r))
        (objects (ctx e) (contract_lines s)))"

text \<open>\<open>removed_at or date.max\<close>\<close>

definition cover_end :: "contract_line \<Rightarrow> date" where
  "cover_end l = (case ce_removed_at l of None \<Rightarrow> date_max | Some r \<Rightarrow> r)"

definition covered_days :: "period \<Rightarrow> contract_line \<Rightarrow> int" where
  "covered_days p l = overlap_days (p_start p, p_end p) (ce_added_at l, cover_end l)"

fun elevator_fees ::
  "outside \<Rightarrow> period \<Rightarrow> contract_line list \<Rightarrow> 'a estate_scheme \<Rightarrow> invoice_line list result" where
  "elevator_fees o1 p [] s = Inr []"
| "elevator_fees o1 p (l # ls) s =
    (if covered_days p l = 0 then elevator_fees o1 p ls s
     else bind_res (joined_elevator (ce_elevator l) s) (\<lambda>(el, b).
       bind_res (prorated_line o1 Elevator_fee p (covered_days p l) (ce_unit_price l)
           (Some (shown_name el, bd_name b))) (\<lambda>fee.
       bind_res (elevator_fees o1 p ls s) (\<lambda>fees.
       Inr (fee\<lparr>ln_elevator := Some (pk el)\<rparr> # fees)))))"

definition fee_lines ::
  "env \<Rightarrow> outside \<Rightarrow> contract \<Rightarrow> period \<Rightarrow> 'a estate_scheme \<Rightarrow> invoice_line list result" where
  "fee_lines e o1 c p s =
    (if ct_pricing_type c = Flat
     then bind_res (prorated_line o1 Contract_fee p
         (overlap_days (p_start p, p_end p) (ct_start_date c, last_billed_day c)) (ct_monthly_fee c) None)
       (\<lambda>l. Inr [l])
     else elevator_fees o1 p (contract_lines_in e c p s) s)"

text \<open>The fault is on a live line already.\<close>

definition billed :: "env \<Rightarrow> pk \<Rightarrow> 'a estate_scheme \<Rightarrow> bool" where
  "billed e f s \<longleftrightarrow> (\<exists>l \<in> set (objects (ctx e) (invoice_lines s)).
    ln_fault l = Some f \<and> \<not> ln_fault_released l \<and> \<not> is_deleted l)"

text \<open>The contract covered the fault's lift on the day it was reported.\<close>

definition covered_when_reported :: "env \<Rightarrow> outside \<Rightarrow> contract \<Rightarrow> fault \<Rightarrow> 'a estate_scheme \<Rightarrow> bool" where
  "covered_when_reported e o1 c f s \<longleftrightarrow>
    (let reported_on = date_at o1 (fl_reported_at f)
     in \<exists>l \<in> set (objects (ctx e) (contract_lines s)). ce_contract l = pk c \<and>
       ce_elevator l = fl_elevator f \<and> ce_added_at l \<le> reported_on \<and> reported_on \<le> cover_end l)"

definition billable_faults ::
  "env \<Rightarrow> outside \<Rightarrow> contract \<Rightarrow> period \<Rightarrow> 'a estate_scheme \<Rightarrow> fault list result" where
  "billable_faults e o1 c p s =
    bind_res (the_res (add_days (p_end p) 1) (Crash Overflow_error)) (\<lambda>next_day.
    let candidates = filter (\<lambda>f. fl_status f = F_closed \<and> fl_billable f = Some True \<and>
          (case fl_closed_at f of None \<Rightarrow> False
           | Some t \<Rightarrow> midnight o1 (p_start p) \<le> t \<and> t < midnight o1 next_day) \<and>
          (\<exists>l \<in> set (contract_lines s). ce_elevator l = fl_elevator f \<and> ce_contract l = pk c) \<and>
          \<not> billed e (pk f) s)
        (objects (ctx e) (faults s));
      ordered = sort_key (\<lambda>f. (case fl_closed_at f of None \<Rightarrow> 0 | Some t \<Rightarrow> t, pk f)) candidates
    in Inr (filter (\<lambda>f. covered_when_reported e o1 c f s) ordered))"

definition fault_line :: "outside \<Rightarrow> 'a estate_scheme \<Rightarrow> fault \<Rightarrow> invoice_line result" where
  "fault_line o1 s f =
    bind_res (joined_elevator (fl_elevator f) s) (\<lambda>(el, b).
    Inr (blank_line\<lparr>ln_kind := Fault_line, ln_fault := Some (pk f), ln_elevator := Some (pk el),
      ln_description := describe o1 (Fault_words (fl_reference f) (shown_name el) (bd_name b)
        (strip (fl_parts_used f))),
      ln_quantity := 1, ln_unit_price := None, ln_amount := 0, ln_needs_price := True\<rparr>))"

fun fault_lines :: "outside \<Rightarrow> 'a estate_scheme \<Rightarrow> fault list \<Rightarrow> invoice_line list result" where
  "fault_lines o1 s [] = Inr []"
| "fault_lines o1 s (f # fs) =
    bind_res (fault_line o1 s f) (\<lambda>l. bind_res (fault_lines o1 s fs) (\<lambda>ls. Inr (l # ls)))"

text \<open>\<open>for position, line in enumerate(lines): ... line.save()\<close>\<close>

fun save_lines ::
  "env \<Rightarrow> pk \<Rightarrow> pk \<Rightarrow> int \<Rightarrow> invoice_line list \<Rightarrow> 'a estate_scheme \<Rightarrow> 'a estate_scheme result" where
  "save_lines e co d position [] s = Inr s"
| "save_lines e co d position (l # ls) s =
    bind_res (insert_line e (l\<lparr>company_id := co, ln_draft := d, ln_position := position\<rparr>) s)
      (\<lambda>(_, s). save_lines e co d (position + 1) ls s)"

text \<open>The body of \<open>draft_for\<close>, inside its savepoint.\<close>

definition create_draft ::
  "env \<Rightarrow> outside \<Rightarrow> contract \<Rightarrow> rat \<Rightarrow> period \<Rightarrow> 'a estate_scheme \<Rightarrow> (invoice \<times> 'a estate_scheme) result" where
  "create_draft e o1 c rate p s =
    bind_res (insert_invoice e (blank_invoice\<lparr>company_id := company_id c, inv_contract := pk c,
        inv_customer := ct_customer c, inv_period_start := p_start p, inv_period_end := p_end p,
        inv_currency := ct_currency c, inv_vat_rate := rate\<rparr>) s) (\<lambda>(d, s).
    bind_res (fee_lines e o1 c p s) (\<lambda>fees.
    bind_res (billable_faults e o1 c p s) (\<lambda>fs.
    bind_res (fault_lines o1 s fs) (\<lambda>repairs.
    bind_res (save_lines e (company_id c) (pk d) 0 (fees @ repairs) s) (\<lambda>s.
    recompute e d s)))))"

definition draft_for ::
  "env \<Rightarrow> outside \<Rightarrow> contract \<Rightarrow> period \<Rightarrow> 'a estate_scheme \<Rightarrow> (invoice option \<times> 'a estate_scheme) result" where
  "draft_for e o1 c p s =
    (case ct_vat_rate c of
       None \<Rightarrow> Inl (Crash Assertion_error)
     | Some rate \<Rightarrow>
         (case create_draft e o1 c rate p s of
            Inl Integrity_error \<Rightarrow> Inr (None, s)
          | Inl err \<Rightarrow> Inl err
          | Inr (d, s') \<Rightarrow> Inr (Some d, s')))"

text \<open>What one run of the generator did.\<close>

record draft_run =
  run_created :: "invoice list"
  run_vat_missing :: nat
  run_by_company :: "(pk \<times> invoice list) list"

fun add_draft :: "pk \<Rightarrow> invoice \<Rightarrow> (pk \<times> invoice list) list \<Rightarrow> (pk \<times> invoice list) list" where
  "add_draft co d [] = [(co, [d])]"
| "add_draft co d ((k, ds) # rest) = (if k = co then (k, ds @ [d]) # rest else (k, ds) # add_draft co d rest)"

definition billing_people :: "pk \<Rightarrow> 'a books_scheme \<Rightarrow> staff list" where
  "billing_people co s =
    sort_key (\<lambda>u. (staff_first_name u, staff_last_name u, pk u))
      (filter (\<lambda>u. company_id u = co \<and> staff_role u \<in> {Owner, Admin, Accountant} \<and> staff_is_active u)
        (staff_users s))"

definition RECENTLY_ENDED :: int where "RECENTLY_ENDED = 92"
definition LOOKBACK :: int where "LOOKBACK = 92"

definition vat_missing_notice ::
  "env \<Rightarrow> contract \<Rightarrow> period \<Rightarrow> 'a estate_scheme \<Rightarrow> (notification list \<times> 'a estate_scheme) result" where
  "vat_missing_notice e c p s =
    bind_res (get_row (ct_customer c) (customers s)) (\<lambda>customer.
    notify e ''billing_vat_missing'' (billing_people (company_id c) s) ''contract'' (pk c)
      [(''contract_number'', Text (ct_number c)), (''customer_name'', Text (cust_legal_name customer)),
       (''period_start'', Text (isoformat (p_start p))), (''period_end'', Text (isoformat (p_end p)))]
      (''billing_vat_missing:'' @ digits (pk c) @ '':'' @ isoformat (p_start p)) s)"

text \<open>The loop over the periods of one contract; a period that ends after yesterday ends it.\<close>

fun bill_periods ::
  "env \<Rightarrow> outside \<Rightarrow> contract \<Rightarrow> date \<Rightarrow> date \<Rightarrow> date list \<Rightarrow> period result list
    \<Rightarrow> draft_run \<times> 'a estate_scheme \<Rightarrow> (draft_run \<times> 'a estate_scheme) result" where
  "bill_periods e o1 c yesterday earliest existing [] (run, s) = Inr (run, s)"
| "bill_periods e o1 c yesterday earliest existing (Inl err # ps) (run, s) = Inl err"
| "bill_periods e o1 c yesterday earliest existing (Inr p # ps) (run, s) =
    (if yesterday < p_end p then Inr (run, s)
     else if p_end p < earliest \<or> p_start p \<in> set existing
     then bill_periods e o1 c yesterday earliest existing ps (run, s)
     else if ct_vat_rate c = None
     then bind_res (vat_missing_notice e c p s) (\<lambda>(raised, s).
       bill_periods e o1 c yesterday earliest existing ps
         (run\<lparr>run_vat_missing := run_vat_missing run + length raised\<rparr>, s))
     else bind_res (draft_for e o1 c p s) (\<lambda>(made, s).
       bill_periods e o1 c yesterday earliest existing ps
         ((case made of
             None \<Rightarrow> run
           | Some d \<Rightarrow> run\<lparr>run_created := run_created run @ [d],
               run_by_company := add_draft (company_id c) d (run_by_company run)\<rparr>), s)))"

definition live_period_starts :: "env \<Rightarrow> contract \<Rightarrow> 'a estate_scheme \<Rightarrow> date list" where
  "live_period_starts e c s =
    map inv_period_start (filter (\<lambda>i. inv_contract i = pk c \<and> inv_status i \<noteq> Cancelled)
      (objects (ctx e) (invoices s)))"

definition bill_contract ::
  "env \<Rightarrow> outside \<Rightarrow> date \<Rightarrow> date \<Rightarrow> contract \<Rightarrow> draft_run \<times> 'a estate_scheme
    \<Rightarrow> (draft_run \<times> 'a estate_scheme) result" where
  "bill_contract e o1 yesterday earliest c rs =
    bill_periods e o1 c yesterday earliest (live_period_starts e c (snd rs))
      (periods (ct_start_date c) (last_billed_day c) (ct_billing_period c)) rs"

text \<open>Whether the run looks at the contract.\<close>

definition billable_contract :: "date \<Rightarrow> contract \<Rightarrow> bool" where
  "billable_contract since c \<longleftrightarrow> ct_status c = C_active \<or>
    (ct_status c \<in> {C_expired, C_renewed} \<and> since \<le> ct_end_date c) \<or>
    (ct_status c = C_terminated \<and>
      (case ct_terminated_at c of None \<Rightarrow> False | Some t \<Rightarrow> since \<le> t))"

text \<open>How many of the drafts have a live line without a price.\<close>

definition unpriced_count :: "env \<Rightarrow> invoice list \<Rightarrow> 'a books_scheme \<Rightarrow> nat" where
  "unpriced_count e ds s =
    length (filter (\<lambda>i. pk i \<in> pk ` set ds \<and>
        (\<exists>l \<in> set (invoice_lines s). ln_draft l = pk i \<and> ln_needs_price l \<and> \<not> is_deleted l))
      (objects (ctx e) (invoices s)))"

definition drafts_ready_notice ::
  "env \<Rightarrow> date \<Rightarrow> pk \<times> invoice list \<Rightarrow> 'a estate_scheme \<Rightarrow> 'a estate_scheme result" where
  "drafts_ready_notice e dt entry s =
    (case entry of (co, ds) \<Rightarrow>
      bind_res (the_res (agg_max (map inv_period_end ds)) (Crash Value_error)) (\<lambda>latest.
      bind_res (notify e ''invoice_drafts_ready'' (billing_people co s) ''billing'' co
          [(''count'', Number (int (length ds))), (''needs_price'', Number (int (unpriced_count e ds s))),
           (''period'', Text (padded 4 (nat (year latest)) @ ''-'' @ padded 2 (nat (month latest))))]
          (''invoice_drafts_ready:'' @ digits co @ '':'' @ isoformat dt) s) (\<lambda>(_, s). Inr s)))"

definition generate ::
  "env \<Rightarrow> outside \<Rightarrow> date \<Rightarrow> 'a estate_scheme \<Rightarrow> (draft_run \<times> 'a estate_scheme) result" where
  "generate e o1 dt s =
    bind_res (the_res (add_days dt (-1)) (Crash Overflow_error)) (\<lambda>yesterday.
    bind_res (the_res (add_days dt (- RECENTLY_ENDED)) (Crash Overflow_error)) (\<lambda>since.
    bind_res (the_res (add_days dt (- LOOKBACK)) (Crash Overflow_error)) (\<lambda>earliest.
    let due = sort_key (\<lambda>c. (ct_start_date c, pk c))
          (filter (billable_contract since) (objects (ctx e) (contracts s)))
    in bind_res (fold_res (bill_contract e o1 yesterday earliest) due
        (\<lparr>run_created = [], run_vat_missing = 0, run_by_company = []\<rparr>, s)) (\<lambda>(run, s).
      bind_res (fold_res (drafts_ready_notice e dt) (run_by_company run) s) (\<lambda>s.
      Inr (run, s))))))"

section \<open>Lifecycle\<close>

definition line_amount :: "invoice_line \<Rightarrow> rat result" where
  "line_amount l =
    (case (ln_months l, ln_covered_days l, ln_period_days l) of
       (Some m, Some c, Some d) \<Rightarrow>
         if d \<noteq> 0 then prorated_amount (ln_unit_price l) m c d
         else line_amount_of (ln_quantity l) (ln_unit_price l)
     | _ \<Rightarrow> line_amount_of (ln_quantity l) (ln_unit_price l))"

definition refuse :: exn where
  "refuse = Conflict INVOICE_TRANSITION_NOT_ALLOWED"

definition editable :: "env \<Rightarrow> pk \<Rightarrow> 'a books_scheme \<Rightarrow> invoice result" where
  "editable e k s =
    bind_res (get_invoice e k s) (\<lambda>d. if inv_status d \<noteq> Draft then Inl refuse else Inr d)"

text \<open>The changes a caller may ask of a draft, and of a line.\<close>

datatype draft_change = Set_notes string
datatype line_change = Set_description string | Set_quantity rat | Set_unit_price "rat option"

fun change_draft :: "draft_change \<Rightarrow> invoice \<Rightarrow> invoice" where
  "change_draft (Set_notes t) d = d\<lparr>inv_notes := t\<rparr>"

definition edit_draft ::
  "env \<Rightarrow> pk \<Rightarrow> draft_change list \<Rightarrow> pk option \<Rightarrow> 'a books_scheme \<Rightarrow> (invoice \<times> 'a books_scheme) result" where
  "edit_draft e k changes by s =
    bind_res (editable e k s) (\<lambda>d.
    update_invoice e ((fold change_draft changes d)\<lparr>updated_by := by\<rparr>) s)"

definition add_line ::
  "env \<Rightarrow> pk \<Rightarrow> string \<Rightarrow> rat \<Rightarrow> rat \<Rightarrow> pk option \<Rightarrow> 'a books_scheme
    \<Rightarrow> (invoice_line \<times> 'a books_scheme) result" where
  "add_line e k description quantity unit_price by s =
    bind_res (editable e k s) (\<lambda>d.
    let position = (case agg_max (map ln_position (lines_of e (pk d) s)) of None \<Rightarrow> 0 | Some p \<Rightarrow> p) in
    bind_res (line_amount_of quantity (Some unit_price)) (\<lambda>amount.
    bind_res (insert_line e (blank_line\<lparr>company_id := company_id d, ln_draft := pk d,
        ln_kind := Manual_line, ln_description := description, ln_quantity := quantity,
        ln_unit_price := Some unit_price, ln_amount := amount, ln_needs_price := False,
        ln_position := position + 1, created_by := by, updated_by := by\<rparr>) s) (\<lambda>(l, s).
    bind_res (recompute e d s) (\<lambda>(_, s). Inr (l, s)))))"

fun change_line :: "line_change \<Rightarrow> invoice_line \<Rightarrow> invoice_line" where
  "change_line (Set_description t) l = l\<lparr>ln_description := t\<rparr>"
| "change_line (Set_quantity q) l = l\<lparr>ln_quantity := q\<rparr>"
| "change_line (Set_unit_price p) l = l\<lparr>ln_unit_price := p\<rparr>"

fun sets_quantity :: "line_change \<Rightarrow> bool" where
  "sets_quantity (Set_quantity q) = True"
| "sets_quantity (Set_description t) = False"
| "sets_quantity (Set_unit_price p) = False"

text \<open>The line in hand with the changes, priced again.\<close>

definition repriced :: "invoice_line \<Rightarrow> line_change list \<Rightarrow> pk option \<Rightarrow> invoice_line result" where
  "repriced l changes by =
    (let l = fold change_line changes l;
         l = (if \<exists>c \<in> set changes. sets_quantity c
              then l\<lparr>ln_months := None, ln_covered_days := None, ln_period_days := None\<rparr> else l);
         l = l\<lparr>ln_needs_price := (ln_unit_price l = None)\<rparr>
     in bind_res (line_amount l) (\<lambda>amount. Inr (l\<lparr>ln_amount := amount, updated_by := by\<rparr>)))"

text \<open>The line is the instance the caller read, before the draft's row is locked.\<close>

definition edit_line ::
  "env \<Rightarrow> invoice_line \<Rightarrow> line_change list \<Rightarrow> pk option \<Rightarrow> 'a books_scheme
    \<Rightarrow> (invoice_line \<times> 'a books_scheme) result" where
  "edit_line e l changes by s =
    bind_res (editable e (ln_draft l) s) (\<lambda>d.
    bind_res (repriced l changes by) (\<lambda>l.
    bind_res (update_line e l s) (\<lambda>(l, s).
    bind_res (recompute e d s) (\<lambda>(_, s). Inr (l, s)))))"

definition remove_line ::
  "env \<Rightarrow> invoice_line \<Rightarrow> pk option \<Rightarrow> 'a books_scheme \<Rightarrow> 'a books_scheme result" where
  "remove_line e l by s =
    bind_res (editable e (ln_draft l) s) (\<lambda>d.
    bind_res (save_fields e invoice_lines_update True (\<lambda>x. x\<lparr>updated_by := by\<rparr>) l s) (\<lambda>(l, s).
    bind_res (save_fields e invoice_lines_update True
        (\<lambda>x. x\<lparr>is_deleted := True, deleted_at := Some (now e)\<rparr>) l s) (\<lambda>(_, s).
    bind_res (recompute e d s) (\<lambda>(_, s). Inr s))))"

definition number_taken :: "env \<Rightarrow> invoice \<Rightarrow> string \<Rightarrow> 'a books_scheme \<Rightarrow> bool" where
  "number_taken e d number s \<longleftrightarrow> (\<exists>i \<in> set (objects (ctx e) (invoices s)).
    company_id i = company_id d \<and> inv_number i = number \<and> inv_status i \<in> {Issued, Paid} \<and> pk i \<noteq> pk d)"

definition issue ::
  "env \<Rightarrow> pk \<Rightarrow> string \<Rightarrow> date \<Rightarrow> pk option \<Rightarrow> 'a books_scheme \<Rightarrow> (invoice \<times> 'a books_scheme) result" where
  "issue e k invoice_number invoice_date by s =
    bind_res (editable e k s) (\<lambda>d.
    if \<exists>l \<in> set (lines_of e (pk d) s). ln_needs_price l
    then Inl (Business_rule_error INVOICE_LINES_NEED_PRICE)
    else if number_taken e d invoice_number s then Inl (Duplicate_record DUPLICATE_INVOICE_NUMBER)
    else bind_res (recompute e d s) (\<lambda>(d, s).
    bind_res (save_invoice e (\<lambda>x. x\<lparr>inv_status := Issued, inv_number := invoice_number,
        inv_date := Some invoice_date, updated_by := by\<rparr>) d s) (\<lambda>(d, s).
    bind_res (post_invoice e (pk d) by None s) (\<lambda>(_, s).
    sync_invoice_status e (pk d) s))))"

definition mark_paid ::
  "env \<Rightarrow> pk \<Rightarrow> date \<Rightarrow> pk option \<Rightarrow> cash_account option \<Rightarrow> string \<Rightarrow> 'a books_scheme
    \<Rightarrow> (invoice \<times> 'a books_scheme) result" where
  "mark_paid e k paid_on by cash method_name s =
    bind_res (get_invoice e k s) (\<lambda>d.
    if inv_status d \<noteq> Issued \<or> invoice_remaining d s \<le> 0 then Inl refuse
    else bind_res (collect_invoice e d paid_on by cash method_name [] s) (\<lambda>(_, s).
      bind_res (get_invoice e k s) (\<lambda>d. Inr (d, s))))"

text \<open>Giving a fault back: its line keeps naming it, but no longer holds it.\<close>

definition release_fault :: "env \<Rightarrow> invoice_line \<Rightarrow> 'a books_scheme \<Rightarrow> 'a books_scheme result" where
  "release_fault e l s =
    bind_res (save_fields e invoice_lines_update True (\<lambda>x. x\<lparr>ln_fault_released := True\<rparr>) l s)
      (\<lambda>(_, s). Inr s)"

definition cancel_invoice ::
  "env \<Rightarrow> pk \<Rightarrow> string \<Rightarrow> pk option \<Rightarrow> 'a books_scheme \<Rightarrow> (invoice \<times> 'a books_scheme) result" where
  "cancel_invoice e k reason by s =
    bind_res (get_invoice e k s) (\<lambda>d.
    if inv_status d \<notin> {Draft, Issued, Paid} then Inl refuse
    else bind_res (if inv_status d \<noteq> Draft then reverse_invoice e (pk d) by s else Inr s) (\<lambda>s.
    bind_res (save_invoice e (\<lambda>x. x\<lparr>inv_status := Cancelled, inv_cancelled_at := Some (now e),
        inv_cancel_reason := reason, updated_by := by\<rparr>) d s) (\<lambda>(d, s).
    bind_res (fold_res (release_fault e)
        (filter (\<lambda>l. ln_fault l \<noteq> None \<and> \<not> ln_fault_released l) (lines_of e (pk d) s)) s) (\<lambda>s.
    Inr (d, s)))))"

end
