(* ===== verification/Faults.thy ===== *)
theory Faults
  imports Billing
begin

text \<open>
  \<open>apps/faults/services.py\<close>, with the views that call it: reporting a fault (at the firm, from
  the sticker on the lift, from the customer's portal), moving it through its states, what it
  does to the lift, who hears of it, and how long a public reporter's name is kept.
\<close>

section \<open>The tables\<close>

text \<open>Which customers a technician looks after (\<open>UserCustomer\<close>, apps/users/models.py).\<close>

record assignment = row +
  as_user :: pk
  as_customer :: pk

record board = estate +
  assignments :: "assignment list"

text \<open>\<open>iso\<close>: \<open>datetime.isoformat()\<close>; \<open>pick n i\<close>: the index \<open>secrets.choice\<close> draws for character \<open>i\<close> of
  the \<open>n\<close>-th reference.\<close>

record fault_world = outside +
  iso :: "instant \<Rightarrow> string"
  pick :: "nat \<Rightarrow> nat \<Rightarrow> nat"

definition CANCELLABLE :: "fault_status list" where
  "CANCELLABLE = [F_open, F_assigned, F_on_site]"

fun priority_value :: "fault_priority \<Rightarrow> string" where
  "priority_value Emergency = ''emergency''"
| "priority_value High = ''high''"
| "priority_value Normal = ''normal''"

fun channel_value :: "fault_channel \<Rightarrow> string" where
  "channel_value By_staff = ''staff''"
| "channel_value Public_qr = ''public_qr''"
| "channel_value Customer_portal = ''customer_portal''"

definition blank_fault :: fault where
  "blank_fault = \<lparr>pk = 0, company_id = 0, created_at = 0, updated_at = 0, created_by = None,
    updated_by = None, is_deleted = False, deleted_at = None, fl_elevator = 0, fl_reference = [],
    fl_channel = By_staff, fl_reported_by = None, fl_portal_account = None, fl_reporter_name = [],
    fl_reporter_phone = [], fl_description = [], fl_additional_reports = [], fl_priority = Normal,
    fl_status = F_open, fl_technician = None, fl_reported_at = 0, fl_assigned_at = None,
    fl_on_site_at = None, fl_resolved_at = None, fl_closed_at = None, fl_cancelled_at = None,
    fl_cancel_reason = [], fl_resolution_notes = [], fl_parts_used = [], fl_billable = None,
    fl_billable_overridden = False, fl_stopped_elevator = False\<rparr>"

definition faults_clash :: "fault \<Rightarrow> fault \<Rightarrow> bool" where
  "faults_clash a b \<longleftrightarrow> \<not> is_deleted a \<and> \<not> is_deleted b \<and>
    company_id a = company_id b \<and> fl_reference a = fl_reference b"

definition fault_fits :: "fault \<Rightarrow> bool" where
  "fault_fits f \<longleftrightarrow> length (fl_reference f) \<le> 6 \<and> length (fl_reporter_name f) \<le> 100 \<and>
    length (fl_reporter_phone f) \<le> 30"

text \<open>\<open>Fault.response_time\<close> and \<open>Fault.resolution_time\<close>\<close>

definition response_time :: "fault \<Rightarrow> instant option" where
  "response_time f = map_option (\<lambda>t. t - fl_reported_at f) (fl_on_site_at f)"

definition resolution_time :: "fault \<Rightarrow> instant option" where
  "resolution_time f = map_option (\<lambda>t. t - fl_reported_at f) (fl_resolved_at f)"

section \<open>References\<close>

definition REFERENCE_ALPHABET :: string where
  "REFERENCE_ALPHABET = ''23456789ABCDEFGHJKMNPQRSTUVWXYZ''"

definition REFERENCE_LENGTH :: nat where "REFERENCE_LENGTH = 6"

definition new_reference :: "(nat \<Rightarrow> nat) \<Rightarrow> string" where
  "new_reference draw =
    map (\<lambda>i. REFERENCE_ALPHABET ! (draw i mod length REFERENCE_ALPHABET)) [0 ..< REFERENCE_LENGTH]"

section \<open>Locking and looking\<close>

text \<open>Instants count microseconds.\<close>

definition PUBLIC_MERGE_WINDOW :: instant where "PUBLIC_MERGE_WINDOW = 30 * 60 * 1000000"
definition REPORTER_DATA_RETENTION :: instant where "REPORTER_DATA_RETENTION = 90 * 86400 * 1000000"

definition refuse_fault :: exn where
  "refuse_fault = Conflict FAULT_TRANSITION_NOT_ALLOWED"

definition locked_fault :: "env \<Rightarrow> pk \<Rightarrow> 'a estate_scheme \<Rightarrow> fault result" where
  "locked_fault e k s = get_row k (objects (ctx e) (faults s))"

text \<open>\<open>fault.technician\<close>\<close>

definition technician_of :: "fault \<Rightarrow> 'a books_scheme \<Rightarrow> staff option" where
  "technician_of f s = Option.bind (fl_technician f) (\<lambda>k. by_pk k (staff_users s))"

section \<open>Who hears about it\<close>

definition by_name :: "staff list \<Rightarrow> staff list" where
  "by_name us = sort_key (\<lambda>u. (staff_first_name u, staff_last_name u, pk u)) us"

definition fault_office :: "pk \<Rightarrow> 'a books_scheme \<Rightarrow> staff list" where
  "fault_office co s = by_name (filter (\<lambda>u. company_id u = co \<and>
    staff_role u \<in> {Owner, Admin, Operations} \<and> staff_is_active u) (staff_users s))"

definition customer_technicians :: "fault \<Rightarrow> 'a board_scheme \<Rightarrow> staff list result" where
  "customer_technicians f s =
    bind_res (joined_elevator (fl_elevator f) s) (\<lambda>(_, b).
    Inr (by_name (filter (\<lambda>u. company_id u = company_id f \<and> staff_role u = Technician \<and> staff_is_active u \<and>
      (\<exists>a \<in> set (assignments s). as_user a = pk u \<and> as_customer a = bd_customer b \<and> \<not> is_deleted a))
      (staff_users s))))"

text \<open>\<open>{user.pk: user for user in ...}\<close>: one entry per user, where the user first came.\<close>

fun add_person :: "staff \<Rightarrow> staff list \<Rightarrow> staff list" where
  "add_person u [] = [u]"
| "add_person u (v # vs) = (if pk v = pk u then u # vs else v # add_person u vs)"

definition people_of :: "staff list \<Rightarrow> staff list" where
  "people_of us = fold add_person us []"

definition fault_facts :: "fault \<Rightarrow> 'a estate_scheme \<Rightarrow> (string \<times> fact) list result" where
  "fault_facts f s =
    bind_res (joined_elevator (fl_elevator f) s) (\<lambda>(el, b).
    Inr [(''reference'', Text (fl_reference f)), (''elevator_name'', Text (el_name el)),
      (''building_name'', Text (bd_name b)), (''priority'', Text (priority_value (fl_priority f)))])"

definition announce_report :: "env \<Rightarrow> fault \<Rightarrow> 'a board_scheme \<Rightarrow> 'a board_scheme result" where
  "announce_report e f s =
    (let emergency = (fl_priority f = Emergency);
         kind = (if emergency then ''fault_emergency'' else ''fault_reported'')
     in bind_res (customer_technicians f s) (\<lambda>technicians.
        let people = people_of (fault_office (company_id f) s @ technicians);
            people = (case technician_of f s of
              Some t \<Rightarrow> if emergency then add_person t people else people | None \<Rightarrow> people);
            people = filter (\<lambda>u. fl_reported_by f \<noteq> Some (pk u)) people
        in bind_res (fault_facts f s) (\<lambda>known.
        bind_res (notify e kind people ''fault'' (pk f)
            (known @ [(''channel'', Text (channel_value (fl_channel f))),
              (''description'', Text (take 200 (fl_description f)))])
            (kind @ '':'' @ digits (pk f)) s) (\<lambda>(_, s). Inr s))))"

definition announce_assignment ::
  "env \<Rightarrow> fault_world \<Rightarrow> fault \<Rightarrow> 'a board_scheme \<Rightarrow> 'a board_scheme result" where
  "announce_assignment e w f s =
    (case (technician_of f s, fl_assigned_at f) of
       (Some technician, Some t) \<Rightarrow>
         if Some (pk technician) = fl_reported_by f \<and> fl_channel f = By_staff then Inr s
         else bind_res (fault_facts f s) (\<lambda>known.
           bind_res (notify e ''fault_assigned'' [technician] ''fault'' (pk f) known
             (''fault_assigned:'' @ digits (pk f) @ '':'' @ iso w t) s) (\<lambda>(_, s). Inr s))
     | _ \<Rightarrow> Inl (Crash Assertion_error))"

definition announce_resolution :: "env \<Rightarrow> fault \<Rightarrow> 'a board_scheme \<Rightarrow> 'a board_scheme result" where
  "announce_resolution e f s =
    bind_res (fault_facts f s) (\<lambda>known.
    bind_res (notify e ''fault_resolved'' (fault_office (company_id f) s) ''fault'' (pk f)
        (known @ [(''technician_name'',
          Text (case technician_of f s of Some t \<Rightarrow> staff_full_name t | None \<Rightarrow> []))])
        (''fault_resolved:'' @ digits (pk f)) s) (\<lambda>(_, s). Inr s))"

section \<open>Reporting\<close>

definition REFERENCE_ATTEMPTS :: nat where "REFERENCE_ATTEMPTS = 8"

text \<open>\<open>_insert\<close>: an attempt per drawn reference, until one is free.\<close>

fun insert_attempts ::
  "env \<Rightarrow> string list \<Rightarrow> fault \<Rightarrow> 'a estate_scheme \<Rightarrow> (fault \<times> 'a estate_scheme) result" where
  "insert_attempts e [] f s = Inl (Crash Runtime_error)"
| "insert_attempts e (r # rs) f s =
    (case db_insert e faults_update (fault_fits (f\<lparr>fl_reference := r\<rparr>))
        (unique_with faults_clash (f\<lparr>fl_reference := r\<rparr>) (faults s)) (f\<lparr>fl_reference := r\<rparr>) s of
       Inl Integrity_error \<Rightarrow> insert_attempts e rs f s
     | res \<Rightarrow> res)"

definition insert_fault ::
  "env \<Rightarrow> fault_world \<Rightarrow> fault \<Rightarrow> 'a estate_scheme \<Rightarrow> (fault \<times> 'a estate_scheme) result" where
  "insert_fault e w f s =
    insert_attempts e (map (\<lambda>n. new_reference (pick w n)) [0 ..< REFERENCE_ATTEMPTS]) f s"

text \<open>Only an active lift is put out of service.\<close>

definition stop_elevator :: "env \<Rightarrow> elevator \<Rightarrow> 'a estate_scheme \<Rightarrow> 'a estate_scheme result" where
  "stop_elevator e el s =
    (if el_status el = E_active then set_elevator_status e Out_of_service el s else Inr s)"

definition stop_if :: "bool \<Rightarrow> env \<Rightarrow> elevator \<Rightarrow> 'a estate_scheme \<Rightarrow> 'a estate_scheme result" where
  "stop_if b e el s = (if b then stop_elevator e el s else Inr s)"

definition report_by_staff ::
  "env \<Rightarrow> fault_world \<Rightarrow> elevator \<Rightarrow> string \<Rightarrow> fault_priority \<Rightarrow> staff \<Rightarrow> staff option \<Rightarrow> bool \<Rightarrow> bool
    \<Rightarrow> 'a board_scheme \<Rightarrow> (fault \<times> 'a board_scheme) result" where
  "report_by_staff e w el description prio reported_by technician stopped someone_trapped s =
    bind_res (insert_fault e w (blank_fault\<lparr>company_id := company_id el, fl_elevator := pk el,
        fl_channel := By_staff, fl_reported_by := Some (pk reported_by), fl_description := description,
        fl_priority := (if someone_trapped then Emergency else prio),
        fl_status := (if technician = None then F_open else F_assigned),
        fl_technician := map_option pk technician, fl_reported_at := now e,
        fl_assigned_at := (if technician = None then None else Some (now e)),
        fl_stopped_elevator := stopped, created_by := Some (pk reported_by),
        updated_by := Some (pk reported_by)\<rparr>) s) (\<lambda>(f, s).
    bind_res (stop_if stopped e el s) (\<lambda>s.
    bind_res (announce_report e f s) (\<lambda>s.
    bind_res (if technician = None then Inr s else announce_assignment e w f s) (\<lambda>s.
    Inr (f, s)))))"

record public_report =
  rp_description :: string
  rp_someone_trapped :: bool
  rp_elevator_stopped :: bool
  rp_reporter_name :: string
  rp_reporter_phone :: string

definition public_priority :: "public_report \<Rightarrow> fault_priority" where
  "public_priority r =
    (if rp_someone_trapped r then Emergency else if rp_elevator_stopped r then High else Normal)"

fun PRIORITY_RANK :: "fault_priority \<Rightarrow> nat" where
  "PRIORITY_RANK Emergency = 0"
| "PRIORITY_RANK High = 1"
| "PRIORITY_RANK Normal = 2"

text \<open>A later report of the same fault, written into its row.\<close>

definition merged :: "instant \<Rightarrow> public_report \<Rightarrow> fault_priority \<Rightarrow> fault \<Rightarrow> fault" where
  "merged at1 r prio f =
    (let f = f\<lparr>fl_additional_reports := fl_additional_reports f @ [\<lparr>mr_reported_at = at1,
           mr_description = rp_description r, mr_someone_trapped = rp_someone_trapped r,
           mr_elevator_stopped = rp_elevator_stopped r\<rparr>]\<rparr>;
         f = (if fl_reporter_name f = [] \<and> fl_reporter_phone f = []
              then f\<lparr>fl_reporter_name := rp_reporter_name r, fl_reporter_phone := rp_reporter_phone r\<rparr> else f);
         f = (if PRIORITY_RANK prio < PRIORITY_RANK (fl_priority f) then f\<lparr>fl_priority := prio\<rparr> else f)
     in if rp_elevator_stopped r \<and> \<not> fl_stopped_elevator f then f\<lparr>fl_stopped_elevator := True\<rparr> else f)"

definition merge_report ::
  "env \<Rightarrow> fault \<Rightarrow> public_report \<Rightarrow> fault_priority \<Rightarrow> 'a board_scheme \<Rightarrow> (fault \<times> 'a board_scheme) result" where
  "merge_report e f r prio s =
    bind_res (joined_elevator (fl_elevator f) s) (\<lambda>(el, _).
    bind_res (stop_if (rp_elevator_stopped r \<and> \<not> fl_stopped_elevator f) e el s) (\<lambda>s.
    if \<not> fault_fits (merged (now e) r prio f) then Inl (Crash Data_error)
    else bind_res (save_fields e faults_update True (merged (now e) r prio) f s) (\<lambda>(f', s).
    bind_res (if PRIORITY_RANK prio < PRIORITY_RANK (fl_priority f) \<and> prio = Emergency
       then announce_report e f' s else Inr s) (\<lambda>s.
    Inr (f', s)))))"

text \<open>The public fault of the last half hour that is still open or assigned, the newest.\<close>

definition merge_target :: "env \<Rightarrow> elevator \<Rightarrow> 'a estate_scheme \<Rightarrow> fault option" where
  "merge_target e el s =
    List.find (\<lambda>_. True) (rev (sort_key (\<lambda>f. (fl_reported_at f, pk f))
      (filter (\<lambda>f. fl_elevator f = pk el \<and> fl_channel f = Public_qr \<and> fl_status f \<in> {F_open, F_assigned} \<and>
          now e - PUBLIC_MERGE_WINDOW \<le> fl_reported_at f)
        (objects (ctx e) (faults s)))))"

definition in_firm :: "pk \<Rightarrow> env \<Rightarrow> env" where
  "in_firm co e = e\<lparr>ctx := company_context (Some co) (ctx e)\<rparr>"

definition report_public ::
  "env \<Rightarrow> fault_world \<Rightarrow> elevator \<Rightarrow> public_report \<Rightarrow> 'a board_scheme \<Rightarrow> (fault \<times> 'a board_scheme) result" where
  "report_public e0 w el r s =
    (let e = in_firm (company_id el) e0 in
     case merge_target e el s of
       Some f \<Rightarrow> merge_report e f r (public_priority r) s
     | None \<Rightarrow>
         bind_res (insert_fault e w (blank_fault\<lparr>company_id := company_id el, fl_elevator := pk el,
             fl_channel := Public_qr, fl_reporter_name := rp_reporter_name r,
             fl_reporter_phone := rp_reporter_phone r, fl_description := rp_description r,
             fl_priority := public_priority r, fl_reported_at := now e,
             fl_stopped_elevator := rp_elevator_stopped r\<rparr>) s) (\<lambda>(f, s).
         bind_res (stop_if (rp_elevator_stopped r) e el s) (\<lambda>s.
         bind_res (announce_report e f s) (\<lambda>s. Inr (f, s)))))"

definition report_by_portal ::
  "env \<Rightarrow> fault_world \<Rightarrow> pk \<Rightarrow> elevator \<Rightarrow> public_report \<Rightarrow> 'a board_scheme \<Rightarrow> (fault \<times> 'a board_scheme) result" where
  "report_by_portal e w acc el r s =
    bind_res (insert_fault e w (blank_fault\<lparr>company_id := company_id el, fl_elevator := pk el,
        fl_channel := Customer_portal, fl_portal_account := Some acc, fl_description := rp_description r,
        fl_priority := public_priority r, fl_reported_at := now e,
        fl_stopped_elevator := rp_elevator_stopped r\<rparr>) s) (\<lambda>(f, s).
    bind_res (stop_if (rp_elevator_stopped r) e el s) (\<lambda>s.
    bind_res (announce_report e f s) (\<lambda>s. Inr (f, s))))"

section \<open>The sticker (public_views.py)\<close>

text \<open>\<open>require_description_unless_trapped\<close>\<close>

definition require_description_unless_trapped :: "public_report \<Rightarrow> unit result" where
  "require_description_unless_trapped r =
    (if \<not> rp_someone_trapped r \<and> strip (rp_description r) = []
     then Inl (invalid_with ''description'' ''required'') else Inr ())"

text \<open>The answer is a reference, whoever asked; a filled honeypot stores nothing.\<close>

definition sticker_report ::
  "env \<Rightarrow> fault_world \<Rightarrow> string \<Rightarrow> string \<Rightarrow> public_report \<Rightarrow> 'a board_scheme \<Rightarrow> (string \<times> 'a board_scheme) result" where
  "sticker_report e w token website r s =
    (case List.find (\<lambda>el. el_qr_token el = token \<and> \<not> is_deleted el) (elevators s) of
       None \<Rightarrow> Inl Drf_not_found
     | Some el \<Rightarrow>
         bind_res (require_description_unless_trapped r) (\<lambda>_.
         if website \<noteq> [] then Inr (new_reference (pick w 0), s)
         else bind_res (report_public e w el (r\<lparr>rp_reporter_name := strip (rp_reporter_name r),
             rp_reporter_phone := strip (rp_reporter_phone r)\<rparr>) s) (\<lambda>(f, s).
           Inr (fl_reference f, s))))"

section \<open>Transitions\<close>

definition save_fault ::
  "env \<Rightarrow> (fault \<Rightarrow> fault) \<Rightarrow> fault \<Rightarrow> 'a estate_scheme \<Rightarrow> (fault \<times> 'a estate_scheme) result" where
  "save_fault e g f s = save_fields e faults_update True g f s"

definition assign ::
  "env \<Rightarrow> fault_world \<Rightarrow> pk \<Rightarrow> staff \<Rightarrow> pk option \<Rightarrow> 'a board_scheme \<Rightarrow> (fault \<times> 'a board_scheme) result" where
  "assign e w k technician by s =
    bind_res (locked_fault e k s) (\<lambda>f.
    if fl_status f \<notin> {F_open, F_assigned} then Inl refuse_fault
    else if fl_status f = F_assigned \<and> fl_technician f = Some (pk technician) then Inr (f, s)
    else bind_res (save_fault e (\<lambda>x. x\<lparr>fl_technician := Some (pk technician), fl_status := F_assigned,
        fl_assigned_at := Some (now e), updated_by := by\<rparr>) f s) (\<lambda>(f, s).
      bind_res (announce_assignment e w f s) (\<lambda>s. Inr (f, s))))"

definition arrive :: "env \<Rightarrow> pk \<Rightarrow> pk option \<Rightarrow> 'a board_scheme \<Rightarrow> (fault \<times> 'a board_scheme) result" where
  "arrive e k by s =
    bind_res (locked_fault e k s) (\<lambda>f.
    if fl_status f \<noteq> F_assigned then Inl refuse_fault
    else save_fault e (\<lambda>x. x\<lparr>fl_status := F_on_site, fl_on_site_at := Some (now e), updated_by := by\<rparr>) f s)"

text \<open>The scope of the contract that covered the lift on a day, if any.\<close>

definition covering_lines :: "env \<Rightarrow> pk \<Rightarrow> date \<Rightarrow> 'a estate_scheme \<Rightarrow> (contract_line \<times> contract) list" where
  "covering_lines e el dt s =
    concat (map (\<lambda>l. map (Pair l) (filter (\<lambda>c. pk c = ce_contract l \<and> ct_start_date c \<le> dt \<and>
        dt \<le> ct_end_date c \<and> \<not> is_deleted c \<and> ct_status c \<noteq> C_draft) (contracts s)))
      (filter (\<lambda>l. ce_elevator l = el \<and> ce_added_at l \<le> dt \<and>
          (case ce_removed_at l of None \<Rightarrow> True | Some r \<Rightarrow> dt \<le> r))
        (objects (ctx e) (contract_lines s))))"

definition covering_scope :: "env \<Rightarrow> pk \<Rightarrow> date \<Rightarrow> 'a estate_scheme \<Rightarrow> scope option" where
  "covering_scope e el dt s =
    map_option (\<lambda>(_, c). ct_scope c) (List.find (\<lambda>_. True)
      (rev (sort_key (\<lambda>(l, _). (ce_added_at l, pk l)) (covering_lines e el dt s))))"

definition derive_billable :: "env \<Rightarrow> fault_world \<Rightarrow> fault \<Rightarrow> 'a estate_scheme \<Rightarrow> bool" where
  "derive_billable e w f s =
    (case covering_scope e (fl_elevator f) (date_at w (fl_reported_at f)) s of
       Some Full_coverage \<Rightarrow> False
     | Some Maintenance_and_repair \<Rightarrow> strip (fl_parts_used f) \<noteq> []
     | _ \<Rightarrow> True)"

definition resolve ::
  "env \<Rightarrow> fault_world \<Rightarrow> pk \<Rightarrow> pk option \<Rightarrow> string \<Rightarrow> string \<Rightarrow> bool \<Rightarrow> 'a board_scheme
    \<Rightarrow> (fault \<times> 'a board_scheme) result" where
  "resolve e w k by resolution_notes parts_used restore_service s =
    bind_res (locked_fault e k s) (\<lambda>f.
    if fl_status f \<noteq> F_on_site then Inl refuse_fault
    else let billable = (if fl_billable_overridden f then fl_billable f
             else Some (derive_billable e w (f\<lparr>fl_parts_used := parts_used\<rparr>) s))
      in bind_res (save_fault e (\<lambda>x. x\<lparr>fl_status := F_resolved, fl_resolved_at := Some (now e),
          fl_resolution_notes := resolution_notes, fl_parts_used := parts_used, fl_billable := billable,
          updated_by := by\<rparr>) f s) (\<lambda>(f, s).
        bind_res (joined_elevator (fl_elevator f) s) (\<lambda>(el, _).
        bind_res (if restore_service \<and> el_status el = Out_of_service
            then set_elevator_status e E_active el s else Inr s) (\<lambda>s.
        bind_res (announce_resolution e f s) (\<lambda>s. Inr (f, s))))))"

definition close_fault :: "env \<Rightarrow> pk \<Rightarrow> pk option \<Rightarrow> 'a board_scheme \<Rightarrow> (fault \<times> 'a board_scheme) result" where
  "close_fault e k by s =
    bind_res (locked_fault e k s) (\<lambda>f.
    if fl_status f \<noteq> F_resolved then Inl refuse_fault
    else save_fault e (\<lambda>x. x\<lparr>fl_status := F_closed, fl_closed_at := Some (now e), updated_by := by\<rparr>) f s)"

definition cancel_fault ::
  "env \<Rightarrow> pk \<Rightarrow> string \<Rightarrow> pk option \<Rightarrow> 'a board_scheme \<Rightarrow> (fault \<times> 'a board_scheme) result" where
  "cancel_fault e k reason by s =
    bind_res (locked_fault e k s) (\<lambda>f.
    if fl_status f \<notin> set CANCELLABLE then Inl refuse_fault
    else save_fault e (\<lambda>x. x\<lparr>fl_status := F_cancelled, fl_cancelled_at := Some (now e),
        fl_cancel_reason := reason, updated_by := by\<rparr>) f s)"

text \<open>What \<open>FaultEditSerializer\<close> lets through.\<close>

datatype fault_change = Set_priority fault_priority | Set_fault_description string | Set_billable bool

fun change_fault :: "fault_change \<Rightarrow> fault \<Rightarrow> fault" where
  "change_fault (Set_priority p) f = f\<lparr>fl_priority := p\<rparr>"
| "change_fault (Set_fault_description t) f = f\<lparr>fl_description := t\<rparr>"
| "change_fault (Set_billable b) f = f\<lparr>fl_billable := Some b, fl_billable_overridden := True\<rparr>"

definition edit_fault ::
  "env \<Rightarrow> pk \<Rightarrow> fault_change list \<Rightarrow> pk option \<Rightarrow> 'a board_scheme \<Rightarrow> (fault \<times> 'a board_scheme) result" where
  "edit_fault e k changes by s =
    bind_res (locked_fault e k s) (\<lambda>f.
    let f' = (fold change_fault changes f)\<lparr>updated_by := by\<rparr>
    in bind_res (db_update e faults_update (fault_fits f')
        (unique_with faults_clash f' (filter (\<lambda>x. pk x \<noteq> pk f') (faults s))) f' s) (\<lambda>(f', s).
      bind_res (if fl_priority f' = Emergency \<and> fl_priority f \<noteq> Emergency
        then announce_report e f' s else Inr s) (\<lambda>s. Inr (f', s))))"

section \<open>The views (api/v1/views.py)\<close>

text \<open>\<open>_workable\<close>: a technician records only the work they were sent to.\<close>

definition workable :: "staff \<Rightarrow> fault \<Rightarrow> fault result" where
  "workable user f =
    (if staff_role user = Technician \<and> fl_technician f \<noteq> Some (pk user) then Inl Drf_permission_denied else Inr f)"

text \<open>\<open>FaultCreateSerializer.validate\<close>: a technician names nobody but themselves.\<close>

definition may_name :: "staff \<Rightarrow> staff option \<Rightarrow> unit result" where
  "may_name user technician =
    (if staff_role user = Technician \<and> technician \<noteq> None \<and> map_option pk technician \<noteq> Some (pk user)
     then Inl (invalid ''technician'') else Inr ())"

section \<open>Forgetting\<close>

text \<open>The public faults finished longer ago than the retention that still name their reporter.\<close>

definition forgettable :: "env \<Rightarrow> fault \<Rightarrow> bool" where
  "forgettable e f \<longleftrightarrow> visible (ctx e) f \<and> fl_channel f = Public_qr \<and>
    (fl_status f = F_closed \<and> (case fl_closed_at f of None \<Rightarrow> False | Some t \<Rightarrow> t < now e - REPORTER_DATA_RETENTION) \<or>
     fl_status f = F_cancelled \<and> (case fl_cancelled_at f of None \<Rightarrow> False | Some t \<Rightarrow> t < now e - REPORTER_DATA_RETENTION)) \<and>
    (fl_reporter_name f \<noteq> [] \<or> fl_reporter_phone f \<noteq> [])"

definition forget_public_reporters :: "env \<Rightarrow> 'a estate_scheme \<Rightarrow> nat \<times> 'a estate_scheme" where
  "forget_public_reporters e s =
    (length (filter (forgettable e) (faults s)),
     s\<lparr>faults := update_where (forgettable e)
       (\<lambda>f. f\<lparr>fl_reporter_name := [], fl_reporter_phone := [], updated_at := now e\<rparr>) (faults s)\<rparr>)"

text \<open>The daily task: across every firm.\<close>

definition purge_public_reporter_data :: "env \<Rightarrow> 'a estate_scheme \<Rightarrow> nat \<times> 'a estate_scheme" where
  "purge_public_reporter_data e s = forget_public_reporters (e\<lparr>ctx := system_context (ctx e)\<rparr>) s"

end
