(* ===== verification/Inspections.thy ===== *)
theory Inspections
  imports Faults
begin

text \<open>
  \<open>apps/inspections\<close>: what each label means as data (\<open>rules.py\<close>), recording and correcting
  inspections and their defects and what that does to the lift (\<open>services.py\<close>), the daily
  warnings (\<open>tasks.py\<close>), the list of what is due (\<open>api/v1/views.py\<close>) and the checks of the forms
  (\<open>api/v1/serializers.py\<close>).
\<close>

section \<open>The rules (rules.py)\<close>

datatype deadline = No_deadline | Days | Next_inspection

record label_rule =
  rule_usable :: bool
  rule_deadline :: deadline
  rule_days :: "int option"
  rule_sealed_if_missed :: bool

fun RULES :: "label \<Rightarrow> label_rule" where
  "RULES Green = \<lparr>rule_usable = True, rule_deadline = No_deadline, rule_days = None, rule_sealed_if_missed = False\<rparr>"
| "RULES Blue = \<lparr>rule_usable = True, rule_deadline = Next_inspection, rule_days = None, rule_sealed_if_missed = False\<rparr>"
| "RULES Yellow = \<lparr>rule_usable = True, rule_deadline = Days, rule_days = Some 120, rule_sealed_if_missed = True\<rparr>"
| "RULES Red = \<lparr>rule_usable = False, rule_deadline = Days, rule_days = Some 60, rule_sealed_if_missed = True\<rparr>"

definition INSPECTION_INTERVAL_YEARS :: int where "INSPECTION_INTERVAL_YEARS = 1"

text \<open>\<open>replace(year=...)\<close> raises off the calendar; then with the 28th, which may raise again.\<close>

definition default_next_inspection :: "date \<Rightarrow> date result" where
  "default_next_inspection d =
    (case mk_date (year d + INSPECTION_INTERVAL_YEARS) (month d) (day d) of
       Some x \<Rightarrow> Inr x
     | None \<Rightarrow> the_res (mk_date (year d + INSPECTION_INTERVAL_YEARS) (month d) 28) (Crash Value_error))"

definition correction_deadline :: "label \<Rightarrow> date \<Rightarrow> date option \<Rightarrow> date option result" where
  "correction_deadline l counted_from next_due =
    (case rule_deadline (RULES l) of
       Days \<Rightarrow>
         bind_res (the_res (rule_days (RULES l)) (Crash Assertion_error)) (\<lambda>n.
         bind_res (the_res (add_days counted_from n) (Crash Overflow_error)) (\<lambda>d. Inr (Some d)))
     | Next_inspection \<Rightarrow> Inr next_due
     | No_deadline \<Rightarrow> Inr None)"

section \<open>The tables (models.py)\<close>

datatype inspection_kind = Periodic | Follow_up
datatype nonconformity_status = Nc_open | Nc_fixed | Nc_waived

record inspection = row +
  ip_elevator :: pk
  ip_kind :: inspection_kind
  ip_follows :: "pk option"
  ip_inspected_on :: date
  ip_body :: string
  ip_report_number :: string
  ip_label :: label
  ip_report :: "pk option"
  ip_next_due :: date
  ip_deadline :: "date option"

record nonconformity = row +
  nc_inspection :: pk
  nc_description :: string
  nc_severity :: label
  nc_status :: nonconformity_status
  nc_fixed_on :: "date option"
  nc_fault :: "pk option"

record inspectorate = board +
  inspections :: "inspection list"
  nonconformities :: "nonconformity list"

definition blank_inspection :: inspection where
  "blank_inspection = \<lparr>pk = 0, company_id = 0, created_at = 0, updated_at = 0, created_by = None,
    updated_by = None, is_deleted = False, deleted_at = None, ip_elevator = 0, ip_kind = Periodic,
    ip_follows = None, ip_inspected_on = Date 1 1 1, ip_body = [], ip_report_number = [], ip_label = Green,
    ip_report = None, ip_next_due = Date 1 1 1, ip_deadline = None\<rparr>"

definition blank_nonconformity :: nonconformity where
  "blank_nonconformity = \<lparr>pk = 0, company_id = 0, created_at = 0, updated_at = 0, created_by = None,
    updated_by = None, is_deleted = False, deleted_at = None, nc_inspection = 0, nc_description = [],
    nc_severity = Green, nc_status = Nc_open, nc_fixed_on = None, nc_fault = None\<rparr>"

text \<open>A follow-up follows something, a periodic one nothing; the next is due after this one.\<close>

definition inspection_checks :: "inspection \<Rightarrow> bool" where
  "inspection_checks i \<longleftrightarrow> (ip_kind i = Follow_up \<longleftrightarrow> ip_follows i \<noteq> None) \<and> ip_inspected_on i < ip_next_due i"

definition inspection_fits :: "inspection \<Rightarrow> bool" where
  "inspection_fits i \<longleftrightarrow> length (ip_body i) \<le> 150 \<and> length (ip_report_number i) \<le> 60"

fun label_value :: "label \<Rightarrow> string" where
  "label_value Green = ''green''"
| "label_value Blue = ''blue''"
| "label_value Yellow = ''yellow''"
| "label_value Red = ''red''"

section \<open>Derivations\<close>

text \<open>\<open>inspection.follows\<close>\<close>

definition followed :: "inspection \<Rightarrow> 'a inspectorate_scheme \<Rightarrow> inspection option result" where
  "followed i s =
    (case ip_follows i of None \<Rightarrow> Inr None | Some k \<Rightarrow> bind_res (get_row k (inspections s)) (\<lambda>o1. Inr (Some o1)))"

definition origin_of :: "inspection \<Rightarrow> inspection option \<Rightarrow> inspection" where
  "origin_of i follows = (case follows of Some o1 \<Rightarrow> o1 | None \<Rightarrow> i)"

definition derive_deadline :: "inspection \<Rightarrow> inspection option \<Rightarrow> date option result" where
  "derive_deadline i follows =
    correction_deadline (ip_label i) (ip_inspected_on (origin_of i follows)) (Some (ip_next_due i))"

definition default_next_inspection_due :: "date \<Rightarrow> inspection option \<Rightarrow> date result" where
  "default_next_inspection_due d follows =
    (case follows of Some o1 \<Rightarrow> Inr (ip_next_due o1) | None \<Rightarrow> default_next_inspection d)"

definition open_defects_in :: "env \<Rightarrow> pk set \<Rightarrow> 'a inspectorate_scheme \<Rightarrow> nonconformity list" where
  "open_defects_in e ks s =
    filter (\<lambda>n. nc_inspection n \<in> ks \<and> nc_status n = Nc_open) (objects (ctx e) (nonconformities s))"

definition open_nonconformities :: "env \<Rightarrow> inspection \<Rightarrow> 'a inspectorate_scheme \<Rightarrow> nonconformity list result" where
  "open_nonconformities e i s =
    bind_res (followed i s) (\<lambda>f. Inr (open_defects_in e {pk i, pk (origin_of i f)} s))"

definition superseded :: "env \<Rightarrow> inspection \<Rightarrow> 'a inspectorate_scheme \<Rightarrow> bool" where
  "superseded e i s \<longleftrightarrow>
    (\<exists>x \<in> set (objects (ctx e) (inspections s)). ip_elevator x = ip_elevator i \<and> ip_inspected_on i < ip_inspected_on x)"

definition current_inspections :: "env \<Rightarrow> 'a inspectorate_scheme \<Rightarrow> inspection list" where
  "current_inspections e s = filter (\<lambda>i. \<not> superseded e i s) (objects (ctx e) (inspections s))"

section \<open>The elevator\<close>

definition inspection_key :: "inspection \<Rightarrow> date \<times> instant \<times> pk" where
  "inspection_key i = (ip_inspected_on i, created_at i, pk i)"

definition latest_inspection :: "env \<Rightarrow> pk \<Rightarrow> 'a inspectorate_scheme \<Rightarrow> inspection option" where
  "latest_inspection e k s =
    newest inspection_key (filter (\<lambda>i. ip_elevator i = k) (objects (ctx e) (inspections s)))"

definition show_inspection :: "inspection \<Rightarrow> elevator \<Rightarrow> elevator" where
  "show_inspection i el = el\<lparr>el_last_inspection_date := Some (ip_inspected_on i),
    el_inspection_label := Some (ip_label i), el_next_inspection_date := Some (ip_next_due i),
    el_inspection_body := ip_body i, el_inspection_report_number := ip_report_number i\<rparr>"

text \<open>The status the lift leaves with: by the label, its status and the label it showed before.\<close>

definition synced_status :: "inspection \<Rightarrow> elevator \<Rightarrow> elevator_status option" where
  "synced_status i el =
    (let usable = rule_usable (RULES (ip_label i)) in
     if \<not> usable \<and> el_status el = E_active then Some Out_of_service
     else if usable \<and> el_inspection_label el = Some Red \<and> el_status el = Out_of_service then Some E_active
     else None)"

definition sync_elevator :: "env \<Rightarrow> elevator \<Rightarrow> 'a inspectorate_scheme \<Rightarrow> 'a inspectorate_scheme result" where
  "sync_elevator e el s =
    (case latest_inspection e (pk el) s of
       None \<Rightarrow> Inr s
     | Some i \<Rightarrow>
         let st = synced_status i el in
         bind_res (save_fields e elevators_update True (\<lambda>x.
             (show_inspection i x)\<lparr>el_status := (case st of None \<Rightarrow> el_status x | Some v \<Rightarrow> v)\<rparr>) el s)
           (\<lambda>(_, s). Inr s))"

section \<open>Who hears about it\<close>

definition technicians_of :: "pk \<Rightarrow> pk \<Rightarrow> 'a board_scheme \<Rightarrow> staff list" where
  "technicians_of co cust s =
    by_name (filter (\<lambda>u. company_id u = co \<and> staff_role u = Technician \<and> staff_is_active u \<and>
      (\<exists>a \<in> set (assignments s). as_user a = pk u \<and> as_customer a = cust \<and> \<not> is_deleted a)) (staff_users s))"

definition office_and_technicians :: "elevator \<Rightarrow> 'a board_scheme \<Rightarrow> staff list result" where
  "office_and_technicians el s =
    bind_res (get_row (el_building el) (buildings s)) (\<lambda>b.
    Inr (fault_office (company_id el) s @ technicians_of (company_id el) (bd_customer b) s))"

definition inspection_facts :: "elevator \<Rightarrow> inspection \<Rightarrow> 'a estate_scheme \<Rightarrow> (string \<times> fact) list result" where
  "inspection_facts el i s =
    bind_res (get_row (el_building el) (buildings s)) (\<lambda>b.
    Inr [(''elevator_name'', Text (el_name el)), (''building_name'', Text (bd_name b)),
      (''label'', Text (label_value (ip_label i))), (''inspected_on'', Text (isoformat (ip_inspected_on i))),
      (''correction_deadline'', (case ip_deadline i of None \<Rightarrow> Null | Some d \<Rightarrow> Text (isoformat d)))])"

definition announce_red_label ::
  "env \<Rightarrow> elevator \<Rightarrow> inspection \<Rightarrow> 'a inspectorate_scheme \<Rightarrow> 'a inspectorate_scheme result" where
  "announce_red_label e el i s =
    bind_res (office_and_technicians el s) (\<lambda>people.
    bind_res (inspection_facts el i s) (\<lambda>known.
    bind_res (notify e ''inspection_red_label'' people ''elevator'' (ip_elevator i) known
      (''inspection_red_label:'' @ digits (pk i)) s) (\<lambda>(_, s). Inr s)))"

section \<open>Recording\<close>

definition insert_inspection ::
  "env \<Rightarrow> inspection \<Rightarrow> 'a inspectorate_scheme \<Rightarrow> (inspection \<times> 'a inspectorate_scheme) result" where
  "insert_inspection e i s = db_insert e inspections_update (inspection_fits i) (inspection_checks i) i s"

definition add_nonconformity ::
  "env \<Rightarrow> inspection \<Rightarrow> string \<times> label \<Rightarrow> pk option \<Rightarrow> 'a inspectorate_scheme
    \<Rightarrow> (nonconformity \<times> 'a inspectorate_scheme) result" where
  "add_nonconformity e i entry by s =
    db_insert e nonconformities_update True True (blank_nonconformity\<lparr>company_id := company_id i,
      nc_inspection := pk i, nc_description := fst entry, nc_severity := snd entry,
      created_by := by, updated_by := by\<rparr>) s"

definition record_inspection ::
  "env \<Rightarrow> elevator \<Rightarrow> date \<Rightarrow> label \<Rightarrow> pk option \<Rightarrow> inspection_kind \<Rightarrow> inspection option \<Rightarrow> string \<Rightarrow> string
    \<Rightarrow> date option \<Rightarrow> (string \<times> label) list \<Rightarrow> 'a inspectorate_scheme \<Rightarrow> (inspection \<times> 'a inspectorate_scheme) result" where
  "record_inspection e el inspected_on l by kind follows body number next_due defects s =
    bind_res (case next_due of Some d \<Rightarrow> Inr d | None \<Rightarrow> default_next_inspection_due inspected_on follows) (\<lambda>due.
    let i = blank_inspection\<lparr>company_id := company_id el, ip_elevator := pk el, ip_kind := kind,
      ip_follows := map_option pk follows, ip_inspected_on := inspected_on, ip_label := l, ip_body := body,
      ip_report_number := number, ip_next_due := due, created_by := by, updated_by := by\<rparr>
    in bind_res (derive_deadline i follows) (\<lambda>deadline.
    bind_res (insert_inspection e (i\<lparr>ip_deadline := deadline\<rparr>) s) (\<lambda>(i, s).
    bind_res (fold_res (\<lambda>entry s. bind_res (add_nonconformity e i entry by s) (\<lambda>(_, s). Inr s)) defects s) (\<lambda>s.
    bind_res (sync_elevator e el s) (\<lambda>s.
    bind_res (if l = Red then announce_red_label e el i s else Inr s) (\<lambda>s.
    Inr (i, s)))))))"

text \<open>What the correction form may change.\<close>

datatype inspection_change =
    Set_inspected_on date
  | Set_inspection_body string
  | Set_report_number string
  | Set_label label
  | Set_next_due date

fun change_inspection :: "inspection_change \<Rightarrow> inspection \<Rightarrow> inspection" where
  "change_inspection (Set_inspected_on d) i = i\<lparr>ip_inspected_on := d\<rparr>"
| "change_inspection (Set_inspection_body t) i = i\<lparr>ip_body := t\<rparr>"
| "change_inspection (Set_report_number t) i = i\<lparr>ip_report_number := t\<rparr>"
| "change_inspection (Set_label l) i = i\<lparr>ip_label := l\<rparr>"
| "change_inspection (Set_next_due d) i = i\<lparr>ip_next_due := d\<rparr>"

text \<open>An attachment (apps/attachments/models.py), by the columns its links are checked by.\<close>

record attachment = row +
  at_object_type :: string
  at_object_id :: pk
  at_category :: string
  at_original_filename :: string
  at_mime_type :: string
  at_size_bytes :: int
  at_storage_key :: string
  at_storage_backend :: string
  at_uploaded_by :: "pk option"

text \<open>\<open>link_attachment\<close>: the file must be this record's own, in its company.\<close>

definition may_link :: "'r row_scheme \<Rightarrow> attachment \<Rightarrow> unit result" where
  "may_link r a =
    (if company_id a \<noteq> company_id r \<or> at_object_id a \<noteq> pk r
     then Inl (Business_rule_error ATTACHMENT_TARGET_MISMATCH) else Inr ())"

definition attach_report ::
  "env \<Rightarrow> inspection \<Rightarrow> attachment \<Rightarrow> 'a inspectorate_scheme \<Rightarrow> (inspection \<times> 'a inspectorate_scheme) result" where
  "attach_report e i a s =
    (if at_object_type a \<noteq> ''inspection'' \<or> at_category a \<noteq> ''inspection_report''
     then Inl (Business_rule_error ATTACHMENT_TARGET_MISMATCH)
     else bind_res (may_link i a) (\<lambda>_.
       save_fields e inspections_update True (\<lambda>x. x\<lparr>ip_report := Some (pk a)\<rparr>) i s))"

text \<open>\<open>report\<close>: \<open>None\<close> when the form does not send it, \<open>Some None\<close> to take it off.\<close>

definition set_report ::
  "env \<Rightarrow> inspection \<Rightarrow> attachment option option \<Rightarrow> 'a inspectorate_scheme
    \<Rightarrow> (inspection \<times> 'a inspectorate_scheme) result" where
  "set_report e i report s =
    (case report of
       None \<Rightarrow> Inr (i, s)
     | Some None \<Rightarrow> save_fields e inspections_update True (\<lambda>x. x\<lparr>ip_report := None\<rparr>) i s
     | Some (Some a) \<Rightarrow> attach_report e i a s)"

definition edit_inspection ::
  "env \<Rightarrow> inspection \<Rightarrow> inspection_change list \<Rightarrow> attachment option option \<Rightarrow> pk option
    \<Rightarrow> 'a inspectorate_scheme \<Rightarrow> (inspection \<times> 'a inspectorate_scheme) result" where
  "edit_inspection e i changes report by s =
    bind_res (followed i s) (\<lambda>follows.
    let i' = fold change_inspection changes i in
    bind_res (derive_deadline i' follows) (\<lambda>deadline.
    let i'' = i'\<lparr>ip_deadline := deadline, updated_by := by\<rparr> in
    bind_res (db_update e inspections_update (inspection_fits i'') (inspection_checks i'') i'' s) (\<lambda>(i2, s).
    bind_res (set_report e i2 report s) (\<lambda>(i3, s).
    bind_res (get_row (ip_elevator i3) (elevators s)) (\<lambda>el.
    bind_res (sync_elevator e el s) (\<lambda>s.
    bind_res (if ip_label i3 = Red \<and> ip_label i \<noteq> Red then announce_red_label e el i3 s else Inr s) (\<lambda>s.
    Inr (i3, s))))))))"

section \<open>Defects\<close>

datatype nonconformity_change =
    Set_nc_status nonconformity_status
  | Set_fixed_on "date option"
  | Set_nc_description string

fun change_nonconformity :: "nonconformity_change \<Rightarrow> nonconformity \<Rightarrow> nonconformity" where
  "change_nonconformity (Set_nc_status st) n = n\<lparr>nc_status := st\<rparr>"
| "change_nonconformity (Set_fixed_on d) n = n\<lparr>nc_fixed_on := d\<rparr>"
| "change_nonconformity (Set_nc_description t) n = n\<lparr>nc_description := t\<rparr>"

definition settle_fixed_on :: "date \<Rightarrow> nonconformity \<Rightarrow> nonconformity" where
  "settle_fixed_on t n =
    (let n = (if nc_status n = Nc_fixed \<and> nc_fixed_on n = None then n\<lparr>nc_fixed_on := Some t\<rparr> else n)
     in if nc_status n = Nc_open then n\<lparr>nc_fixed_on := None\<rparr> else n)"

definition edit_nonconformity ::
  "env \<Rightarrow> nonconformity \<Rightarrow> nonconformity_change list \<Rightarrow> pk option \<Rightarrow> 'a inspectorate_scheme
    \<Rightarrow> (nonconformity \<times> 'a inspectorate_scheme) result" where
  "edit_nonconformity e n changes by s =
    db_update e nonconformities_update True True
      ((settle_fixed_on (today e) (fold change_nonconformity changes n))\<lparr>updated_by := by\<rparr>) s"

text \<open>A fault for a defect, once.\<close>

definition open_fault ::
  "env \<Rightarrow> fault_world \<Rightarrow> pk \<Rightarrow> staff \<Rightarrow> 'a inspectorate_scheme \<Rightarrow> (fault \<times> 'a inspectorate_scheme) result" where
  "open_fault e w k by s =
    bind_res (get_row k (objects (ctx e) (nonconformities s))) (\<lambda>n.
    bind_res (get_row (nc_inspection n) (inspections s)) (\<lambda>i.
    bind_res (get_row (ip_elevator i) (elevators s)) (\<lambda>el.
    case nc_fault n of
      Some f \<Rightarrow> bind_res (get_row f (faults s)) (\<lambda>f. Inr (f, s))
    | None \<Rightarrow>
        bind_res (report_by_staff e w el (take 1000 (nc_description n))
            (if nc_severity n = Red then High else Normal) by None False False s) (\<lambda>(f, s).
        bind_res (save_fields e nonconformities_update True
            (\<lambda>x. x\<lparr>nc_fault := Some (pk f), updated_by := Some (pk by)\<rparr>) n s) (\<lambda>(_, s).
        Inr (f, s))))))"

section \<open>The open correction of a lift\<close>

text \<open>Worked out for one lift.\<close>

definition open_correction :: "env \<Rightarrow> pk \<Rightarrow> 'a inspectorate_scheme \<Rightarrow> (date option \<times> nat) result" where
  "open_correction e k s =
    (case latest_inspection e k s of
       None \<Rightarrow> Inr (None, 0)
     | Some i \<Rightarrow> bind_res (open_nonconformities e i s) (\<lambda>ns.
         let count = length ns in
         Inr (if count = 0 \<or> ip_deadline i = None then None else ip_deadline i, count)))"

text \<open>Read from the annotations of a list (\<open>with_open_correction\<close>).\<close>

definition annotated_correction :: "env \<Rightarrow> pk \<Rightarrow> 'a inspectorate_scheme \<Rightarrow> date option \<times> nat" where
  "annotated_correction e k s =
    (let latest = latest_inspection e k s;
         deadline = Option.bind latest ip_deadline;
         count = length (filter (\<lambda>n. nc_status n = Nc_open \<and>
           (Some (nc_inspection n) = map_option pk latest \<or> Some (nc_inspection n) = Option.bind latest ip_follows))
           (objects (ctx e) (nonconformities s)))
     in (if count = 0 \<or> deadline = None then None else deadline, count))"

section \<open>The daily warnings (tasks.py)\<close>

definition INSPECTION_NOTICE_DAYS :: int where "INSPECTION_NOTICE_DAYS = 30"

definition CORRECTION_THRESHOLDS :: "int list" where "CORRECTION_THRESHOLDS = [30, 14, 3]"

text \<open>\<open>str(n)\<close>\<close>

definition int_text :: "int \<Rightarrow> string" where
  "int_text n = (if n < 0 then ''-'' @ digits (nat (- n)) else digits (nat n))"

text \<open>The lifts an active contract covers, whose next inspection falls in the notice window.\<close>

definition under_active_contract :: "pk \<Rightarrow> 'a estate_scheme \<Rightarrow> bool" where
  "under_active_contract k s \<longleftrightarrow>
    (\<exists>l \<in> set (contract_lines s). ce_elevator l = k \<and> open_line l \<and>
      (\<exists>c \<in> set (contracts s). pk c = ce_contract l \<and> ct_status c = C_active))"

definition inspections_due :: "env \<Rightarrow> date \<Rightarrow> date \<Rightarrow> 'a estate_scheme \<Rightarrow> elevator list" where
  "inspections_due e from_day to_day s =
    sort_key (\<lambda>el. (the (el_next_inspection_date el), pk el))
      (filter (\<lambda>el. (case el_next_inspection_date el of None \<Rightarrow> False | Some d \<Rightarrow> from_day \<le> d \<and> d \<le> to_day) \<and>
          under_active_contract (pk el) s)
        (objects (ctx e) (elevators s)))"

definition announce_due ::
  "env \<Rightarrow> elevator \<Rightarrow> nat \<times> 'a inspectorate_scheme \<Rightarrow> (nat \<times> 'a inspectorate_scheme) result" where
  "announce_due e el ns =
    (case el_next_inspection_date el of
       None \<Rightarrow> Inl (Crash Assertion_error)
     | Some d \<Rightarrow>
         bind_res (get_row (el_building el) (buildings (snd ns))) (\<lambda>b.
         bind_res (notify e ''inspection_due'' (fault_office (company_id el) (snd ns)) ''elevator'' (pk el)
             [(''elevator_name'', Text (el_name el)), (''building_name'', Text (bd_name b)),
              (''next_inspection_date'', Text (isoformat d)), (''inspection_body'', Text (el_inspection_body el))]
             (''inspection_due:'' @ digits (pk el) @ '':'' @ isoformat d @ '':'' @ int_text INSPECTION_NOTICE_DAYS)
             (snd ns)) (\<lambda>(created, s). Inr (fst ns + length created, s))))"

definition inspection_due_notice_in_scope ::
  "env \<Rightarrow> date \<Rightarrow> 'a inspectorate_scheme \<Rightarrow> (nat \<times> 'a inspectorate_scheme) result" where
  "inspection_due_notice_in_scope e t s =
    bind_res (the_res (add_days t INSPECTION_NOTICE_DAYS) (Crash Overflow_error)) (\<lambda>horizon.
    fold_res (announce_due e) (inspections_due e t horizon s) (0, s))"

definition inspection_due_notice :: "env \<Rightarrow> 'a inspectorate_scheme \<Rightarrow> (nat \<times> 'a inspectorate_scheme) result" where
  "inspection_due_notice e s =
    inspection_due_notice_in_scope (e\<lparr>ctx := system_context (ctx e)\<rparr>) (today e) s"

definition threshold_for :: "int \<Rightarrow> int option" where
  "threshold_for days_left = agg_min (filter (\<lambda>t. days_left \<le> t) CORRECTION_THRESHOLDS)"

text \<open>What is said about a deadline this many days away: the kind, and the threshold in the key.\<close>

definition warning_for :: "int \<Rightarrow> (string \<times> string) option" where
  "warning_for days_left =
    (if days_left < 0 then Some (''correction_deadline_passed'', ''passed'')
     else map_option (\<lambda>t. (''correction_deadline_near'', int_text t)) (threshold_for days_left))"

definition deadlines_open :: "env \<Rightarrow> 'a inspectorate_scheme \<Rightarrow> inspection list" where
  "deadlines_open e s =
    sort_key (\<lambda>i. (the (ip_deadline i), pk i))
      (filter (\<lambda>i. ip_label i \<in> {Yellow, Red} \<and> ip_deadline i \<noteq> None) (current_inspections e s))"

definition warn_deadline ::
  "env \<Rightarrow> date \<Rightarrow> inspection \<Rightarrow> nat \<times> 'a inspectorate_scheme \<Rightarrow> (nat \<times> 'a inspectorate_scheme) result" where
  "warn_deadline e t i ns =
    (case ip_deadline i of
       None \<Rightarrow> Inl (Crash Assertion_error)
     | Some d \<Rightarrow>
         bind_res (open_nonconformities e i (snd ns)) (\<lambda>still_open.
         if still_open = [] then Inr ns
         else case warning_for (days_between d t) of
           None \<Rightarrow> Inr ns
         | Some (kind, threshold) \<Rightarrow>
             bind_res (get_row (ip_elevator i) (elevators (snd ns))) (\<lambda>el.
             bind_res (office_and_technicians el (snd ns)) (\<lambda>people.
             bind_res (inspection_facts el i (snd ns)) (\<lambda>known.
             bind_res (notify e kind people ''elevator'' (ip_elevator i)
                 (known @ [(''days_left'', Number (days_between d t)),
                   (''open_nonconformities'', Number (int (length still_open)))])
                 (kind @ '':'' @ digits (pk i) @ '':'' @ threshold) (snd ns)) (\<lambda>(created, s).
             Inr (fst ns + length created, s)))))))"

definition correction_deadline_notice_in_scope ::
  "env \<Rightarrow> date \<Rightarrow> 'a inspectorate_scheme \<Rightarrow> (nat \<times> 'a inspectorate_scheme) result" where
  "correction_deadline_notice_in_scope e t s = fold_res (warn_deadline e t) (deadlines_open e s) (0, s)"

definition correction_deadline_notice :: "env \<Rightarrow> 'a inspectorate_scheme \<Rightarrow> (nat \<times> 'a inspectorate_scheme) result" where
  "correction_deadline_notice e s =
    correction_deadline_notice_in_scope (e\<lparr>ctx := system_context (ctx e)\<rparr>) (today e) s"

section \<open>The forms (serializers.py)\<close>

definition check_dates :: "date option \<Rightarrow> date option \<Rightarrow> unit result" where
  "check_dates inspected_on next_due =
    (case (inspected_on, next_due) of
       (Some a, Some b) \<Rightarrow> if b \<le> a then Inl (field_error ''next_inspection_due'' END_DATE_BEFORE_START_DATE) else Inr ()
     | _ \<Rightarrow> Inr ())"

text \<open>\<open>InspectionCreateSerializer.validate\<close>\<close>

definition validate_inspection ::
  "elevator \<Rightarrow> inspection_kind \<Rightarrow> inspection option \<Rightarrow> date \<Rightarrow> date option \<Rightarrow> unit result" where
  "validate_inspection el kind follows inspected_on next_due =
    bind_res (case (kind, follows) of
       (Follow_up, None) \<Rightarrow> Inl (invalid_with ''follows'' ''required'')
     | (Follow_up, Some o1) \<Rightarrow>
         if ip_elevator o1 \<noteq> pk el then Inl (invalid ''follows'')
         else if inspected_on < ip_inspected_on o1
         then Inl (field_error ''inspected_on'' END_DATE_BEFORE_START_DATE) else Inr ()
     | (Periodic, Some _) \<Rightarrow> Inl (invalid ''follows'')
     | (Periodic, None) \<Rightarrow> Inr ()) (\<lambda>_.
    check_dates (Some inspected_on) next_due)"

section \<open>What is due (views.py)\<close>

definition DUE_WINDOW_MAX :: int where "DUE_WINDOW_MAX = 365"

datatype due_type = Due_correction | Due_inspection

record due_item =
  du_type :: due_type
  du_date :: date
  du_days_left :: int
  du_elevator :: pk
  du_label :: "label option"
  du_inspection :: "pk option"
  du_open :: nat
  du_sealed :: bool

definition due_inspection_row :: "env \<Rightarrow> 'a inspectorate_scheme \<Rightarrow> elevator \<Rightarrow> due_item" where
  "due_inspection_row e s el =
    \<lparr>du_type = Due_inspection, du_date = the (el_next_inspection_date el),
     du_days_left = days_between (the (el_next_inspection_date el)) (today e), du_elevator = pk el,
     du_label = el_inspection_label el, du_inspection = map_option pk (latest_inspection e (pk el) s),
     du_open = 0, du_sealed = False\<rparr>"

definition count_open :: "env \<Rightarrow> pk \<Rightarrow> 'a inspectorate_scheme \<Rightarrow> nat" where
  "count_open e k s =
    length (filter (\<lambda>n. nc_inspection n = k \<and> nc_status n = Nc_open) (objects (ctx e) (nonconformities s)))"

definition due_correction_row :: "env \<Rightarrow> 'a inspectorate_scheme \<Rightarrow> inspection \<Rightarrow> due_item option" where
  "due_correction_row e s i =
    (let still_open = count_open e (pk i) s +
        (case ip_follows i of None \<Rightarrow> 0 | Some k \<Rightarrow> count_open e k s)
     in if still_open = 0 then None
        else Some \<lparr>du_type = Due_correction, du_date = the (ip_deadline i),
          du_days_left = days_between (the (ip_deadline i)) (today e), du_elevator = ip_elevator i,
          du_label = Some (ip_label i), du_inspection = Some (pk i), du_open = still_open,
          du_sealed = rule_sealed_if_missed (RULES (ip_label i))\<rparr>)"

text \<open>\<open>assigned\<close>: the customers a technician is narrowed to, or \<open>None\<close> for everyone else.\<close>

definition for_customers :: "pk list option \<Rightarrow> pk \<Rightarrow> 'a estate_scheme \<Rightarrow> bool" where
  "for_customers assigned k s \<longleftrightarrow>
    (case assigned of None \<Rightarrow> True | Some cs \<Rightarrow>
      (case joined_elevator k s of Inr (_, b) \<Rightarrow> bd_customer b \<in> set cs | Inl _ \<Rightarrow> False))"

definition due_list :: "env \<Rightarrow> int \<Rightarrow> pk list option \<Rightarrow> 'a inspectorate_scheme \<Rightarrow> due_item list result" where
  "due_list e days assigned s =
    (let window = max 0 (min days DUE_WINDOW_MAX) in
     bind_res (the_res (add_days (today e) window) (Crash Overflow_error)) (\<lambda>horizon.
     let lifts = sort_key (\<lambda>el. (the (el_next_inspection_date el), pk el))
           (filter (\<lambda>el. (case el_next_inspection_date el of None \<Rightarrow> False | Some d \<Rightarrow> d \<le> horizon) \<and>
              for_customers assigned (pk el) s) (objects (ctx e) (elevators s)));
         current = filter (\<lambda>i. (case ip_deadline i of None \<Rightarrow> False | Some d \<Rightarrow> d \<le> horizon) \<and>
              for_customers assigned (ip_elevator i) s) (deadlines_open e s)
     in Inr (sort_key (\<lambda>r. (du_date r, du_type r = Due_inspection, du_elevator r))
          (map (due_inspection_row e s) lifts @ List.map_filter (due_correction_row e s) current))))"

end
