(* ===== verification/Maintenance.thy ===== *)
theory Maintenance
  imports Inspections Document_Laws
begin

text \<open>
  \<open>apps/maintenance\<close>: recording, correcting and deleting a visit, what that does to the lift's dates and
  to the month's plan (\<open>services.py\<close> with the viewset that composes it), the plan itself (generated,
  edited, assigned in bulk, announced), the overdue notice (\<open>tasks.py\<close>) and the rules of the
  building's signature (\<open>signatures.py\<close>).
\<close>

section \<open>The tables (models.py)\<close>

datatype visit_status = Completed | Incomplete | Access_denied
datatype signature_status = Signed | Not_present | Declined
datatype signer_role = Signer_manager | Signer_caretaker | Signer_staff | Signer_other
datatype plan_status = Planned | Done | Plan_cancelled

datatype checklist_item =
    Brake_system | Hoisting_ropes | Landing_doors | Car_door_safety_edge | Limit_switches
  | Guide_rail_lubrication | Car_lighting | Emergency_lighting | Emergency_alarm_intercom
  | Control_panel_buttons | Leveling_accuracy | Overload_device | Automatic_rescue_device
  | Pit_condition | Machine_room_condition | Earthing_grounding

datatype checklist_result = Item_ok | Attention_needed | Not_applicable

text \<open>A blank signature status or signer role is \<open>None\<close>.\<close>

record visit = row +
  vs_elevator :: pk
  vs_contract :: pk
  vs_technician :: pk
  vs_date :: date
  vs_status :: visit_status
  vs_status_note :: string
  vs_work_notes :: string
  vs_parts_replaced :: string
  vs_signature_status :: "signature_status option"
  vs_signer_name :: string
  vs_signer_role :: "signer_role option"
  vs_signed_at :: "instant option"
  vs_amended :: bool

record visit_item = row +
  vi_visit :: pk
  vi_item :: checklist_item
  vi_result :: checklist_result
  vi_note :: string

record planned_visit = row +
  pv_elevator :: pk
  pv_period :: string
  pv_due_date :: date
  pv_planned_date :: "date option"
  pv_technician :: "pk option"
  pv_status :: plan_status
  pv_visit :: "pk option"
  pv_edited :: bool

record workshop = inspectorate +
  visits :: "visit list"
  visit_items :: "visit_item list"
  plan :: "planned_visit list"
  attachments :: "attachment list"

definition blank_item :: visit_item where
  "blank_item = \<lparr>pk = 0, company_id = 0, created_at = 0, updated_at = 0, created_by = None,
    updated_by = None, is_deleted = False, deleted_at = None, vi_visit = 0, vi_item = Brake_system,
    vi_result = Item_ok, vi_note = []\<rparr>"

definition blank_planned :: planned_visit where
  "blank_planned = \<lparr>pk = 0, company_id = 0, created_at = 0, updated_at = 0, created_by = None,
    updated_by = None, is_deleted = False, deleted_at = None, pv_elevator = 0, pv_period = [],
    pv_due_date = Date 1 1 1, pv_planned_date = None, pv_technician = None, pv_status = Planned,
    pv_visit = None, pv_edited = False\<rparr>"

definition items_clash :: "visit_item \<Rightarrow> visit_item \<Rightarrow> bool" where
  "items_clash a b \<longleftrightarrow> \<not> is_deleted a \<and> \<not> is_deleted b \<and> vi_visit a = vi_visit b \<and> vi_item a = vi_item b"

definition plan_clash :: "planned_visit \<Rightarrow> planned_visit \<Rightarrow> bool" where
  "plan_clash a b \<longleftrightarrow> \<not> is_deleted a \<and> \<not> is_deleted b \<and> pv_elevator a = pv_elevator b \<and> pv_period a = pv_period b"

definition visit_fits :: "visit \<Rightarrow> bool" where
  "visit_fits v \<longleftrightarrow> length (vs_signer_name v) \<le> 100"

text \<open>The model's order: period, due date, id.\<close>

definition plan_order :: "planned_visit list \<Rightarrow> planned_visit list" where
  "plan_order rows = sort_key (\<lambda>r. (pv_period r, pv_due_date r, pk r)) rows"

section \<open>Months\<close>

definition period_of :: "date \<Rightarrow> string" where
  "period_of d = padded 4 (nat (year d)) @ ''-'' @ padded 2 (nat (month d))"

text \<open>\<open>period.split("-")\<close>, and \<open>int\<close> of the digits a stored period is made of.\<close>

fun split_dash :: "string \<Rightarrow> string list" where
  "split_dash [] = [[]]"
| "split_dash (c # cs) =
    (if c = CHR ''-'' then [] # split_dash cs
     else case split_dash cs of [] \<Rightarrow> [[c]] | p # ps \<Rightarrow> (c # p) # ps)"

definition month_bounds :: "string \<Rightarrow> (date \<times> date) result" where
  "month_bounds p =
    (case split_dash p of
       [y, m] \<Rightarrow>
         bind_res (the_res (int_of_text y) (Crash Value_error)) (\<lambda>y.
         bind_res (the_res (int_of_text m) (Crash Value_error)) (\<lambda>m.
         bind_res (the_res (mk_date (int y) (int m) 1) (Crash Value_error)) (\<lambda>first.
         bind_res (the_res (mk_date (int y) (int m) (days_in_month (int y) (int m))) (Crash Value_error)) (\<lambda>last.
         Inr (first, last)))))
     | _ \<Rightarrow> Inl (Crash Value_error))"

definition next_period :: "string \<Rightarrow> string result" where
  "next_period p =
    bind_res (month_bounds p) (\<lambda>(_, last).
    bind_res (the_res (add_days last 1) (Crash Overflow_error)) (\<lambda>d. Inr (period_of d)))"

definition due_date_in :: "string \<Rightarrow> date option \<Rightarrow> date result" where
  "due_date_in p next_maintenance =
    bind_res (month_bounds p) (\<lambda>(first, last).
    Inr (case next_maintenance of None \<Rightarrow> Date (year first) (month first) 15 | Some d \<Rightarrow> min d last))"

section \<open>The lift's dates\<close>

definition ensure_active_contract :: "env \<Rightarrow> elevator \<Rightarrow> contract \<Rightarrow> 'a estate_scheme \<Rightarrow> unit result" where
  "ensure_active_contract e el c s =
    (if ct_status c \<noteq> C_active then Inl (Business_rule_error NO_ACTIVE_CONTRACT_FOR_ELEVATOR)
     else if \<not> (\<exists>l \<in> set (objects (ctx e) (contract_lines s)).
         ce_contract l = pk c \<and> ce_elevator l = pk el \<and> ce_removed_at l = None)
     then Inl (Business_rule_error NO_ACTIVE_CONTRACT_FOR_ELEVATOR) else Inr ())"

definition save_planned ::
  "env \<Rightarrow> (planned_visit \<Rightarrow> planned_visit) \<Rightarrow> planned_visit \<Rightarrow> 'a workshop_scheme
    \<Rightarrow> (planned_visit \<times> 'a workshop_scheme) result" where
  "save_planned e g r s = save_fields e plan_update True g r s"

definition refresh_row ::
  "env \<Rightarrow> date option \<Rightarrow> planned_visit \<Rightarrow> nat \<times> 'a workshop_scheme \<Rightarrow> (nat \<times> 'a workshop_scheme) result" where
  "refresh_row e next_maintenance r ns =
    bind_res (due_date_in (pv_period r) next_maintenance) (\<lambda>due.
    if pv_due_date r \<noteq> due
    then bind_res (save_planned e (\<lambda>x. x\<lparr>pv_due_date := due\<rparr>) r (snd ns)) (\<lambda>(_, s). Inr (fst ns + 1, s))
    else Inr ns)"

definition refresh_planned_due_dates ::
  "env \<Rightarrow> date \<Rightarrow> elevator \<Rightarrow> 'a workshop_scheme \<Rightarrow> (nat \<times> 'a workshop_scheme) result" where
  "refresh_planned_due_dates e t el s =
    fold_res (refresh_row e (el_next_maintenance_date el))
      (plan_order (filter (\<lambda>r. pv_elevator r = pk el \<and> pv_status r = Planned \<and> \<not> pv_edited r \<and> period_of t \<le> pv_period r)
        (objects (ctx e) (plan s)))) (0, s)"

definition latest_completed :: "env \<Rightarrow> pk \<Rightarrow> 'a workshop_scheme \<Rightarrow> visit option" where
  "latest_completed e k s =
    newest (\<lambda>v. (vs_date v, pk v))
      (filter (\<lambda>v. vs_elevator v = k \<and> vs_status v = Completed) (objects (ctx e) (visits s)))"

text \<open>The dates a lift gets from its latest completed visit.\<close>

definition maintenance_dates :: "elevator \<Rightarrow> visit option \<Rightarrow> (date option \<times> date option) result" where
  "maintenance_dates el latest =
    (case latest of
       None \<Rightarrow> Inr (None, None)
     | Some v \<Rightarrow>
         bind_res (the_res (add_days (vs_date v) (el_maintenance_interval_days el)) (Crash Overflow_error)) (\<lambda>d.
         Inr (Some (vs_date v), Some d)))"

definition recalculate_next_maintenance ::
  "env \<Rightarrow> elevator \<Rightarrow> 'a workshop_scheme \<Rightarrow> 'a workshop_scheme result" where
  "recalculate_next_maintenance e el s =
    bind_res (maintenance_dates el (latest_completed e (pk el) s)) (\<lambda>(last, next).
    bind_res (save_fields e elevators_update True
        (\<lambda>x. x\<lparr>el_last_maintenance_date := last, el_next_maintenance_date := next\<rparr>) el s) (\<lambda>(el, s).
    bind_res (refresh_planned_due_dates e (today e) el s) (\<lambda>(_, s). Inr s)))"

section \<open>The plan follows the visits\<close>

text \<open>What a row's month makes of it: its status, and the visit it is linked to.\<close>

definition month_visits :: "env \<Rightarrow> pk \<Rightarrow> date \<Rightarrow> date \<Rightarrow> 'a workshop_scheme \<Rightarrow> visit list" where
  "month_visits e k since until s =
    rev (sort_key (\<lambda>v. (vs_date v, pk v))
      (filter (\<lambda>v. vs_elevator v = k \<and> since \<le> vs_date v \<and> vs_date v \<le> until) (objects (ctx e) (visits s))))"

definition outcome_of :: "visit list \<Rightarrow> plan_status \<times> pk option" where
  "outcome_of vs =
    (case List.find (\<lambda>v. vs_status v = Completed) vs of
       Some v \<Rightarrow> (Done, Some (pk v))
     | None \<Rightarrow> (Planned, case vs of [] \<Rightarrow> None | v # _ \<Rightarrow> Some (pk v)))"

definition open_row :: "env \<Rightarrow> pk \<Rightarrow> string \<Rightarrow> 'a workshop_scheme \<Rightarrow> planned_visit option" where
  "open_row e k p s =
    List.find (\<lambda>_. True) (plan_order (filter (\<lambda>r. pv_elevator r = k \<and> pv_period r = p \<and> pv_status r \<noteq> Plan_cancelled)
      (objects (ctx e) (plan s))))"

definition sync_planned_visit :: "env \<Rightarrow> pk \<Rightarrow> date \<Rightarrow> 'a workshop_scheme \<Rightarrow> 'a workshop_scheme result" where
  "sync_planned_visit e k d s =
    (case open_row e k (period_of d) s of
       None \<Rightarrow> Inr s
     | Some r \<Rightarrow>
         bind_res (month_bounds (pv_period r)) (\<lambda>(first, last).
         let (st, v) = outcome_of (month_visits e k first last s) in
         if pv_status r \<noteq> st \<or> pv_visit r \<noteq> v
         then bind_res (save_planned e (\<lambda>x. x\<lparr>pv_status := st, pv_visit := v\<rparr>) r s) (\<lambda>(_, s). Inr s)
         else Inr s))"

definition sync_plan_for_visit ::
  "env \<Rightarrow> visit \<Rightarrow> (pk \<times> date) option \<Rightarrow> 'a workshop_scheme \<Rightarrow> 'a workshop_scheme result" where
  "sync_plan_for_visit e v before s =
    bind_res (sync_planned_visit e (vs_elevator v) (vs_date v) s) (\<lambda>s.
    case before of
      None \<Rightarrow> Inr s
    | Some (k, d) \<Rightarrow>
        if (k, period_of d) = (vs_elevator v, period_of (vs_date v)) then Inr s
        else sync_planned_visit e k d s)"

section \<open>Recording a visit (services.py and MaintenanceVisitViewSet)\<close>

definition insert_item ::
  "env \<Rightarrow> visit \<Rightarrow> checklist_item \<times> checklist_result \<times> string \<Rightarrow> 'a workshop_scheme \<Rightarrow> 'a workshop_scheme result" where
  "insert_item e v entry s =
    (let i = blank_item\<lparr>company_id := company_id v, vi_visit := pk v, vi_item := fst entry,
           vi_result := fst (snd entry), vi_note := snd (snd entry)\<rparr>
     in bind_res (db_insert e visit_items_update True (unique_with items_clash i (visit_items s)) i s) (\<lambda>(_, s). Inr s))"

definition set_checklist ::
  "env \<Rightarrow> visit \<Rightarrow> (checklist_item \<times> checklist_result \<times> string) list \<Rightarrow> 'a workshop_scheme
    \<Rightarrow> 'a workshop_scheme result" where
  "set_checklist e v items s =
    fold_res (insert_item e v) items
      (visit_items_update (\<lambda>rows. fst (queryset_delete e (\<lambda>i. vi_visit i = pk v \<and> visible (ctx e) i) rows)) s)"

definition set_checklist_if ::
  "env \<Rightarrow> visit \<Rightarrow> (checklist_item \<times> checklist_result \<times> string) list option \<Rightarrow> 'a workshop_scheme
    \<Rightarrow> 'a workshop_scheme result" where
  "set_checklist_if e v items s = (case items of None \<Rightarrow> Inr s | Some xs \<Rightarrow> set_checklist e v xs s)"

text \<open>\<open>v\<close>: the visit the form describes, with the firm and the author of the request.\<close>

definition record_visit ::
  "env \<Rightarrow> elevator \<Rightarrow> contract \<Rightarrow> visit \<Rightarrow> (checklist_item \<times> checklist_result \<times> string) list option
    \<Rightarrow> 'a workshop_scheme \<Rightarrow> (visit \<times> 'a workshop_scheme) result" where
  "record_visit e el c v items s =
    bind_res (ensure_active_contract e el c s) (\<lambda>_.
    bind_res (db_insert e visits_update (visit_fits v) True
        (v\<lparr>vs_elevator := pk el, vs_contract := pk c\<rparr>) s) (\<lambda>(v, s).
    bind_res (set_checklist_if e v items s) (\<lambda>s.
    bind_res (recalculate_next_maintenance e el s) (\<lambda>s.
    bind_res (sync_plan_for_visit e v None s) (\<lambda>s.
    Inr (v, s))))))"

text \<open>What an edit may change; the fields of the signature are refused.\<close>

datatype visit_change =
    Move_elevator pk
  | Move_contract pk
  | Set_visit_technician pk
  | Set_visit_date date
  | Set_visit_status visit_status
  | Set_status_note string
  | Set_work_notes string
  | Set_parts_replaced string

fun change_visit :: "visit_change \<Rightarrow> visit \<Rightarrow> visit" where
  "change_visit (Move_elevator k) v = v\<lparr>vs_elevator := k\<rparr>"
| "change_visit (Move_contract k) v = v\<lparr>vs_contract := k\<rparr>"
| "change_visit (Set_visit_technician k) v = v\<lparr>vs_technician := k\<rparr>"
| "change_visit (Set_visit_date d) v = v\<lparr>vs_date := d\<rparr>"
| "change_visit (Set_visit_status st) v = v\<lparr>vs_status := st\<rparr>"
| "change_visit (Set_status_note t) v = v\<lparr>vs_status_note := t\<rparr>"
| "change_visit (Set_work_notes t) v = v\<lparr>vs_work_notes := t\<rparr>"
| "change_visit (Set_parts_replaced t) v = v\<lparr>vs_parts_replaced := t\<rparr>"

text \<open>A key the form names is looked up in the tenant's rows; one it does not name is the row's own.\<close>

definition related :: "env \<Rightarrow> string \<Rightarrow> pk \<Rightarrow> 'r row_scheme list \<Rightarrow> 'r row_scheme result" where
  "related e field k rows = the_res (by_pk k (objects (ctx e) rows)) (invalid_with field ''does_not_exist'')"

fun moved_elevator :: "visit_change list \<Rightarrow> pk option" where
  "moved_elevator [] = None"
| "moved_elevator (Move_elevator k # cs) = (case moved_elevator cs of None \<Rightarrow> Some k | Some j \<Rightarrow> Some j)"
| "moved_elevator (_ # cs) = moved_elevator cs"

fun moved_contract :: "visit_change list \<Rightarrow> pk option" where
  "moved_contract [] = None"
| "moved_contract (Move_contract k # cs) = (case moved_contract cs of None \<Rightarrow> Some k | Some j \<Rightarrow> Some j)"
| "moved_contract (_ # cs) = moved_contract cs"

definition named_row ::
  "env \<Rightarrow> string \<Rightarrow> pk option \<Rightarrow> pk \<Rightarrow> 'r row_scheme list \<Rightarrow> 'r row_scheme result" where
  "named_row e field sent own rows = (case sent of Some k \<Rightarrow> related e field k rows | None \<Rightarrow> get_row own rows)"

text \<open>\<open>MaintenanceVisitSerializer.validate\<close>: who may name whom; the technician the visit gets.\<close>

definition check_technician :: "staff \<Rightarrow> pk option \<Rightarrow> bool \<Rightarrow> pk option result" where
  "check_technician user named creating =
    (if staff_role user = Technician
     then if named \<noteq> None \<and> named \<noteq> Some (pk user)
       then Inl (field_error ''technician'' TECHNICIAN_RECORDS_OWN_VISITS)
       else Inr (if creating then Some (pk user) else named)
     else if named = None \<and> creating then Inl (invalid_with ''technician'' ''required'') else Inr named)"

definition edit_visit ::
  "env \<Rightarrow> visit \<Rightarrow> visit_change list \<Rightarrow> (checklist_item \<times> checklist_result \<times> string) list option
    \<Rightarrow> pk option \<Rightarrow> 'a workshop_scheme \<Rightarrow> (visit \<times> 'a workshop_scheme) result" where
  "edit_visit e v changes items by s =
    (let v' = (fold change_visit changes v)\<lparr>updated_by := by,
           vs_amended := (if vs_signature_status v = Some Signed then True else vs_amended v)\<rparr>
     in bind_res (named_row e ''elevator'' (moved_elevator changes) (vs_elevator v) (elevators s)) (\<lambda>el.
        bind_res (named_row e ''contract'' (moved_contract changes) (vs_contract v) (contracts s)) (\<lambda>c.
        bind_res (ensure_active_contract e el c s) (\<lambda>_.
        bind_res (get_row (vs_elevator v) (elevators s)) (\<lambda>previous.
        bind_res (db_update e visits_update (visit_fits v') True v' s) (\<lambda>(v', s).
        bind_res (set_checklist_if e v' items s) (\<lambda>s.
        bind_res (recalculate_next_maintenance e el s) (\<lambda>s.
        bind_res (if pk previous \<noteq> pk el then recalculate_next_maintenance e previous s else Inr s) (\<lambda>s.
        bind_res (sync_plan_for_visit e v' (Some (vs_elevator v, vs_date v)) s) (\<lambda>s.
        Inr (v', s)))))))))))"

definition delete_visit :: "env \<Rightarrow> visit \<Rightarrow> pk option \<Rightarrow> 'a workshop_scheme \<Rightarrow> 'a workshop_scheme result" where
  "delete_visit e v by s =
    bind_res (get_row (vs_elevator v) (elevators s)) (\<lambda>el.
    bind_res (save_fields e visits_update True (\<lambda>x. x\<lparr>updated_by := by\<rparr>) v s) (\<lambda>(v, s).
    bind_res (save_fields e visits_update True (\<lambda>x. x\<lparr>is_deleted := True, deleted_at := Some (now e)\<rparr>) v s) (\<lambda>(v, s).
    bind_res (recalculate_next_maintenance e el s) (\<lambda>s.
    sync_plan_for_visit e v None s))))"

text \<open>The checklist replaced on its own.\<close>

definition replace_checklist ::
  "env \<Rightarrow> visit \<Rightarrow> (checklist_item \<times> checklist_result \<times> string) list \<Rightarrow> pk option \<Rightarrow> 'a workshop_scheme
    \<Rightarrow> (visit \<times> 'a workshop_scheme) result" where
  "replace_checklist e v items by s =
    bind_res (set_checklist e v items s) (\<lambda>s.
    let amended = (if vs_signature_status v = Some Signed then True else vs_amended v) in
    save_fields e visits_update True (\<lambda>x. x\<lparr>updated_by := by, vs_amended := amended\<rparr>) v s)"

text \<open>\<open>_each_item_once\<close>\<close>

definition each_item_once :: "(checklist_item \<times> checklist_result \<times> string) list \<Rightarrow> unit result" where
  "each_item_once items = (if distinct (map fst items) then Inr () else Inl (invalid ''items''))"

section \<open>The building's signature (signatures.py)\<close>

record signature_form =
  sg_status :: "signature_status option"
  sg_name :: string
  sg_role :: "signer_role option"
  sg_at :: "instant option"

definition check_signature_fields :: "env \<Rightarrow> visit_status \<Rightarrow> signature_form \<Rightarrow> signature_form result" where
  "check_signature_fields e st f =
    (let name = strip (sg_name f) in
     case sg_status f of
       None \<Rightarrow>
         if st = Completed then Inl (invalid_with ''signature_status'' ''required'')
         else if name \<noteq> [] \<or> sg_role f \<noteq> None
         then Inl (invalid (if name \<noteq> [] then ''signer_name'' else ''signer_role''))
         else Inr (f\<lparr>sg_at := None\<rparr>)
     | Some Signed \<Rightarrow>
         if name = [] then Inl (invalid_with ''signer_name'' ''required'')
         else if sg_role f = None then Inl (invalid_with ''signer_role'' ''required'')
         else Inr (f\<lparr>sg_name := name,
           sg_at := Some (case sg_at f of Some t \<Rightarrow> if t \<le> now e then t else now e | None \<Rightarrow> now e)\<rparr>)
     | Some _ \<Rightarrow>
         if name \<noteq> [] then Inl (invalid ''signer_name'')
         else if sg_role f \<noteq> None then Inl (invalid ''signer_role'')
         else Inr (f\<lparr>sg_at := None\<rparr>))"

datatype signature_state = Sig_signed | Sig_pending | Sig_not_present | Sig_declined | Sig_none

definition has_signature_image :: "pk \<Rightarrow> 'a workshop_scheme \<Rightarrow> bool" where
  "has_signature_image k s \<longleftrightarrow>
    (\<exists>a \<in> set (attachments s). at_object_type a = ''maintenance_visit'' \<and> at_object_id a = k \<and>
      at_category a = ''signature'' \<and> \<not> is_deleted a)"

definition signature_state_of :: "visit \<Rightarrow> 'a workshop_scheme \<Rightarrow> signature_state" where
  "signature_state_of v s =
    (case vs_signature_status v of
       Some Signed \<Rightarrow> if has_signature_image (pk v) s then Sig_signed else Sig_pending
     | Some Not_present \<Rightarrow> Sig_not_present
     | Some Declined \<Rightarrow> Sig_declined
     | None \<Rightarrow> Sig_none)"

section \<open>Assignments\<close>

text \<open>\<open>assigned\<close>: the counter of what an action gave, as the list of its counts' keys with repeats.\<close>

definition assignment_key :: "pk \<Rightarrow> string \<Rightarrow> string \<Rightarrow> string" where
  "assignment_key technician p action = ''visit_assigned:'' @ digits technician @ '':'' @ p @ '':'' @ action"

definition announce_one ::
  "env \<Rightarrow> (pk \<times> string) list \<Rightarrow> string \<Rightarrow> string list option \<Rightarrow> pk \<times> string \<Rightarrow> nat \<times> 'a workshop_scheme
    \<Rightarrow> (nat \<times> 'a workshop_scheme) result" where
  "announce_one e assigned action rows kp ns =
    (case by_pk (fst kp) (staff_users (snd ns)) of
       None \<Rightarrow> Inr ns
     | Some technician \<Rightarrow>
         bind_res (notify e ''visit_assigned'' [technician] ''plan'' (pk technician)
             ([(''period'', Text (snd kp)), (''count'', Number (int (count_list assigned kp)))] @
              (case rows of None \<Rightarrow> [] | Some ks \<Rightarrow> [(''rows'', Texts ks)]))
             (assignment_key (fst kp) (snd kp) action) (snd ns)) (\<lambda>(created, s).
         Inr (fst ns + length created, s)))"

definition announce_assignments ::
  "env \<Rightarrow> (pk \<times> string) list \<Rightarrow> string \<Rightarrow> string list option \<Rightarrow> 'a workshop_scheme
    \<Rightarrow> (nat \<times> 'a workshop_scheme) result" where
  "announce_assignments e assigned action rows s =
    fold_res (announce_one e assigned action rows) (sort_key id (remdups assigned)) (0, s)"

text \<open>Fifteen minutes, in microseconds.\<close>

definition ASSIGNMENT_COALESCE_WINDOW :: instant where
  "ASSIGNMENT_COALESCE_WINDOW = 15 * 60 * 1000000"

definition counted_rows :: "notification \<Rightarrow> string list" where
  "counted_rows n = (case map_of (nt_data n) ''rows'' of Some (Texts ks) \<Rightarrow> ks | _ \<Rightarrow> [])"

definition counted :: "notification \<Rightarrow> int" where
  "counted n = (case map_of (nt_data n) ''count'' of Some (Number k) \<Rightarrow> k | _ \<Rightarrow> 0)"

text \<open>\<open>{**data, key: value}\<close>: a key keeps its place, a new one comes last.\<close>

fun set_entry :: "string \<Rightarrow> fact \<Rightarrow> (string \<times> fact) list \<Rightarrow> (string \<times> fact) list" where
  "set_entry k v [] = [(k, v)]"
| "set_entry k v ((k', v') # rest) = (if k' = k then (k, v) # rest else (k', v') # set_entry k v rest)"

definition recent_notice :: "env \<Rightarrow> pk \<Rightarrow> string \<Rightarrow> 'a desk_scheme \<Rightarrow> notification option" where
  "recent_notice e technician p s =
    newest (\<lambda>n. (created_at n, pk n))
      (filter (\<lambda>n. nt_recipient n = technician \<and> nt_kind n = ''visit_assigned'' \<and> nt_read_at n = None \<and>
          \<not> is_deleted n \<and> map_of (nt_data n) ''period'' = Some (Text p) \<and>
          now e - ASSIGNMENT_COALESCE_WINDOW \<le> created_at n)
        (notifications s))"

definition coalesce_assignment ::
  "env \<Rightarrow> pk \<Rightarrow> string \<Rightarrow> pk \<Rightarrow> 'a desk_scheme \<Rightarrow> (bool \<times> 'a desk_scheme) result" where
  "coalesce_assignment e technician p row s =
    (case recent_notice e technician p s of
       None \<Rightarrow> Inr (False, s)
     | Some n \<Rightarrow>
         if digits row \<in> set (counted_rows n) then Inr (True, s)
         else let facts = set_entry ''rows'' (Texts (counted_rows n @ [digits row]))
                (set_entry ''count'' (Number (counted n + 1)) (nt_data n))
           in bind_res (save_fields e notifications_update True (\<lambda>x. x\<lparr>nt_data := facts\<rparr>) n s) (\<lambda>(_, s).
              Inr (True, s)))"

datatype plan_change = Set_plan_technician "pk option" | Set_planned_date "date option"

fun change_planned :: "plan_change \<Rightarrow> planned_visit \<Rightarrow> planned_visit" where
  "change_planned (Set_plan_technician k) r = r\<lparr>pv_technician := k\<rparr>"
| "change_planned (Set_planned_date d) r = r\<lparr>pv_planned_date := d\<rparr>"

text \<open>\<open>PlannedVisitWriteSerializer.validate\<close>: \<open>day\<close> is \<open>None\<close> when the form does not send it.\<close>

definition validate_planned_date :: "env \<Rightarrow> planned_visit \<Rightarrow> date option option \<Rightarrow> unit result" where
  "validate_planned_date e r sent =
    (case sent of
       None \<Rightarrow> Inr ()
     | Some d \<Rightarrow>
         if d = pv_planned_date r then Inr ()
         else if pv_status r \<noteq> Planned then Inl (Conflict PLAN_ROW_CLOSED)
         else case d of
           None \<Rightarrow> Inr ()
         | Some x \<Rightarrow>
             if period_of x \<noteq> pv_period r then Inl (field_error ''planned_date'' PLANNED_DATE_OUTSIDE_PERIOD)
             else if x < today e then Inl (field_error ''planned_date'' PLANNED_DATE_IN_PAST)
             else Inr ())"

text \<open>\<open>action\<close>: the drawn identifier (\<open>uuid4\<close>) of this action.\<close>

definition edit_planned_visit ::
  "env \<Rightarrow> string \<Rightarrow> planned_visit \<Rightarrow> plan_change list \<Rightarrow> pk option \<Rightarrow> 'a workshop_scheme
    \<Rightarrow> (planned_visit \<times> 'a workshop_scheme) result" where
  "edit_planned_visit e action r changes editor s =
    (let r' = (fold change_planned changes r)\<lparr>pv_edited := True, updated_by := editor\<rparr>
     in bind_res (db_update e plan_update (length (pv_period r') \<le> 7)
          (unique_with plan_clash r' (filter (\<lambda>x. pk x \<noteq> pk r') (plan s))) r' s) (\<lambda>(r', s).
        case pv_technician r' of
          None \<Rightarrow> Inr (r', s)
        | Some technician \<Rightarrow>
            if pv_technician r = Some technician \<or> pv_status r' \<noteq> Planned then Inr (r', s)
            else bind_res (coalesce_assignment e technician (pv_period r') (pk r') s) (\<lambda>(folded, s).
              if folded then Inr (r', s)
              else bind_res (announce_assignments e [(technician, pv_period r')] (''edit:'' @ action)
                (Some [digits (pk r')]) s) (\<lambda>(_, s). Inr (r', s)))))"

definition assign_row ::
  "env \<Rightarrow> pk \<Rightarrow> pk option \<Rightarrow> planned_visit \<Rightarrow> (pk \<times> string) list \<times> 'a workshop_scheme
    \<Rightarrow> ((pk \<times> string) list \<times> 'a workshop_scheme) result" where
  "assign_row e technician editor r acc =
    bind_res (save_planned e (\<lambda>x. x\<lparr>pv_technician := Some technician, pv_edited := True, updated_by := editor\<rparr>) r (snd acc))
      (\<lambda>(_, s).
    Inr (fst acc @ (if pv_technician r \<noteq> Some technician \<and> pv_status r = Planned
      then [(technician, pv_period r)] else []), s))"

definition bulk_assign ::
  "env \<Rightarrow> string \<Rightarrow> planned_visit list \<Rightarrow> staff \<Rightarrow> pk option \<Rightarrow> 'a workshop_scheme \<Rightarrow> (nat \<times> 'a workshop_scheme) result" where
  "bulk_assign e action rows technician editor s =
    bind_res (fold_res (assign_row e (pk technician) editor) rows ([], s)) (\<lambda>(announced, s).
    bind_res (announce_assignments e announced (''bulk:'' @ action) None s) (\<lambda>(_, s).
    Inr (length rows, s)))"

section \<open>Generating the plan\<close>

record plan_run =
  run_made :: nat
  run_updated :: nat
  run_cancelled :: nat
  run_notified :: nat
  run_assigned :: "(pk \<times> string) list"

definition fresh_run :: plan_run where
  "fresh_run = \<lparr>run_made = 0, run_updated = 0, run_cancelled = 0, run_notified = 0, run_assigned = []\<rparr>"

definition covered_elevators :: "env \<Rightarrow> 'a estate_scheme \<Rightarrow> elevator list" where
  "covered_elevators e s =
    sort_key pk (filter (\<lambda>el. \<exists>l \<in> set (contract_lines s). ce_elevator l = pk el \<and> open_line l \<and>
        (\<exists>c \<in> set (contracts s). pk c = ce_contract l \<and> ct_status c = C_active \<and> \<not> is_deleted c))
      (objects (ctx e) (elevators s)))"

text \<open>A customer's only active technician, if there is exactly one.\<close>

definition technicians_assigned :: "env \<Rightarrow> pk \<Rightarrow> 'a board_scheme \<Rightarrow> pk list" where
  "technicians_assigned e cust s =
    remdups (map as_user (filter (\<lambda>a. as_customer a = cust \<and>
      (\<exists>u \<in> set (staff_users s). pk u = as_user a \<and> staff_role u = Technician \<and> staff_is_active u \<and> \<not> is_deleted u))
      (objects (ctx e) (assignments s))))"

definition default_technician :: "env \<Rightarrow> pk \<Rightarrow> 'a board_scheme \<Rightarrow> pk option" where
  "default_technician e cust s = (case technicians_assigned e cust s of [k] \<Rightarrow> Some k | _ \<Rightarrow> None)"

definition create_row ::
  "env \<Rightarrow> planned_visit \<Rightarrow> 'a workshop_scheme \<Rightarrow> (bool \<times> 'a workshop_scheme) result" where
  "create_row e r s =
    (case db_insert e plan_update (length (pv_period r) \<le> 7) (unique_with plan_clash r (plan s)) r s of
       Inl Integrity_error \<Rightarrow> Inr (False, s)
     | Inl err \<Rightarrow> Inl err
     | Inr (_, s) \<Rightarrow> Inr (True, s))"

text \<open>\<open>_follow_the_facts\<close>: the row in line with the facts, and which columns that changed.\<close>

record followed_facts =
  ff_status :: bool
  ff_due :: bool
  ff_technician :: bool

definition follow_the_facts :: "planned_visit \<Rightarrow> date \<Rightarrow> pk option \<Rightarrow> planned_visit \<times> followed_facts" where
  "follow_the_facts r due only =
    (let reopened = (pv_status r = Plan_cancelled);
         r1 = (if reopened then r\<lparr>pv_status := Planned\<rparr> else r);
         moved = (pv_status r1 = Planned \<and> pv_due_date r1 \<noteq> due);
         r2 = (if moved then r1\<lparr>pv_due_date := due\<rparr> else r1);
         given = (pv_status r2 = Planned \<and> pv_technician r2 = None \<and> only \<noteq> None);
         r3 = (if given then r2\<lparr>pv_technician := only\<rparr> else r2)
     in (r3, \<lparr>ff_status = reopened, ff_due = moved, ff_technician = given\<rparr>))"

definition save_followed ::
  "env \<Rightarrow> planned_visit \<Rightarrow> followed_facts \<Rightarrow> 'a workshop_scheme \<Rightarrow> (planned_visit \<times> 'a workshop_scheme) result" where
  "save_followed e r ff s =
    save_planned e (\<lambda>x. x\<lparr>pv_status := (if ff_status ff then pv_status r else pv_status x),
      pv_due_date := (if ff_due ff then pv_due_date r else pv_due_date x),
      pv_technician := (if ff_technician ff then pv_technician r else pv_technician x)\<rparr>) r s"

text \<open>One covered lift in one period; \<open>existing\<close> is the period's rows as they were read.\<close>

definition plan_lift ::
  "env \<Rightarrow> string \<Rightarrow> planned_visit list \<Rightarrow> elevator \<Rightarrow> plan_run \<times> 'a workshop_scheme
    \<Rightarrow> (plan_run \<times> 'a workshop_scheme) result" where
  "plan_lift e p existing el rs =
    (case rs of (run, s) \<Rightarrow>
    bind_res (due_date_in p (el_next_maintenance_date el)) (\<lambda>due.
    bind_res (get_row (el_building el) (buildings s)) (\<lambda>b.
    let only = default_technician e (bd_customer b) s in
    case List.find (\<lambda>r. pv_elevator r = pk el) (rev existing) of
      None \<Rightarrow>
        bind_res (create_row e (blank_planned\<lparr>company_id := company_id el, pv_elevator := pk el, pv_period := p,
            pv_due_date := due, pv_technician := only\<rparr>) s) (\<lambda>(made, s).
        Inr (if made then run\<lparr>run_made := run_made run + 1, run_assigned := run_assigned run @
               (case only of None \<Rightarrow> [] | Some k \<Rightarrow> [(k, p)])\<rparr> else run, s))
    | Some r \<Rightarrow>
        if pv_edited r then Inr (run, s)
        else let (r', ff) = follow_the_facts r due only in
          if \<not> ff_status ff \<and> \<not> ff_due ff \<and> \<not> ff_technician ff then Inr (run, s)
          else bind_res (save_followed e r' ff s) (\<lambda>(_, s).
            bind_res (if ff_status ff
                then bind_res (month_bounds p) (\<lambda>(first, _). sync_planned_visit e (pv_elevator r') first s)
                else Inr s) (\<lambda>s.
            Inr (run\<lparr>run_updated := run_updated run + 1, run_assigned := run_assigned run @
              (if ff_technician ff then case pv_technician r' of None \<Rightarrow> [] | Some k \<Rightarrow> [(k, p)] else [])\<rparr>, s))))))"

definition cancel_uncovered ::
  "env \<Rightarrow> pk list \<Rightarrow> planned_visit \<Rightarrow> plan_run \<times> 'a workshop_scheme \<Rightarrow> (plan_run \<times> 'a workshop_scheme) result" where
  "cancel_uncovered e covered_ids r rs =
    (case rs of (run, s) \<Rightarrow>
     if pv_elevator r \<notin> set covered_ids \<and> pv_status r = Planned \<and> \<not> pv_edited r
     then bind_res (save_planned e (\<lambda>x. x\<lparr>pv_status := Plan_cancelled\<rparr>) r s) (\<lambda>(_, s).
       Inr (run\<lparr>run_cancelled := run_cancelled run + 1\<rparr>, s))
     else Inr (run, s))"

text \<open>The period's rows as the dictionary by lift keeps them: the last row of a lift counts.\<close>

definition rows_of_period :: "env \<Rightarrow> string \<Rightarrow> 'a workshop_scheme \<Rightarrow> planned_visit list" where
  "rows_of_period e p s = plan_order (filter (\<lambda>r. pv_period r = p) (objects (ctx e) (plan s)))"

definition plan_period ::
  "env \<Rightarrow> elevator list \<Rightarrow> string \<Rightarrow> plan_run \<times> 'a workshop_scheme \<Rightarrow> (plan_run \<times> 'a workshop_scheme) result" where
  "plan_period e covered p rs =
    (let existing = rows_of_period e p (snd rs) in
     bind_res (fold_res (plan_lift e p existing) covered rs) (\<lambda>rs.
     fold_res (cancel_uncovered e (map pk covered)) existing rs))"

definition generate_plan :: "env \<Rightarrow> date \<Rightarrow> 'a workshop_scheme \<Rightarrow> (plan_run \<times> 'a workshop_scheme) result" where
  "generate_plan e t s =
    bind_res (next_period (period_of t)) (\<lambda>following.
    bind_res (fold_res (plan_period e (covered_elevators e s)) [period_of t, following] (fresh_run, s)) (\<lambda>(run, s).
    bind_res (announce_assignments e (run_assigned run) (''plan:'' @ isoformat t) None s) (\<lambda>(n, s).
    Inr (run\<lparr>run_notified := n\<rparr>, s))))"

text \<open>The task: across every firm.\<close>

definition plan_maintenance :: "env \<Rightarrow> 'a workshop_scheme \<Rightarrow> (plan_run \<times> 'a workshop_scheme) result" where
  "plan_maintenance e s = generate_plan (e\<lparr>ctx := system_context (ctx e)\<rparr>) (today e) s"

section \<open>Overdue (tasks.py)\<close>

definition overdue_lifts :: "env \<Rightarrow> date \<Rightarrow> 'a estate_scheme \<Rightarrow> elevator list" where
  "overdue_lifts e t s =
    sort_key (\<lambda>el. (the (el_next_maintenance_date el), pk el))
      (filter (\<lambda>el. (case el_next_maintenance_date el of None \<Rightarrow> False | Some d \<Rightarrow> d < t) \<and>
          (\<exists>l \<in> set (contract_lines s). ce_elevator l = pk el \<and> ce_removed_at l = None \<and>
            (\<exists>c \<in> set (contracts s). pk c = ce_contract l \<and> ct_status c = C_active)))
        (objects (ctx e) (elevators s)))"

definition announce_overdue ::
  "env \<Rightarrow> elevator \<Rightarrow> nat \<times> 'a inspectorate_scheme \<Rightarrow> (nat \<times> 'a inspectorate_scheme) result" where
  "announce_overdue e el ns =
    (case el_next_maintenance_date el of
       None \<Rightarrow> Inl (Crash Assertion_error)
     | Some d \<Rightarrow>
         bind_res (get_row (el_building el) (buildings (snd ns))) (\<lambda>b.
         bind_res (office_and_technicians el (snd ns)) (\<lambda>people.
         bind_res (notify e ''maintenance_overdue'' people ''elevator'' (pk el)
             [(''elevator_name'', Text (el_name el)), (''building_name'', Text (bd_name b)),
              (''next_maintenance_date'', Text (isoformat d))]
             (''overdue:'' @ digits (pk el) @ '':'' @ isoformat d) (snd ns)) (\<lambda>(created, s).
         Inr (fst ns + length created, s)))))"

definition maintenance_overdue_in_scope ::
  "env \<Rightarrow> date \<Rightarrow> 'a inspectorate_scheme \<Rightarrow> (nat \<times> 'a inspectorate_scheme) result" where
  "maintenance_overdue_in_scope e t s = fold_res (announce_overdue e) (overdue_lifts e t s) (0, s)"

definition maintenance_overdue :: "env \<Rightarrow> 'a inspectorate_scheme \<Rightarrow> (nat \<times> 'a inspectorate_scheme) result" where
  "maintenance_overdue e s = maintenance_overdue_in_scope (e\<lparr>ctx := system_context (ctx e)\<rparr>) (today e) s"

end
