(* ===== verification/Notification_Laws.thy ===== *)
theory Notification_Laws
  imports Notifications
begin

text \<open>
  What \<open>notify\<close> promises its callers: it touches nothing but the notifications, the queue of
  e-mails and the key counter, and a key raised once for a recipient is never raised for them
  again. A job that walks over rows and notifies about each is then safe to run twice; that is
  proved once, in the locale \<open>daily_notice\<close>.
\<close>

section \<open>What a notification leaves alone\<close>

text \<open>\<open>s'\<close> is \<open>s\<close> with more notifications and e-mails.\<close>

definition noted :: "'a desk_scheme \<Rightarrow> 'a desk_scheme \<Rightarrow> bool" where
  "noted s s' \<longleftrightarrow> (\<exists>k ns q. s' = s\<lparr>next_pk := k, notifications := notifications s @ ns, mail_queue := q\<rparr> \<and> next_pk s \<le> k)"

lemma noted_refl [simp]: "noted s s"
  unfolding noted_def by (rule exI [of _ "next_pk s"], rule exI [of _ "[]"], rule exI [of _ "mail_queue s"]) simp

lemma noted_trans: "noted s t \<Longrightarrow> noted t u \<Longrightarrow> noted s u"
  unfolding noted_def by (elim exE conjE, hypsubst) (rule exI, rule exI, rule exI, rule conjI [OF _ order_trans], auto)

lemma noted_notifications: "noted s s' \<Longrightarrow> set (notifications s) \<subseteq> set (notifications s')"
  by (auto simp: noted_def)

lemma create_once_noted: "create_once e n s = Inr (made, s') \<Longrightarrow> noted s s'"
proof -
  assume run: "create_once e n s = Inr (made, s')"
  have "s' = s \<or> s' = s\<lparr>next_pk := Suc (next_pk s), notifications := notifications s @ [stamped e (next_pk s) n]\<rparr>"
    using run by (auto simp: create_once_def db_insert_def Let_def split: sum.splits exn.splits if_splits)
  moreover have "noted s (s\<lparr>next_pk := Suc (next_pk s), notifications := notifications s @ [x]\<rparr>)" for x
    unfolding noted_def
    by (rule exI [of _ "Suc (next_pk s)"], rule exI [of _ "[x]"], rule exI [of _ "mail_queue s"]) simp
  ultimately show ?thesis using noted_refl by blast
qed

lemma notify_each_noted: "notify_each e n us s = Inr (created, s') \<Longrightarrow> noted s s'"
proof (induction us arbitrary: s created)
  case (Cons u us)
  show ?case
  proof (cases "\<not> staff_is_active u \<or> is_deleted u")
    case True
    with Cons show ?thesis by simp
  next
    case False
    with Cons.prems obtain made s1 rest where
      "create_once e (n\<lparr>company_id := company_id u, nt_recipient := pk u\<rparr>) s = Inr (made, s1)"
      "notify_each e n us s1 = Inr (rest, s')"
      by (auto simp: bind_res_Inr_iff)
    with Cons.IH create_once_noted noted_trans show ?thesis by blast
  qed
qed simp

lemma mail_queue_noted: "noted s s' \<Longrightarrow> noted s (s'\<lparr>mail_queue := q\<rparr>)"
  unfolding noted_def by (elim exE conjE, hypsubst) (rule exI, rule exI, rule exI, rule conjI, simp_all)

lemma notify_noted: "notify e kind us ty k data key s = Inr (created, s') \<Longrightarrow> noted s s'"
  by (auto simp: notify_def bind_res_Inr_iff Let_def dest!: notify_each_noted split: if_splits intro: mail_queue_noted)

section \<open>Once per recipient and key\<close>

text \<open>The recipient already holds the key.\<close>

definition holds_key :: "pk \<Rightarrow> string \<Rightarrow> 'a desk_scheme \<Rightarrow> bool" where
  "holds_key u key s \<longleftrightarrow> (\<exists>x \<in> set (notifications s). nt_recipient x = u \<and> nt_dedupe_key x = key \<and> \<not> is_deleted x)"

lemma holds_key_noted: "holds_key u key s \<Longrightarrow> noted s s' \<Longrightarrow> holds_key u key s'"
  using noted_notifications by (fastforce simp: holds_key_def)

lemma create_once_holds:
  assumes "create_once e n s = Inr (made, s')" "\<not> is_deleted n"
  shows "holds_key (nt_recipient n) (nt_dedupe_key n) s' \<and> may_save (ctx e) n \<and>
    length (nt_kind n) \<le> 40 \<and> length (nt_subject_type n) \<le> 40 \<and> length (nt_dedupe_key n) \<le> 255"
  using assms
  by (auto simp: create_once_def db_insert_def Let_def holds_key_def stamped_def split: sum.splits exn.splits if_splits)

lemma create_once_again:
  assumes "holds_key (nt_recipient n) (nt_dedupe_key n) s" "\<not> is_deleted n" "may_save (ctx e) n"
    "length (nt_kind n) \<le> 40" "length (nt_subject_type n) \<le> 40" "length (nt_dedupe_key n) \<le> 255"
  shows "create_once e n s = Inr (None, s)"
proof -
  have "\<not> unique_with notifications_clash n (notifications s)"
    using assms(1,2) by (fastforce simp: holds_key_def unique_with_def notifications_clash_def)
  then have "db_insert e notifications_update
      (length (nt_kind n) \<le> 40 \<and> length (nt_subject_type n) \<le> 40 \<and> length (nt_dedupe_key n) \<le> 255)
      (nt_kind n \<in> fst ` set all_kinds \<and> unique_with notifications_clash n (notifications s)) n s = Inl Integrity_error"
    using assms(3-6) by (simp add: db_insert_def)
  moreover have "\<exists>x \<in> set (notifications s). nt_recipient x = nt_recipient n \<and>
      nt_dedupe_key x = nt_dedupe_key n \<and> \<not> is_deleted x"
    using assms(1) by (auto simp: holds_key_def)
  ultimately show ?thesis by (simp add: create_once_def)
qed

lemma notify_each_again:
  assumes "notify_each e n us s = Inr (created, s')" "\<not> is_deleted n" "noted s' u"
    and "nt_kind n' = nt_kind n" "nt_subject_type n' = nt_subject_type n" "nt_dedupe_key n' = nt_dedupe_key n"
      "\<not> is_deleted n'"
  shows "notify_each e n' us u = Inr ([], u)"
  using assms(1)
proof (induction us arbitrary: s created)
  case (Cons v us)
  show ?case
  proof (cases "\<not> staff_is_active v \<or> is_deleted v")
    case True
    with Cons show ?thesis by simp
  next
    case False
    let ?n = "n\<lparr>company_id := company_id v, nt_recipient := pk v\<rparr>"
    let ?n' = "n'\<lparr>company_id := company_id v, nt_recipient := pk v\<rparr>"
    from False Cons.prems obtain made s1 rest where one: "create_once e ?n s = Inr (made, s1)"
      and more: "notify_each e n us s1 = Inr (rest, s')"
      by (auto simp: bind_res_Inr_iff)
    have "noted s1 u" by (rule noted_trans [OF notify_each_noted [OF more] assms(3)])
    with create_once_holds [OF one] assms(2) have "holds_key (pk v) (nt_dedupe_key n) u" "may_save (ctx e) ?n"
      "length (nt_kind n) \<le> 40" "length (nt_subject_type n) \<le> 40" "length (nt_dedupe_key n) \<le> 255"
      using holds_key_noted by auto
    moreover have "may_save (ctx e) ?n' = may_save (ctx e) ?n" by (auto simp: may_save_def split: option.splits)
    ultimately have "create_once e ?n' u = Inr (None, u)"
      using assms(4-7) by (intro create_once_again) simp_all
    with False Cons.IH [OF more] show ?thesis by simp
  qed
qed simp

lemma notify_again:
  assumes "notify e kind us ty k data key s = Inr (created, s')" "noted s' u"
  shows "notify e kind us ty k data key u = Inr ([], u)"
proof -
  from assms(1) obtain payload c s1 where kind: "kind \<in> fst ` set all_kinds"
    and payload: "normalize_data data = Inr payload"
    and each: "notify_each e (blank_notification\<lparr>nt_kind := kind, nt_subject_type := ty,
         nt_subject_id := k, nt_data := payload, nt_dedupe_key := key\<rparr>) us s = Inr (c, s1)"
    and s': "\<exists>q. s' = s1\<lparr>mail_queue := q\<rparr>"
    by (auto simp: notify_def bind_res_Inr_iff Let_def split: if_splits)
  have "noted s1 s'" using s' mail_queue_noted [OF noted_refl] by blast
  then have u: "noted s1 u" using assms(2) by (rule noted_trans)
  show ?thesis
    using kind payload notify_each_again [OF each _ u]
    by (simp add: notify_def blank_notification_def Let_def)
qed

text \<open>Everybody active a notification is for holds it afterwards, told now or before.\<close>

lemma notify_each_reaches:
  assumes "notify_each e n us s = Inr (created, s')" "\<not> is_deleted n"
    and "u \<in> set us" "staff_is_active u" "\<not> is_deleted u"
  shows "holds_key (pk u) (nt_dedupe_key n) s'"
  using assms(1,3)
proof (induction us arbitrary: s created)
  case (Cons v us)
  show ?case
  proof (cases "\<not> staff_is_active v \<or> is_deleted v")
    case True
    with Cons assms(4,5) show ?thesis by auto
  next
    case False
    with Cons.prems(1) obtain made s1 rest where
      one: "create_once e (n\<lparr>company_id := company_id v, nt_recipient := pk v\<rparr>) s = Inr (made, s1)"
      and more: "notify_each e n us s1 = Inr (rest, s')"
      by (auto simp: bind_res_Inr_iff)
    have "holds_key (pk v) (nt_dedupe_key n) s'"
      using create_once_holds [OF one] assms(2) holds_key_noted [OF _ notify_each_noted [OF more]] by simp
    with Cons.IH [OF more] Cons.prems(2) show ?thesis by auto
  qed
qed simp

lemma notify_reaches:
  assumes "notify e kind us ty k data key s = Inr (created, s')" "u \<in> set us" "staff_is_active u" "\<not> is_deleted u"
  shows "holds_key (pk u) key s'"
proof -
  from assms(1) obtain payload c s1 q where
    each: "notify_each e (blank_notification\<lparr>nt_kind := kind, nt_subject_type := ty,
         nt_subject_id := k, nt_data := payload, nt_dedupe_key := key\<rparr>) us s = Inr (c, s1)"
    and s': "s' = s1\<lparr>mail_queue := q\<rparr> \<or> s' = s1"
    by (auto simp: notify_def bind_res_Inr_iff Let_def split: if_splits)
  have "holds_key (pk u) key s1"
    using notify_each_reaches [OF each _ assms(2-4)] by (simp add: blank_notification_def)
  then show ?thesis using s' by (auto simp: holds_key_def)
qed

section \<open>Daily jobs\<close>

text \<open>
  A job notifies about each of the rows a query gave it. When each step only notes, and repeats
  itself without effect, the whole job run a second time raises nothing and changes nothing.
\<close>

locale daily_notice =
  fixes step :: "'x \<Rightarrow> nat \<times> 'a desk_scheme \<Rightarrow> (nat \<times> 'a desk_scheme) result"
  assumes step_noted: "step x (n, s) = Inr (n', s') \<Longrightarrow> noted s s'"
    and step_again: "step x (n, s) = Inr (n', s') \<Longrightarrow> noted s' u \<Longrightarrow> step x (m, u) = Inr (m, u)"
begin

lemma run_noted: "fold_res step xs (n, s) = Inr (n', s') \<Longrightarrow> noted s s'"
proof (induction xs arbitrary: n s)
  case (Cons x xs)
  then obtain n1 s1 where "step x (n, s) = Inr (n1, s1)" "fold_res step xs (n1, s1) = Inr (n', s')"
    by (auto simp: bind_res_Inr_iff)
  with step_noted Cons.IH show ?case by (blast intro: noted_trans)
qed simp

lemma run_again:
  "fold_res step xs (n, s) = Inr (n', s') \<Longrightarrow> noted s' u \<Longrightarrow> fold_res step xs (m, u) = Inr (m, u)"
proof (induction xs arbitrary: n s)
  case (Cons x xs)
  then obtain n1 s1 where one: "step x (n, s) = Inr (n1, s1)" and more: "fold_res step xs (n1, s1) = Inr (n', s')"
    by (auto simp: bind_res_Inr_iff)
  have "noted s1 u" by (rule noted_trans [OF run_noted [OF more] Cons.prems(2)])
  with step_again [OF one] Cons.IH [OF more Cons.prems(2)] show ?case by simp
qed simp

end

text \<open>
  Where each step also leaves every person of its row with the notice, the whole job leaves every person
  of every row with theirs. What is left then stays, whatever is noted after.
\<close>

locale reaching_notice = daily_notice step
  for step :: "'x \<Rightarrow> nat \<times> 'a desk_scheme \<Rightarrow> (nat \<times> 'a desk_scheme) result" +
  fixes reached :: "'x \<Rightarrow> 'a desk_scheme \<Rightarrow> bool"
  assumes step_reaches: "step x (n, s) = Inr (n', s') \<Longrightarrow> noted s' u \<Longrightarrow> reached x u"
begin

lemma run_reaches: "fold_res step xs (n, s) = Inr (n', s') \<Longrightarrow> x \<in> set xs \<Longrightarrow> reached x s'"
proof (induction xs arbitrary: n s)
  case (Cons y xs)
  then obtain n1 s1 where one: "step y (n, s) = Inr (n1, s1)" and more: "fold_res step xs (n1, s1) = Inr (n', s')"
    by (auto simp: bind_res_Inr_iff)
  from Cons.prems(2) Cons.IH [OF more] step_reaches [OF one run_noted [OF more]] show ?case by auto
qed simp

end

end
