(* ===== verification/Contract_Laws.thy ===== *)
theory Contract_Laws
  imports Contracts
begin

text \<open>
  What the transitions of a contract promise: terms that follow each other without a gap or
  a drift, contracts that let go of their elevators when they end, renewals that carry them.
\<close>

section \<open>Terms\<close>

lemma next_term_starts:
  assumes "next_term start stop = Inr (a, b)"
  shows "add_days stop 1 = Some a" "valid_date a" "ordinal a = ordinal stop + 1" "valid_date b"
proof -
  from assms show a: "add_days stop 1 = Some a"
    by (auto simp: next_term_def Let_def bind_res_Inr_iff the_res_Inr_iff split: if_splits)
  from add_days_Some [OF a] show "valid_date a" "ordinal a = ordinal stop + 1" by simp_all
  from assms show "valid_date b"
    by (auto simp: next_term_def Let_def bind_res_Inr_iff the_res_Inr_iff
        dest: add_days_Some(2) split: if_splits)
qed

lemma month_no_diff: "month_no b - month_no a = (year b - year a) * 12 + month b - month a"
  by (simp add: month_no_def algebra_simps)

text \<open>Two steps from one origin differ by a step, on a day every month has.\<close>

lemma add_months_diff:
  assumes v: "valid_date d" and d28: "day d \<le> 28"
    and x: "add_months d a = Some x" and y: "add_months d c = Some y"
  shows "add_months x (c - a) = Some y"
proof -
  note x' = add_months_Some [OF x] and y' = add_months_Some [OF y]
  have "12 \<le> month_no x + (c - a) \<and> month_no x + (c - a) < 120000"
    using month_no_bounds [OF y'(1)] x'(2) y'(2) by simp
  then obtain z where z: "add_months x (c - a) = Some z"
    using add_months_defined_iff [OF x'(1)] by metis
  have "add_months d (a + (c - a)) = Some z" by (rule add_months_add [OF v d28 x z])
  with y z show ?thesis by simp
qed

text \<open>A term of whole months is followed by a term of as many whole months.\<close>

lemma next_term_months:
  assumes v: "valid_date start" and n: "0 < n" and d28: "day start \<le> 28"
    and a: "add_months start n = Some a" and stop: "add_days a (-1) = Some stop"
    and b: "add_months start (2 * n) = Some b" and e: "add_days b (-1) = Some stop2"
  shows "next_term start stop = Inr (a, stop2)"
proof -
  note a' = add_months_Some [OF a]
  have "ordinal stop = ordinal a - 1" "valid_date stop" using add_days_Some [OF stop] by simp_all
  then have "add_days stop 1 = Some a"
    using ordinal_bounds [OF a'(1)] of_ordinal_ordinal [OF a'(1)] by (simp add: add_days_def)
  moreover have "(year a - year start) * 12 + month a - month start = n"
    using a'(2) month_no_diff [of a start] by simp
  moreover have dd: "day a = day start"
    using a'(3) d28 days_in_month_ge [of "year a" "month a"] by simp
  moreover have "add_months a n = Some b" using add_months_diff [OF v d28 a b] by simp
  ultimately show ?thesis
    using n a e by (simp add: next_term_def Let_def)
qed

text \<open>The term after \<open>k\<close> renewals, each following the one before.\<close>

fun term_after :: "nat \<Rightarrow> date \<Rightarrow> date \<Rightarrow> (date \<times> date) result" where
  "term_after 0 start stop = Inr (start, stop)"
| "term_after (Suc k) start stop =
    bind_res (term_after k start stop) (\<lambda>(a, b). next_term a b)"

text \<open>
  However many times a contract renews itself, its terms stay aligned with the day it
  started: the term after \<open>k\<close> renewals starts \<open>k * n\<close> months after the first.
\<close>

lemma renewals_do_not_drift:
  assumes v: "valid_date start" and n: "0 < n" and d28: "day start \<le> 28"
    and first: "add_months start n = Some a1" "add_days a1 (-1) = Some stop"
    and room: "month_no start + int (k + 1) * n < 120000"
  shows "\<exists>a b c. add_months start (int k * n) = Some a \<and> add_months start (int (k + 1) * n) = Some c \<and>
    add_days c (-1) = Some b \<and> term_after k start stop = Inr (a, b)"
  using room
proof (induction k)
  case 0
  then show ?case using v first by simp
next
  case (Suc k)
  have "month_no start + int (k + 1) * n < 120000"
    using Suc.prems n by (simp add: distrib_right)
  then obtain a b c where ih: "add_months start (int k * n) = Some a"
    "add_months start (int (k + 1) * n) = Some c" "add_days c (-1) = Some b"
    "term_after k start stop = Inr (a, b)"
    using Suc.IH by blast
  have "0 \<le> int (Suc k + 1) * n" using n by simp
  then have "12 \<le> month_no start + int (Suc k + 1) * n" using month_no_bounds [OF v] by linarith
  then obtain c2 where c2: "add_months start (int (Suc k + 1) * n) = Some c2"
    using add_months_defined_iff [OF v] Suc.prems by metis
  have "c < c2" using add_months_strict_mono [OF ih(2) c2] n by (simp add: distrib_right)
  then have o: "ordinal c < ordinal c2"
    using ordinal_less add_months_Some(1) [OF ih(2)] add_months_Some(1) [OF c2] by blast
  then obtain b2 where b2: "add_days c2 (-1) = Some b2"
    using add_days_defined [of c2 "-1"] ordinal_bounds add_months_Some(1) [OF ih(2)]
      add_months_Some(1) [OF c2] by fastforce
  note a' = add_months_Some [OF ih(1)]
  have da: "day a \<le> 28" using a'(3) d28 by simp
  have "add_months a n = Some c" using add_months_diff [OF v d28 ih(1,2)] by (simp add: distrib_right)
  moreover have "add_months a (2 * n) = Some c2"
    using add_months_diff [OF v d28 ih(1) c2] by (simp add: algebra_simps)
  ultimately have "next_term a b = Inr (c, b2)"
    using next_term_months [OF a'(1) n da _ ih(3) _ b2] by simp
  with ih c2 b2 show ?case by (intro exI [of _ c] exI [of _ b2] exI [of _ c2]) simp
qed

section \<open>Closing lines\<close>

lemma save_fields_Inr [res_simps]:
  "save_fields e upd ok f r s = Inr (r', s') \<longleftrightarrow> may_save (ctx e) r \<and> ok \<and>
    r' = (f r)\<lparr>updated_at := now e\<rparr> \<and>
    s' = upd (update_where (\<lambda>x. pk x = pk r) (\<lambda>x. (f x)\<lparr>updated_at := now e\<rparr>)) s"
  by (auto simp: save_fields_def)

lemma set_elevator_status_frame:
  assumes "set_elevator_status e st el s = Inr s'"
  shows "contract_lines s' = contract_lines s" "contracts s' = contracts s" "next_pk s' = next_pk s"
    "elevators s' = update_where (\<lambda>x. pk x = pk el) (\<lambda>x. x\<lparr>el_status := st, updated_at := now e\<rparr>) (elevators s)"
  using assms by (auto simp: set_elevator_status_def bind_res_Inr_iff save_fields_Inr)

lemma close_line_frame:
  assumes "close_line e dt l s = Inr s'"
  shows "contract_lines s' = update_where (\<lambda>x. pk x = pk l)
      (\<lambda>x. x\<lparr>ce_removed_at := Some dt, updated_at := now e\<rparr>) (contract_lines s)"
    and "contracts s' = contracts s" "next_pk s' = next_pk s" "elevators s' = elevators s"
  using assms by (auto simp: close_line_def bind_res_Inr_iff save_fields_Inr)

lemma release_line_frame:
  assumes "release_line e dt l s = Inr s'"
  shows "contract_lines s' = update_where (\<lambda>x. pk x = pk l)
      (\<lambda>x. x\<lparr>ce_removed_at := Some dt, updated_at := now e\<rparr>) (contract_lines s)"
    and "contracts s' = contracts s" "next_pk s' = next_pk s"
    and "\<forall>x \<in> set (elevators s'). pk x = ce_elevator l \<longrightarrow> el_status x = Uncontracted"
proof -
  from assms obtain s1 el where 1: "close_line e dt l s = Inr s1"
    and 2: "get_elevator e (ce_elevator l) s1 = Inr el" and 3: "set_elevator_status e Uncontracted el s1 = Inr s'"
    by (auto simp: release_line_def bind_res_Inr_iff)
  note f = close_line_frame [OF 1] set_elevator_status_frame [OF 3]
  then show "contract_lines s' = update_where (\<lambda>x. pk x = pk l)
      (\<lambda>x. x\<lparr>ce_removed_at := Some dt, updated_at := now e\<rparr>) (contract_lines s)"
    "contracts s' = contracts s" "next_pk s' = next_pk s" by simp_all
  have "pk el = ce_elevator l"
    using 2 by (auto simp: get_elevator_def get_row_Inr_iff dest: by_pk_SomeD)
  then show "\<forall>x \<in> set (elevators s'). pk x = ce_elevator l \<longrightarrow> el_status x = Uncontracted"
    by (auto simp: f(8) set_update_where)
qed

text \<open>The open lines of contract \<open>k\<close> are among those still to be processed.\<close>

definition open_only :: "pk \<Rightarrow> contract_line list \<Rightarrow> 'a estate_scheme \<Rightarrow> bool" where
  "open_only k todo s \<longleftrightarrow>
    (\<forall>l \<in> set (contract_lines s). open_line l \<and> ce_contract l = k \<longrightarrow> pk l \<in> pk ` set todo)"

lemma open_only_close:
  "contract_lines s' = update_where (\<lambda>x. pk x = pk l)
      (\<lambda>x. x\<lparr>ce_removed_at := Some dt, updated_at := now e\<rparr>) (contract_lines s) \<Longrightarrow>
    open_only k (l # rest) s \<Longrightarrow> open_only k rest s'"
  by (auto simp: open_only_def set_update_where open_line_def split: if_splits)

lemma set_open_lines_of:
  "set (open_lines_of e k s) =
    {l \<in> set (contract_lines s). visible (ctx e) l \<and> ce_contract l = k \<and> ce_removed_at l = None}"
  by (auto simp: open_lines_of_def set_objects)

text \<open>The tenant in context sees every open line of the contract (they are of its firm).\<close>

definition sees_lines :: "env \<Rightarrow> pk \<Rightarrow> 'a estate_scheme \<Rightarrow> bool" where
  "sees_lines e k s \<longleftrightarrow>
    (\<forall>l \<in> set (contract_lines s). open_line l \<and> ce_contract l = k \<longrightarrow> visible (ctx e) l)"

lemma open_only_start: "sees_lines e k s \<Longrightarrow> open_only k (open_lines_of e k s) s"
  by (auto simp: open_only_def sees_lines_def set_open_lines_of open_line_def)

definition holds_no_line :: "pk \<Rightarrow> 'a estate_scheme \<Rightarrow> bool" where
  "holds_no_line k s \<longleftrightarrow> (\<forall>l \<in> set (contract_lines s). open_line l \<longrightarrow> ce_contract l \<noteq> k)"

lemma open_only_Nil: "open_only k [] s \<longleftrightarrow> holds_no_line k s"
  by (auto simp: open_only_def holds_no_line_def)

lemma release_all:
  assumes "fold_res (release_line e dt) (open_lines_of e k s) s = Inr s'" "sees_lines e k s"
  shows "holds_no_line k s'"
  using fold_res_remaining [where P = "open_only k", OF assms(1) open_only_start [OF assms(2)]]
    open_only_close release_line_frame(1) unfolding open_only_Nil by blast

lemma terminate_releases:
  assumes "terminate e c dt reason s = Inr (c', s')" "sees_lines e (pk c) s"
  shows "holds_no_line (pk c) s'" and "ct_status c' = C_terminated" and "ct_terminated_at c' = Some dt"
    and "\<not> ct_auto_renew c'" and "strip reason \<noteq> []"
proof -
  from assms(1) obtain s1 where rel: "fold_res (release_line e dt) (open_lines_of e (pk c) s) s = Inr s1"
    and sv: "contract_lines s' = contract_lines s1"
    and c': "ct_status c' = C_terminated" "ct_terminated_at c' = Some dt" "\<not> ct_auto_renew c'"
    and r: "strip reason \<noteq> []"
    by (auto simp: terminate_def bind_res_Inr_iff save_fields_Inr Let_def split: if_splits)
  from release_all [OF rel assms(2)] sv show "holds_no_line (pk c) s'" by (simp add: holds_no_line_def)
  show "ct_status c' = C_terminated" "ct_terminated_at c' = Some dt" "\<not> ct_auto_renew c'" "strip reason \<noteq> []"
    by (fact c' r)+
qed

section \<open>Renewing\<close>

lemma insert_contract_line_Inr:
  assumes "insert_contract_line e l s = Inr (l', s')"
  shows "contract_lines s' = contract_lines s @ [l']" and "l' = stamped e (next_pk s) l"
    and "contracts s' = contracts s" and "next_pk s' = Suc (next_pk s)"
    and "unique_with open_lines_clash l (contract_lines s)"
  using assms by (auto simp: insert_contract_line_def db_insert_Inr_iff)

text \<open>What carrying the lines has done so far, with \<open>todo\<close> still to come.\<close>

definition carrying ::
  "contract \<Rightarrow> contract \<Rightarrow> date \<Rightarrow> bool \<Rightarrow> bool \<Rightarrow> contract_line list \<Rightarrow> contract_line list
    \<Rightarrow> 'a estate_scheme \<Rightarrow> bool" where
  "carrying c successor start carry copy_terms all todo s \<longleftrightarrow>
    open_only (pk c) todo s \<and> pk c < next_pk s \<and>
    (\<forall>l \<in> set todo. pk l < next_pk s) \<and>
    (\<forall>l \<in> set (contract_lines s). pk l < next_pk s) \<and>
    (carry \<longrightarrow> (\<forall>l \<in> set all - set todo. \<exists>x \<in> set (contract_lines s). open_line x \<and>
      ce_contract x = pk successor \<and> ce_elevator x = ce_elevator l \<and> ce_added_at x = start \<and>
      ce_unit_price x = (if copy_terms then ce_unit_price l else None) \<and> pk x \<notin> pk ` set todo))"

lemma carryingD:
  assumes "carrying c successor start carry copy_terms all todo s" "carry" "l \<in> set all - set todo"
  shows "\<exists>x \<in> set (contract_lines s). open_line x \<and>
      ce_contract x = pk successor \<and> ce_elevator x = ce_elevator l \<and> ce_added_at x = start \<and>
      ce_unit_price x = (if copy_terms then ce_unit_price l else None) \<and> pk x \<notin> pk ` set todo"
  using assms unfolding carrying_def by simp

lemma carrying_start:
  "sees_lines e (pk c) s \<Longrightarrow> pk c < next_pk s \<Longrightarrow> \<forall>l \<in> set (contract_lines s). pk l < next_pk s \<Longrightarrow>
    carrying c successor start carry copy_terms (open_lines_of e (pk c) s) (open_lines_of e (pk c) s) s"
  by (auto simp: carrying_def open_only_start set_open_lines_of)

lemma carry_line_cases:
  assumes "carry_line e c successor start carry copy_terms l s = Inr s'"
  obtains s1 x where "carry" "close_line e start l s = Inr s1"
      "contract_lines s' = contract_lines s1 @ [x]" "pk x = next_pk s1" "next_pk s' = Suc (next_pk s1)"
      "open_line x" "ce_contract x = pk successor" "ce_elevator x = ce_elevator l" "ce_added_at x = start"
      "ce_unit_price x = (if copy_terms then ce_unit_price l else None)" "contracts s' = contracts s1"
  | s1 where "\<not> carry" "close_line e start l s = Inr s1"
      "contract_lines s' = contract_lines s1" "next_pk s' = next_pk s1" "contracts s' = contracts s1"
proof -
  from assms obtain s1 el where 1: "close_line e start l s = Inr s1"
    and 2: "get_elevator e (ce_elevator l) s1 = Inr el"
    and 3: "(if carry
      then bind_res (insert_contract_line e (blank_contract_line\<lparr>company_id := company_id c,
        ce_contract := pk successor, ce_elevator := pk el,
        ce_unit_price := (if copy_terms then ce_unit_price l else None), ce_added_at := start\<rparr>) s1)
        (\<lambda>(_, s). Inr s)
      else set_elevator_status e Uncontracted el s1) = Inr s'"
    by (auto simp: carry_line_def bind_res_Inr_iff)
  have el: "pk el = ce_elevator l"
    using 2 by (auto simp: get_elevator_def get_row_Inr_iff dest: by_pk_SomeD)
  show thesis
  proof (cases carry)
    case False
    with 3 set_elevator_status_frame [of e Uncontracted el s1 s'] show thesis
      by (intro that(2) [OF False 1]) simp_all
  next
    case True
    with 3 obtain x where x: "insert_contract_line e (blank_contract_line\<lparr>company_id := company_id c,
        ce_contract := pk successor, ce_elevator := pk el,
        ce_unit_price := (if copy_terms then ce_unit_price l else None), ce_added_at := start\<rparr>) s1
      = Inr (x, s')"
      by (auto simp: bind_res_Inr_iff)
    note f = insert_contract_line_Inr [OF x]
    show thesis
      by (rule that(1) [OF True 1 f(1)]) (use f el in \<open>simp_all add: stamped_def open_line_def blank_contract_line_def\<close>)
  qed
qed

lemma carry_line_keeps:
  assumes run: "carry_line e c successor start carry copy_terms l s = Inr s'"
    and inv: "carrying c successor start carry copy_terms all (l # rest) s"
    and new: "pk successor \<noteq> pk c"
  shows "carrying c successor start carry copy_terms all rest s'"
  using run
proof (cases rule: carry_line_cases)
  case (1 s1 x)
  note f = close_line_frame [OF 1(2)]
  have "open_only (pk c) rest s1" using open_only_close [OF f(1)] inv by (simp add: carrying_def)
  then have "open_only (pk c) rest s'" using 1(3,7) new by (auto simp: open_only_def)
  moreover have "next_pk s' = Suc (next_pk s)" using 1(5) f(3) by simp
  moreover have "\<forall>l \<in> set (contract_lines s1). pk l < next_pk s"
    using inv by (auto simp: carrying_def f(1) set_update_where)
  then have "\<forall>l \<in> set (contract_lines s'). pk l < Suc (next_pk s)"
    using 1(3,4) f(3) by (auto simp: less_Suc_eq)
  moreover have "pk c < Suc (next_pk s) \<and> (\<forall>l \<in> set rest. pk l < Suc (next_pk s))"
    using inv by (auto simp: carrying_def less_Suc_eq)
  moreover have "\<exists>x \<in> set (contract_lines s'). open_line x \<and>
      ce_contract x = pk successor \<and> ce_elevator x = ce_elevator m \<and> ce_added_at x = start \<and>
      ce_unit_price x = (if copy_terms then ce_unit_price m else None) \<and> pk x \<notin> pk ` set rest"
    if m: "m \<in> set all - set rest" for m
  proof (cases "m = l")
    case True
    have "pk x \<notin> pk ` set rest" using inv f(3) 1(4) by (auto simp: carrying_def)
    with True 1 show ?thesis by (intro bexI [of _ x]) simp_all
  next
    case False
    with m have "m \<in> set all - set (l # rest)" by simp
    from carryingD [OF inv 1(1) this] obtain y where y: "y \<in> set (contract_lines s)" "open_line y"
      "ce_contract y = pk successor" "ce_elevator y = ce_elevator m" "ce_added_at y = start"
      "ce_unit_price y = (if copy_terms then ce_unit_price m else None)" "pk y \<notin> pk ` set (l # rest)"
      by blast
    then have "y \<in> set (contract_lines s1)"
      by (auto simp: f(1) set_update_where)
    with y 1 show ?thesis by (intro bexI [of _ y]) simp_all
  qed
  ultimately show ?thesis unfolding carrying_def by simp
next
  case (2 s1)
  note f = close_line_frame [OF 2(2)]
  have "open_only (pk c) rest s1" using open_only_close [OF f(1)] inv by (simp add: carrying_def)
  then have "open_only (pk c) rest s'" using 2(3) by (auto simp: open_only_def)
  moreover have "\<forall>l \<in> set (contract_lines s'). pk l < next_pk s"
    using inv 2(3) by (auto simp: carrying_def f(1) set_update_where)
  ultimately show ?thesis
    using inv 2(1,4) f(3) by (simp add: carrying_def)
qed

lemma carry_all:
  assumes run: "fold_res (carry_line e c successor start carry copy_terms) (open_lines_of e (pk c) s) s = Inr s'"
    and "sees_lines e (pk c) s" "pk c < next_pk s" "\<forall>l \<in> set (contract_lines s). pk l < next_pk s"
    and new: "pk successor \<noteq> pk c"
  shows "carrying c successor start carry copy_terms (open_lines_of e (pk c) s) [] s'"
  by (rule fold_res_remaining [where P = "carrying c successor start carry copy_terms (open_lines_of e (pk c) s)",
      OF run carrying_start [OF assms(2-4)]])
    (rule carry_line_keeps [OF _ _ new])

text \<open>The keys the tables hold were handed out by the counter.\<close>

definition estate_keys :: "'a estate_scheme \<Rightarrow> bool" where
  "estate_keys s \<longleftrightarrow> (\<forall>c \<in> set (contracts s). pk c < next_pk s) \<and>
    (\<forall>l \<in> set (contract_lines s). pk l < next_pk s)"

lemma insert_contract_Inr:
  assumes "insert_contract e c s = Inr (c', s')"
  shows "c' = stamped e (next_pk s) c" and "contracts s' = contracts s @ [c']"
    and "contract_lines s' = contract_lines s" and "next_pk s' = Suc (next_pk s)"
    and "contract_checks c" and "unique_with contracts_clash c (contracts s)"
  using assms by (auto simp: insert_contract_def db_insert_Inr_iff)

lemma renew_steps:
  assumes "renew e c start stop carry copy_terms s = Inr (successor, s')"
  obtains number s1 s2 where "ct_status c \<notin> {C_terminated, C_renewed}" "start < stop"
    "next_contract_number e (company_id c) s = Inr number"
    "insert_contract e (successor_of c number start stop copy_terms) s = Inr (successor, s1)"
    "fold_res (carry_line e c successor start carry copy_terms) (open_lines_of e (pk c) s1) s1 = Inr s2"
    "s' = contracts_update (update_where (\<lambda>x. pk x = pk c)
      (\<lambda>x. x\<lparr>ct_status := C_renewed, updated_at := now e\<rparr>)) s2"
  using assms
  by (auto simp: renew_def bind_res_Inr_iff save_fields_Inr not_le split: if_splits)

lemma renew_carries:
  assumes run: "renew e c start stop carry copy_terms s = Inr (successor, s')"
    and keys: "estate_keys s" and c: "c \<in> set (contracts s)" and sees: "sees_lines e (pk c) s"
  shows "holds_no_line (pk c) s'"
    and "carry \<Longrightarrow> l \<in> set (open_lines_of e (pk c) s) \<Longrightarrow>
      \<exists>x \<in> set (contract_lines s'). open_line x \<and> ce_contract x = pk successor \<and>
        ce_elevator x = ce_elevator l \<and> ce_added_at x = start \<and>
        ce_unit_price x = (if copy_terms then ce_unit_price l else None)"
    and "pk successor \<notin> pk ` set (contracts s)" and "ct_previous successor = Some (pk c)"
    and "ct_status successor = C_draft" and "ct_start_date successor = start" and "ct_end_date successor = stop"
    and "\<forall>x \<in> set (contracts s'). pk x = pk c \<longrightarrow> ct_status x = C_renewed"
    and "ct_vat_rate successor = (if copy_terms then ct_vat_rate c else None)"
    and "pk successor = next_pk s" and "ct_customer successor = ct_customer c"
proof -
  from run obtain number s1 s2 where
    ins: "insert_contract e (successor_of c number start stop copy_terms) s = Inr (successor, s1)"
    and fold: "fold_res (carry_line e c successor start carry copy_terms) (open_lines_of e (pk c) s1) s1 = Inr s2"
    and s': "s' = contracts_update (update_where (\<lambda>x. pk x = pk c)
      (\<lambda>x. x\<lparr>ct_status := C_renewed, updated_at := now e\<rparr>)) s2"
    by (rule renew_steps)
  note i = insert_contract_Inr [OF ins]
  have succ: "pk successor = next_pk s" "ct_previous successor = Some (pk c)" "ct_status successor = C_draft"
    "ct_start_date successor = start" "ct_end_date successor = stop" "ct_customer successor = ct_customer c"
    "ct_vat_rate successor = (if copy_terms then ct_vat_rate c else None)"
    by (simp_all add: i(1) stamped_def successor_of_def)
  have lt: "pk c < next_pk s" using keys c by (simp add: estate_keys_def)
  have o: "open_lines_of e (pk c) s1 = open_lines_of e (pk c) s" by (simp add: open_lines_of_def i(3))
  have "sees_lines e (pk c) s1" "\<forall>l \<in> set (contract_lines s1). pk l < next_pk s1" "pk c < next_pk s1"
    using sees keys lt by (auto simp: sees_lines_def estate_keys_def i(3,4) less_Suc_eq)
  from carry_all [OF fold this(1,3,2)] lt succ(1)
  have inv: "carrying c successor start carry copy_terms (open_lines_of e (pk c) s) [] s2"
    by (simp add: o)
  then show "holds_no_line (pk c) s'"
    by (simp add: carrying_def open_only_Nil holds_no_line_def s')
  show "\<exists>x \<in> set (contract_lines s'). open_line x \<and> ce_contract x = pk successor \<and>
        ce_elevator x = ce_elevator l \<and> ce_added_at x = start \<and>
        ce_unit_price x = (if copy_terms then ce_unit_price l else None)"
    if "carry" "l \<in> set (open_lines_of e (pk c) s)"
    using carryingD [OF inv that(1), of l] that(2) by (auto simp: s')
  show "pk successor \<notin> pk ` set (contracts s)"
    using keys by (auto simp: estate_keys_def succ(1))
  show "\<forall>x \<in> set (contracts s'). pk x = pk c \<longrightarrow> ct_status x = C_renewed"
    by (auto simp: s' set_update_where)
  show "ct_previous successor = Some (pk c)" "ct_status successor = C_draft"
    "ct_start_date successor = start" "ct_end_date successor = stop" "pk successor = next_pk s"
    "ct_vat_rate successor = (if copy_terms then ct_vat_rate c else None)"
    "ct_customer successor = ct_customer c"
    by (fact succ)+
qed

section \<open>Expiring\<close>

lemma expire_None_iff:
  "expire e c dt s = Inr (None, s') \<longleftrightarrow> s' = s \<and> (ct_status c \<noteq> C_active \<or> dt \<le> ct_end_date c)"
  by (auto simp: expire_def bind_res_Inr_iff Let_def split: if_splits)

lemma expire_cases:
  assumes "expire e c dt s = Inr (Some out, s')"
  obtains (expired) c' s1 released_on where "out = Expired c'" "\<not> ct_auto_renew c"
      "add_days (ct_end_date c) 1 = Some released_on"
      "fold_res (release_line e released_on) (open_lines_of e (pk c) s) s = Inr s1"
      "contract_lines s' = contract_lines s1" "ct_status c' = C_expired" "pk c' = pk c"
  | (renewed) start stop successor s1 where "ct_auto_renew c"
      "next_term (ct_start_date c) (ct_end_date c) = Inr (start, stop)"
      "renew e c start stop True True s = Inr (successor, s1)" "contract_lines s' = contract_lines s1"
      "out = Auto_renewal_blocked (c\<lparr>ct_status := C_renewed, updated_at := now e\<rparr>) successor \<and>
          ct_vat_rate successor = None \<or>
       out = Auto_renewed (c\<lparr>ct_status := C_renewed, updated_at := now e\<rparr>)
          (successor\<lparr>ct_status := C_active, updated_at := now e\<rparr>) \<and>
          ct_vat_rate successor \<noteq> None"
  using assms
  by (auto simp: expire_def bind_res_Inr_iff save_fields_Inr the_res_Inr_iff Let_def split: if_splits)

text \<open>
  Whatever way a contract's term ends, it lets go of its elevators, and a renewal that came
  without a rate is left a draft.
\<close>

lemma expire_lets_go:
  assumes run: "expire e c dt s = Inr (Some out, s')"
    and keys: "estate_keys s" and c: "c \<in> set (contracts s)" and sees: "sees_lines e (pk c) s"
  shows "holds_no_line (pk c) s'"
  using run
proof (cases rule: expire_cases)
  case (expired c' s1 released_on)
  from release_all [OF this(4) sees] this(5) show ?thesis by (simp add: holds_no_line_def)
next
  case (renewed start stop successor s1)
  from renew_carries(1) [OF this(3) keys c sees] this(4) show ?thesis by (simp add: holds_no_line_def)
qed

lemma expire_keeps_cover:
  assumes run: "expire e c dt s = Inr (Some out, s')" and auto: "ct_auto_renew c"
    and keys: "estate_keys s" and c: "c \<in> set (contracts s)" and sees: "sees_lines e (pk c) s"
    and l: "l \<in> set (open_lines_of e (pk c) s)"
  shows "\<exists>x \<in> set (contract_lines s'). open_line x \<and> ce_elevator x = ce_elevator l \<and>
    add_days (ct_end_date c) 1 = Some (ce_added_at x) \<and> ce_unit_price x = ce_unit_price l"
  using run
proof (cases rule: expire_cases)
  case (expired c' s1 released_on)
  then show ?thesis using auto by simp
next
  case (renewed start stop successor s1)
  from renew_carries(2) [OF this(3) keys c sees _ l] this(4) next_term_starts(1) [OF this(2)]
  show ?thesis by auto
qed

end
