(* ===== verification/Collection_Laws.thy ===== *)
theory Collection_Laws
  imports Collections
begin

text \<open>
  What the collections promise: an invoice is never paid more than its total, a collection
  never pays out more than it brought in, and every issued invoice reads paid or issued by
  what the collections still standing have paid of it.
\<close>

section \<open>The invariants\<close>

definition collected_total :: "pk \<Rightarrow> 'a books_scheme \<Rightarrow> rat" where
  "collected_total k s = sum_list (map app_amount (standing_applications k s))"

definition allocated :: "pk \<Rightarrow> 'a books_scheme \<Rightarrow> rat" where
  "allocated k s =
    sum_list (map app_amount (filter (\<lambda>a. app_collection a = k \<and> \<not> is_deleted a) (applications s)))"

definition apps_ok :: "'a books_scheme \<Rightarrow> bool" where
  "apps_ok s \<longleftrightarrow>
    distinct (map pk (invoices s)) \<and> distinct (map pk (collections s)) \<and>
    (\<forall>c \<in> set (collections s). pk c < next_pk s \<and> cents (doc_amount c)) \<and>
    (\<forall>a \<in> set (applications s). app_collection a < next_pk s \<and> 0 < app_amount a \<and> cents (app_amount a)) \<and>
    (\<forall>i \<in> set (invoices s). cents (inv_total i))"

definition no_overpayment :: "'a books_scheme \<Rightarrow> bool" where
  "no_overpayment s \<longleftrightarrow> (\<forall>i \<in> set (invoices s). collected_total (pk i) s \<le> inv_total i \<or> collected_total (pk i) s = 0)"

definition no_overallocation :: "'a books_scheme \<Rightarrow> bool" where
  "no_overallocation s \<longleftrightarrow> (\<forall>c \<in> set (collections s). allocated (pk c) s \<le> doc_amount c)"

text \<open>An issued invoice reads as its standing collections say.\<close>

definition in_sync :: "'a books_scheme \<Rightarrow> invoice \<Rightarrow> bool" where
  "in_sync s i \<longleftrightarrow> (payable i \<longrightarrow> (inv_status i, inv_paid_on i) = status_by_collections i s)"

definition synced :: "'a books_scheme \<Rightarrow> bool" where
  "synced s \<longleftrightarrow> (\<forall>i \<in> set (invoices s). in_sync s i)"

section \<open>What the figures depend on\<close>

lemma standing_cong:
  "applications s' = applications s \<Longrightarrow> collections s' = collections s \<Longrightarrow>
    standing_applications k s' = standing_applications k s \<and> collection_date_of j s' = collection_date_of j s"
  by (simp add: standing_applications_def collection_stands_def collection_date_of_def)

lemma figures_cong:
  assumes "standing_applications (pk i) s' = standing_applications (pk i) s"
    "\<And>a. a \<in> set (standing_applications (pk i) s) \<Longrightarrow>
      collection_date_of (app_collection a) s' = collection_date_of (app_collection a) s"
    "pk i' = pk i" "inv_total i' = inv_total i" "inv_date i' = inv_date i"
  shows "invoice_collected i' s' = invoice_collected i s"
    and "invoice_remaining i' s' = invoice_remaining i s"
    and "status_by_collections i' s' = status_by_collections i s"
proof -
  show c: "invoice_collected i' s' = invoice_collected i s"
    using assms by (simp add: invoice_collected_def)
  then show r: "invoice_remaining i' s' = invoice_remaining i s"
    using assms by (simp add: invoice_remaining_def)
  have "map (\<lambda>a. collection_date_of (app_collection a) s') (standing_applications (pk i) s) =
      map (\<lambda>a. collection_date_of (app_collection a) s) (standing_applications (pk i) s)"
    using assms(2) by simp
  then have "latest_collection (pk i) s' = latest_collection (pk i) s"
    unfolding latest_collection_def assms(1) by (simp only:)
  with r assms show "status_by_collections i' s' = status_by_collections i s"
    by (simp add: status_by_collections_def split: option.split)
qed

lemma collected_cents:
  assumes "apps_ok s"
  shows "invoice_collected i s = collected_total (pk i) s"
    and "i \<in> set (invoices s) \<Longrightarrow> invoice_remaining i s = inv_total i - collected_total (pk i) s"
proof -
  have "cents (collected_total (pk i) s)"
    using assms by (auto simp: collected_total_def standing_applications_def apps_ok_def intro!: cents_sum_list)
  then show c: "invoice_collected i s = collected_total (pk i) s"
    by (simp add: invoice_collected_def collected_total_def)
  show "invoice_remaining i s = inv_total i - collected_total (pk i) s" if "i \<in> set (invoices s)"
    using that assms \<open>cents (collected_total (pk i) s)\<close>
    by (auto simp: invoice_remaining_def c apps_ok_def intro!: round2_cents)
qed

section \<open>Bringing one invoice in step\<close>

lemma get_invoice_Inr:
  "get_invoice e k s = Inr i \<Longrightarrow> i \<in> set (invoices s) \<and> pk i = k \<and> visible (ctx e) i"
  unfolding get_invoice_def get_row_Inr_iff by (drule by_pk_SomeD) (auto simp: set_objects)

text \<open>Only the status, the day it was paid and the time stamp of one invoice change.\<close>

definition restatus :: "invoice \<Rightarrow> invoice \<Rightarrow> bool" where
  "restatus i i' \<longleftrightarrow> i' = i \<or>
    (\<exists>st p u. payable i \<and> st \<in> {Issued, Paid} \<and>
      i' = i\<lparr>inv_status := st, inv_paid_on := p, updated_at := u\<rparr>)"

lemma restatus_same:
  "restatus i i' \<Longrightarrow> pk i' = pk i \<and> inv_total i' = inv_total i \<and> inv_date i' = inv_date i \<and>
    payable i' = payable i \<and> inv_customer i' = inv_customer i \<and> company_id i' = company_id i \<and>
    inv_currency i' = inv_currency i \<and> is_deleted i' = is_deleted i \<and>
    inv_cancelled_at i' = inv_cancelled_at i \<and> inv_number i' = inv_number i"
  by (auto simp: restatus_def payable_def)

lemma restatus_trans:
  assumes "restatus a b" "restatus b c"
  shows "restatus a c"
proof (cases "b = a \<or> c = b")
  case True
  with assms show ?thesis by blast
next
  case False
  with assms(1) obtain st p u where b: "payable a"
    "b = a\<lparr>inv_status := st, inv_paid_on := p, updated_at := u\<rparr>"
    unfolding restatus_def by blast
  from False assms(2) obtain st' p' u' where c: "st' \<in> {Issued, Paid}"
    "c = b\<lparr>inv_status := st', inv_paid_on := p', updated_at := u'\<rparr>"
    unfolding restatus_def by blast
  then have "c = a\<lparr>inv_status := st', inv_paid_on := p', updated_at := u'\<rparr>" by (simp add: b(2))
  with b(1) c(1) show ?thesis unfolding restatus_def by blast
qed

lemma list_all2_refl: "(\<And>x. P x x) \<Longrightarrow> list_all2 P xs xs"
  by (induction xs) simp_all

lemma list_all2_trans': "list_all2 P xs ys \<Longrightarrow> list_all2 P ys zs \<Longrightarrow>
    (\<And>x y z. P x y \<Longrightarrow> P y z \<Longrightarrow> P x z) \<Longrightarrow> list_all2 P xs zs"
  by (rule list_all2_trans [of P P P])

definition only_invoices :: "'a books_scheme \<Rightarrow> 'a books_scheme \<Rightarrow> bool" where
  "only_invoices s s' \<longleftrightarrow> (\<exists>is. s' = s\<lparr>invoices := is\<rparr> \<and> list_all2 restatus (invoices s) is)"

lemma restatus_pks: "list_all2 restatus xs ys \<Longrightarrow> map pk ys = map pk xs"
  by (induction rule: list_all2_induct) (auto dest: restatus_same)

lemma only_invoices_frame:
  assumes "only_invoices s s'"
  shows "movements s' = movements s" and "applications s' = applications s"
    and "collections s' = collections s" and "next_pk s' = next_pk s" and "accounts s' = accounts s"
    and "companies s' = companies s" and "openings s' = openings s" and "counters s' = counters s"
    and "map pk (invoices s') = map pk (invoices s)" and "invoice_lines s' = invoice_lines s"
    and "list_all2 restatus (invoices s) (invoices s')"
proof -
  from assms obtain xs where x: "s' = s\<lparr>invoices := xs\<rparr>" "list_all2 restatus (invoices s) xs"
    unfolding only_invoices_def by blast
  then show "movements s' = movements s" "applications s' = applications s"
    "collections s' = collections s" "next_pk s' = next_pk s" "accounts s' = accounts s"
    "companies s' = companies s" "openings s' = openings s" "counters s' = counters s"
    "invoice_lines s' = invoice_lines s" "list_all2 restatus (invoices s) (invoices s')"
    by simp_all
  show "map pk (invoices s') = map pk (invoices s)"
    using restatus_pks [OF x(2)] by (simp add: x(1))
qed

lemma only_invoices_refl [simp]: "only_invoices s s"
  unfolding only_invoices_def
  by (rule exI [of _ "invoices s"]) (simp add: list_all2_refl restatus_def)

lemma only_invoices_trans:
  assumes "only_invoices s t" "only_invoices t u"
  shows "only_invoices s u"
proof -
  from assms obtain xs ys where "t = s\<lparr>invoices := xs\<rparr>" "list_all2 restatus (invoices s) xs"
    "u = t\<lparr>invoices := ys\<rparr>" "list_all2 restatus xs ys"
    unfolding only_invoices_def by auto
  then have "u = s\<lparr>invoices := ys\<rparr>" "list_all2 restatus (invoices s) ys"
    by (simp, blast intro: list_all2_trans' restatus_trans)
  then show ?thesis unfolding only_invoices_def by blast
qed

lemma restatus_update_where:
  assumes "distinct (map pk xs)" "i \<in> set xs" "restatus i r" "pk i = k"
  shows "list_all2 restatus xs (update_where (\<lambda>x. pk x = k) (\<lambda>_. r) xs)"
  using assms
proof (induction xs)
  case Nil
  then show ?case by simp
next
  case (Cons x xs)
  show ?case
  proof (cases "pk x = k")
    case True
    with Cons.prems have "x = i" using distinct_map_unique [OF Cons.prems(1)] by force
    moreover have "update_where (\<lambda>x. pk x = k) (\<lambda>_. r) xs = xs"
      using Cons.prems(1) True by (intro update_where_none) (auto simp: image_iff)
    ultimately show ?thesis using Cons.prems(3) True
      by (simp add: list_all2_refl restatus_def)
  next
    case False
    with Cons show ?thesis by (auto simp: restatus_def)
  qed
qed

lemma sync_one:
  assumes dist: "distinct (map pk (invoices s))" and "sync_invoice_status e k s = Inr (i, s')"
  shows "only_invoices s s'" and "\<forall>j \<in> set (invoices s'). pk j = k \<longrightarrow> in_sync s' j"
    and "\<forall>j \<in> set (invoices s'). pk j \<noteq> k \<longrightarrow> j \<in> set (invoices s)"
proof -
  from assms(2) obtain l where g: "get_invoice e k s = Inr l"
    by (auto simp: sync_invoice_status_def bind_res_Inr_iff)
  note l = get_invoice_Inr [OF g]
  have uniq: "j = l" if "j \<in> set (invoices s)" "pk j = k" for j
    using distinct_map_unique [OF dist that(1)] l that(2) by blast
  let ?t = "status_by_collections l s"
  have "only_invoices s s' \<and> (\<forall>j \<in> set (invoices s'). pk j = k \<longrightarrow> in_sync s' j) \<and>
      (\<forall>j \<in> set (invoices s'). pk j \<noteq> k \<longrightarrow> j \<in> set (invoices s))"
  proof (cases "payable l \<and> (inv_status l, inv_paid_on l) \<noteq> ?t")
    case False
    with assms(2) g have "s' = s"
      by (auto simp: sync_invoice_status_def Let_def split: if_splits)
    with False uniq show ?thesis by (auto simp: in_sync_def)
  next
    case True
    define r where "r = l\<lparr>inv_status := fst ?t, inv_paid_on := snd ?t, updated_at := now e\<rparr>"
    have rp: "pk r = k" using l by (simp add: r_def)
    from assms(2) g True have s': "s' = invoices_update (update_where (\<lambda>x. pk x = k) (\<lambda>_. r)) s"
      using l by (auto simp: sync_invoice_status_def Let_def update_invoice_def db_update_def r_def
          split: if_splits)
    then have i': "invoices s' = update_where (\<lambda>x. pk x = k) (\<lambda>_. r) (invoices s)" by simp
    have st: "fst ?t \<in> {Issued, Paid}" by (auto simp: status_by_collections_def)
    have res: "restatus l r" using True st by (auto simp: restatus_def r_def)
    have "s' = s\<lparr>invoices := update_where (\<lambda>x. pk x = k) (\<lambda>_. r) (invoices s)\<rparr>"
      unfolding s' by (cases s) simp
    then have "only_invoices s s'"
      using restatus_update_where [OF dist conjunct1 [OF l] res] l
      unfolding only_invoices_def by blast
    moreover have "in_sync s' j" if "j \<in> set (invoices s')" "pk j = k" for j
    proof -
      from that have "j = r" by (auto simp: i' set_update_where split: if_splits)
      moreover have "status_by_collections r s' = ?t"
        by (rule figures_cong(3)) (simp_all add: s' standing_applications_def collection_stands_def
            collection_date_of_def r_def)
      ultimately show ?thesis by (simp add: in_sync_def r_def)
    qed
    moreover have "j \<in> set (invoices s)" if "j \<in> set (invoices s')" "pk j \<noteq> k" for j
      using that rp by (auto simp: i' set_update_where split: if_splits)
    ultimately show ?thesis by blast
  qed
  then show "only_invoices s s'" "\<forall>j \<in> set (invoices s'). pk j = k \<longrightarrow> in_sync s' j"
    "\<forall>j \<in> set (invoices s'). pk j \<noteq> k \<longrightarrow> j \<in> set (invoices s)" by blast+
qed

lemma in_sync_cong:
  "applications s' = applications s \<Longrightarrow> collections s' = collections s \<Longrightarrow> in_sync s' i = in_sync s i"
  using figures_cong(3) [of i s' s i] standing_cong [of s' s] by (simp add: in_sync_def)

text \<open>Every invoice of the list is brought in step, no other is touched.\<close>

lemma sync_fold:
  assumes "distinct (map pk (invoices s))"
    "fold_res (\<lambda>k s. bind_res (sync_invoice_status e k s) (\<lambda>(_, s). Inr s)) ks s = Inr s'"
  shows "only_invoices s s' \<and> (\<forall>j \<in> set (invoices s'). pk j \<in> set ks \<longrightarrow> in_sync s' j) \<and>
    (\<forall>j \<in> set (invoices s'). pk j \<notin> set ks \<longrightarrow> j \<in> set (invoices s))"
  using assms
proof (induction ks arbitrary: s)
  case Nil
  then show ?case by simp
next
  case (Cons k ks)
  from Cons.prems(2) obtain i s1 where one: "sync_invoice_status e k s = Inr (i, s1)"
    and rest: "fold_res (\<lambda>k s. bind_res (sync_invoice_status e k s) (\<lambda>(_, s). Inr s)) ks s1 = Inr s'"
    by (auto simp: bind_res_Inr_iff)
  note o1 = sync_one [OF Cons.prems(1) one]
  have "distinct (map pk (invoices s1))" using only_invoices_frame(9) [OF o1(1)] Cons.prems(1) by simp
  note ih = Cons.IH [OF this rest]
  then have oi: "only_invoices s1 s'" by blast
  note f = only_invoices_frame [OF oi]
  have "in_sync s' j" if "j \<in> set (invoices s')" "pk j = k" for j
  proof (cases "k \<in> set ks")
    case True
    with ih that show ?thesis by blast
  next
    case False
    with ih that have "j \<in> set (invoices s1)" by blast
    with o1(2) that(2) have "in_sync s1 j" by blast
    then show ?thesis using in_sync_cong [of s' s1 j] f by simp
  qed
  with ih o1 only_invoices_trans [OF o1(1) oi] show ?case by auto
qed

lemma sync_all_Inr:
  assumes "distinct (map pk (invoices s))" "sync_all e ks s = Inr s'"
  shows "only_invoices s s'" and "\<forall>j \<in> set (invoices s'). pk j \<in> set ks \<longrightarrow> in_sync s' j"
    and "\<forall>j \<in> set (invoices s'). pk j \<notin> set ks \<longrightarrow> j \<in> set (invoices s)"
  using sync_fold [OF assms(1) assms(2) [unfolded sync_all_def]] by auto

section \<open>Applying\<close>

lemma add_to_sum: "sum_list (map snd (add_to k x xs)) = x + sum_list (map snd xs)"
  by (induction k x xs rule: add_to.induct) simp_all

lemma add_to_keys: "fst ` set (add_to k x xs) = insert k (fst ` set xs)"
  by (induction k x xs rule: add_to.induct) auto

lemma add_to_distinct: "distinct (map fst xs) \<Longrightarrow> distinct (map fst (add_to k x xs))"
proof (induction k x xs rule: add_to.induct)
  case (2 k x j y rest)
  then show ?case by (cases "j = k") (simp_all add: add_to_keys)
qed simp

lemma add_to_positive:
  "\<forall>e \<in> set xs. cents (snd e) \<and> 0 < snd e \<Longrightarrow> cents x \<Longrightarrow> 0 < x \<Longrightarrow>
    \<forall>e \<in> set (add_to k x xs). cents (snd e) \<and> 0 < snd e"
  by (induction k x xs rule: add_to.induct) (auto intro: add_pos_pos)

definition amounts_ok :: "(pk \<times> rat) list \<Rightarrow> bool" where
  "amounts_ok xs \<longleftrightarrow> distinct (map fst xs) \<and> (\<forall>e \<in> set xs. cents (snd e) \<and> 0 < snd e)"

lemma per_invoice_fold:
  "fold_res (\<lambda>(i, amount) acc.
      bind_res (same_firm co ''applies'' (Some (company_id i))) (\<lambda>_.
      bind_res (is_money amount) (\<lambda>ok.
      if \<not> ok then Inl (invalid ''applies'') else Inr (add_to (pk i) (rat_of amount) acc)))) applies acc0 = Inr acc1
    \<Longrightarrow> amounts_ok acc0 \<Longrightarrow>
    amounts_ok acc1 \<and> fst ` set acc1 = fst ` set acc0 \<union> (\<lambda>(i, _). pk i) ` set applies \<and>
    sum_list (map snd acc1) = sum_list (map snd acc0) + sum_list (map (\<lambda>(_, x). rat_of x) applies)"
proof (induction applies arbitrary: acc0)
  case Nil
  then show ?case by simp
next
  case (Cons ia applies)
  obtain i x where ia: "ia = (i, x)" by force
  from Cons.prems(1) ia have ok: "is_money x = Inr True"
    and rest: "fold_res (\<lambda>(i, amount) acc.
      bind_res (same_firm co ''applies'' (Some (company_id i))) (\<lambda>_.
      bind_res (is_money amount) (\<lambda>ok.
      if \<not> ok then Inl (invalid ''applies'') else Inr (add_to (pk i) (rat_of amount) acc)))) applies
        (add_to (pk i) (rat_of x) acc0) = Inr acc1"
    by (auto simp: bind_res_Inr_iff split: if_splits)
  have "amounts_ok (add_to (pk i) (rat_of x) acc0)"
    using Cons.prems(2) is_money_True [OF ok] add_to_distinct [of acc0 "pk i" "rat_of x"]
      add_to_positive [of acc0 "rat_of x" "pk i"] unfolding amounts_ok_def by blast
  note ih = Cons.IH [OF rest this, unfolded add_to_sum add_to_keys]
  show ?case
  proof (intro conjI)
    show "amounts_ok acc1" using ih by blast
    show "fst ` set acc1 = fst ` set acc0 \<union> (\<lambda>(i, _). pk i) ` set (ia # applies)"
      using ih by (simp add: ia)
    show "sum_list (map snd acc1) = sum_list (map snd acc0) + sum_list (map (\<lambda>(_, x). rat_of x) (ia # applies))"
      using ih by (simp add: ia)
  qed
qed

lemma per_invoice_Inr:
  assumes "per_invoice co applies = Inr amounts"
  shows "amounts_ok amounts" and "fst ` set amounts = (\<lambda>(i, _). pk i) ` set applies"
    and "sum_list (map snd amounts) = sum_list (map (\<lambda>(_, x). rat_of x) applies)"
  using per_invoice_fold [OF assms [unfolded per_invoice_def]] by (auto simp: amounts_ok_def)

definition add_applications :: "application list \<Rightarrow> 'a books_scheme \<Rightarrow> 'a books_scheme" where
  "add_applications xs s = s\<lparr>applications := applications s @ xs, next_pk := next_pk s + length xs\<rparr>"

lemma add_applications_simps [simp]:
  "applications (add_applications xs s) = applications s @ xs"
  "next_pk (add_applications xs s) = next_pk s + length xs"
  "movements (add_applications xs s) = movements s"
  "collections (add_applications xs s) = collections s"
  "invoices (add_applications xs s) = invoices s" "accounts (add_applications xs s) = accounts s"
  "companies (add_applications xs s) = companies s" "openings (add_applications xs s) = openings s"
  "counters (add_applications xs s) = counters s"
  "add_applications [] s = s"
  "add_applications ys (add_applications xs s) = add_applications (xs @ ys) s"
  by (simp_all add: add_applications_def)

text \<open>What one iteration writes, and the guards it passed.\<close>

lemma apply_one_Inr:
  assumes "apply_one e c acc by entry s = Inr s'"
  obtains a i where "s' = add_applications [a] s" "app_collection a = pk c" "app_invoice a = fst entry"
    "app_amount a = snd entry" "\<not> is_deleted a" "i \<in> set (invoices s)" "pk i = fst entry"
    "payable i" "snd entry \<le> invoice_remaining i s" "inv_currency i = acc_currency acc"
    "acc_customer acc = Some (inv_customer i)" "company_id i = company_id c"
    "\<forall>x \<in> set (applications s). \<not> (app_collection x = pk c \<and> app_invoice x = fst entry)"
proof -
  from assms obtain i where f: "List.find (\<lambda>i. pk i = fst entry \<and> company_id i = company_id c)
      (objects (ctx e) (invoices s)) = Some i"
    by (auto simp: apply_one_def split: option.splits)
  then have i: "i \<in> set (invoices s)" "pk i = fst entry" "company_id i = company_id c"
    by (auto dest!: find_Some_iff simp: set_objects)
  from assms f have g: "payable i" "Some (inv_customer i) = acc_customer acc"
    "inv_currency i = acc_currency acc" "\<not> invoice_remaining i s < snd entry"
    "\<not> (\<exists>a \<in> set (applications s). app_collection a = pk c \<and> app_invoice a = pk i)"
    by (auto simp: apply_one_def split: if_splits)
  with assms f obtain a where a: "insert_application e (blank_application\<lparr>company_id := company_id c,
             app_collection := pk c, app_invoice := pk i, app_amount := snd entry,
             created_by := by, updated_by := by\<rparr>) s = Inr (a, s')"
    by (auto simp: apply_one_def bind_res_Inr_iff split: if_splits)
  then have "s' = add_applications [a] s" "app_collection a = pk c" "app_invoice a = pk i"
    "app_amount a = snd entry" "\<not> is_deleted a"
    by (auto simp: insert_application_def db_insert_Inr_iff add_applications_def stamped_def
        blank_application_def)
  with i g show ?thesis by (intro that [of a i]) auto
qed

lemma standing_add:
  "standing_applications k (add_applications [a] s) = standing_applications k s @
    (if app_invoice a = k \<and> \<not> is_deleted a \<and> collection_stands s (app_collection a) then [a] else [])"
  by (simp add: standing_applications_def collection_stands_def)

lemma collected_add:
  "collected_total k (add_applications [a] s) = collected_total k s +
    (if app_invoice a = k \<and> \<not> is_deleted a \<and> collection_stands s (app_collection a)
     then app_amount a else 0)"
  by (simp add: collected_total_def standing_add)

lemma allocated_add:
  "allocated k (add_applications [a] s) = allocated k s +
    (if app_collection a = k \<and> \<not> is_deleted a then app_amount a else 0)"
  by (simp add: allocated_def)

lemma apply_one_keeps:
  assumes "apply_one e c acc by entry s = Inr s'" "apps_ok s" "no_overpayment s"
    "cents (snd entry)" "0 < snd entry" "pk c < next_pk s"
  shows "apps_ok s'" and "no_overpayment s'"
proof -
  from assms(1) obtain a i where a: "s' = add_applications [a] s" "app_collection a = pk c"
    "app_invoice a = fst entry" "app_amount a = snd entry" "\<not> is_deleted a"
    and i: "i \<in> set (invoices s)" "pk i = fst entry" "snd entry \<le> invoice_remaining i s"
    by (rule apply_one_Inr)
  show "apps_ok s'"
    using assms(2,4-6) a by (auto simp: apps_ok_def less_SucI)
  have "collected_total (pk j) s' \<le> inv_total j \<or> collected_total (pk j) s' = 0" if j: "j \<in> set (invoices s)" for j
  proof (cases "pk j = fst entry")
    case True
    have "j = i"
      using distinct_map_unique [of pk "invoices s" j i] assms(2) j i True by (simp add: apps_ok_def)
    moreover have "invoice_remaining i s = inv_total i - collected_total (pk i) s"
      using collected_cents(2) [OF assms(2) i(1)] .
    moreover have "collected_total (pk i) s' \<le> collected_total (pk i) s + snd entry"
      using assms(5) by (simp add: a collected_add)
    ultimately show ?thesis using i(3) by simp
  next
    case False
    with a have "collected_total (pk j) s' = collected_total (pk j) s" by (simp add: collected_add)
    with assms(3) j show ?thesis by (simp add: no_overpayment_def)
  qed
  then show "no_overpayment s'" by (simp add: no_overpayment_def a)
qed

lemma apply_fold:
  assumes "fold_res (apply_one e c acc by) entries s = Inr s'" "apps_ok s" "no_overpayment s"
    "\<forall>en \<in> set entries. cents (snd en) \<and> 0 < snd en" "pk c < next_pk s"
  shows "apps_ok s' \<and> no_overpayment s' \<and>
    (\<exists>as. s' = add_applications as s \<and> (\<forall>a \<in> set as. app_collection a = pk c \<and> \<not> is_deleted a) \<and>
      map app_invoice as = map fst entries \<and> map app_amount as = map snd entries)"
  using assms
proof (induction entries arbitrary: s)
  case Nil
  then show ?case by (auto intro: exI [of _ "[]"])
next
  case (Cons en entries)
  from Cons.prems(1) obtain s1 where one: "apply_one e c acc by en s = Inr s1"
    and rest: "fold_res (apply_one e c acc by) entries s1 = Inr s'"
    by (auto simp: bind_res_Inr_iff)
  from one obtain a where a: "s1 = add_applications [a] s" "app_collection a = pk c"
    "app_invoice a = fst en" "app_amount a = snd en" "\<not> is_deleted a"
    by (rule apply_one_Inr)
  have "cents (snd en)" "0 < snd en" using Cons.prems(4) by simp_all
  note k = apply_one_keeps [OF one Cons.prems(2,3) this Cons.prems(5)]
  from Cons.IH [OF rest k] Cons.prems(4,5) a obtain as where
    "apps_ok s'" "no_overpayment s'" "s' = add_applications as s1"
    "\<forall>a \<in> set as. app_collection a = pk c \<and> \<not> is_deleted a"
    "map app_invoice as = map fst entries" "map app_amount as = map snd entries"
    by auto
  with a show ?case by (intro conjI exI [of _ "a # as"]) auto
qed

lemma apply_to_invoices_Inr:
  assumes "apply_to_invoices e c acc applies by limit s = Inr s'" "apps_ok s" "no_overpayment s"
    "pk c < next_pk s"
  obtains as where "apps_ok s'" "no_overpayment s'" "s' = add_applications as s"
    "\<forall>a \<in> set as. app_collection a = pk c \<and> \<not> is_deleted a"
    "app_invoice ` set as = (\<lambda>(i, _). pk i) ` set applies"
    "sum_list (map app_amount as) \<le> limit"
    "sum_list (map app_amount as) = sum_list (map (\<lambda>(_, x). rat_of x) applies)"
proof -
  from assms(1) obtain amounts acc1 where am: "per_invoice (company_id c) applies = Inr amounts"
    and lim: "sum_list (map snd amounts) \<le> limit"
    and f: "fold_res (apply_one e c acc1 by) (sort_key fst amounts) s = Inr s'"
    by (auto simp: apply_to_invoices_def bind_res_Inr_iff not_less split: if_splits)
  note p = per_invoice_Inr [OF am]
  have "\<forall>en \<in> set (sort_key fst amounts). cents (snd en) \<and> 0 < snd en"
    using p(1) by (auto simp: amounts_ok_def)
  from apply_fold [OF f assms(2,3) this assms(4)] obtain as where
    as: "apps_ok s'" "no_overpayment s'" "s' = add_applications as s"
    "\<forall>a \<in> set as. app_collection a = pk c \<and> \<not> is_deleted a"
    "map app_invoice as = map fst (sort_key fst amounts)"
    "map app_amount as = map snd (sort_key fst amounts)"
    by blast
  have "app_invoice ` set as = set (map fst (sort_key fst amounts))" by (simp only: as(5) [symmetric] set_map)
  then have i: "app_invoice ` set as = (\<lambda>(i, _). pk i) ` set applies" using p(2) by simp
  have "sum_list (map snd (sort_key fst amounts)) = sum_list (map snd amounts)"
    by (rule sum_list_map_sort)
  then have "sum_list (map app_amount as) = sum_list (map snd amounts)" using as(6) by simp
  with that as i lim p(3) show ?thesis by simp
qed

section \<open>Recording keeps the invariants\<close>

definition collections_ok :: "'a books_scheme \<Rightarrow> bool" where
  "collections_ok s \<longleftrightarrow> apps_ok s \<and> no_overpayment s \<and> no_overallocation s \<and> synced s"

lemma collections_okI: "apps_ok s \<Longrightarrow> no_overpayment s \<Longrightarrow> no_overallocation s \<Longrightarrow> synced s \<Longrightarrow> collections_ok s"
  by (simp add: collections_ok_def)

text \<open>The invariants read four tables only.\<close>

lemma invariants_cong:
  assumes "applications s' = applications s" "collections s' = collections s" "invoices s' = invoices s"
    "next_pk s \<le> next_pk s'"
  shows "apps_ok s \<Longrightarrow> apps_ok s'" and "no_overpayment s \<Longrightarrow> no_overpayment s'"
    and "no_overallocation s \<Longrightarrow> no_overallocation s'" and "synced s \<Longrightarrow> synced s'"
proof -
  show "apps_ok s \<Longrightarrow> apps_ok s'"
    using assms by (auto simp: apps_ok_def intro: order.strict_trans2)
  show "no_overpayment s \<Longrightarrow> no_overpayment s'"
    using assms standing_cong [OF assms(1,2)] by (simp add: no_overpayment_def collected_total_def)
  show "no_overallocation s \<Longrightarrow> no_overallocation s'"
    using assms by (simp add: no_overallocation_def allocated_def)
  show "synced s \<Longrightarrow> synced s'"
    using assms in_sync_cong [OF assms(1,2)] by (simp add: synced_def)
qed

text \<open>Bringing invoices in step changes no figure of the first three.\<close>

lemma only_invoices_ok:
  assumes "only_invoices s s'"
  shows "apps_ok s \<Longrightarrow> apps_ok s'" and "no_overpayment s \<Longrightarrow> no_overpayment s'"
    and "no_overallocation s \<Longrightarrow> no_overallocation s'"
proof -
  note f = only_invoices_frame [OF assms]
  have inv: "\<exists>i \<in> set (invoices s). restatus i j" if "j \<in> set (invoices s')" for j
    using list_all2_setD [OF f(11) that] .
  show "apps_ok s \<Longrightarrow> apps_ok s'"
    using f inv restatus_same by (auto simp: apps_ok_def) (metis)
  show "no_overpayment s \<Longrightarrow> no_overpayment s'"
  proof -
    assume o: "no_overpayment s"
    have "collected_total (pk j) s' \<le> inv_total j \<or> collected_total (pk j) s' = 0"
      if j: "j \<in> set (invoices s')" for j
    proof -
      from inv [OF j] obtain i where i: "i \<in> set (invoices s)" "restatus i j" ..
      have "collected_total (pk j) s' = collected_total (pk i) s"
        using standing_cong [OF f(2,3)] restatus_same [OF i(2)] by (simp add: collected_total_def)
      with o i restatus_same [OF i(2)] show ?thesis by (simp add: no_overpayment_def)
    qed
    then show ?thesis by (simp add: no_overpayment_def)
  qed
  show "no_overallocation s \<Longrightarrow> no_overallocation s'"
    using f by (simp add: no_overallocation_def allocated_def)
qed

text \<open>
  The last step of every operation: after \<open>sync_all\<close> over the invoices it touched, all
  are in step, provided the others were.
\<close>

lemma sync_all_synced:
  assumes "apps_ok s" "sync_all e ks s = Inr s'"
    "\<And>j. j \<in> set (invoices s) \<Longrightarrow> pk j \<notin> set ks \<Longrightarrow> in_sync s j"
  shows "synced s'"
proof -
  have "distinct (map pk (invoices s))" using assms(1) by (simp add: apps_ok_def)
  note sy = sync_all_Inr [OF this assms(2)]
  note f = only_invoices_frame [OF sy(1)]
  have "in_sync s' j" if j: "j \<in> set (invoices s')" for j
  proof (cases "pk j \<in> set ks")
    case True
    with sy(2) j show ?thesis by blast
  next
    case False
    with sy(3) j have "j \<in> set (invoices s)" by blast
    with assms(3) False have "in_sync s j" by blast
    with f show ?thesis using in_sync_cong [of s' s j] by simp
  qed
  then show ?thesis by (simp add: synced_def)
qed

text \<open>Other applications do not bear on an invoice they do not name.\<close>

lemma in_sync_add_applications:
  assumes "\<forall>a \<in> set as. app_invoice a \<noteq> pk j"
  shows "in_sync (add_applications as s) j = in_sync s j"
proof -
  have "standing_applications (pk j) (add_applications as s) = standing_applications (pk j) s"
    using assms by (simp add: standing_applications_def collection_stands_def filter_empty_conv)
  then have "status_by_collections j (add_applications as s) = status_by_collections j s"
    by (rule figures_cong(3)) (simp_all add: collection_date_of_def)
  then show ?thesis by (simp add: in_sync_def)
qed

lemma insert_collection_Inr:
  assumes "insert_collection e c0 s = Inr (c, s')"
  shows "s' = s\<lparr>collections := collections s @ [c], next_pk := Suc (next_pk s)\<rparr>"
    and "pk c = next_pk s" and "c = stamped e (next_pk s) c0" and "0 < doc_amount c0"
    and "unique_with collections_clash c0 (collections s)"
  using assms by (auto simp: insert_collection_def db_insert_Inr_iff)

text \<open>A new collection pays nothing yet.\<close>

lemma new_collection_ok:
  assumes ok: "collections_ok s" and c: "pk c = next_pk s" "cents (doc_amount c)" "0 \<le> doc_amount c"
    and s': "s' = s\<lparr>collections := collections s @ [c], next_pk := Suc (next_pk s)\<rparr>"
  shows "collections_ok s'"
proof -
  have fresh: "app_collection a \<noteq> pk c" if "a \<in> set (applications s)" for a
    using ok c(1) that by (fastforce simp: collections_ok_def apps_ok_def)
  have st: "standing_applications k s' = standing_applications k s" for k
    unfolding standing_applications_def
    by (auto simp: s' collection_stands_def dest: fresh intro!: filter_cong)
  have dt: "collection_date_of (app_collection a) s' = collection_date_of (app_collection a) s"
    if "a \<in> set (applications s)" for a
    using fresh [OF that] by (simp add: collection_date_of_def s')
  have "apps_ok s'"
    using ok c by (fastforce simp: collections_ok_def apps_ok_def s' less_Suc_eq)
  moreover have "no_overpayment s'"
    using ok st by (simp add: collections_ok_def no_overpayment_def collected_total_def s')
  moreover have "allocated (pk c) s = 0"
    using fresh by (auto simp: allocated_def filter_empty_conv intro!: arg_cong [of _ "[]" sum_list])
  then have "no_overallocation s'"
    using ok c(3) by (simp add: collections_ok_def no_overallocation_def allocated_def s')
  moreover have "status_by_collections i s' = status_by_collections i s" for i
    by (rule figures_cong(3) [OF st]) (auto intro: dt simp: standing_applications_def)
  then have "synced s'"
    using ok by (simp add: collections_ok_def synced_def in_sync_def s')
  ultimately show ?thesis by (rule collections_okI)
qed

lemma allocated_add_applications:
  "\<forall>a \<in> set as. app_collection a = k \<and> \<not> is_deleted a \<Longrightarrow>
    allocated j (add_applications as s) = allocated j s + (if j = k then sum_list (map app_amount as) else 0)"
  by (cases "j = k") (simp_all add: allocated_def filter_id_conv filter_empty_conv)

text \<open>
  Applying \<open>as\<close> from a collection with room for them, then posting (movements only), then
  bringing the invoices in step.
\<close>

lemma apply_and_sync_ok:
  assumes ok: "collections_ok s" and c: "c \<in> set (collections s)" "pk c < next_pk s"
    and ap: "apply_to_invoices e c acc applies by limit s = Inr s1"
    and room: "limit \<le> doc_amount c - allocated (pk c) s"
    and same: "applications s2 = applications s1" "collections s2 = collections s1"
      "invoices s2 = invoices s1" "next_pk s1 \<le> next_pk s2"
    and sync: "sync_all e (map (\<lambda>(i, _). pk i) applies) s2 = Inr s'"
  shows "collections_ok s'"
proof -
  from ok have ok4: "apps_ok s" "no_overpayment s" "no_overallocation s" "synced s"
    by (simp_all add: collections_ok_def)
  from ap ok4(1,2) c(2) obtain as where a: "apps_ok s1" "no_overpayment s1" "s1 = add_applications as s"
    "\<forall>a \<in> set as. app_collection a = pk c \<and> \<not> is_deleted a"
    "app_invoice ` set as = (\<lambda>(i, _). pk i) ` set applies" "sum_list (map app_amount as) \<le> limit"
    by (rule apply_to_invoices_Inr)
  have "no_overallocation s1"
    unfolding no_overallocation_def
  proof
    fix d assume d: "d \<in> set (collections s1)"
    then have d': "d \<in> set (collections s)" by (simp add: a(3))
    show "allocated (pk d) s1 \<le> doc_amount d"
    proof (cases "pk d = pk c")
      case True
      then have "d = c"
        using distinct_map_unique [of pk "collections s" d c] ok4(1) c(1) d' by (simp add: apps_ok_def)
      then show ?thesis using a(6) room by (simp add: a(3) allocated_add_applications [OF a(4)])
    next
      case False
      then show ?thesis using ok4(3) d'
        by (simp add: a(3) allocated_add_applications [OF a(4)] no_overallocation_def)
    qed
  qed
  note pre = invariants_cong [OF same]
  have "in_sync s2 j" if j: "j \<in> set (invoices s2)" "pk j \<notin> set (map (\<lambda>(i, _). pk i) applies)" for j
  proof -
    have "\<forall>x \<in> set as. app_invoice x \<noteq> pk j" using j(2) a(5) by force
    then have "in_sync s1 j = in_sync s j" unfolding a(3) by (rule in_sync_add_applications)
    moreover have "j \<in> set (invoices s)" using j(1) same(3) a(3) by simp
    ultimately show ?thesis using ok4(4) in_sync_cong [OF same(1,2)] by (simp add: synced_def)
  qed
  then have "synced s'" using sync_all_synced [OF pre(1) [OF a(1)] sync] by blast
  moreover have "only_invoices s2 s'"
    using sync_all_Inr(1) [OF _ sync] pre(1) [OF a(1)] by (simp add: apps_ok_def)
  note o = only_invoices_ok [OF this]
  ultimately show ?thesis
    using o pre a(1,2) \<open>no_overallocation s1\<close> by (intro collections_okI) blast+
qed

lemma record_collection_steps:
  assumes "record_collection e acc cash amount method_name dt note1 applies by s = Inr (c, s')"
  obtains num s1 c0 s2 s3 m s4 where
    "next_number e (company_id acc) COLLECTION_PREFIX s = Inr (num, s1)"
    "insert_collection e c0 s1 = Inr (c, s2)" "doc_amount c0 = rat_of amount" "col_number c0 = num"
    "doc_date c0 = dt" "company_id c0 = company_id acc" "doc_cancelled_at c0 = None"
    "apply_to_invoices e c (Inr acc) applies by (doc_amount c) s2 = Inr s3"
    "post e (Some acc) (Some cash) (Some (direction_value Credit)) (Some (cash_direction_value In))
      amount (acc_currency acc) dt (source_value Collection_src) (Some (collection_type, pk c))
      (''Tahsilat '' @ col_number c) by s3 = Inr (m, s4)"
    "sync_all e (map (\<lambda>(i, _). pk i) applies) s4 = Inr s'" "is_money amount = Inr True"
    "company_id cash = company_id acc"
proof -
  show ?thesis
    using assms unfolding record_collection_def
    apply (elim run_elims)
    apply hypsubst
    apply (rule that)
    apply assumption+
    apply (simp_all add: check_amount_Inr_iff same_firm_Inr_iff blank_collection_def)
    done
qed

lemma record_collection_keeps_ok:
  assumes ok: "collections_ok s"
    and rec: "record_collection e acc cash amount method_name dt note1 applies by s = Inr (c, s')"
  shows "collections_ok s'"
  using rec
proof (rule record_collection_steps)
  fix num s1 c0 s2 s3 m s4
  assume n: "next_number e (company_id acc) COLLECTION_PREFIX s = Inr (num, s1)"
    and i: "insert_collection e c0 s1 = Inr (c, s2)" "doc_amount c0 = rat_of amount"
    and ap: "apply_to_invoices e c (Inr acc) applies by (doc_amount c) s2 = Inr s3"
    and po: "post e (Some acc) (Some cash) (Some (direction_value Credit)) (Some (cash_direction_value In))
      amount (acc_currency acc) dt (source_value Collection_src) (Some (collection_type, pk c))
      (''Tahsilat '' @ col_number c) by s3 = Inr (m, s4)"
    and sy: "sync_all e (map (\<lambda>(i, _). pk i) applies) s4 = Inr s'"
    and mo: "is_money amount = Inr True"
  note nf = next_number_frame [OF n]
  note ic = insert_collection_Inr [OF i(1)]
  have amt: "doc_amount c = rat_of amount" by (simp add: ic(3) stamped_def i(2))
  have ok1: "collections_ok s1"
    using invariants_cong [OF nf(4,5,3,6)] ok by (simp add: collections_ok_def)
  have ok2: "collections_ok s2"
    by (rule new_collection_ok [OF ok1 ic(2) _ _ ic(1)]) (use is_money_True [OF mo] amt in simp_all)
  have "allocated (pk c) s2 = 0"
  proof -
    have "app_collection a \<noteq> pk c" if "a \<in> set (applications s1)" for a
      using ok1 ic(2) that by (fastforce simp: collections_ok_def apps_ok_def)
    then show ?thesis by (auto simp: allocated_def ic(1) filter_empty_conv intro!: arg_cong [of _ "[]" sum_list])
  qed
  moreover have "s4 = add_movements [m] s3" using post_Inr(2) [OF po] .
  ultimately show "collections_ok s'"
    by (intro apply_and_sync_ok [OF ok2 _ _ ap _ _ _ _ _ sy]) (simp_all add: ic(1,2))
qed

lemma unallocated_eq:
  assumes "apps_ok s" "c \<in> set (collections s)"
  shows "unallocated c s = doc_amount c - allocated (pk c) s"
proof -
  have "cents (doc_amount c - allocated (pk c) s)"
    using assms by (auto simp: apps_ok_def allocated_def intro!: cents_diff cents_sum_list)
  then show ?thesis by (simp add: unallocated_def allocated_def)
qed

lemma apply_collection_keeps_ok:
  assumes ok: "collections_ok s" and ap: "apply_collection e k applies by s = Inr (c, s')"
  shows "collections_ok s'"
proof -
  from ap obtain s1 where l: "lock_document collection_table k s = Inr c"
    and a: "apply_to_invoices e c (get_row (col_account c) (objects (ctx e) (accounts s)))
       applies by (unallocated c s) s = Inr s1"
    and sy: "sync_all e (map (\<lambda>(i, _). pk i) applies) s1 = Inr s'"
    by (auto simp: apply_collection_def bind_res_Inr_iff split: if_splits)
  from l have c: "c \<in> set (collections s)"
    by (auto simp: lock_document_def bind_res_Inr_iff get_row_Inr_iff collection_table_def
        dest: by_pk_SomeD split: if_splits)
  with ok show ?thesis
    by (intro apply_and_sync_ok [OF ok c _ a _ _ _ _ _ sy])
      (auto simp: collections_ok_def apps_ok_def unallocated_eq)
qed

section \<open>Cancelling keeps the invariants\<close>

text \<open>The invariants see a cancelled collection as one whose applications no longer stand.\<close>

lemma cancelled_collection_ok:
  assumes ok: "apps_ok s" "no_overpayment s" "no_overallocation s"
    and c: "by_pk k (collections s) = Some c0" "pk c = k" "doc_amount c = doc_amount c0"
      "doc_cancelled_at c \<noteq> None" "doc_cancelled_at c0 = None"
    and s': "collections s' = update_where (\<lambda>x. pk x = k) (\<lambda>_. c) (collections s)"
      "applications s' = applications s" "invoices s' = invoices s" "next_pk s \<le> next_pk s'"
  shows "apps_ok s'" and "no_overpayment s'" and "no_overallocation s'"
    and "in_sync s j \<Longrightarrow> pk j \<notin> set (applied_invoice_ids k s) \<Longrightarrow> in_sync s' j"
proof -
  have dist: "distinct (map pk (collections s))" using ok(1) by (simp add: apps_ok_def)
  note c0 = by_pk_SomeD [OF c(1)]
  have uniq: "x = c0" if "x \<in> set (collections s)" "pk x = k" for x
    using distinct_map_unique [OF dist that(1)] c0 that(2) by blast
  have mem: "x \<in> set (collections s') \<longleftrightarrow> x = c \<or> x \<in> set (collections s) \<and> pk x \<noteq> k" for x
    using c0 by (auto simp: s'(1) set_update_where)
  have stands: "collection_stands s' i \<longleftrightarrow> collection_stands s i \<and> i \<noteq> k" for i
    unfolding collection_stands_def Bex_def mem using c(2,4) by (cases "i = k") auto
  show "apps_ok s'"
  proof -
    have "map pk (collections s') = map pk (collections s)"
      using map_pk_save [OF c(2)] by (simp add: s'(1))
    then show ?thesis
      using ok(1) c c0 s'(2,3,4) by (fastforce simp: apps_ok_def mem)
  qed
  have standing: "standing_applications i s' =
      filter (\<lambda>a. app_collection a \<noteq> k) (standing_applications i s)" for i
    by (simp add: standing_applications_def stands s'(2) conj_ac)
  have pos: "0 \<le> app_amount a" if "a \<in> set (standing_applications i s)" for a i
    using that ok(1) by (auto simp: standing_applications_def apps_ok_def intro: less_imp_le)
  have less: "0 \<le> collected_total i s' \<and> collected_total i s' \<le> collected_total i s" for i
  proof -
    have "0 \<le> sum_list (map app_amount (filter (\<lambda>a. app_collection a = k) (standing_applications i s)))"
      "0 \<le> sum_list (map app_amount (filter (\<lambda>a. app_collection a \<noteq> k) (standing_applications i s)))"
      using pos by (auto intro!: sum_list_filter_nonneg)
    moreover have "collected_total i s =
        sum_list (map app_amount (filter (\<lambda>a. app_collection a = k) (standing_applications i s))) +
        collected_total i s'"
      using sum_list_filter_split [of app_amount "\<lambda>_. True" "standing_applications i s" "\<lambda>a. app_collection a = k"]
      by (simp add: collected_total_def standing)
    ultimately show ?thesis by (simp add: collected_total_def standing)
  qed
  show "no_overpayment s'"
    unfolding no_overpayment_def
  proof
    fix i assume "i \<in> set (invoices s')"
    then have "collected_total (pk i) s \<le> inv_total i \<or> collected_total (pk i) s = 0"
      using ok(2) by (simp add: no_overpayment_def s'(3))
    with less [of "pk i"] show "collected_total (pk i) s' \<le> inv_total i \<or> collected_total (pk i) s' = 0"
      by auto
  qed
  show "no_overallocation s'"
    unfolding no_overallocation_def
  proof
    fix x assume "x \<in> set (collections s')"
    then consider "x = c" | "x \<in> set (collections s)" by (auto simp: mem)
    then show "allocated (pk x) s' \<le> doc_amount x"
      using ok(3) c(2,3) c0 by cases (auto simp: no_overallocation_def allocated_def s'(2))
  qed
  show "in_sync s' j" if sy: "in_sync s j" and un: "pk j \<notin> set (applied_invoice_ids k s)"
  proof -
    have "\<forall>a \<in> set (standing_applications (pk j) s). app_collection a \<noteq> k"
      using un by (force simp: applied_invoice_ids_def standing_applications_def)
    then have st: "standing_applications (pk j) s' = standing_applications (pk j) s"
      by (simp add: standing filter_id_conv)
    have dates: "collection_date_of i s' = collection_date_of i s" if "i \<noteq> k" for i
    proof -
      have "filter (\<lambda>x. pk x = i \<and> doc_cancelled_at x = None \<and> \<not> is_deleted x)
          (update_where (\<lambda>x. pk x = k) (\<lambda>_. c) xs) =
        filter (\<lambda>x. pk x = i \<and> doc_cancelled_at x = None \<and> \<not> is_deleted x) xs" for xs
        using that c(2) by (induction xs) auto
      then show ?thesis by (simp add: collection_date_of_def s'(1))
    qed
    have "status_by_collections j s' = status_by_collections j s"
    proof (rule figures_cong(3) [OF st])
      fix a assume "a \<in> set (standing_applications (pk j) s)"
      with \<open>\<forall>a \<in> set (standing_applications (pk j) s). app_collection a \<noteq> k\<close>
      show "collection_date_of (app_collection a) s' = collection_date_of (app_collection a) s"
        by (intro dates) blast
    qed simp_all
    with sy show ?thesis by (simp add: in_sync_def)
  qed
qed

text \<open>One attempt that runs to its end.\<close>

definition cancel_once ::
  "env \<Rightarrow> pk \<Rightarrow> pk option \<Rightarrow> 'a books_scheme \<Rightarrow> (collection \<times> 'a books_scheme) result" where
  "cancel_once e c by s =
    bind_res (lock_document collection_table c s) (\<lambda>locked. cancel_locked e locked by s)"

lemma cancel_once_steps:
  assumes "cancel_once e k by s = Inr (c, s')"
  obtains c0 rs s2 where "by_pk k (collections s) = Some c0" "doc_cancelled_at c0 = None"
    "c = c0\<lparr>doc_cancelled_at := Some (now e), updated_by := by, updated_at := now e\<rparr>"
    "reverse_document e (collection_type, k) (today e) by Reversal_src s = Inr (rs, add_movements rs s)"
    "s2 = collections_update (update_where (\<lambda>x. pk x = k) (\<lambda>_. c)) (add_movements rs s)"
    "sync_all e (applied_invoice_ids k s) s2 = Inr s'"
proof -
  from assms obtain l where l: "lock_document collection_table k s = Inr l"
    and c: "cancel_locked e l by s = Inr (c, s')"
    unfolding cancel_once_def by (rule bind_res_InrE)
  from l have b: "by_pk k (collections s) = Some l"
    by (auto simp: lock_document_def bind_res_Inr_iff get_row_Inr_iff collection_table_def split: if_splits)
  then have pl: "pk l = k" by (auto dest: by_pk_SomeD)
  from c obtain s2 where st: "stamp_cancelled e collection_table l by s = Inr (c, s2)"
    and sy: "sync_all e (applied_invoice_ids k s) s2 = Inr s'"
    unfolding cancel_locked_def Let_def pl by (elim run_elims) auto
  from l st have "cancel_document e collection_table k by s = Inr (c, s2)"
    by (simp add: cancel_document_def)
  then obtain d0 rs where d: "by_pk k (dt_rows collection_table s) = Some d0" "doc_cancelled_at d0 = None"
    "reverse_document e (dt_name (collection_table :: ('a books_scheme, collection) doc_table), k)
      (today e) by Reversal_src s = Inr (rs, add_movements rs s)"
    "c = d0\<lparr>doc_cancelled_at := Some (now e), updated_by := by, updated_at := now e\<rparr>"
    "s2 = dt_update collection_table (update_where (\<lambda>x. pk x = k) (\<lambda>_. c)) (add_movements rs s)"
    by (rule collection_doc.cancel_Inr)
  show ?thesis
    by (rule that [of d0 rs s2]) (use d sy in \<open>simp_all add: collection_table_def\<close>)
qed

lemma cancel_once_keeps_ok:
  assumes ok: "collections_ok s" and ca: "cancel_once e k by s = Inr (c, s')"
  shows "collections_ok s'"
  using ca
proof (rule cancel_once_steps)
  fix c0 rs s2
  assume c0: "by_pk k (collections s) = Some c0" "doc_cancelled_at c0 = None"
    and c: "c = c0\<lparr>doc_cancelled_at := Some (now e), updated_by := by, updated_at := now e\<rparr>"
    and s2: "s2 = collections_update (update_where (\<lambda>x. pk x = k) (\<lambda>_. c)) (add_movements rs s)"
    and sy: "sync_all e (applied_invoice_ids k s) s2 = Inr s'"
  have k: "pk c = k" using by_pk_SomeD [OF c0(1)] by (simp add: c)
  have ok4: "apps_ok s" "no_overpayment s" "no_overallocation s" "synced s"
    using ok by (simp_all add: collections_ok_def)
  have "collections s2 = update_where (\<lambda>x. pk x = k) (\<lambda>_. c) (collections s)"
    "applications s2 = applications s" "invoices s2 = invoices s" "next_pk s \<le> next_pk s2"
    "doc_amount c = doc_amount c0" "doc_cancelled_at c \<noteq> None"
    by (simp_all add: s2 c)
  note cc = cancelled_collection_ok [OF ok4(1-3) c0(1) k this(5,6) c0(2) this(1-4)]
  have "synced s'"
    by (rule sync_all_synced [OF cc(1) sy])
      (use ok4(4) cc(4) in \<open>auto simp: synced_def s2\<close>)
  moreover have "only_invoices s2 s'"
    using sync_all_Inr(1) [OF _ sy] cc(1) by (simp add: apps_ok_def)
  note o = only_invoices_ok [OF this]
  ultimately show "collections_ok s'"
    using o cc by (intro collections_okI) blast+
qed

text \<open>
  Whatever other transactions commit between an attempt's read and its locks, the
  cancellation behaves as one that ran alone after the first one, two or three of them.
\<close>

lemma cancel_attempts_serial:
  "n + attempt = CANCEL_ATTEMPTS \<Longrightarrow> 0 < n \<Longrightarrow>
    \<exists>r. attempt < r \<and> r \<le> CANCEL_ATTEMPTS \<and>
      cancel_attempts e meanwhile c by n attempt s =
        cancel_once e c by (fold meanwhile [attempt ..< r] s)"
proof (induction n arbitrary: attempt s)
  case 0
  then show ?case by simp
next
  case (Suc n)
  define s1 where "s1 = meanwhile attempt s"
  show ?case
  proof (cases "lock_document collection_table c s1")
    case (Inl x)
    then have "cancel_attempts e meanwhile c by (Suc n) attempt s = cancel_once e c by s1"
      by (simp add: cancel_once_def s1_def Let_def)
    moreover have "fold meanwhile [attempt ..< Suc attempt] s = s1" by (simp add: s1_def)
    ultimately show ?thesis using Suc.prems by (intro exI [of _ "Suc attempt"]) simp
  next
    case (Inr l)
    show ?thesis
    proof (cases "\<not> set (applied_invoice_ids c s1) \<subseteq> set (applied_invoice_ids c s) \<and>
        attempt + 1 < CANCEL_ATTEMPTS")
      case True
      then have "cancel_attempts e meanwhile c by (Suc n) attempt s =
          cancel_attempts e meanwhile c by n (attempt + 1) s1"
        using Inr by (simp add: s1_def Let_def)
      moreover have "n + (attempt + 1) = CANCEL_ATTEMPTS" "0 < n" using Suc.prems True by simp_all
      then obtain r where "attempt + 1 < r" "r \<le> CANCEL_ATTEMPTS"
        "cancel_attempts e meanwhile c by n (attempt + 1) s1 =
          cancel_once e c by (fold meanwhile [attempt + 1 ..< r] s1)"
        using Suc.IH by blast
      ultimately show ?thesis
        by (intro exI [of _ r]) (simp add: s1_def upt_conv_Cons [of attempt r])
    next
      case False
      then have "cancel_attempts e meanwhile c by (Suc n) attempt s = cancel_once e c by s1"
        using Inr by (auto simp: cancel_once_def s1_def Let_def)
      moreover have "fold meanwhile [attempt ..< Suc attempt] s = s1" by (simp add: s1_def)
      ultimately show ?thesis using Suc.prems by (intro exI [of _ "Suc attempt"]) simp
    qed
  qed
qed

lemma cancel_collection_serial:
  "\<exists>r. 0 < r \<and> r \<le> CANCEL_ATTEMPTS \<and>
    cancel_collection e meanwhile c by s = cancel_once e c by (fold meanwhile [0 ..< r] s)"
  unfolding cancel_collection_def
  using cancel_attempts_serial [of CANCEL_ATTEMPTS 0] by (simp add: CANCEL_ATTEMPTS_def)

text \<open>What a recorded collection wrote: one movement, and the applications it was asked for.\<close>

lemma record_collection_effect:
  assumes ok: "collections_ok s"
    and rec: "record_collection e acc cash amount method_name dt note1 applies by s = Inr (c, s')"
  obtains m where "movements s' = movements s @ [m]"
    "written (Some acc) (Some cash) (Some Credit) (Some In) (rat_of amount) dt Collection_src
      (collection_type, pk c) m"
    "sum_list (map (\<lambda>(_, x). rat_of x) applies) \<le> rat_of amount"
  using rec
proof (rule record_collection_steps)
  fix num s1 c0 s2 s3 m s4
  assume n: "next_number e (company_id acc) COLLECTION_PREFIX s = Inr (num, s1)"
    and i: "insert_collection e c0 s1 = Inr (c, s2)" "doc_amount c0 = rat_of amount"
    and ap: "apply_to_invoices e c (Inr acc) applies by (doc_amount c) s2 = Inr s3"
    and po: "post e (Some acc) (Some cash) (Some (direction_value Credit)) (Some (cash_direction_value In))
      amount (acc_currency acc) dt (source_value Collection_src) (Some (collection_type, pk c))
      (''Tahsilat '' @ col_number c) by s3 = Inr (m, s4)"
    and sy: "sync_all e (map (\<lambda>(i, _). pk i) applies) s4 = Inr s'"
    and mo: "is_money amount = Inr True"
  note nf = next_number_frame [OF n] and ic = insert_collection_Inr [OF i(1)]
  have amt: "doc_amount c = rat_of amount" by (simp add: ic(3) stamped_def i(2))
  have ok1: "collections_ok s1"
    using invariants_cong [OF nf(4,5,3,6)] ok by (simp add: collections_ok_def)
  have ok2: "collections_ok s2"
    by (rule new_collection_ok [OF ok1 ic(2) _ _ ic(1)]) (use is_money_True [OF mo] amt in simp_all)
  have "apps_ok s2" "no_overpayment s2" "pk c < next_pk s2"
    using ok2 ic(1,2) by (simp_all add: collections_ok_def)
  from ap this obtain as where a: "s3 = add_applications as s2"
    "sum_list (map app_amount as) \<le> doc_amount c"
    "sum_list (map app_amount as) = sum_list (map (\<lambda>(_, x). rat_of x) applies)"
    by (rule apply_to_invoices_Inr)
  note w = post_written [OF po]
  have "distinct (map pk (invoices s4))"
    using \<open>apps_ok s2\<close> post_Inr(2) [OF po] a(1) by (simp add: apps_ok_def)
  then have "only_invoices s4 s'" using sync_all_Inr(1) [OF _ sy] by simp
  then have "movements s' = movements s4" by (rule only_invoices_frame)
  then show thesis
    using w a amt nf(1) ic(1) by (intro that [of m]) simp_all
qed

end
