(* ===== verification/Billing_Laws.thy ===== *)
theory Billing_Laws
  imports Billing Contract_Laws Collection_Laws
begin

text \<open>
  What billing promises: a period is drafted once and a fault billed once, a draft's figures
  are those of its lines, an issued invoice is posted once and no longer moves, a cancelled one
  gives its faults back.
\<close>

section \<open>The invariant\<close>

definition live_lines :: "pk \<Rightarrow> 'a books_scheme \<Rightarrow> invoice_line list" where
  "live_lines k s = filter (\<lambda>l. ln_draft l = k \<and> \<not> is_deleted l) (invoice_lines s)"

text \<open>
  Keys are handed out once; one live draft per contract and period, one live line per fault;
  every line is on an invoice of its own firm.
\<close>

definition invoices_ok :: "'a books_scheme \<Rightarrow> bool" where
  "invoices_ok s \<longleftrightarrow>
    distinct (map pk (invoices s)) \<and> distinct (map pk (invoice_lines s)) \<and>
    (\<forall>i \<in> set (invoices s). pk i < next_pk s) \<and> (\<forall>l \<in> set (invoice_lines s). pk l < next_pk s) \<and>
    all_unique invoices_clash (invoices s) \<and> all_unique lines_clash (invoice_lines s) \<and>
    (\<forall>l \<in> set (invoice_lines s). \<exists>i \<in> set (invoices s). pk i = ln_draft l \<and> company_id i = company_id l)"

text \<open>A draft's figures are the totals of its live lines.\<close>

definition adds_up :: "'a books_scheme \<Rightarrow> invoice \<Rightarrow> bool" where
  "adds_up s i \<longleftrightarrow> (inv_status i = Draft \<and> \<not> is_deleted i \<longrightarrow>
    totals (map ln_amount (live_lines (pk i) s)) (inv_vat_rate i) =
      Inr (inv_subtotal i, inv_vat_amount i, inv_total i))"

definition billing_ok :: "'a books_scheme \<Rightarrow> bool" where
  "billing_ok s \<longleftrightarrow> invoices_ok s \<and> (\<forall>i \<in> set (invoices s). adds_up s i)"

lemma invoices_okD:
  assumes "invoices_ok s"
  shows "distinct (map pk (invoices s))" and "distinct (map pk (invoice_lines s))"
    and "i \<in> set (invoices s) \<Longrightarrow> pk i < next_pk s" and "l \<in> set (invoice_lines s) \<Longrightarrow> pk l < next_pk s"
    and "all_unique invoices_clash (invoices s)" and "all_unique lines_clash (invoice_lines s)"
    and "l \<in> set (invoice_lines s) \<Longrightarrow>
      \<exists>i \<in> set (invoices s). pk i = ln_draft l \<and> company_id i = company_id l"
  using assms by (simp_all add: invoices_ok_def)

lemma invoice_unique:
  "invoices_ok s \<Longrightarrow> i \<in> set (invoices s) \<Longrightarrow> j \<in> set (invoices s) \<Longrightarrow> pk i = pk j \<Longrightarrow> i = j"
  using distinct_map_unique [OF invoices_okD(1)] .

lemma visible_same:
  "visible c r \<Longrightarrow> company_id r' = company_id r \<Longrightarrow> is_deleted r' = is_deleted r \<Longrightarrow> visible c r'"
  by (auto simp: visible_def split: option.splits if_splits)

text \<open>Whoever sees a draft sees all its live lines.\<close>

lemma lines_of_live:
  assumes ok: "invoices_ok s" and d: "d \<in> set (invoices s)" "visible (ctx e) d"
  shows "lines_of e (pk d) s = live_lines (pk d) s"
proof -
  have "visible (ctx e) l \<longleftrightarrow> \<not> is_deleted l" if "l \<in> set (invoice_lines s)" "ln_draft l = pk d" for l
  proof -
    note home = invoices_okD(7) [OF ok that(1)]
    obtain i where "i \<in> set (invoices s)" "pk i = ln_draft l" "company_id i = company_id l"
      using home by blast
    then have "company_id l = company_id d" using invoice_unique [OF ok _ d(1)] that(2) by metis
    then show ?thesis using d(2) by (auto simp: visible_def split: option.splits if_splits)
  qed
  then show ?thesis
    unfolding lines_of_def live_lines_def objects_def by (auto intro: filter_cong)
qed

section \<open>Rows that change\<close>

lemma clash_sym:
  "invoices_clash a b \<Longrightarrow> invoices_clash b a" "lines_clash x y \<Longrightarrow> lines_clash y x"
  by (auto simp: invoices_clash_def lines_clash_def)

lemma replaced_cases:
  "x \<in> set (update_where (\<lambda>x. pk x = k) (\<lambda>_. r) rows) \<Longrightarrow> x = r \<or> x \<in> set rows \<and> pk x \<noteq> k"
  by (auto simp: set_update_where)

lemma all_unique_replace:
  assumes "all_unique clash rows" "distinct (map pk rows)" "pk r = k"
    and "unique_with clash r (filter (\<lambda>x. pk x \<noteq> k) rows)" "\<And>a b. clash a b \<Longrightarrow> clash b a"
  shows "all_unique clash (update_where (\<lambda>x. pk x = k) (\<lambda>_. r) rows)"
  unfolding all_unique_def
proof (intro ballI impI)
  fix x y
  assume x: "x \<in> set (update_where (\<lambda>x. pk x = k) (\<lambda>_. r) rows)"
    and y: "y \<in> set (update_where (\<lambda>x. pk x = k) (\<lambda>_. r) rows)" and c: "clash x y"
  have other: "\<not> clash r z" if "z \<in> set rows" "pk z \<noteq> k" for z
    using assms(4) that by (simp add: unique_with_def)
  from replaced_cases [OF x] replaced_cases [OF y] c other assms(1,5) show "x = y" unfolding all_unique_def by metis
qed

lemma all_unique_weaken:
  assumes "all_unique clash rows" "\<And>x y. clash (h x) (h y) \<Longrightarrow> clash x y"
  shows "all_unique clash (map h rows)"
  using assms unfolding all_unique_def by auto

lemma update_where_in:
  "distinct (map pk rows) \<Longrightarrow> d \<in> set rows \<Longrightarrow> pk d = k \<Longrightarrow>
    update_where (\<lambda>x. pk x = k) g rows = update_where (\<lambda>x. pk x = k) (\<lambda>_. g d) rows"
  using distinct_map_unique [of pk rows _ d] by (fastforce simp: update_where_def)

lemma invoices_update_to: "s' = invoices_update f s \<Longrightarrow> s' = s\<lparr>invoices := f (invoices s)\<rparr>"
  by (cases s) simp

lemma invoice_lines_update_to:
  "s' = invoice_lines_update f s \<Longrightarrow> s' = s\<lparr>invoice_lines := f (invoice_lines s)\<rparr>"
  by (cases s) simp

lemma save_invoice_Inr:
  assumes dist: "distinct (map pk (invoices s))" and d: "d \<in> set (invoices s)"
    and run: "save_invoice e f d s = Inr (d', s')"
  shows "d' = (f d)\<lparr>updated_at := now e\<rparr>"
    and "s' = s\<lparr>invoices := update_where (\<lambda>x. pk x = pk d) (\<lambda>_. d') (invoices s)\<rparr>"
    and "invoice_checks (f d)"
    and "unique_with invoices_clash (f d) (filter (\<lambda>x. pk x \<noteq> pk d) (invoices s))"
    and "may_save (ctx e) d"
proof -
  have upd: "update_where (\<lambda>x. pk x = pk d) (\<lambda>x. (f x)\<lparr>updated_at := now e\<rparr>) (invoices s) =
    update_where (\<lambda>x. pk x = pk d) (\<lambda>_. (f d)\<lparr>updated_at := now e\<rparr>) (invoices s)"
    by (rule update_where_in [OF dist d refl])
  from run show d': "d' = (f d)\<lparr>updated_at := now e\<rparr>" and "invoice_checks (f d)"
    and "unique_with invoices_clash (f d) (filter (\<lambda>x. pk x \<noteq> pk d) (invoices s))" and "may_save (ctx e) d"
    by (simp_all add: save_invoice_def split: if_splits)
  from run have "s' = invoices_update (update_where (\<lambda>x. pk x = pk d) (\<lambda>x. (f x)\<lparr>updated_at := now e\<rparr>)) s"
    by (simp add: save_invoice_def split: if_splits)
  from invoices_update_to [OF this]
  show "s' = s\<lparr>invoices := update_where (\<lambda>x. pk x = pk d) (\<lambda>_. d') (invoices s)\<rparr>"
    by (simp only: upd d')
qed

lemma clash_updated_at [simp]:
  "invoices_clash (a\<lparr>updated_at := t\<rparr>) b = invoices_clash a b"
  "invoices_clash a (b\<lparr>updated_at := t\<rparr>) = invoices_clash a b"
  "lines_clash (x\<lparr>updated_at := t\<rparr>) y = lines_clash x y"
  by (simp_all add: invoices_clash_def lines_clash_def)

text \<open>One invoice replaced by a row of its key and firm that clashes with no other.\<close>

lemma invoices_ok_replace:
  assumes ok: "invoices_ok s" and d: "d \<in> set (invoices s)"
    and d': "pk d' = pk d" "company_id d' = company_id d"
      "unique_with invoices_clash d' (filter (\<lambda>x. pk x \<noteq> pk d) (invoices s))"
    and s': "invoices s' = update_where (\<lambda>x. pk x = pk d) (\<lambda>_. d') (invoices s)"
      "invoice_lines s' = invoice_lines s" "next_pk s \<le> next_pk s'"
  shows "invoices_ok s'"
proof -
  have "map pk (invoices s') = map pk (invoices s)" unfolding s'(1) using d'(1) by (rule map_pk_save)
  moreover have "all_unique invoices_clash (invoices s')"
    unfolding s'(1) by (rule all_unique_replace [OF invoices_okD(5,1) [OF ok] d'(1,3) clash_sym(1)])
  moreover have "\<exists>i \<in> set (invoices s'). pk i = ln_draft l \<and> company_id i = company_id l"
    if l: "l \<in> set (invoice_lines s)" for l
  proof -
    obtain i where i: "i \<in> set (invoices s)" "pk i = ln_draft l" "company_id i = company_id l"
      using invoices_okD(7) [OF ok l] by blast
    show ?thesis
    proof (cases "pk i = pk d")
      case True
      then have "i = d" using invoice_unique [OF ok i(1) d] by simp
      with i d' d show ?thesis by (intro bexI [of _ d']) (auto simp: s'(1) set_update_where)
    next
      case False
      with i show ?thesis by (intro bexI [of _ i]) (auto simp: s'(1) set_update_where)
    qed
  qed
  moreover have "\<forall>i \<in> set (invoices s'). pk i < next_pk s'"
    using invoices_okD(3) [OF ok] d' d s'(1,3) by (fastforce simp: set_update_where)
  moreover have "\<forall>l \<in> set (invoice_lines s). pk l < next_pk s'"
    using invoices_okD(4) [OF ok] s'(3) by (meson less_le_trans)
  ultimately show ?thesis
    using invoices_okD(1,2,6) [OF ok] s'(2) unfolding invoices_ok_def by simp
qed


text \<open>Lines added, changed in place or marked: keys and places kept, no new clash.\<close>

lemma invoices_ok_lines:
  assumes ok: "invoices_ok s"
    and s': "invoices s' = invoices s" "next_pk s \<le> next_pk s'"
    and rows: "distinct (map pk (invoice_lines s'))" "\<forall>l \<in> set (invoice_lines s'). pk l < next_pk s'"
      "all_unique lines_clash (invoice_lines s')"
      "\<And>l. l \<in> set (invoice_lines s') \<Longrightarrow> \<exists>i \<in> set (invoices s). pk i = ln_draft l \<and> company_id i = company_id l"
  shows "invoices_ok s'"
  using invoices_okD [OF ok] s' rows unfolding invoices_ok_def by (auto intro: less_le_trans)

lemma insert_line_Inr:
  assumes "insert_line e l s = Inr (l', s')"
  shows "l' = stamped e (next_pk s) l"
    and "s' = s\<lparr>invoice_lines := invoice_lines s @ [l'], next_pk := Suc (next_pk s)\<rparr>"
    and "line_checks l" and "unique_with lines_clash l (invoice_lines s)"
proof -
  from assms show l': "l' = stamped e (next_pk s) l" and "line_checks l"
    and "unique_with lines_clash l (invoice_lines s)"
    by (simp_all add: insert_line_def db_insert_Inr_iff)
  from assms have "s' = invoice_lines_update (\<lambda>rows. rows @ [l']) (s\<lparr>next_pk := Suc (next_pk s)\<rparr>)"
    by (simp add: insert_line_def db_insert_Inr_iff)
  then show "s' = s\<lparr>invoice_lines := invoice_lines s @ [l'], next_pk := Suc (next_pk s)\<rparr>"
    by (cases s) simp
qed

lemma stamped_line [simp]:
  fixes l :: invoice_line
  shows "ln_draft (stamped e k l) = ln_draft l" "ln_fault (stamped e k l) = ln_fault l"
    "ln_fault_released (stamped e k l) = ln_fault_released l" "ln_amount (stamped e k l) = ln_amount l"
    "ln_needs_price (stamped e k l) = ln_needs_price l" "ln_kind (stamped e k l) = ln_kind l"
    "ln_unit_price (stamped e k l) = ln_unit_price l" "ln_position (stamped e k l) = ln_position l"
    "ln_elevator (stamped e k l) = ln_elevator l"
  by (simp_all add: stamped_def)

lemma lines_clash_stamped [simp]:
  "lines_clash (stamped e k l) x = lines_clash l x" "lines_clash x (stamped e k l) = lines_clash x l"
  by (simp_all add: lines_clash_def)

lemma insert_line_keeps:
  assumes ok: "invoices_ok s" and run: "insert_line e l s = Inr (l', s')"
    and d: "d \<in> set (invoices s)" "ln_draft l = pk d" "company_id l = company_id d"
  shows "invoices_ok s'" and "k \<noteq> pk d \<Longrightarrow> live_lines k s' = live_lines k s"
    and "invoices s' = invoices s"
proof -
  note r = insert_line_Inr [OF run]
  show inv: "invoices s' = invoices s" by (simp add: r(2))
  show "live_lines k s' = live_lines k s" if "k \<noteq> pk d"
    using that d(2) by (simp add: live_lines_def r(1,2))
  have u: "all_unique lines_clash (invoice_lines s @ [l'])"
    using r(4) by (intro all_unique_append1 [OF invoices_okD(6) [OF ok]])
      (auto simp: unique_with_def r(1) dest: clash_sym(2))
  have old: "pk x < next_pk s" if "x \<in> set (invoice_lines s)" for x using invoices_okD(4) [OF ok that] .
  have dist: "distinct (map pk (invoice_lines s'))"
    using invoices_okD(2) [OF ok] old by (force simp: r(1,2))
  show "invoices_ok s'"
  proof (rule invoices_ok_lines [OF ok inv _ dist])
    show "next_pk s \<le> next_pk s'" by (simp add: r(2))
    show "\<forall>x \<in> set (invoice_lines s'). pk x < next_pk s'" using old by (auto simp: r(1,2) less_SucI)
    show "all_unique lines_clash (invoice_lines s')" using u by (simp add: r(2))
    show "\<exists>i \<in> set (invoices s). pk i = ln_draft x \<and> company_id i = company_id x"
      if "x \<in> set (invoice_lines s')" for x
      using that invoices_okD(7) [OF ok, of x] d by (auto simp: r(1,2))
  qed
qed

section \<open>Figures\<close>

lemma adds_up_cong:
  "live_lines (pk i) s' = live_lines (pk i) s \<Longrightarrow> adds_up s' i = adds_up s i"
  by (simp add: adds_up_def)

lemma not_draft_adds_up: "inv_status i \<noteq> Draft \<Longrightarrow> adds_up s i"
  by (simp add: adds_up_def)

text \<open>Recomputing brings a draft's figures in step with its lines and touches nothing else.\<close>

lemma recompute_Inr:
  assumes ok: "invoices_ok s" and d: "d \<in> set (invoices s)" "visible (ctx e) d"
    and run: "recompute e d s = Inr (d', s')"
  shows "invoices_ok s'" and "adds_up s' d'" and "pk d' = pk d" and "company_id d' = company_id d"
    and "s' = s\<lparr>invoices := update_where (\<lambda>x. pk x = pk d) (\<lambda>_. d') (invoices s)\<rparr>"
    and "inv_status d' = inv_status d" and "is_deleted d' = is_deleted d"
    and "inv_number d' = inv_number d" and "inv_currency d' = inv_currency d"
    and "inv_customer d' = inv_customer d" and "inv_cancelled_at d' = inv_cancelled_at d"
    and "inv_date d' = inv_date d" and "inv_contract d' = inv_contract d"
    and "inv_period_start d' = inv_period_start d" and "inv_period_end d' = inv_period_end d"
proof -
  have self: "s = s\<lparr>invoices := update_where (\<lambda>x. pk x = pk d) (\<lambda>_. d) (invoices s)\<rparr>"
    using update_where_in [OF invoices_okD(1) [OF ok] d(1) refl, of "\<lambda>x. x"]
    by (simp add: update_where_def)
  have "invoices_ok s' \<and> adds_up s' d' \<and> pk d' = pk d \<and> company_id d' = company_id d \<and>
    s' = s\<lparr>invoices := update_where (\<lambda>x. pk x = pk d) (\<lambda>_. d') (invoices s)\<rparr> \<and>
    inv_status d' = inv_status d \<and> is_deleted d' = is_deleted d \<and> inv_number d' = inv_number d \<and>
    inv_currency d' = inv_currency d \<and> inv_customer d' = inv_customer d \<and>
    inv_cancelled_at d' = inv_cancelled_at d \<and> inv_date d' = inv_date d \<and>
    inv_contract d' = inv_contract d \<and> inv_period_start d' = inv_period_start d \<and>
    inv_period_end d' = inv_period_end d"
  proof (cases "inv_status d = Draft")
    case False
    with run have "d' = d" "s' = s" by (simp_all add: recompute_def)
    with False ok self show ?thesis by (simp add: not_draft_adds_up)
  next
    case True
    with run lines_of_live [OF ok d] obtain sub vat total where
      t: "totals (map ln_amount (live_lines (pk d) s)) (inv_vat_rate d) = Inr (sub, vat, total)"
      and sv: "save_invoice e (\<lambda>x. x\<lparr>inv_subtotal := sub, inv_vat_amount := vat, inv_total := total\<rparr>) d s =
        Inr (d', s')"
      by (auto simp: recompute_def bind_res_Inr_iff)
    note r = save_invoice_Inr [OF invoices_okD(1) [OF ok] d(1) sv]
    have u: "unique_with invoices_clash d' (filter (\<lambda>x. pk x \<noteq> pk d) (invoices s))"
      using r(4) by (simp add: r(1) unique_with_def invoices_clash_def)
    have "invoices_ok s'"
      by (rule invoices_ok_replace [OF ok d(1) _ _ u]) (simp_all add: r(1,2))
    moreover have "adds_up s' d'"
      using t by (simp add: adds_up_def r(1,2) live_lines_def)
    ultimately show ?thesis using r(2) by (simp add: r(1))
  qed
  then show "invoices_ok s'" "adds_up s' d'" "pk d' = pk d" "company_id d' = company_id d"
    "s' = s\<lparr>invoices := update_where (\<lambda>x. pk x = pk d) (\<lambda>_. d') (invoices s)\<rparr>"
    "inv_status d' = inv_status d" "is_deleted d' = is_deleted d" "inv_number d' = inv_number d"
    "inv_currency d' = inv_currency d" "inv_customer d' = inv_customer d"
    "inv_cancelled_at d' = inv_cancelled_at d" "inv_date d' = inv_date d"
    "inv_contract d' = inv_contract d" "inv_period_start d' = inv_period_start d"
    "inv_period_end d' = inv_period_end d"
    by blast+
qed

text \<open>The last step of every edit: with the others in step, all are.\<close>

lemma recompute_restores:
  assumes ok: "invoices_ok s" and d: "d \<in> set (invoices s)" "visible (ctx e) d"
    and others: "\<And>i. i \<in> set (invoices s) \<Longrightarrow> pk i \<noteq> pk d \<Longrightarrow> adds_up s i"
    and run: "recompute e d s = Inr (d', s')"
  shows "billing_ok s'"
proof -
  note r = recompute_Inr [OF ok d run]
  have live: "live_lines k s' = live_lines k s" for k by (simp add: r(5) live_lines_def)
  have "adds_up s' i" if i: "i \<in> set (invoices s')" for i
  proof -
    have "i \<in> set (update_where (\<lambda>x. pk x = pk d) (\<lambda>_. d') (invoices s))" using i by (simp add: r(5))
    then show ?thesis
    proof (elim replaced_cases [THEN disjE])
      assume "i = d'"
      with r(2) show ?thesis by simp
    next
      assume "i \<in> set (invoices s) \<and> pk i \<noteq> pk d"
      then have "adds_up s i" using others by blast
      then show ?thesis using adds_up_cong [OF live] by simp
    qed
  qed
  with r(1) show ?thesis by (simp add: billing_ok_def)
qed


section \<open>Editing a draft\<close>

text \<open>
  The shape of every edit: the draft is locked and must still be a draft, then the edit runs.
  \<open>fit\<close> is what the edit needs to know of the row it was handed.
\<close>

locale draft_edit =
  fixes draft_of :: "'x \<Rightarrow> pk"
    and fit :: "'x \<Rightarrow> 'a books_scheme \<Rightarrow> bool"
    and run :: "env \<Rightarrow> 'x \<Rightarrow> 'a books_scheme \<Rightarrow> ('y \<times> 'a books_scheme) result"
    and body :: "env \<Rightarrow> 'x \<Rightarrow> invoice \<Rightarrow> 'a books_scheme \<Rightarrow> ('y \<times> 'a books_scheme) result"
  assumes run_eq: "run e x s = bind_res (editable e (draft_of x) s) (\<lambda>d. body e x d s)"
    and body_keeps: "billing_ok s \<Longrightarrow> d \<in> set (invoices s) \<Longrightarrow> visible (ctx e) d \<Longrightarrow>
      inv_status d = Draft \<Longrightarrow> pk d = draft_of x \<Longrightarrow> fit x s \<Longrightarrow> body e x d s = Inr (y, s') \<Longrightarrow> billing_ok s'"
begin

lemma run_Inr:
  assumes "run e x s = Inr (y, s')"
  obtains d where "get_invoice e (draft_of x) s = Inr d" "inv_status d = Draft" "body e x d s = Inr (y, s')"
  using assms by (auto simp: run_eq editable_def bind_res_Inr_iff split: if_splits)

lemma keeps_ok:
  assumes "billing_ok s" "fit x s" "run e x s = Inr (y, s')"
  shows "billing_ok s'"
proof -
  from run_Inr [OF assms(3)] obtain d where d: "get_invoice e (draft_of x) s = Inr d" "inv_status d = Draft"
    "body e x d s = Inr (y, s')" .
  with get_invoice_Inr [OF d(1)] assms(1,2) show ?thesis by (blast intro: body_keeps)
qed

lemma refused_unless_draft:
  "get_invoice e (draft_of x) s = Inr d \<Longrightarrow> inv_status d \<noteq> Draft \<Longrightarrow> run e x s = Inl refuse"
  by (simp add: run_eq editable_def)

lemma no_such_draft:
  "get_invoice e (draft_of x) s = Inl err \<Longrightarrow> run e x s = Inl err"
  by (simp add: run_eq editable_def)

end

text \<open>The line in hand is a line of the draft it names.\<close>

definition in_hand :: "invoice_line \<Rightarrow> 'a books_scheme \<Rightarrow> bool" where
  "in_hand l s \<longleftrightarrow> (\<exists>r \<in> set (invoice_lines s). pk r = pk l \<and> ln_draft r = ln_draft l \<and> company_id r = company_id l)"

definition add_line_body ::
  "env \<Rightarrow> pk \<times> string \<times> rat \<times> rat \<times> pk option \<Rightarrow> invoice \<Rightarrow> 'a books_scheme
    \<Rightarrow> (invoice_line \<times> 'a books_scheme) result" where
  "add_line_body e x d s = (case x of (k, description, quantity, unit_price, by) \<Rightarrow>
    let position = (case agg_max (map ln_position (lines_of e (pk d) s)) of None \<Rightarrow> 0 | Some p \<Rightarrow> p) in
    bind_res (line_amount_of quantity (Some unit_price)) (\<lambda>amount.
    bind_res (insert_line e (blank_line\<lparr>company_id := company_id d, ln_draft := pk d,
        ln_kind := Manual_line, ln_description := description, ln_quantity := quantity,
        ln_unit_price := Some unit_price, ln_amount := amount, ln_needs_price := False,
        ln_position := position + 1, created_by := by, updated_by := by\<rparr>) s) (\<lambda>(l, s).
    bind_res (recompute e d s) (\<lambda>(_, s). Inr (l, s)))))"

definition edit_line_body ::
  "env \<Rightarrow> invoice_line \<times> line_change list \<times> pk option \<Rightarrow> invoice \<Rightarrow> 'a books_scheme
    \<Rightarrow> (invoice_line \<times> 'a books_scheme) result" where
  "edit_line_body e x d s = (case x of (l, changes, by) \<Rightarrow>
    bind_res (repriced l changes by) (\<lambda>l.
    bind_res (update_line e l s) (\<lambda>(l, s).
    bind_res (recompute e d s) (\<lambda>(_, s). Inr (l, s)))))"

definition remove_line_body ::
  "env \<Rightarrow> invoice_line \<times> pk option \<Rightarrow> invoice \<Rightarrow> 'a books_scheme \<Rightarrow> (unit \<times> 'a books_scheme) result" where
  "remove_line_body e x d s = (case x of (l, by) \<Rightarrow>
    bind_res (save_fields e invoice_lines_update True (\<lambda>x. x\<lparr>updated_by := by\<rparr>) l s) (\<lambda>(l, s).
    bind_res (save_fields e invoice_lines_update True
        (\<lambda>x. x\<lparr>is_deleted := True, deleted_at := Some (now e)\<rparr>) l s) (\<lambda>(_, s).
    bind_res (recompute e d s) (\<lambda>(_, s). Inr ((), s)))))"

text \<open>After the lines of one draft changed, recomputing it restores every figure.\<close>

lemma edit_restores:
  assumes ok: "billing_ok s" and d: "d \<in> set (invoices s)" "visible (ctx e) d"
    and s1: "invoices_ok s1" "invoices s1 = invoices s" "\<And>k. k \<noteq> pk d \<Longrightarrow> live_lines k s1 = live_lines k s"
    and run: "recompute e d s1 = Inr (d', s')"
  shows "billing_ok s'"
proof (rule recompute_restores [OF s1(1) _ d(2) _ run])
  show "d \<in> set (invoices s1)" using d(1) s1(2) by simp
  show "adds_up s1 i" if "i \<in> set (invoices s1)" "pk i \<noteq> pk d" for i
    using ok that(1) s1(2) adds_up_cong [OF s1(3) [OF that(2)]] by (simp add: billing_ok_def)
qed

lemma add_line_body_keeps:
  assumes ok: "billing_ok s" and d: "d \<in> set (invoices s)" "visible (ctx e) d"
    and run: "add_line_body e x d s = Inr (l, s')"
  shows "billing_ok s'"
proof -
  obtain k description quantity unit_price "by" where x: "x = (k, description, quantity, unit_price, by)"
    by (cases x) auto
  from run obtain r s1 d' where ins: "insert_line e r s = Inr (l, s1)" "recompute e d s1 = Inr (d', s')"
    and r: "ln_draft r = pk d" "company_id r = company_id d"
    by (auto simp: x add_line_body_def Let_def bind_res_Inr_iff)
  note ok' = conjunct1 [OF ok [unfolded billing_ok_def]]
  show ?thesis
    by (rule edit_restores [OF ok d insert_line_keeps(1,3,2) [OF ok' ins(1) d(1) r] ins(2)])
qed

lemma live_lines_replace:
  assumes "r \<in> set rows" "distinct (map pk rows)" "pk r = pk l" "ln_draft r = ln_draft l" "k \<noteq> ln_draft l"
  shows "filter (\<lambda>x. ln_draft x = k \<and> \<not> is_deleted x) (update_where (\<lambda>x. pk x = pk l) (\<lambda>_. l) rows) =
    filter (\<lambda>x. ln_draft x = k \<and> \<not> is_deleted x) rows"
  using assms
proof (induction rows)
  case Nil
  then show ?case by simp
next
  case (Cons x rows)
  show ?case
  proof (cases "pk x = pk l")
    case True
    with Cons.prems have "x = r" using distinct_map_unique [OF Cons.prems(2)] by force
    moreover have "update_where (\<lambda>x. pk x = pk l) (\<lambda>_. l) rows = rows"
      using Cons.prems(2) True by (intro update_where_none) (auto simp: image_iff)
    ultimately show ?thesis using Cons.prems(4,5) True by auto
  next
    case False
    with Cons show ?thesis by auto
  qed
qed

text \<open>One line replaced by a row of its key, draft and firm.\<close>

lemma line_replaced_keeps:
  assumes ok: "invoices_ok s" and l: "in_hand l s"
    and u: "unique_with lines_clash l (filter (\<lambda>x. pk x \<noteq> pk l) (invoice_lines s))"
    and s': "s' = s\<lparr>invoice_lines := update_where (\<lambda>x. pk x = pk l) (\<lambda>_. l) (invoice_lines s)\<rparr>"
  shows "invoices_ok s'" and "invoices s' = invoices s"
    and "k \<noteq> ln_draft l \<Longrightarrow> live_lines k s' = live_lines k s"
proof -
  from l obtain r where r: "r \<in> set (invoice_lines s)" "pk r = pk l" "ln_draft r = ln_draft l"
    "company_id r = company_id l"
    unfolding in_hand_def by blast
  show inv: "invoices s' = invoices s" by (simp add: s')
  show "live_lines k s' = live_lines k s" if "k \<noteq> ln_draft l"
    using live_lines_replace [OF r(1) invoices_okD(2) [OF ok] r(2,3) that] by (simp add: live_lines_def s')
  have pks: "map pk (invoice_lines s') = map pk (invoice_lines s)"
    using map_pk_save [of l "pk l"] by (simp add: s')
  have old: "x = l \<or> x \<in> set (invoice_lines s)" if "x \<in> set (invoice_lines s')" for x
    using that replaced_cases [of x "pk l" l "invoice_lines s"] by (auto simp: s')
  show "invoices_ok s'"
  proof (rule invoices_ok_lines [OF ok inv])
    show "distinct (map pk (invoice_lines s'))" using pks invoices_okD(2) [OF ok] by simp
    show "\<forall>x \<in> set (invoice_lines s'). pk x < next_pk s'"
    proof
      fix x
      assume "x \<in> set (invoice_lines s')"
      from old [OF this] show "pk x < next_pk s'"
        using invoices_okD(4) [OF ok, of x] invoices_okD(4) [OF ok r(1)] r(2) by (auto simp: s')
    qed
    show "all_unique lines_clash (invoice_lines s')"
      using all_unique_replace [OF invoices_okD(6,2) [OF ok] refl u clash_sym(2)] by (simp add: s')
    show "\<exists>i \<in> set (invoices s). pk i = ln_draft x \<and> company_id i = company_id x"
      if "x \<in> set (invoice_lines s')" for x
      using old [OF that] invoices_okD(7) [OF ok, of x] invoices_okD(7) [OF ok r(1)] r(3,4) by auto
  qed (simp add: s')
qed


lemma update_line_Inr:
  assumes "update_line e l s = Inr (l', s')"
  shows "l' = l\<lparr>updated_at := now e\<rparr>"
    and "s' = s\<lparr>invoice_lines := update_where (\<lambda>x. pk x = pk l') (\<lambda>_. l') (invoice_lines s)\<rparr>"
    and "unique_with lines_clash l' (filter (\<lambda>x. pk x \<noteq> pk l') (invoice_lines s))"
proof -
  from assms show l': "l' = l\<lparr>updated_at := now e\<rparr>"
    by (simp add: update_line_def db_update_def Let_def split: if_splits)
  from assms have "s' = invoice_lines_update (update_where (\<lambda>x. pk x = pk l') (\<lambda>_. l')) s"
    and u: "unique_with lines_clash l (filter (\<lambda>x. pk x \<noteq> pk l) (invoice_lines s))"
    by (simp_all add: update_line_def db_update_def Let_def split: if_splits) auto
  from invoice_lines_update_to [OF this(1)]
  show "s' = s\<lparr>invoice_lines := update_where (\<lambda>x. pk x = pk l') (\<lambda>_. l') (invoice_lines s)\<rparr>" .
  from u show "unique_with lines_clash l' (filter (\<lambda>x. pk x \<noteq> pk l') (invoice_lines s))"
    by (simp add: l' unique_with_def)
qed

text \<open>Repricing changes neither the row's identity nor the draft it is on.\<close>

lemma change_line_same:
  "pk (change_line c l) = pk l \<and> ln_draft (change_line c l) = ln_draft l \<and>
    company_id (change_line c l) = company_id l \<and> is_deleted (change_line c l) = is_deleted l"
  by (cases c) simp_all

lemma fold_change_line_same:
  "pk (fold change_line cs l) = pk l \<and> ln_draft (fold change_line cs l) = ln_draft l \<and>
    company_id (fold change_line cs l) = company_id l \<and> is_deleted (fold change_line cs l) = is_deleted l"
  by (induction cs arbitrary: l) (simp_all add: change_line_same)

lemma repriced_Inr:
  assumes "repriced l changes by = Inr r"
  shows "pk r = pk l" "ln_draft r = ln_draft l" "company_id r = company_id l" "is_deleted r = is_deleted l"
    and "ln_needs_price r \<longleftrightarrow> ln_unit_price r = None"
    and "line_amount r = Inr (ln_amount r)"
proof -
  have amount: "line_amount (x\<lparr>ln_amount := a, updated_by := b\<rparr>) = line_amount x" for x a b
    by (simp add: line_amount_def split: option.splits)
  show "pk r = pk l" "ln_draft r = ln_draft l" "company_id r = company_id l" "is_deleted r = is_deleted l"
    "ln_needs_price r \<longleftrightarrow> ln_unit_price r = None" "line_amount r = Inr (ln_amount r)"
    using assms fold_change_line_same [of changes l]
    by (auto simp: repriced_def Let_def bind_res_Inr_iff amount split: if_splits)
qed

lemma edit_line_body_keeps:
  assumes ok: "billing_ok s" and d: "d \<in> set (invoices s)" "visible (ctx e) d"
    and x: "pk d = ln_draft (fst x)" "in_hand (fst x) s"
    and run: "edit_line_body e x d s = Inr (l, s')"
  shows "billing_ok s'"
proof -
  obtain l0 changes "by" where x0: "x = (l0, changes, by)" by (cases x) auto
  from run obtain r s1 d' where r: "repriced l0 changes by = Inr r"
    and up: "update_line e r s = Inr (l, s1)" "recompute e d s1 = Inr (d', s')"
    by (auto simp: x0 edit_line_body_def bind_res_Inr_iff)
  note u = update_line_Inr [OF up(1)] and same = repriced_Inr [OF r]
  have l: "in_hand l s" "ln_draft l = pk d"
    using x same by (auto simp: u(1) x0 in_hand_def)
  note k = line_replaced_keeps [OF conjunct1 [OF ok [unfolded billing_ok_def]] l(1) u(3,2)]
  show ?thesis
    by (rule edit_restores [OF ok d k(1,2) _ up(2)]) (use k(3) l(2) in simp)
qed

text \<open>Marking rows: each keeps its key, draft and firm, and clashes with no more than before.\<close>

lemma lines_marked_keeps:
  assumes ok: "invoices_ok s" and s': "s' = s\<lparr>invoice_lines := map h (invoice_lines s)\<rparr>"
    and h: "\<And>x. pk (h x) = pk x \<and> ln_draft (h x) = ln_draft x \<and> company_id (h x) = company_id x"
      "\<And>x y. lines_clash (h x) (h y) \<Longrightarrow> lines_clash x y"
  shows "invoices_ok s'"
proof (rule invoices_ok_lines [OF ok])
  show "all_unique lines_clash (invoice_lines s')"
    using all_unique_weaken [OF invoices_okD(6) [OF ok] h(2)] by (simp add: s')
  show "distinct (map pk (invoice_lines s'))"
    using invoices_okD(2) [OF ok] h(1) by (simp add: s' comp_def)
  show "\<forall>l \<in> set (invoice_lines s'). pk l < next_pk s'"
    using invoices_okD(4) [OF ok] h(1) by (auto simp: s')
  show "\<exists>i \<in> set (invoices s). pk i = ln_draft l \<and> company_id i = company_id l"
    if "l \<in> set (invoice_lines s')" for l
    using that invoices_okD(7) [OF ok] h(1) by (auto simp: s')
qed (simp_all add: s')

lemma mark_line_Inr:
  assumes "save_fields e invoice_lines_update True f l s = Inr (l', s')"
  shows "l' = (f l)\<lparr>updated_at := now e\<rparr>"
    and "s' = s\<lparr>invoice_lines :=
      map (\<lambda>x. if pk x = pk l then (f x)\<lparr>updated_at := now e\<rparr> else x) (invoice_lines s)\<rparr>"
  using assms by (simp_all add: save_fields_Inr invoice_lines_update_to update_where_def)

lemma remove_line_body_keeps:
  assumes ok: "billing_ok s" and d: "d \<in> set (invoices s)" "visible (ctx e) d"
    and x: "pk d = ln_draft (fst x)" "in_hand (fst x) s"
    and run: "remove_line_body e x d s = Inr (u, s')"
  shows "billing_ok s'"
proof -
  obtain l0 "by" where x0: "x = (l0, by)" by (cases x) auto
  define h where "h = (\<lambda>x :: invoice_line. if pk x = pk l0
    then x\<lparr>updated_by := by, is_deleted := True, deleted_at := Some (now e), updated_at := now e\<rparr> else x)"
  define s1 where "s1 = s\<lparr>invoice_lines := map h (invoice_lines s)\<rparr>"
  from run obtain d' l1 sa l2 sb where
    a: "save_fields e invoice_lines_update True (\<lambda>x. x\<lparr>updated_by := by\<rparr>) l0 s = Inr (l1, sa)"
    and b: "save_fields e invoice_lines_update True
      (\<lambda>x. x\<lparr>is_deleted := True, deleted_at := Some (now e)\<rparr>) l1 sa = Inr (l2, sb)"
    and up': "recompute e d sb = Inr (d', s')"
    by (auto simp: x0 remove_line_body_def bind_res_Inr_iff)
  have "sb = s1"
    by (auto simp: mark_line_Inr [OF b] mark_line_Inr [OF a] s1_def h_def)
  with up' have up: "recompute e d s1 = Inr (d', s')" by simp
  from x obtain r where r: "r \<in> set (invoice_lines s)" "pk r = pk l0" "ln_draft r = pk d"
    unfolding in_hand_def x0 by auto
  have one: "x = r" if "x \<in> set (invoice_lines s)" "pk x = pk l0" for x
    using distinct_map_unique [OF invoices_okD(2) that(1) r(1)] ok that(2) r(2) by (simp add: billing_ok_def)
  have "live_lines k s1 = live_lines k s" if "k \<noteq> pk d" for k
  proof -
    have "filter (\<lambda>l. ln_draft l = k \<and> \<not> is_deleted l) (map h rows) =
        filter (\<lambda>l. ln_draft l = k \<and> \<not> is_deleted l) rows" if "set rows \<subseteq> set (invoice_lines s)" for rows
      using that one r(3) \<open>k \<noteq> pk d\<close> by (induction rows) (auto simp: h_def)
    then show ?thesis by (simp add: live_lines_def s1_def)
  qed
  moreover have "invoices_ok s1"
    by (rule lines_marked_keeps [OF conjunct1 [OF ok [unfolded billing_ok_def]] s1_def])
      (auto simp: h_def lines_clash_def split: if_splits)
  ultimately show ?thesis by (intro edit_restores [OF ok d _ _ _ up]) (simp_all add: s1_def)
qed


text \<open>An invoice saved with other words, or moved on: the others keep their figures.\<close>

lemma replaced_billing_ok:
  assumes ok: "billing_ok s" and d: "d \<in> set (invoices s)"
    and d': "pk d' = pk d" "company_id d' = company_id d" "adds_up s d'"
      "unique_with invoices_clash d' (filter (\<lambda>x. pk x \<noteq> pk d) (invoices s))"
    and s': "s' = s\<lparr>invoices := update_where (\<lambda>x. pk x = pk d) (\<lambda>_. d') (invoices s)\<rparr>"
  shows "billing_ok s'"
proof -
  note ok' = conjunct1 [OF ok [unfolded billing_ok_def]]
  have "invoices_ok s'"
    by (rule invoices_ok_replace [OF ok' d d'(1,2,4)]) (simp_all add: s')
  moreover have "adds_up s' i" if i: "i \<in> set (invoices s')" for i
  proof -
    have live: "live_lines (pk i) s' = live_lines (pk i) s" by (simp add: s' live_lines_def)
    have "i \<in> set (update_where (\<lambda>x. pk x = pk d) (\<lambda>_. d') (invoices s))" using i by (simp add: s')
    from replaced_cases [OF this] have "adds_up s i" using ok d'(3) by (auto simp: billing_ok_def)
    then show ?thesis using adds_up_cong [OF live] by simp
  qed
  ultimately show ?thesis by (simp add: billing_ok_def)
qed

lemma update_invoice_Inr:
  assumes "update_invoice e i s = Inr (d', s')"
  shows "d' = i\<lparr>updated_at := now e\<rparr>"
    and "s' = s\<lparr>invoices := update_where (\<lambda>x. pk x = pk i) (\<lambda>_. d') (invoices s)\<rparr>"
    and "unique_with invoices_clash d' (filter (\<lambda>x. pk x \<noteq> pk i) (invoices s))"
proof -
  from assms show d': "d' = i\<lparr>updated_at := now e\<rparr>"
    by (simp add: update_invoice_def db_update_def Let_def split: if_splits)
  from assms have "s' = invoices_update (update_where (\<lambda>x. pk x = pk i) (\<lambda>_. d')) s"
    and u: "unique_with invoices_clash i (filter (\<lambda>x. pk x \<noteq> pk i) (invoices s))"
    by (simp_all add: update_invoice_def db_update_def Let_def split: if_splits) auto
  from invoices_update_to [OF this(1)]
  show "s' = s\<lparr>invoices := update_where (\<lambda>x. pk x = pk i) (\<lambda>_. d') (invoices s)\<rparr>" .
  from u show "unique_with invoices_clash d' (filter (\<lambda>x. pk x \<noteq> pk i) (invoices s))"
    by (simp add: d' unique_with_def)
qed

definition edit_draft_body ::
  "env \<Rightarrow> pk \<times> draft_change list \<times> pk option \<Rightarrow> invoice \<Rightarrow> 'a books_scheme \<Rightarrow> (invoice \<times> 'a books_scheme) result" where
  "edit_draft_body e x d s = (case x of (k, changes, by) \<Rightarrow>
    update_invoice e ((fold change_draft changes d)\<lparr>updated_by := by\<rparr>) s)"

lemma change_draft_same:
  "\<exists>t. fold change_draft changes d = d\<lparr>inv_notes := t\<rparr>"
proof (induction changes arbitrary: d)
  case Nil
  show ?case by (rule exI [of _ "inv_notes d"]) simp
next
  case (Cons c cs)
  obtain t where c: "c = Set_notes t" by (cases c)
  from Cons [of "d\<lparr>inv_notes := t\<rparr>"] obtain u where "fold change_draft cs (d\<lparr>inv_notes := t\<rparr>) =
    d\<lparr>inv_notes := t\<rparr>\<lparr>inv_notes := u\<rparr>" by blast
  then show ?case by (intro exI [of _ u]) (simp add: c)
qed

lemma edit_draft_body_keeps:
  assumes ok: "billing_ok s" and d: "d \<in> set (invoices s)" "visible (ctx e) d"
    and run: "edit_draft_body e x d s = Inr (d', s')"
  shows "billing_ok s'"
proof -
  obtain k changes "by" where x: "x = (k, changes, by)" by (cases x) auto
  obtain t where t: "fold change_draft changes d = d\<lparr>inv_notes := t\<rparr>" using change_draft_same by blast
  from run have up: "update_invoice e (d\<lparr>inv_notes := t, updated_by := by\<rparr>) s = Inr (d', s')"
    by (simp add: edit_draft_body_def x t)
  note u = update_invoice_Inr [OF up]
  have same: "pk d' = pk d" "company_id d' = company_id d" "inv_status d' = inv_status d"
    "is_deleted d' = is_deleted d" "inv_vat_rate d' = inv_vat_rate d" "inv_subtotal d' = inv_subtotal d"
    "inv_vat_amount d' = inv_vat_amount d" "inv_total d' = inv_total d"
    by (simp_all add: u(1))
  have "adds_up s d'" using ok d(1) same by (auto simp: billing_ok_def adds_up_def)
  then show ?thesis
    by (rule replaced_billing_ok [OF ok d(1) same(1,2)]) (use u(2,3) in simp_all)
qed

interpretation line_adding: draft_edit "\<lambda>x. fst x" "\<lambda>_ _. True"
    "\<lambda>e (k, description, quantity, unit_price, by) s. add_line e k description quantity unit_price by s"
    add_line_body
  by (unfold_locales; (auto simp: add_line_def add_line_body_def split: prod.splits; fail)?)
    (blast intro: add_line_body_keeps)

interpretation line_editing: draft_edit "\<lambda>x. ln_draft (fst x)" "\<lambda>x s. in_hand (fst x) s"
    "\<lambda>e (l, changes, by) s. edit_line e l changes by s" edit_line_body
  by (unfold_locales; (auto simp: edit_line_def edit_line_body_def split: prod.splits; fail)?)
    (blast intro: edit_line_body_keeps)

interpretation line_removing: draft_edit "\<lambda>x. ln_draft (fst x)" "\<lambda>x s. in_hand (fst x) s"
    "\<lambda>e (l, by) s. bind_res (remove_line e l by s) (\<lambda>s. Inr ((), s))" remove_line_body
  by unfold_locales
    (auto simp: remove_line_def remove_line_body_def bind_res_assoc case_prod_unfold
      intro: remove_line_body_keeps)

interpretation draft_editing: draft_edit "\<lambda>x. fst x" "\<lambda>_ _. True"
    "\<lambda>e (k, changes, by) s. edit_draft e k changes by s" edit_draft_body
  by (unfold_locales; (auto simp: edit_draft_def edit_draft_body_def split: prod.splits; fail)?)
    (blast intro: edit_draft_body_keeps)


section \<open>Issuing\<close>

text \<open>What the ledger does beside billing: no invoice and no line changes.\<close>

definition beside_billing :: "'a books_scheme \<Rightarrow> 'a books_scheme \<Rightarrow> bool" where
  "beside_billing s s' \<longleftrightarrow> invoices s' = invoices s \<and> invoice_lines s' = invoice_lines s \<and> next_pk s \<le> next_pk s'"

lemma beside_billing_ok: "beside_billing s s' \<Longrightarrow> billing_ok s \<Longrightarrow> billing_ok s'"
proof -
  assume b: "beside_billing s s'" and ok: "billing_ok s"
  have "invoices_ok s'"
    using b conjunct1 [OF ok [unfolded billing_ok_def]]
    unfolding beside_billing_def invoices_ok_def by (auto intro: less_le_trans)
  moreover have "adds_up s' i = adds_up s i" for i
    by (rule adds_up_cong) (use b in \<open>simp add: beside_billing_def live_lines_def\<close>)
  ultimately show "billing_ok s'" using ok b by (simp add: billing_ok_def beside_billing_def)
qed

lemma beside_billing_trans: "beside_billing s t \<Longrightarrow> beside_billing t u \<Longrightarrow> beside_billing s u"
  by (auto simp: beside_billing_def)

lemma add_movements_beside [simp]: "beside_billing s (add_movements ms s)"
  by (simp add: beside_billing_def)

lemma account_for_customer_beside:
  assumes "account_for_customer e c currency s = Inr (a, s')"
  shows "beside_billing s s'"
  using assms
  by (auto simp: account_for_customer_def Let_def insert_account_Inr_iff beside_billing_def
      split: option.splits sum.splits exn.splits)

lemma post_invoice_Inr:
  assumes "post_invoice e k by dt s = Inr (m, s')"
  shows "beside_billing s s'"
    and "\<exists>i. get_invoice e k s = Inr i \<and> payable i \<and>
      (case m of
         None \<Rightarrow> s' = s \<and> (invoice_movement (pk i) s \<noteq> None \<or> inv_total i = 0)
       | Some m \<Rightarrow> movements s' = movements s @ [m] \<and> mv_amount m = inv_total i \<and>
           mv_direction m = Some Debit \<and> mv_cash m = None \<and> mv_source m = Invoice_src \<and>
           of_document (invoice_type, pk i) m \<and>
           (\<exists>a \<in> set (accounts s'). mv_account m = Some (pk a) \<and> acc_customer a = Some (inv_customer i)))"
proof -
  from assms obtain i where i: "get_invoice e k s = Inr i" "payable i" "inv_date i \<noteq> None"
    by (auto simp: post_invoice_def bind_res_Inr_iff split: if_splits option.splits)
  then obtain d where d: "inv_date i = Some d" by blast
  have "beside_billing s s' \<and> (case m of
         None \<Rightarrow> s' = s \<and> (invoice_movement (pk i) s \<noteq> None \<or> inv_total i = 0)
       | Some m \<Rightarrow> movements s' = movements s @ [m] \<and> mv_amount m = inv_total i \<and>
           mv_direction m = Some Debit \<and> mv_cash m = None \<and> mv_source m = Invoice_src \<and>
           of_document (invoice_type, pk i) m \<and>
           (\<exists>a \<in> set (accounts s'). mv_account m = Some (pk a) \<and> acc_customer a = Some (inv_customer i)))"
  proof (cases "invoice_movement (pk i) s \<noteq> None \<or> inv_total i = 0")
    case True
    with assms i d have "m = None" "s' = s" by (auto simp: post_invoice_def)
    with True show ?thesis by (simp add: beside_billing_def)
  next
    case False
    with assms i(1,2) d obtain c acc s1 m' where
      c: "get_row (inv_customer i) (objects (ctx e) (customers s)) = Inr c"
      and a: "account_for_customer e c (inv_currency i) s = Inr (acc, s1)"
      and po: "post e (Some acc) None (Some (direction_value Debit)) None (Finite (inv_total i))
        (inv_currency i) (case dt of Some d \<Rightarrow> d | None \<Rightarrow> d)
        (source_value Invoice_src) (Some (invoice_type, pk i)) (invoice_description i) by s1 = Inr (m', s')"
      and m: "m = Some m'"
      by (auto simp: post_invoice_def bind_res_Inr_iff)
    note p = post_Inr [OF po]
    have "pk c = inv_customer i" using c by (auto simp: get_row_Inr_iff dest: by_pk_SomeD)
    moreover have "beside_billing s s'"
      unfolding p(2) by (rule beside_billing_trans [OF account_for_customer_beside [OF a]]) simp
    moreover have "mv_source m' = Invoice_src" using p(8) by (simp only: choice_of_value option.inject)
    moreover have "mv_account m' = Some (pk acc)" "mv_cash m' = None"
      using p(1) by (simp_all add: posting_ok_def)
    moreover have "acc \<in> set (accounts s')" using account_for_customer_Inr(3) [OF a] by (simp add: p(2))
    moreover have "movements s' = movements s @ [m']"
      using account_for_customer_frame(1) [OF a] by (simp add: p(2))
    moreover have "mv_direction m' = Some Debit" "of_document (invoice_type, pk i) m'"
      using p(9,11,12) by (simp_all add: of_document_def)
    ultimately show ?thesis
      using account_for_customer_Inr(1) [OF a] p(6) m by auto
  qed
  with i show "beside_billing s s'" and "\<exists>i. get_invoice e k s = Inr i \<and> payable i \<and>
      (case m of
         None \<Rightarrow> s' = s \<and> (invoice_movement (pk i) s \<noteq> None \<or> inv_total i = 0)
       | Some m \<Rightarrow> movements s' = movements s @ [m] \<and> mv_amount m = inv_total i \<and>
           mv_direction m = Some Debit \<and> mv_cash m = None \<and> mv_source m = Invoice_src \<and>
           of_document (invoice_type, pk i) m \<and>
           (\<exists>a \<in> set (accounts s'). mv_account m = Some (pk a) \<and> acc_customer a = Some (inv_customer i)))"
    by blast+
qed

text \<open>Bringing issued invoices in step with their collections leaves billing in order.\<close>

lemma restatus_payable: "restatus i j \<Longrightarrow> j \<noteq> i \<Longrightarrow> inv_status i \<noteq> Draft \<and> inv_status j \<noteq> Draft"
  by (auto simp: restatus_def payable_def)

lemma restatus_clash:
  assumes "restatus i i'" "restatus j j'" "invoices_clash i' j'"
  shows "invoices_clash i j"
proof -
  have same: "(inv_status x' = Cancelled) = (inv_status x = Cancelled)"
    "(inv_status x' \<in> {Issued, Paid}) = (inv_status x \<in> {Issued, Paid})"
    "inv_contract x' = inv_contract x" "inv_period_start x' = inv_period_start x"
    "is_deleted x' = is_deleted x" "company_id x' = company_id x" "inv_number x' = inv_number x"
    if "restatus x x'" for x x'
    using that by (auto simp: restatus_def payable_def)
  show ?thesis
    using assms(3) unfolding invoices_clash_def same [OF assms(1)] same [OF assms(2)] .
qed

lemma only_invoices_billing_ok:
  assumes o: "only_invoices s s'" and ok: "billing_ok s"
  shows "billing_ok s'"
proof -
  note f = only_invoices_frame [OF o] and ok' = conjunct1 [OF ok [unfolded billing_ok_def]]
  have old: "\<exists>i \<in> set (invoices s). restatus i j" if "j \<in> set (invoices s')" for j
    using list_all2_setD [OF f(11) that] .
  have new: "\<exists>j \<in> set (invoices s'). restatus i j" if "i \<in> set (invoices s)" for i
    using list_all2_setD1 [OF f(11) that] .
  have dist: "distinct (map pk (invoices s'))" using invoices_okD(1) [OF ok'] f(9) by simp
  have "all_unique invoices_clash (invoices s')"
    unfolding all_unique_def
  proof (intro ballI impI)
    fix x y
    assume x: "x \<in> set (invoices s')" and y: "y \<in> set (invoices s')" and c: "invoices_clash x y"
    from old [OF x] old [OF y] obtain i j where
      i: "i \<in> set (invoices s)" "restatus i x" and j: "j \<in> set (invoices s)" "restatus j y" by blast
    from restatus_clash [OF i(2) j(2) c] i(1) j(1) invoices_okD(5) [OF ok'] have "i = j"
      by (simp add: all_unique_def)
    then have "pk x = pk y" using restatus_same [OF i(2)] restatus_same [OF j(2)] by simp
    then show "x = y" using distinct_map_unique [OF dist x y] by simp
  qed
  moreover have "\<exists>i \<in> set (invoices s'). pk i = ln_draft l \<and> company_id i = company_id l"
    if l: "l \<in> set (invoice_lines s)" for l
    using invoices_okD(7) [OF ok' l] new restatus_same by metis
  moreover have "pk j < next_pk s'" if "j \<in> set (invoices s')" for j
    using old [OF that] invoices_okD(3) [OF ok'] restatus_same f(4) by metis
  ultimately have "invoices_ok s'"
    using dist invoices_okD(2,4,6) [OF ok'] by (simp add: invoices_ok_def f(4,10))
  moreover have "adds_up s' j" if j: "j \<in> set (invoices s')" for j
  proof -
    from old [OF j] obtain i where i: "i \<in> set (invoices s)" "restatus i j" by blast
    show ?thesis
    proof (cases "j = i")
      case True
      with i(1) ok have "adds_up s j" by (simp add: billing_ok_def)
      moreover have "live_lines (pk j) s' = live_lines (pk j) s" by (simp add: live_lines_def f(10))
      ultimately show ?thesis using adds_up_cong by blast
    next
      case False
      with restatus_payable [OF i(2)] show ?thesis by (simp add: not_draft_adds_up)
    qed
  qed
  ultimately show ?thesis by (simp add: billing_ok_def)
qed


text \<open>The invoice brought in step is the one asked for, with at most its status changed.\<close>

lemma sync_result:
  assumes "sync_invoice_status e k s = Inr (i, s')"
  shows "\<exists>l. get_invoice e k s = Inr l \<and> restatus l i \<and> (payable l \<longrightarrow> inv_status i \<in> {Issued, Paid})"
proof -
  from assms obtain l where l: "get_invoice e k s = Inr l"
    by (auto simp: sync_invoice_status_def bind_res_Inr_iff)
  have st: "fst (status_by_collections l s) \<in> {Issued, Paid}" by (auto simp: status_by_collections_def)
  with assms l show ?thesis
    by (intro exI [of _ l])
      (auto simp: sync_invoice_status_def restatus_def Let_def update_invoice_def db_update_def payable_def
        split: if_splits)
qed

definition issue_body ::
  "env \<Rightarrow> pk \<times> string \<times> date \<times> pk option \<Rightarrow> invoice \<Rightarrow> 'a books_scheme \<Rightarrow> (invoice \<times> 'a books_scheme) result" where
  "issue_body e x d s = (case x of (k, invoice_number, invoice_date, by) \<Rightarrow>
    if \<exists>l \<in> set (lines_of e (pk d) s). ln_needs_price l
    then Inl (Business_rule_error INVOICE_LINES_NEED_PRICE)
    else if number_taken e d invoice_number s then Inl (Duplicate_record DUPLICATE_INVOICE_NUMBER)
    else bind_res (recompute e d s) (\<lambda>(d, s).
    bind_res (save_invoice e (\<lambda>x. x\<lparr>inv_status := Issued, inv_number := invoice_number,
        inv_date := Some invoice_date, updated_by := by\<rparr>) d s) (\<lambda>(d, s).
    bind_res (post_invoice e (pk d) by None s) (\<lambda>(_, s).
    sync_invoice_status e (pk d) s))))"

lemma issue_body_steps:
  assumes "issue_body e (k, num, dt, by) d s = Inr (i, s')"
  obtains d1 s1 d2 s2 m s3 where
    "\<forall>l \<in> set (lines_of e (pk d) s). \<not> ln_needs_price l"
    "recompute e d s = Inr (d1, s1)"
    "save_invoice e (\<lambda>x. x\<lparr>inv_status := Issued, inv_number := num,
        inv_date := Some dt, updated_by := by\<rparr>) d1 s1 = Inr (d2, s2)"
    "post_invoice e (pk d2) by None s2 = Inr (m, s3)"
    "sync_invoice_status e (pk d2) s3 = Inr (i, s')"
proof -
  from assms have fine: "\<forall>l \<in> set (lines_of e (pk d) s). \<not> ln_needs_price l"
    by (auto simp: issue_body_def split: if_splits)
  from assms have "bind_res (recompute e d s) (\<lambda>(d, s).
    bind_res (save_invoice e (\<lambda>x. x\<lparr>inv_status := Issued, inv_number := num,
        inv_date := Some dt, updated_by := by\<rparr>) d s) (\<lambda>(d, s).
    bind_res (post_invoice e (pk d) by None s) (\<lambda>(_, s).
    sync_invoice_status e (pk d) s))) = Inr (i, s')"
    by (simp add: issue_body_def split: if_splits)
  then show ?thesis by (elim run_elims) (hypsubst, rule that [OF fine], assumption+)
qed

text \<open>What has been recomputed is the row of the table, before and after it is issued.\<close>

lemma replaced_member:
  "d \<in> set rows \<Longrightarrow> pk d = k \<Longrightarrow> r \<in> set (update_where (\<lambda>x. pk x = k) (\<lambda>_. r) rows)"
  by (auto simp: set_update_where image_iff)

lemma issue_body_Inr:
  assumes ok: "billing_ok s" and d: "d \<in> set (invoices s)" "visible (ctx e) d"
    and run: "issue_body e (k, num, dt, by) d s = Inr (i, s')"
  shows "billing_ok s'" and "inv_status i \<in> {Issued, Paid}" and "inv_number i = num"
    and "inv_date i = Some dt" and "pk i = pk d"
    and "movements s' = movements s \<or> (\<exists>m. movements s' = movements s @ [m] \<and> mv_amount m = inv_total i \<and>
      mv_direction m = Some Debit \<and> mv_cash m = None \<and> of_document (invoice_type, pk i) m)"
    and "movements s' = movements s \<Longrightarrow> inv_total i = 0 \<or> invoice_movement (pk i) s \<noteq> None"
proof -
  obtain d1 s1 d2 s2 m s3 where rec: "recompute e d s = Inr (d1, s1)"
    and sv: "save_invoice e (\<lambda>x. x\<lparr>inv_status := Issued, inv_number := num,
        inv_date := Some dt, updated_by := by\<rparr>) d1 s1 = Inr (d2, s2)"
    and po: "post_invoice e (pk d2) by None s2 = Inr (m, s3)"
    and sy: "sync_invoice_status e (pk d2) s3 = Inr (i, s')"
    by (rule issue_body_steps [OF run])
  note ok0 = conjunct1 [OF ok [unfolded billing_ok_def]]
  note r = recompute_Inr [OF ok0 d rec]
  have ok1: "billing_ok s1"
    by (rule recompute_restores [OF ok0 d _ rec]) (use ok in \<open>simp add: billing_ok_def\<close>)
  note ok1' = conjunct1 [OF ok1 [unfolded billing_ok_def]]
  have d1: "d1 \<in> set (invoices s1)" using replaced_member [OF d(1) refl] by (simp add: r(5))
  note v = save_invoice_Inr [OF invoices_okD(1) [OF ok1'] d1 sv]
  have st2: "inv_status d2 = Issued" "inv_number d2 = num" "inv_date d2 = Some dt" "pk d2 = pk d"
    "company_id d2 = company_id d1" "is_deleted d2 = is_deleted d1" "inv_cancelled_at d2 = inv_cancelled_at d1"
    "pk d1 = pk d"
    using r(3) by (simp_all add: v(1))
  have "adds_up s1 d2" using st2(1) by (simp add: not_draft_adds_up)
  moreover have u: "unique_with invoices_clash d2 (filter (\<lambda>x. pk x \<noteq> pk d1) (invoices s1))"
    using v(4) by (simp add: v(1) unique_with_def)
  ultimately have ok2: "billing_ok s2"
    by (intro replaced_billing_ok [OF ok1 d1 _ st2(5) _ u v(2)]) (simp_all add: st2)
  note pi = post_invoice_Inr [OF po]
  have ok3: "billing_ok s3" by (rule beside_billing_ok [OF pi(1) ok2])
  note dist3 = invoices_okD(1) [OF conjunct1 [OF ok3 [unfolded billing_ok_def]]]
  note o = sync_one(1) [OF dist3 sy]
  show "billing_ok s'" by (rule only_invoices_billing_ok [OF o ok3])
  have d2: "d2 \<in> set (invoices s2)" using replaced_member [OF d1 refl] by (simp add: v(2))
  have one: "j = d2" if "get_invoice e (pk d2) u = Inr j" "invoices u = invoices s2" for j and u :: "'a books_scheme"
    using distinct_map_unique [of pk "invoices s2" j d2] get_invoice_Inr [OF that(1)] that(2) d2
      dist3 pi(1) by (simp add: beside_billing_def)
  from sync_result [OF sy] one [of s3] pi(1) have res: "restatus d2 i"
    by (auto simp: beside_billing_def)
  note same = restatus_same [OF res]
  show "inv_number i = num" "inv_date i = Some dt" "pk i = pk d" using same st2 by simp_all
  show "inv_status i \<in> {Issued, Paid}" using res st2(1) by (auto simp: restatus_def)
  have mv2: "movements s2 = movements s" by (simp add: v(2) r(5))
  note mv3 = only_invoices_frame(1) [OF o]
  from pi(2) one [of s2] obtain "payable d2" and m: "case m of
      None \<Rightarrow> s3 = s2 \<and> (invoice_movement (pk d2) s2 \<noteq> None \<or> inv_total d2 = 0)
    | Some m \<Rightarrow> movements s3 = movements s2 @ [m] \<and> mv_amount m = inv_total d2 \<and>
        mv_direction m = Some Debit \<and> mv_cash m = None \<and> mv_source m = Invoice_src \<and>
        of_document (invoice_type, pk d2) m \<and>
        (\<exists>a \<in> set (accounts s3). mv_account m = Some (pk a) \<and> acc_customer a = Some (inv_customer d2))"
    by auto
  show "movements s' = movements s \<or> (\<exists>m. movements s' = movements s @ [m] \<and> mv_amount m = inv_total i \<and>
      mv_direction m = Some Debit \<and> mv_cash m = None \<and> of_document (invoice_type, pk i) m)"
    using m mv2 mv3 same by (cases m) auto
  show "inv_total i = 0 \<or> invoice_movement (pk i) s \<noteq> None" if "movements s' = movements s"
    using m mv2 mv3 same that by (cases m) (auto simp: invoice_movement_def)
qed

interpretation issuing: draft_edit "\<lambda>x. fst x" "\<lambda>_ _. True"
    "\<lambda>e (k, invoice_number, invoice_date, by) s. issue e k invoice_number invoice_date by s" issue_body
  by (unfold_locales; (auto simp: issue_def issue_body_def split: prod.splits; fail)?)
    (auto intro: issue_body_Inr(1))

lemma issue_Inr:
  assumes "issue e k num dt by s = Inr (i, s')"
  obtains d where "get_invoice e k s = Inr d" "inv_status d = Draft" "issue_body e (k, num, dt, by) d s = Inr (i, s')"
  using issuing.run_Inr [of e "(k, num, dt, by)" s i s'] assms by auto


section \<open>Cancelling\<close>

text \<open>The lines that hold their fault.\<close>

definition holds_fault :: "invoice_line \<Rightarrow> bool" where
  "holds_fault l \<longleftrightarrow> ln_fault l \<noteq> None \<and> \<not> ln_fault_released l \<and> \<not> is_deleted l"

text \<open>What giving back one fault does to every line.\<close>

lemma release_fault_Inr:
  assumes "release_fault e l s = Inr s'"
  shows "s' = s\<lparr>invoice_lines := map (\<lambda>x. if pk x = pk l
      then x\<lparr>ln_fault_released := True, updated_at := now e\<rparr> else x) (invoice_lines s)\<rparr>"
  using assms by (auto simp: release_fault_def bind_res_Inr_iff dest: mark_line_Inr(2))

lemma release_fault_keeps:
  assumes "billing_ok s" "release_fault e l s = Inr s'"
  shows "billing_ok s'"
proof -
  note s' = release_fault_Inr [OF assms(2)]
  have "invoices_ok s'"
    by (rule lines_marked_keeps [OF conjunct1 [OF assms(1) [unfolded billing_ok_def]] s'])
      (auto simp: lines_clash_def split: if_splits)
  moreover have "adds_up s' i = adds_up s i" for i
  proof -
    have "map ln_amount (filter P (map (\<lambda>x. if pk x = pk l then x\<lparr>ln_fault_released := True, updated_at := now e\<rparr> else x) rows)) =
      map ln_amount (filter P rows)"
      if "\<And>x. P (x\<lparr>ln_fault_released := True, updated_at := now e\<rparr>) = P x" for rows and P :: "invoice_line \<Rightarrow> bool"
      using that by (induction rows) simp_all
    then have "map ln_amount (live_lines (pk i) s') = map ln_amount (live_lines (pk i) s)"
      by (simp add: live_lines_def s')
    then show ?thesis by (simp add: adds_up_def)
  qed
  moreover have "invoices s' = invoices s" by (simp add: s')
  ultimately show ?thesis using assms(1) by (simp add: billing_ok_def)
qed

lemma release_all_faults:
  assumes "fold_res (release_fault e) ls s = Inr s'"
  shows "\<exists>h. s' = s\<lparr>invoice_lines := map h (invoice_lines s)\<rparr> \<and>
    (\<forall>x. pk (h x) = pk x \<and> ln_draft (h x) = ln_draft x \<and> ln_fault (h x) = ln_fault x \<and>
      is_deleted (h x) = is_deleted x \<and> company_id (h x) = company_id x \<and>
      (ln_fault_released (h x) \<longleftrightarrow> ln_fault_released x \<or> pk x \<in> pk ` set ls))"
  using assms
proof (induction ls arbitrary: s)
  case Nil
  then show ?case by (intro exI [of _ "\<lambda>x. x"]) simp
next
  case (Cons l ls)
  then obtain s1 where one: "release_fault e l s = Inr s1" and rest: "fold_res (release_fault e) ls s1 = Inr s'"
    by (auto simp: bind_res_Inr_iff)
  define g where "g = (\<lambda>x :: invoice_line. if pk x = pk l then x\<lparr>ln_fault_released := True, updated_at := now e\<rparr> else x)"
  have s1: "s1 = s\<lparr>invoice_lines := map g (invoice_lines s)\<rparr>" using release_fault_Inr [OF one] by (simp add: g_def)
  from Cons.IH [OF rest] obtain h where h: "s' = s1\<lparr>invoice_lines := map h (invoice_lines s1)\<rparr>"
    "\<forall>x. pk (h x) = pk x \<and> ln_draft (h x) = ln_draft x \<and> ln_fault (h x) = ln_fault x \<and>
      is_deleted (h x) = is_deleted x \<and> company_id (h x) = company_id x \<and>
      (ln_fault_released (h x) \<longleftrightarrow> ln_fault_released x \<or> pk x \<in> pk ` set ls)"
    by blast
  have "s' = s\<lparr>invoice_lines := map (\<lambda>x. h (g x)) (invoice_lines s)\<rparr>"
    by (simp add: h(1) s1 comp_def)
  moreover have "\<forall>x. pk (h (g x)) = pk x \<and> ln_draft (h (g x)) = ln_draft x \<and> ln_fault (h (g x)) = ln_fault x \<and>
      is_deleted (h (g x)) = is_deleted x \<and> company_id (h (g x)) = company_id x \<and>
      (ln_fault_released (h (g x)) \<longleftrightarrow> ln_fault_released x \<or> pk x \<in> pk ` set (l # ls))"
    using h(2) by (auto simp: g_def)
  ultimately show ?case by (intro exI [of _ "\<lambda>x. h (g x)"]) blast
qed

lemma reverse_invoice_Inr:
  assumes "reverse_invoice e k by s = Inr s'"
  obtains i where "get_invoice e k s = Inr i" "invoice_collected i s \<le> 0"
    "invoice_movement (pk i) s = None \<and> s' = s \<or>
     (\<exists>rs. reverse_document e (invoice_type, pk i) (today e) by Invoice_cancel_src s = Inr (rs, s'))"
  using assms by (auto simp: reverse_invoice_def bind_res_Inr_iff not_less split: if_splits)

lemma reverse_invoice_beside:
  assumes "reverse_invoice e k by s = Inr s'"
  shows "beside_billing s s'"
  using reverse_invoice_Inr [OF assms]
proof cases
  case (1 i)
  then show ?thesis by (auto simp: beside_billing_def dest: reverse_document_Inr(1))
qed

lemma cancel_invoice_steps:
  assumes "cancel_invoice e k reason by s = Inr (i, s')"
  obtains d s1 s2 where "get_invoice e k s = Inr d" "inv_status d \<noteq> Cancelled"
    "(if inv_status d \<noteq> Draft then reverse_invoice e (pk d) by s else Inr s) = Inr s1"
    "save_invoice e (\<lambda>x. x\<lparr>inv_status := Cancelled, inv_cancelled_at := Some (now e),
        inv_cancel_reason := reason, updated_by := by\<rparr>) d s1 = Inr (i, s2)"
    "fold_res (release_fault e)
        (filter (\<lambda>l. ln_fault l \<noteq> None \<and> \<not> ln_fault_released l) (lines_of e (pk i) s2)) s2 = Inr s'"
proof -
  from assms obtain d where d: "get_invoice e k s = Inr d"
    by (auto simp: cancel_invoice_def bind_res_Inr_iff)
  with assms have st: "inv_status d \<noteq> Cancelled"
    by (auto simp: cancel_invoice_def)
  then have "inv_status d \<in> {Draft, Issued, Paid}" by (cases "inv_status d") simp_all
  with assms d have "bind_res (if inv_status d \<noteq> Draft then reverse_invoice e (pk d) by s else Inr s) (\<lambda>s.
    bind_res (save_invoice e (\<lambda>x. x\<lparr>inv_status := Cancelled, inv_cancelled_at := Some (now e),
        inv_cancel_reason := reason, updated_by := by\<rparr>) d s) (\<lambda>(d, s).
    bind_res (fold_res (release_fault e)
        (filter (\<lambda>l. ln_fault l \<noteq> None \<and> \<not> ln_fault_released l) (lines_of e (pk d) s)) s) (\<lambda>s.
    Inr (d, s)))) = Inr (i, s')"
    by (simp only: cancel_invoice_def bind_res.simps) simp
  then show ?thesis
    by (elim run_elims) (hypsubst, rule that [OF d st], assumption+)
qed

text \<open>
  A cancelled invoice holds no fault any more, its movements are taken back, and billing stays
  in order.
\<close>

lemma cancel_invoice_Inr:
  assumes ok: "billing_ok s" and run: "cancel_invoice e k reason by s = Inr (i, s')"
  shows "billing_ok s'" and "inv_status i = Cancelled" and "pk i = k"
    and "l \<in> set (invoice_lines s') \<Longrightarrow> ln_draft l = k \<Longrightarrow> \<not> holds_fault l"
    and "\<exists>d s1. get_invoice e k s = Inr d \<and> movements s' = movements s1 \<and>
      (if inv_status d = Draft then s1 = s else reverse_invoice e k by s = Inr s1)"
proof -
  obtain d s1 s2 where d: "get_invoice e k s = Inr d" "inv_status d \<noteq> Cancelled"
    and rv: "(if inv_status d \<noteq> Draft then reverse_invoice e (pk d) by s else Inr s) = Inr s1"
    and sv: "save_invoice e (\<lambda>x. x\<lparr>inv_status := Cancelled, inv_cancelled_at := Some (now e),
        inv_cancel_reason := reason, updated_by := by\<rparr>) d s1 = Inr (i, s2)"
    and rel: "fold_res (release_fault e)
        (filter (\<lambda>l. ln_fault l \<noteq> None \<and> \<not> ln_fault_released l) (lines_of e (pk i) s2)) s2 = Inr s'"
    by (rule cancel_invoice_steps [OF run])
  note g = get_invoice_Inr [OF d(1)]
  have b: "beside_billing s s1"
  proof (cases "inv_status d = Draft")
    case True
    with rv show ?thesis by (simp add: beside_billing_def)
  next
    case False
    with rv show ?thesis by (simp add: reverse_invoice_beside)
  qed
  have ok1: "billing_ok s1" by (rule beside_billing_ok [OF b ok])
  note ok1' = conjunct1 [OF ok1 [unfolded billing_ok_def]]
  have d1: "d \<in> set (invoices s1)" using g b by (simp add: beside_billing_def)
  note v = save_invoice_Inr [OF invoices_okD(1) [OF ok1'] d1 sv]
  show st: "inv_status i = Cancelled" and pk: "pk i = k" using g by (simp_all add: v(1))
  have ok2: "billing_ok s2"
    by (rule replaced_billing_ok [OF ok1 d1 _ _ _ _ v(2)])
      (use v(4) in \<open>simp_all add: v(1) not_draft_adds_up unique_with_def\<close>)
  note ok2' = conjunct1 [OF ok2 [unfolded billing_ok_def]]
  show "billing_ok s'"
    by (rule fold_res_invariant [where P = billing_ok, OF rel ok2]) (rule release_fault_keeps)
  have i2: "i \<in> set (invoices s2)" using replaced_member [OF d1 refl] by (simp add: v(2))
  have "visible (ctx e) i" by (rule visible_same [of _ d]) (use g in \<open>simp_all add: v(1)\<close>)
  note live = lines_of_live [OF ok2' i2 this]
  from release_all_faults [OF rel] obtain h where
    s': "s' = s2\<lparr>invoice_lines := map h (invoice_lines s2)\<rparr>"
    and h: "\<forall>x. pk (h x) = pk x \<and> ln_draft (h x) = ln_draft x \<and> ln_fault (h x) = ln_fault x \<and>
      is_deleted (h x) = is_deleted x \<and> company_id (h x) = company_id x \<and>
      (ln_fault_released (h x) \<longleftrightarrow> ln_fault_released x \<or>
        pk x \<in> pk ` set (filter (\<lambda>l. ln_fault l \<noteq> None \<and> \<not> ln_fault_released l) (lines_of e (pk i) s2)))"
    by blast
  show "\<not> holds_fault l" if l: "l \<in> set (invoice_lines s')" "ln_draft l = k"
  proof
    assume holds: "holds_fault l"
    from l(1) obtain x where x: "x \<in> set (invoice_lines s2)" "l = h x" by (auto simp: s')
    have "x \<in> set (filter (\<lambda>l. ln_fault l \<noteq> None \<and> \<not> ln_fault_released l) (lines_of e (pk i) s2))"
      using x h holds l(2) pk unfolding live by (auto simp: holds_fault_def live_lines_def)
    with h x(2) holds show False by (auto simp: holds_fault_def)
  qed
  have "movements s' = movements s1" by (simp add: s' v(2))
  with d(1) rv g show "\<exists>d s1. get_invoice e k s = Inr d \<and> movements s' = movements s1 \<and>
      (if inv_status d = Draft then s1 = s else reverse_invoice e k by s = Inr s1)"
    by (intro exI [of _ d] exI [of _ s1]) auto
qed

text \<open>An invoice that money has come in for is not cancelled.\<close>

lemma cancel_refused_if_collected:
  assumes "get_invoice e k s = Inr d" "inv_status d \<in> {Issued, Paid}" "0 < invoice_collected d s"
  shows "cancel_invoice e k reason by s = Inl (Conflict INVOICE_HAS_COLLECTIONS)"
proof -
  have "get_invoice e (pk d) s = Inr d" using assms(1) get_invoice_Inr [OF assms(1)] by simp
  with assms show ?thesis by (auto simp: cancel_invoice_def reverse_invoice_def)
qed


section \<open>Generating\<close>

lemma insert_invoice_Inr:
  assumes "insert_invoice e i s = Inr (i', s')"
  shows "i' = stamped e (next_pk s) i"
    and "s' = s\<lparr>invoices := invoices s @ [i'], next_pk := Suc (next_pk s)\<rparr>"
    and "unique_with invoices_clash i (invoices s)" and "may_save (ctx e) i" and "invoice_fits i"
    and "invoice_checks i"
proof -
  from assms show i': "i' = stamped e (next_pk s) i" and "unique_with invoices_clash i (invoices s)"
    and "may_save (ctx e) i" and "invoice_fits i" and "invoice_checks i"
    by (simp_all add: insert_invoice_def db_insert_Inr_iff)
  from assms have "s' = invoices_update (\<lambda>rows. rows @ [i']) (s\<lparr>next_pk := Suc (next_pk s)\<rparr>)"
    by (simp add: insert_invoice_def db_insert_Inr_iff)
  then show "s' = s\<lparr>invoices := invoices s @ [i'], next_pk := Suc (next_pk s)\<rparr>"
    by (cases s) simp
qed

lemma invoices_clash_stamped [simp]:
  fixes i :: invoice
  shows "invoices_clash (stamped e k i) x = invoices_clash i x"
    and "invoices_clash x (stamped e k i) = invoices_clash x i"
  by (simp_all add: invoices_clash_def stamped_def)

lemma insert_invoice_keeps:
  assumes ok: "billing_ok s" and run: "insert_invoice e i s = Inr (i', s')"
  shows "invoices_ok s'" and "i' \<in> set (invoices s')"
    and "\<And>j. j \<in> set (invoices s') \<Longrightarrow> pk j \<noteq> pk i' \<Longrightarrow> adds_up s' j"
proof -
  note ok' = conjunct1 [OF ok [unfolded billing_ok_def]] and r = insert_invoice_Inr [OF run]
  have old: "pk j < next_pk s" if "j \<in> set (invoices s)" for j using invoices_okD(3) [OF ok' that] .
  have "all_unique invoices_clash (invoices s @ [i'])"
    using r(3) by (intro all_unique_append1 [OF invoices_okD(5) [OF ok']])
      (auto simp: unique_with_def r(1) dest: clash_sym(1))
  moreover have "distinct (map pk (invoices s @ [i']))"
    using invoices_okD(1) [OF ok'] old by (force simp: r(1))
  ultimately show "invoices_ok s'"
    using invoices_okD(2-4,6,7) [OF ok'] unfolding invoices_ok_def
    by (simp add: r(2)) (fastforce simp: r(1) intro: less_SucI)
  show "i' \<in> set (invoices s')" by (simp add: r(2))
  show "adds_up s' j" if "j \<in> set (invoices s')" "pk j \<noteq> pk i'" for j
  proof -
    have "adds_up s j" using that ok by (auto simp: r(2) billing_ok_def)
    moreover have "live_lines (pk j) s' = live_lines (pk j) s" by (simp add: r(2) live_lines_def)
    ultimately show ?thesis using adds_up_cong by blast
  qed
qed

lemma save_lines_keeps:
  assumes "invoices_ok s" "d \<in> set (invoices s)" "save_lines e (company_id d) (pk d) n ls s = Inr s'"
  shows "invoices_ok s' \<and> invoices s' = invoices s \<and> (\<forall>k. k \<noteq> pk d \<longrightarrow> live_lines k s' = live_lines k s)"
  using assms
proof (induction ls arbitrary: n s)
  case Nil
  then show ?case by simp
next
  case (Cons l ls)
  from Cons.prems(3) obtain l' s1 where
    ins: "insert_line e (l\<lparr>company_id := company_id d, ln_draft := pk d, ln_position := n\<rparr>) s = Inr (l', s1)"
    and rest: "save_lines e (company_id d) (pk d) (n + 1) ls s1 = Inr s'"
    by (auto simp: bind_res_Inr_iff)
  note k = insert_line_keeps [OF Cons.prems(1) ins Cons.prems(2)]
  from Cons.IH [OF _ _ rest] k Cons.prems(2) show ?case by simp
qed

lemma create_draft_Inr:
  assumes ok: "billing_ok s" and c: "visible (ctx e) c"
    and run: "create_draft e o1 c rate p s = Inr (d, s')"
  shows "billing_ok s'" and "d \<in> set (invoices s')" and "inv_status d = Draft" and "\<not> is_deleted d"
    and "inv_contract d = pk c" and "inv_period_start d = p_start p" and "inv_period_end d = p_end p"
    and "company_id d = company_id c" and "next_pk s \<le> pk d"
proof -
  define i where "i = blank_invoice\<lparr>company_id := company_id c, inv_contract := pk c,
        inv_customer := ct_customer c, inv_period_start := p_start p, inv_period_end := p_end p,
        inv_currency := ct_currency c, inv_vat_rate := rate\<rparr>"
  from run obtain d0 s1 ls s2 where ins: "insert_invoice e i s = Inr (d0, s1)"
    and sv: "save_lines e (company_id c) (pk d0) 0 ls s1 = Inr s2"
    and rec: "recompute e d0 s2 = Inr (d, s')"
    unfolding create_draft_def i_def by (elim run_elims) blast
  note r = insert_invoice_Inr [OF ins] and k = insert_invoice_keeps [OF ok ins]
  have d0: "company_id d0 = company_id c" "inv_status d0 = Draft" "\<not> is_deleted d0" "inv_contract d0 = pk c"
    "inv_period_start d0 = p_start p" "inv_period_end d0 = p_end p"
    by (simp_all add: r(1) i_def stamped_def blank_invoice_def)
  note sl = save_lines_keeps [OF k(1,2) sv [folded d0(1)]]
  have vis: "visible (ctx e) d0"
    by (rule visible_same [OF c d0(1)]) (use d0(3) visible_not_deleted [OF c] in simp)
  have d2: "d0 \<in> set (invoices s2)" using sl k(2) by simp
  have ok2: "invoices_ok s2" using sl by blast
  have others: "adds_up s2 j" if j: "j \<in> set (invoices s2)" "pk j \<noteq> pk d0" for j
  proof -
    have "adds_up s1 j" using k(3) j sl by simp
    moreover have "live_lines (pk j) s2 = live_lines (pk j) s1" using sl j(2) by blast
    ultimately show ?thesis using adds_up_cong by blast
  qed
  show "billing_ok s'" by (rule recompute_restores [OF ok2 d2 vis others rec])
  note rr = recompute_Inr [OF ok2 d2 vis rec]
  show "d \<in> set (invoices s')" using replaced_member [OF d2 refl] by (simp add: rr(5))
  show "inv_status d = Draft" "\<not> is_deleted d" "inv_contract d = pk c" "inv_period_start d = p_start p"
    "inv_period_end d = p_end p" "company_id d = company_id c"
    using rr(4,6,7,13-15) d0 by simp_all
  show "next_pk s \<le> pk d" using rr(3) r(1) by simp
qed

lemma draft_for_Inr:
  assumes ok: "billing_ok s" and c: "visible (ctx e) c" and run: "draft_for e o1 c p s = Inr (made, s')"
  shows "billing_ok s'"
    and "made = None \<Longrightarrow> s' = s"
    and "made = Some d \<Longrightarrow> d \<in> set (invoices s') \<and> inv_status d = Draft \<and> \<not> is_deleted d \<and>
      inv_contract d = pk c \<and> inv_period_start d = p_start p \<and> inv_period_end d = p_end p \<and>
      company_id d = company_id c \<and> next_pk s \<le> pk d"
proof -
  from run obtain rate where rate: "ct_vat_rate c = Some rate"
    by (auto simp: draft_for_def split: option.splits)
  have "(made = None \<and> s' = s) \<or> (\<exists>d. made = Some d \<and> create_draft e o1 c rate p s = Inr (d, s'))"
    using run rate by (auto simp: draft_for_def split: sum.splits exn.splits prod.splits)
  then show "billing_ok s'" "made = None \<Longrightarrow> s' = s"
    "made = Some d \<Longrightarrow> d \<in> set (invoices s') \<and> inv_status d = Draft \<and> \<not> is_deleted d \<and>
      inv_contract d = pk c \<and> inv_period_start d = p_start p \<and> inv_period_end d = p_end p \<and>
      company_id d = company_id c \<and> next_pk s \<le> pk d"
    using ok create_draft_Inr [OF ok c] by auto
qed

text \<open>
  A period is drafted once: while a live invoice of the contract starts on that day, whatever
  else has changed since, drafting again makes nothing.
\<close>

lemma draft_for_once:
  assumes i: "i \<in> set (invoices s)" "\<not> is_deleted i" "inv_status i \<noteq> Cancelled"
      "inv_contract i = pk c" "inv_period_start i = p_start p"
    and run: "draft_for e o1 c p s = Inr (made, s')"
  shows "made = None"
proof -
  from run obtain rate where rate: "ct_vat_rate c = Some rate"
    by (auto simp: draft_for_def split: option.splits)
  have "\<not> create_draft e o1 c rate p s = Inr (d, t)" for d t
  proof
    assume "create_draft e o1 c rate p s = Inr (d, t)"
    then obtain x where "insert_invoice e (blank_invoice\<lparr>company_id := company_id c, inv_contract := pk c,
        inv_customer := ct_customer c, inv_period_start := p_start p, inv_period_end := p_end p,
        inv_currency := ct_currency c, inv_vat_rate := rate\<rparr>) s = Inr x"
      by (auto simp: create_draft_def bind_res_Inr_iff)
    then have "unique_with invoices_clash (blank_invoice\<lparr>company_id := company_id c, inv_contract := pk c,
        inv_customer := ct_customer c, inv_period_start := p_start p, inv_period_end := p_end p,
        inv_currency := ct_currency c, inv_vat_rate := rate\<rparr>) (invoices s)"
      using insert_invoice_Inr(3) by (cases x) blast
    with i show False by (auto simp: unique_with_def invoices_clash_def blank_invoice_def)
  qed
  with run rate show ?thesis
    by (auto simp: draft_for_def split: sum.splits exn.splits prod.splits)
qed

text \<open>Raising notifications is beside billing.\<close>

lemma create_once_beside:
  assumes "create_once e n s = Inr (made, s')"
  shows "beside_billing s s'"
  using assms
  by (auto simp: create_once_def db_insert_def Let_def beside_billing_def
      split: sum.splits exn.splits if_splits)

lemma beside_billing_refl [simp]: "beside_billing s s"
  by (simp add: beside_billing_def)

lemma notify_each_beside:
  "notify_each e n us s = Inr (created, s') \<Longrightarrow> beside_billing s s'"
proof (induction us arbitrary: s created)
  case Nil
  then show ?case by simp
next
  case (Cons u us)
  show ?case
  proof (cases "\<not> staff_is_active u \<or> is_deleted u")
    case True
    with Cons show ?thesis by simp
  next
    case False
    with Cons.prems obtain made s1 rest where
      "create_once e (n\<lparr>company_id := company_id u, nt_recipient := pk u\<rparr>) s = Inr (made, s1)"
      "notify_each e n us s1 = Inr (rest, s')"
      by (auto simp: bind_res_Inr_iff)
    with Cons.IH create_once_beside beside_billing_trans show ?thesis by blast
  qed
qed

lemma notify_beside:
  assumes "notify e kind us ty k data key s = Inr (created, s')"
  shows "beside_billing s s'"
  using assms
  by (auto simp: notify_def bind_res_Inr_iff Let_def beside_billing_def
      dest!: notify_each_beside split: if_splits)


text \<open>One contract's periods, and the whole run.\<close>

lemma bill_periods_Inr:
  assumes "visible (ctx e) c"
  shows "bill_periods e o1 c yesterday earliest existing ps (run, s) = Inr (run', s') \<Longrightarrow> billing_ok s \<Longrightarrow>
    billing_ok s' \<and> (\<exists>ds. run_created run' = run_created run @ ds \<and>
      (\<forall>d \<in> set ds. inv_status d = Draft \<and> inv_contract d = pk c \<and> inv_period_end d \<le> yesterday \<and>
        earliest \<le> inv_period_end d \<and> inv_period_start d \<notin> set existing \<and> ct_vat_rate c \<noteq> None))"
proof (induction ps arbitrary: run s)
  case Nil
  then show ?case by simp
next
  case (Cons x ps)
  from Cons.prems(1) obtain p where x: "x = Inr p" by (cases x) auto
  consider (stop) "yesterday < p_end p"
    | (skip) "\<not> yesterday < p_end p" "p_end p < earliest \<or> p_start p \<in> set existing"
    | (no_vat) "\<not> yesterday < p_end p" "\<not> (p_end p < earliest \<or> p_start p \<in> set existing)" "ct_vat_rate c = None"
    | (bill) "\<not> yesterday < p_end p" "\<not> (p_end p < earliest \<or> p_start p \<in> set existing)" "ct_vat_rate c \<noteq> None"
    by blast
  then show ?case
  proof cases
    case stop
    with Cons.prems show ?thesis by (simp add: x)
  next
    case skip
    with Cons.prems Cons.IH show ?thesis by (simp add: x)
  next
    case no_vat
    with Cons.prems(1) obtain raised s1 where
      n: "vat_missing_notice e c p s = Inr (raised, s1)"
      and rest: "bill_periods e o1 c yesterday earliest existing ps
        (run\<lparr>run_vat_missing := run_vat_missing run + length raised\<rparr>, s1) = Inr (run', s')"
      by (auto simp: x bind_res_Inr_iff)
    from n have "beside_billing s s1"
      by (auto simp: vat_missing_notice_def bind_res_Inr_iff dest: notify_beside)
    then have "billing_ok s1" using beside_billing_ok Cons.prems(2) by blast
    from Cons.IH [OF rest this] show ?thesis by simp
  next
    case bill
    with Cons.prems(1) obtain made s1 where
      m: "draft_for e o1 c p s = Inr (made, s1)"
      and rest: "bill_periods e o1 c yesterday earliest existing ps
        ((case made of None \<Rightarrow> run | Some d \<Rightarrow> run\<lparr>run_created := run_created run @ [d],
           run_by_company := add_draft (company_id c) d (run_by_company run)\<rparr>), s1) = Inr (run', s')"
      by (auto simp: x bind_res_Inr_iff)
    note d = draft_for_Inr [OF Cons.prems(2) assms m]
    from Cons.IH [OF rest d(1)] show ?thesis
    proof (cases made)
      case None
      with Cons.IH [OF rest d(1)] show ?thesis by simp
    next
      case (Some i)
      with Cons.IH [OF rest d(1)] obtain ds where ds: "billing_ok s'"
        "run_created run' = run_created run @ [i] @ ds"
        "\<forall>d \<in> set ds. inv_status d = Draft \<and> inv_contract d = pk c \<and> inv_period_end d \<le> yesterday \<and>
          earliest \<le> inv_period_end d \<and> inv_period_start d \<notin> set existing \<and> ct_vat_rate c \<noteq> None"
        by auto
      with d(3) [OF Some] bill show ?thesis
        by (intro conjI exI [of _ "i # ds"]) (auto simp: not_less)
    qed
  qed
qed

lemma drafts_ready_beside:
  "drafts_ready_notice e dt entry s = Inr s' \<Longrightarrow> beside_billing s s'"
  by (auto simp: drafts_ready_notice_def bind_res_Inr_iff split: prod.splits dest: notify_beside)

text \<open>
  A run keeps billing in order, and every draft it makes is for a period that is over, not older
  than the look-back, of a contract that has its rate.
\<close>

lemma generate_Inr:
  assumes run: "generate e o1 dt s = Inr (r, s')" and ok: "billing_ok s" and dt: "valid_date dt"
  shows "billing_ok s'"
    and "d \<in> set (run_created r) \<Longrightarrow> inv_status d = Draft \<and> inv_period_end d < dt \<and>
      (\<exists>earliest. add_days dt (- LOOKBACK) = Some earliest \<and> earliest \<le> inv_period_end d) \<and>
      (\<exists>c \<in> set (contracts s). pk c = inv_contract d \<and> ct_vat_rate c \<noteq> None)"
proof -
  from run obtain yesterday since earliest r1 s1 where
    dates: "add_days dt (-1) = Some yesterday" "add_days dt (- RECENTLY_ENDED) = Some since"
      "add_days dt (- LOOKBACK) = Some earliest"
    and bill: "fold_res (bill_contract e o1 yesterday earliest)
      (sort_key (\<lambda>c. (ct_start_date c, pk c)) (filter (billable_contract since) (objects (ctx e) (contracts s))))
      (\<lparr>run_created = [], run_vat_missing = 0, run_by_company = []\<rparr>, s) = Inr (r1, s1)"
    and note1: "fold_res (drafts_ready_notice e dt) (run_by_company r1) s1 = Inr s'" and r: "r = r1"
    unfolding generate_def Let_def the_res_Inr_iff by (elim run_elims) (auto simp: the_res_Inr_iff)
  define Q where "Q d \<longleftrightarrow> inv_status d = Draft \<and> inv_period_end d \<le> yesterday \<and>
    earliest \<le> inv_period_end d \<and> (\<exists>c \<in> set (contracts s). pk c = inv_contract d \<and> ct_vat_rate c \<noteq> None)" for d :: invoice
  let ?P = "\<lambda>rs. billing_ok (snd rs) \<and> (\<forall>d \<in> set (run_created (fst rs)). Q d)"
  have "?P (r1, s1)"
  proof (rule fold_res_invariant [where P = ?P, OF bill])
    show "?P (\<lparr>run_created = [], run_vat_missing = 0, run_by_company = []\<rparr>, s)" using ok by simp
    fix c rs rt
    assume c: "c \<in> set (sort_key (\<lambda>c. (ct_start_date c, pk c))
        (filter (billable_contract since) (objects (ctx e) (contracts s))))"
      and p: "?P rs" and step: "bill_contract e o1 yesterday earliest c rs = Inr rt"
    from c have c': "c \<in> set (contracts s)" "visible (ctx e) c" by (auto simp: set_objects)
    obtain ru u rv v where rs: "rs = (ru, u)" "rt = (rv, v)" by (cases rs, cases rt) auto
    from bill_periods_Inr [OF c'(2) step [unfolded bill_contract_def rs]] p obtain ds where
      "billing_ok v" "run_created rv = run_created ru @ ds"
      and ds: "\<forall>d \<in> set ds. inv_status d = Draft \<and> inv_contract d = pk c \<and> inv_period_end d \<le> yesterday \<and>
        earliest \<le> inv_period_end d \<and> ct_vat_rate c \<noteq> None"
      by (auto simp: rs)
    moreover have "Q d" if "d \<in> set ds" for d
      using ds c'(1) that unfolding Q_def by metis
    ultimately show "?P rt" using p by (auto simp: rs)
  qed
  then have p: "billing_ok s1" "\<forall>d \<in> set (run_created r). Q d"
    by (simp_all add: r)
  show "billing_ok s'"
    by (rule fold_res_invariant [where P = billing_ok, OF note1 p(1)])
      (blast intro: beside_billing_ok drafts_ready_beside)
  note y = add_days_Some [OF dates(1)]
  then have "yesterday < dt" using ordinal_less_iff [of yesterday dt] dt by simp
  then have "x \<le> yesterday \<Longrightarrow> x < dt" for x by (rule le_less_trans [rotated])
  show "inv_status d = Draft \<and> inv_period_end d < dt \<and>
      (\<exists>earliest. add_days dt (- LOOKBACK) = Some earliest \<and> earliest \<le> inv_period_end d) \<and>
      (\<exists>c \<in> set (contracts s). pk c = inv_contract d \<and> ct_vat_rate c \<noteq> None)"
    if "d \<in> set (run_created r)"
    using p(2) that dates(3) \<open>\<And>x. x \<le> yesterday \<Longrightarrow> x < dt\<close> unfolding Q_def by blast
qed


section \<open>A line edited after it was removed\<close>

text \<open>
  \<open>edit_line\<close> writes every column of the instance its caller read before the draft was locked,
  the deletion mark included: a line taken off meanwhile is back on the draft.
\<close>

lemma edit_line_writes_back:
  assumes "in_hand l s" "\<not> is_deleted l" and run: "edit_line e l changes by s = Inr (l', s')"
    and ok: "invoices_ok s"
  shows "l' \<in> set (live_lines (ln_draft l) s')" and "pk l' = pk l"
proof -
  obtain d where d: "get_invoice e (ln_draft l) s = Inr d" "edit_line_body e (l, changes, by) d s = Inr (l', s')"
    using line_editing.run_Inr [of e "(l, changes, by)" s l' s'] run by auto
  then obtain r s1 d' where r: "repriced l changes by = Inr r"
    and up: "update_line e r s = Inr (l', s1)" "recompute e d s1 = Inr (d', s')"
    by (auto simp: edit_line_body_def bind_res_Inr_iff)
  note u = update_line_Inr [OF up(1)] and same = repriced_Inr [OF r]
  from assms(1) obtain x where x: "x \<in> set (invoice_lines s)" "pk x = pk l'"
    using same(1) by (auto simp: in_hand_def u(1))
  have "l' \<in> set (invoice_lines s1)" using replaced_member [OF x] by (simp add: u(2))
  moreover have "invoice_lines s' = invoice_lines s1"
    using up(2) by (auto simp: recompute_def save_invoice_def bind_res_Inr_iff split: if_splits)
  ultimately show "l' \<in> set (live_lines (ln_draft l) s')"
    using same(2,4) assms(2) by (simp add: live_lines_def u(1))
  show "pk l' = pk l" using same(1) by (simp add: u(1))
qed

end
