(* ===== verification/Fault_Laws.thy ===== *)
theory Fault_Laws
  imports Faults Billing_Laws
begin

text \<open>
  The life of a fault. Each service of \<open>Faults\<close> is shown to make one step of a small life cycle
  on the table of faults (or none); what holds of every history is then proved on the life
  cycle, by induction over its rules.
\<close>

section \<open>The life cycle\<close>

text \<open>What may happen to one fault at time \<open>t\<close>.\<close>

inductive moves :: "instant \<Rightarrow> fault \<Rightarrow> fault \<Rightarrow> bool" for t :: instant where
  assigned: "fl_status f \<in> {F_open, F_assigned} \<Longrightarrow>
    moves t f (f\<lparr>fl_technician := Some k, fl_status := F_assigned, fl_assigned_at := Some t,
      updated_by := by, updated_at := t\<rparr>)"
| arrived: "fl_status f = F_assigned \<Longrightarrow>
    moves t f (f\<lparr>fl_status := F_on_site, fl_on_site_at := Some t, updated_by := by, updated_at := t\<rparr>)"
| resolved: "fl_status f = F_on_site \<Longrightarrow> b \<noteq> None \<or> fl_billable_overridden f \<and> b = fl_billable f \<Longrightarrow>
    moves t f (f\<lparr>fl_status := F_resolved, fl_resolved_at := Some t, fl_resolution_notes := n,
      fl_parts_used := p, fl_billable := b, updated_by := by, updated_at := t\<rparr>)"
| closed: "fl_status f = F_resolved \<Longrightarrow>
    moves t f (f\<lparr>fl_status := F_closed, fl_closed_at := Some t, updated_by := by, updated_at := t\<rparr>)"
| cancelled: "fl_status f \<in> set CANCELLABLE \<Longrightarrow>
    moves t f (f\<lparr>fl_status := F_cancelled, fl_cancelled_at := Some t, fl_cancel_reason := r,
      updated_by := by, updated_at := t\<rparr>)"
| corrected: "b = fl_billable f \<and> o1 = fl_billable_overridden f \<or> b \<noteq> None \<and> o1 \<Longrightarrow>
    moves t f (f\<lparr>fl_priority := p, fl_description := d, fl_billable := b, fl_billable_overridden := o1,
      updated_by := by, updated_at := t\<rparr>)"
| reported_again: "PRIORITY_RANK p \<le> PRIORITY_RANK (fl_priority f) \<Longrightarrow>
    moves t f (f\<lparr>fl_additional_reports := fl_additional_reports f @ [m], fl_reporter_name := n,
      fl_reporter_phone := q, fl_priority := p, fl_stopped_elevator := st, updated_at := t\<rparr>)"
| forgotten: "fl_status f \<in> {F_closed, F_cancelled} \<Longrightarrow>
    moves t f (f\<lparr>fl_reporter_name := [], fl_reporter_phone := [], updated_at := t\<rparr>)"

inductive_cases movesE: "moves t f f'"

text \<open>A fault as it is first written.\<close>

definition born :: "instant \<Rightarrow> fault \<Rightarrow> bool" where
  "born t f \<longleftrightarrow> fl_reported_at f = t \<and> fl_on_site_at f = None \<and> fl_resolved_at f = None \<and> fl_closed_at f = None \<and>
    fl_cancelled_at f = None \<and> fl_billable f = None \<and> \<not> fl_billable_overridden f \<and>
    (fl_status f = F_open \<and> fl_technician f = None \<and> fl_assigned_at f = None \<or>
     fl_status f = F_assigned \<and> fl_technician f \<noteq> None \<and> fl_assigned_at f = Some t)"

text \<open>One step of the table: a fault is born, one fault moves, or many are forgotten.\<close>

inductive table_step :: "instant \<Rightarrow> fault list \<Rightarrow> fault list \<Rightarrow> bool" for t :: instant where
  idle: "table_step t fs fs"
| reported: "born t f \<Longrightarrow> pk f \<notin> pk ` set fs \<Longrightarrow> unique_with faults_clash f fs \<Longrightarrow> table_step t fs (fs @ [f])"
| moved: "list_all2 (\<lambda>f f'. f' = f \<or> moves t f f' \<and> pk f' = pk f \<and> company_id f' = company_id f \<and>
      fl_reference f' = fl_reference f \<and> is_deleted f' = is_deleted f) fs fs' \<Longrightarrow> table_step t fs fs'"

section \<open>What holds of every fault\<close>

text \<open>The stamps are there, in order, between \<open>lo\<close> and \<open>t\<close>.\<close>

fun in_order :: "instant \<Rightarrow> instant \<Rightarrow> instant option list \<Rightarrow> bool" where
  "in_order lo t [] = (lo \<le> t)"
| "in_order lo t (None # xs) = False"
| "in_order lo t (Some a # xs) = (lo \<le> a \<and> in_order a t xs)"

text \<open>
  The state and its time stamps agree: each state was reached through those before it, in that
  order and not after \<open>t\<close>, and a fault whose work is done says whether it is billed.
\<close>

definition life_ok :: "instant \<Rightarrow> fault \<Rightarrow> bool" where
  "life_ok t f \<longleftrightarrow> (fl_billable_overridden f \<longrightarrow> fl_billable f \<noteq> None) \<and>
    (case fl_status f of
       F_open \<Rightarrow> in_order (fl_reported_at f) t [] \<and> fl_technician f = None \<and>
         fl_assigned_at f = None \<and> fl_on_site_at f = None \<and> fl_resolved_at f = None \<and>
         fl_closed_at f = None \<and> fl_cancelled_at f = None
     | F_assigned \<Rightarrow> in_order (fl_reported_at f) t [fl_assigned_at f] \<and> fl_technician f \<noteq> None \<and>
         fl_on_site_at f = None \<and> fl_resolved_at f = None \<and> fl_closed_at f = None \<and> fl_cancelled_at f = None
     | F_on_site \<Rightarrow> in_order (fl_reported_at f) t [fl_assigned_at f, fl_on_site_at f] \<and> fl_technician f \<noteq> None \<and>
         fl_resolved_at f = None \<and> fl_closed_at f = None \<and> fl_cancelled_at f = None
     | F_resolved \<Rightarrow> in_order (fl_reported_at f) t [fl_assigned_at f, fl_on_site_at f, fl_resolved_at f] \<and>
         fl_technician f \<noteq> None \<and> fl_billable f \<noteq> None \<and> fl_closed_at f = None \<and> fl_cancelled_at f = None
     | F_closed \<Rightarrow> in_order (fl_reported_at f) t
           [fl_assigned_at f, fl_on_site_at f, fl_resolved_at f, fl_closed_at f] \<and>
         fl_technician f \<noteq> None \<and> fl_billable f \<noteq> None \<and> fl_cancelled_at f = None
     | F_cancelled \<Rightarrow> in_order (fl_reported_at f) t [fl_cancelled_at f] \<and>
         fl_resolved_at f = None \<and> fl_closed_at f = None)"

lemma in_order_later: "in_order lo t xs \<Longrightarrow> t \<le> u \<Longrightarrow> in_order lo u xs"
  by (induction lo t xs rule: in_order.induct) auto

lemma in_order_add: "in_order lo t xs \<Longrightarrow> t \<le> u \<Longrightarrow> in_order lo u (xs @ [Some u])"
  by (induction lo t xs rule: in_order.induct) auto

lemma in_order_ends: "in_order lo t xs \<Longrightarrow> lo \<le> t"
  by (induction lo t xs rule: in_order.induct) auto

lemma life_ok_later: "life_ok t f \<Longrightarrow> t \<le> u \<Longrightarrow> life_ok u f"
  unfolding life_ok_def by (cases "fl_status f") (auto simp del: in_order.simps intro: in_order_later)

lemma life_ok_born: "born t f \<Longrightarrow> life_ok t f"
  by (auto simp: born_def life_ok_def)

lemma life_ok_reported: "life_ok t f \<Longrightarrow> fl_reported_at f \<le> t"
  unfolding life_ok_def by (cases "fl_status f") (auto simp del: in_order.simps dest: in_order_ends)

lemma life_ok_moves:
  assumes "moves t f f'" "life_ok u f" "u \<le> t"
  shows "life_ok t f'"
proof -
  have ok: "life_ok t f" by (rule life_ok_later [OF assms(2,3)])
  note rep = life_ok_reported [OF ok]
  show ?thesis
    using assms(1)
  proof cases
    case (assigned k "by")
    with ok rep show ?thesis by (auto simp: life_ok_def)
  next
    case (arrived "by")
    with ok in_order_add [of "fl_reported_at f" t "[fl_assigned_at f]" t] show ?thesis
      by (simp add: life_ok_def)
  next
    case (resolved b n p "by")
    with ok in_order_add [of "fl_reported_at f" t "[fl_assigned_at f, fl_on_site_at f]" t] show ?thesis
      by (auto simp: life_ok_def)
  next
    case (closed "by")
    with ok in_order_add [of "fl_reported_at f" t "[fl_assigned_at f, fl_on_site_at f, fl_resolved_at f]" t]
    show ?thesis by (simp add: life_ok_def)
  next
    case (cancelled r "by")
    with ok rep show ?thesis by (auto simp: life_ok_def CANCELLABLE_def)
  next
    case (corrected b o1 p d "by")
    with ok show ?thesis by (cases "fl_status f") (auto simp: life_ok_def)
  next
    case (reported_again p m n q st)
    with ok show ?thesis by (cases "fl_status f") (simp_all add: life_ok_def)
  next
    case forgotten
    with ok show ?thesis by (cases "fl_status f") (simp_all add: life_ok_def)
  qed
qed

definition faults_ok :: "instant \<Rightarrow> fault list \<Rightarrow> bool" where
  "faults_ok t fs \<longleftrightarrow> distinct (map pk fs) \<and> all_unique faults_clash fs \<and> (\<forall>f \<in> set fs. life_ok t f)"

lemma faults_clash_sym: "faults_clash a b \<Longrightarrow> faults_clash b a"
  by (auto simp: faults_clash_def)

lemma table_step_ok:
  assumes "table_step t fs fs'" "faults_ok u fs" "u \<le> t"
  shows "faults_ok t fs'"
  using assms(1)
proof cases
  case idle
  with assms(2,3) show ?thesis by (auto simp: faults_ok_def intro: life_ok_later)
next
  case (reported f)
  have "all_unique faults_clash (fs @ [f])"
    using assms(2) reported(4) by (intro all_unique_append1) (auto simp: faults_ok_def dest: faults_clash_sym)
  with reported assms(2,3) show ?thesis by (auto simp: faults_ok_def intro: life_ok_later life_ok_born)
next
  case moved
  have pks: "map pk fs' = map pk fs"
    using moved by (induction rule: list_all2_induct) auto
  have old: "\<exists>f \<in> set fs. f' = f \<or> moves t f f' \<and> pk f' = pk f \<and> company_id f' = company_id f \<and>
      fl_reference f' = fl_reference f \<and> is_deleted f' = is_deleted f" if "f' \<in> set fs'" for f'
    using list_all2_setD [OF moved that] .
  have "all_unique faults_clash fs'"
    unfolding all_unique_def
  proof (intro ballI impI)
    fix x y
    assume x: "x \<in> set fs'" and y: "y \<in> set fs'" and c: "faults_clash x y"
    from old [OF x] obtain f where f: "f \<in> set fs" "pk x = pk f" "company_id x = company_id f"
      "fl_reference x = fl_reference f" "is_deleted x = is_deleted f" by auto
    from old [OF y] obtain g where g: "g \<in> set fs" "pk y = pk g" "company_id y = company_id g"
      "fl_reference y = fl_reference g" "is_deleted y = is_deleted g" by auto
    from c f g have "faults_clash f g" by (simp add: faults_clash_def)
    with f(1) g(1) assms(2) have "f = g" by (simp add: faults_ok_def all_unique_def)
    moreover have "distinct (map pk fs')" using assms(2) pks by (simp add: faults_ok_def)
    ultimately show "x = y" using f(2) g(2) by (metis distinct_map_unique x y)
  qed
  moreover have "life_ok t f'" if "f' \<in> set fs'" for f'
  proof -
    from old [OF that] obtain f where f: "f \<in> set fs" "f' = f \<or> moves t f f'" by blast
    have "life_ok u f" using f(1) assms(2) by (simp add: faults_ok_def)
    with f(2) show ?thesis using life_ok_moves life_ok_later [OF _ assms(3)] assms(3) by blast
  qed
  ultimately show ?thesis using assms(2) pks by (simp add: faults_ok_def)
qed

text \<open>A finished fault stays finished; one whose work is done is never cancelled.\<close>

lemma moves_status:
  assumes "moves t f f'"
  shows "fl_status f' = fl_status f \<or> (fl_status f, fl_status f') \<in>
    {(F_open, F_assigned), (F_assigned, F_on_site), (F_on_site, F_resolved), (F_resolved, F_closed),
     (F_open, F_cancelled), (F_assigned, F_cancelled), (F_on_site, F_cancelled)}"
  using assms by cases (auto simp: CANCELLABLE_def)


section \<open>The services make steps of the life cycle\<close>

text \<open>What the services do beside the faults.\<close>

definition beside_faults :: "'a estate_scheme \<Rightarrow> 'a estate_scheme \<Rightarrow> bool" where
  "beside_faults s s' \<longleftrightarrow> faults s' = faults s \<and> next_pk s \<le> next_pk s'"

lemma beside_faults_refl [simp]: "beside_faults s s"
  by (simp add: beside_faults_def)

lemma beside_faults_trans: "beside_faults s t \<Longrightarrow> beside_faults t u \<Longrightarrow> beside_faults s u"
  by (simp add: beside_faults_def)

lemma create_once_faults: "create_once e n s = Inr (made, s') \<Longrightarrow> beside_faults s s'"
  by (auto simp: create_once_def db_insert_def Let_def beside_faults_def
      split: sum.splits exn.splits if_splits)

lemma notify_each_faults: "notify_each e n us s = Inr (created, s') \<Longrightarrow> beside_faults s s'"
proof (induction us arbitrary: s created)
  case (Cons u us)
  show ?case
  proof (cases "\<not> staff_is_active u \<or> is_deleted u")
    case True
    with Cons show ?thesis by simp
  next
    case False
    with Cons.prems obtain made s1 rest where
      "create_once e (n\<lparr>company_id := company_id u, nt_recipient := pk u\<rparr>) s = Inr (made, s1)"
      "notify_each e n us s1 = Inr (rest, s')"
      by (auto simp: bind_res_Inr_iff)
    with Cons.IH create_once_faults beside_faults_trans show ?thesis by blast
  qed
qed simp

lemma notify_faults: "notify e kind us ty k data key s = Inr (created, s') \<Longrightarrow> beside_faults s s'"
  by (auto simp: notify_def bind_res_Inr_iff Let_def beside_faults_def dest!: notify_each_faults split: if_splits)

lemma announce_report_faults: "announce_report e f s = Inr s' \<Longrightarrow> beside_faults s s'"
  by (auto simp: announce_report_def Let_def bind_res_Inr_iff dest!: notify_faults)

lemma announce_assignment_faults: "announce_assignment e w f s = Inr s' \<Longrightarrow> beside_faults s s'"
  by (auto simp: announce_assignment_def bind_res_Inr_iff dest!: notify_faults split: option.splits if_splits)

lemma announce_resolution_faults: "announce_resolution e f s = Inr s' \<Longrightarrow> beside_faults s s'"
  by (auto simp: announce_resolution_def bind_res_Inr_iff dest!: notify_faults)

lemma set_elevator_faults: "set_elevator_status e st el s = Inr s' \<Longrightarrow> beside_faults s s'"
  by (auto simp: set_elevator_status_def bind_res_Inr_iff save_fields_Inr beside_faults_def)

lemma stop_if_faults: "stop_if b e el s = Inr s' \<Longrightarrow> beside_faults s s'"
  by (auto simp: stop_if_def stop_elevator_def dest: set_elevator_faults split: if_splits)

lemmas beside_intros = beside_faults_refl beside_faults_trans announce_report_faults
  announce_assignment_faults announce_resolution_faults set_elevator_faults stop_if_faults

text \<open>The keys of the faults are handed out by the tables' counter.\<close>

definition board_ok :: "instant \<Rightarrow> 'a estate_scheme \<Rightarrow> bool" where
  "board_ok t s \<longleftrightarrow> faults_ok t (faults s) \<and> (\<forall>f \<in> set (faults s). pk f < next_pk s)"

lemma insert_attempts_Inr:
  "insert_attempts e rs f s = Inr (f', s') \<Longrightarrow>
    \<exists>r \<in> set rs. f' = stamped e (next_pk s) (f\<lparr>fl_reference := r\<rparr>) \<and>
      unique_with faults_clash (f\<lparr>fl_reference := r\<rparr>) (faults s) \<and> faults s' = faults s @ [f'] \<and>
      next_pk s' = Suc (next_pk s) \<and> elevators s' = elevators s"
proof (induction rs)
  case (Cons r rs)
  show ?case
  proof (cases "db_insert e faults_update (fault_fits (f\<lparr>fl_reference := r\<rparr>))
      (unique_with faults_clash (f\<lparr>fl_reference := r\<rparr>) (faults s)) (f\<lparr>fl_reference := r\<rparr>) s")
    case (Inl err)
    with Cons show ?thesis by (cases err) auto
  next
    case (Inr x)
    with Cons.prems have "x = (f', s')" by simp
    with Inr show ?thesis by (simp add: db_insert_Inr_iff)
  qed
qed simp

lemma insert_fault_step:
  assumes "insert_fault e w f s = Inr (f', s')" and "born (now e) f" and "board_ok t s"
  shows "table_step (now e) (faults s) (faults s')" and "next_pk s \<le> next_pk s'"
    and "\<forall>x \<in> set (faults s'). pk x < next_pk s'" and "f' \<in> set (faults s')"
    and "pk f' = next_pk s" and "fl_status f' = fl_status f" and "fl_reported_at f' = fl_reported_at f"
proof -
  from insert_attempts_Inr [OF assms(1) [unfolded insert_fault_def]] obtain r where
    f': "f' = stamped e (next_pk s) (f\<lparr>fl_reference := r\<rparr>)"
    and u: "unique_with faults_clash (f\<lparr>fl_reference := r\<rparr>) (faults s)"
    and s': "faults s' = faults s @ [f']" "next_pk s' = Suc (next_pk s)" by blast
  have "born (now e) f'" using assms(2) by (simp add: f' born_def stamped_def)
  moreover have "pk f' \<notin> pk ` set (faults s)"
    using assms(3) by (auto simp: f' board_ok_def)
  moreover have "unique_with faults_clash f' (faults s)"
    using u by (simp add: f' unique_with_def faults_clash_def stamped_def)
  ultimately show "table_step (now e) (faults s) (faults s')" unfolding s'(1) by (rule table_step.reported)
  show "next_pk s \<le> next_pk s'" "f' \<in> set (faults s')" by (simp_all add: s')
  show "\<forall>x \<in> set (faults s'). pk x < next_pk s'"
    using assms(3) by (auto simp: s' f' board_ok_def less_Suc_eq)
  show "pk f' = next_pk s" "fl_status f' = fl_status f" "fl_reported_at f' = fl_reported_at f"
    by (simp_all add: f' stamped_def)
qed

text \<open>A row rewritten by a move.\<close>

lemma rewritten_step:
  assumes "distinct (map pk fs)" "f \<in> set fs" "moves t f f'" "pk f' = pk f" "company_id f' = company_id f"
    "fl_reference f' = fl_reference f" "is_deleted f' = is_deleted f"
  shows "table_step t fs (update_where (\<lambda>x. pk x = pk f) (\<lambda>_. f') fs)"
proof (rule table_step.moved)
  have "x = f" if "x \<in> set fs" "pk x = pk f" for x using distinct_map_unique [OF assms(1) that(1) assms(2)] that(2) by simp
  then show "list_all2 (\<lambda>f f'. f' = f \<or> moves t f f' \<and> pk f' = pk f \<and> company_id f' = company_id f \<and>
      fl_reference f' = fl_reference f \<and> is_deleted f' = is_deleted f) fs
    (update_where (\<lambda>x. pk x = pk f) (\<lambda>_. f') fs)"
    using assms(3-7) by (auto simp: update_where_def list_all2_map2 intro!: list_all2_same [THEN iffD2])
qed

lemma faults_update_to: "s' = faults_update g s \<Longrightarrow> faults s' = g (faults s) \<and> next_pk s' = next_pk s"
  by simp

lemma locked_fault_Inr:
  "locked_fault e k s = Inr f \<Longrightarrow> f \<in> set (faults s) \<and> pk f = k \<and> visible (ctx e) f"
  unfolding locked_fault_def get_row_Inr_iff by (drule by_pk_SomeD) (auto simp: set_objects)

lemma save_fault_step:
  assumes ok: "board_ok t s" and f: "f \<in> set (faults s)"
    and run: "save_fault e g f s = Inr (f', s')"
    and g: "moves (now e) f ((g f)\<lparr>updated_at := now e\<rparr>)" "pk (g f) = pk f" "company_id (g f) = company_id f"
      "fl_reference (g f) = fl_reference f" "is_deleted (g f) = is_deleted f"
  shows "table_step (now e) (faults s) (faults s')" and "next_pk s' = next_pk s"
    and "\<forall>x \<in> set (faults s'). pk x < next_pk s'" and "f' \<in> set (faults s')"
    and "f' = (g f)\<lparr>updated_at := now e\<rparr>" and "elevators s' = elevators s"
proof -
  have dist: "distinct (map pk (faults s))" using ok by (simp add: board_ok_def faults_ok_def)
  from run have f': "f' = (g f)\<lparr>updated_at := now e\<rparr>"
    and s': "s' = faults_update (update_where (\<lambda>x. pk x = pk f) (\<lambda>x. (g x)\<lparr>updated_at := now e\<rparr>)) s"
    by (simp_all add: save_fault_def save_fields_Inr)
  have rows: "faults s' = update_where (\<lambda>x. pk x = pk f) (\<lambda>_. f') (faults s)"
    using update_where_in [OF dist f refl, of "\<lambda>x. (g x)\<lparr>updated_at := now e\<rparr>"] by (simp add: s' f')
  show "f' = (g f)\<lparr>updated_at := now e\<rparr>" by (fact f')
  show "table_step (now e) (faults s) (faults s')"
    unfolding rows f' by (rule rewritten_step [OF dist f g(1)]) (simp_all add: g)
  show "next_pk s' = next_pk s" "elevators s' = elevators s" by (simp_all add: s')
  show "f' \<in> set (faults s')" unfolding rows by (rule replaced_member [OF f refl])
  show "\<forall>x \<in> set (faults s'). pk x < next_pk s'"
    using ok f \<open>next_pk s' = next_pk s\<close> unfolding rows
    by (auto simp: f' g board_ok_def set_update_where)
qed


text \<open>Every operation on the faults, by whoever is allowed to call it, at the time of \<open>e\<close>.\<close>

inductive fault_service :: "env \<Rightarrow> 'a board_scheme \<Rightarrow> 'a board_scheme \<Rightarrow> bool" for e :: env where
  by_staff: "report_by_staff e w el d p u technician st tr s = Inr (f, s') \<Longrightarrow> fault_service e s s'"
| by_sticker: "sticker_report e w token website r s = Inr (reference, s') \<Longrightarrow> fault_service e s s'"
| by_portal: "report_by_portal e w acc el r s = Inr (f, s') \<Longrightarrow> fault_service e s s'"
| assigning: "assign e w k technician by s = Inr (f, s') \<Longrightarrow> fault_service e s s'"
| arriving: "arrive e k by s = Inr (f, s') \<Longrightarrow> fault_service e s s'"
| resolving: "resolve e w k by notes parts restore s = Inr (f, s') \<Longrightarrow> fault_service e s s'"
| closing: "close_fault e k by s = Inr (f, s') \<Longrightarrow> fault_service e s s'"
| cancelling: "cancel_fault e k reason by s = Inr (f, s') \<Longrightarrow> fault_service e s s'"
| editing: "edit_fault e k changes by s = Inr (f, s') \<Longrightarrow> fault_service e s s'"
| purging: "purge_public_reporter_data e s = (n, s') \<Longrightarrow> fault_service e s s'"

text \<open>One step of the table of faults, with its keys still below the counter.\<close>

definition life_step :: "instant \<Rightarrow> 'a estate_scheme \<Rightarrow> 'a estate_scheme \<Rightarrow> bool" where
  "life_step t s s' \<longleftrightarrow> table_step t (faults s) (faults s') \<and> next_pk s \<le> next_pk s' \<and>
    (\<forall>x \<in> set (faults s'). pk x < next_pk s')"

lemma life_step_beside: "life_step t s u \<Longrightarrow> beside_faults u s' \<Longrightarrow> life_step t s s'"
  by (auto simp: life_step_def beside_faults_def intro: less_le_trans)

lemma life_step_idle: "board_ok u s \<Longrightarrow> beside_faults s s' \<Longrightarrow> life_step t s s'"
  by (auto simp: life_step_def beside_faults_def board_ok_def intro: less_le_trans table_step.idle)

lemma life_step_insert:
  assumes "insert_fault e w f s = Inr (f', s')" "born (now e) f" "board_ok t s"
  shows "life_step (now e) s s'"
  unfolding life_step_def using insert_fault_step(1-3) [OF assms] by blast

lemma life_step_save:
  assumes "save_fault e g f s = Inr (f', s')" "board_ok t s" "f \<in> set (faults s)"
    "moves (now e) f ((g f)\<lparr>updated_at := now e\<rparr>)" "pk (g f) = pk f" "company_id (g f) = company_id f"
    "fl_reference (g f) = fl_reference f" "is_deleted (g f) = is_deleted f"
  shows "life_step (now e) s s'"
  unfolding life_step_def using save_fault_step(1-3) [OF assms(2,3,1,4-8)] by simp

lemma report_by_staff_step:
  assumes "report_by_staff e w el d p u technician st tr s = Inr (f, s')" "board_ok t s"
  shows "life_step (now e) s s'"
proof -
  from assms(1) obtain s1 s2 s3 f0 where ins: "insert_fault e w f0 s = Inr (f, s1)" and f0: "born (now e) f0"
    and rest: "stop_if st e el s1 = Inr s2" "announce_report e f s2 = Inr s3"
      "(if technician = None then Inr s3 else announce_assignment e w f s3) = Inr s'"
    unfolding report_by_staff_def
    by (elim run_elims) (hypsubst, rule that, assumption, simp add: born_def blank_fault_def, assumption+)
  have "beside_faults s3 s'" using rest(3) by (auto dest: announce_assignment_faults split: if_splits)
  then have "beside_faults s1 s'" using rest(1,2) by (meson beside_intros)
  with life_step_insert [OF ins f0 assms(2)] show ?thesis by (rule life_step_beside)
qed

lemma report_by_portal_step:
  assumes "report_by_portal e w acc el r s = Inr (f, s')" "board_ok t s"
  shows "life_step (now e) s s'"
proof -
  from assms(1) obtain s1 s2 f0 where ins: "insert_fault e w f0 s = Inr (f, s1)" and f0: "born (now e) f0"
    and rest: "stop_if (rp_elevator_stopped r) e el s1 = Inr s2" "announce_report e f s2 = Inr s'"
    unfolding report_by_portal_def
    by (elim run_elims) (hypsubst, rule that, assumption, simp add: born_def blank_fault_def, assumption+)
  have "beside_faults s1 s'" using rest by (meson beside_intros)
  with life_step_insert [OF ins f0 assms(2)] show ?thesis by (rule life_step_beside)
qed

lemma merged_moves: "moves t f ((merged t r p f)\<lparr>updated_at := t\<rparr>)"
proof -
  have "(merged t r p f)\<lparr>updated_at := t\<rparr> = f\<lparr>fl_additional_reports := fl_additional_reports f @
      [\<lparr>mr_reported_at = t, mr_description = rp_description r, mr_someone_trapped = rp_someone_trapped r,
        mr_elevator_stopped = rp_elevator_stopped r\<rparr>],
      fl_reporter_name := fl_reporter_name (merged t r p f), fl_reporter_phone := fl_reporter_phone (merged t r p f),
      fl_priority := fl_priority (merged t r p f), fl_stopped_elevator := fl_stopped_elevator (merged t r p f),
      updated_at := t\<rparr>"
    by (cases f) (simp add: merged_def Let_def)
  moreover have "PRIORITY_RANK (fl_priority (merged t r p f)) \<le> PRIORITY_RANK (fl_priority f)"
    by (simp add: merged_def Let_def)
  ultimately show ?thesis using moves.reported_again by simp
qed

lemma merged_same:
  "pk (merged t r p f) = pk f" "company_id (merged t r p f) = company_id f" "is_deleted (merged t r p f) = is_deleted f"
  "fl_reference (merged t r p f) = fl_reference f" "fl_status (merged t r p f) = fl_status f"
  "fl_reported_at (merged t r p f) = fl_reported_at f" "fl_elevator (merged t r p f) = fl_elevator f"
  "fl_channel (merged t r p f) = fl_channel f"
  by (simp_all add: merged_def Let_def)

lemma board_ok_beside: "board_ok t s \<Longrightarrow> beside_faults s s' \<Longrightarrow> board_ok t s'"
  by (auto simp: board_ok_def beside_faults_def intro: less_le_trans)

lemma life_step_after: "beside_faults s u \<Longrightarrow> life_step t u s' \<Longrightarrow> life_step t s s'"
  by (auto simp: life_step_def beside_faults_def)

lemma now_in_firm [simp]: "now (in_firm co e) = now e"
  by (simp add: in_firm_def)

lemma merge_target_SomeD: "merge_target e el s = Some f \<Longrightarrow>
    f \<in> set (faults s) \<and> visible (ctx e) f \<and> fl_elevator f = pk el \<and> fl_channel f = Public_qr \<and>
    fl_status f \<in> {F_open, F_assigned} \<and> now e - PUBLIC_MERGE_WINDOW \<le> fl_reported_at f"
  unfolding merge_target_def by (drule find_Some_iff) (auto simp: set_objects)

lemma save_fault_rows:
  assumes "board_ok t s" "f \<in> set (faults s)" "save_fault e g f s = Inr (f', s')"
  shows "faults s' = update_where (\<lambda>x. pk x = pk f) (\<lambda>_. f') (faults s)"
proof -
  have dist: "distinct (map pk (faults s))" using assms(1) by (simp add: board_ok_def faults_ok_def)
  show ?thesis
    using assms(3) update_where_in [OF dist assms(2) refl, of "\<lambda>x. (g x)\<lparr>updated_at := now e\<rparr>"]
    by (auto simp: save_fault_def save_fields_Inr)
qed

lemma merge_report_step:
  assumes "merge_report e f r p s = Inr (f', s')" "board_ok t s" "f \<in> set (faults s)"
  shows "life_step (now e) s s'" "f' = (merged (now e) r p f)\<lparr>updated_at := now e\<rparr>" "f' \<in> set (faults s')"
    and merge_report_rows: "faults s' = update_where (\<lambda>x. pk x = pk f) (\<lambda>_. f') (faults s)"
proof -
  from assms(1) obtain el b s1 s2 where
    st: "stop_if (rp_elevator_stopped r \<and> \<not> fl_stopped_elevator f) e el s = Inr s1"
    and sv: "save_fault e (merged (now e) r p) f s1 = Inr (f', s2)"
    and an: "(if PRIORITY_RANK p < PRIORITY_RANK (fl_priority f) \<and> p = Emergency
       then announce_report e f' s2 else Inr s2) = Inr s'"
    unfolding merge_report_def save_fault_def
    by (auto simp: bind_res_Inr_iff split: if_splits)
  from st have b1: "beside_faults s s1" by (rule stop_if_faults)
  then have f: "f \<in> set (faults s1)" using assms(3) by (simp add: beside_faults_def)
  note ok = board_ok_beside [OF assms(2) b1]
  have "beside_faults s2 s'" using an by (auto dest: announce_report_faults split: if_splits)
  with life_step_save [OF sv ok f merged_moves merged_same(1,2,4,3)] b1
  show "life_step (now e) s s'" by (meson life_step_beside life_step_after)
  note sv' = save_fault_step [OF ok f sv merged_moves merged_same(1,2,4,3)]
  show "f' = (merged (now e) r p f)\<lparr>updated_at := now e\<rparr>" by (rule sv'(5))
  show "f' \<in> set (faults s')" using sv'(4) \<open>beside_faults s2 s'\<close> by (simp add: beside_faults_def)
  show "faults s' = update_where (\<lambda>x. pk x = pk f) (\<lambda>_. f') (faults s)"
    using save_fault_rows [OF ok f sv] b1 \<open>beside_faults s2 s'\<close> by (simp add: beside_faults_def)
qed

lemma report_public_step:
  assumes "report_public e w el r s = Inr (f, s')" "board_ok t s"
  shows "life_step (now e) s s'"
proof (cases "merge_target (in_firm (company_id el) e) el s")
  case (Some g)
  with assms(1) have m: "merge_report (in_firm (company_id el) e) g r (public_priority r) s = Inr (f, s')"
    by (simp add: report_public_def Let_def)
  from merge_report_step(1) [OF m assms(2)] merge_target_SomeD [OF Some] show ?thesis by simp
next
  case None
  with assms(1) obtain s1 s2 f0 where ins: "insert_fault (in_firm (company_id el) e) w f0 s = Inr (f, s1)"
    and f0: "born (now (in_firm (company_id el) e)) f0"
    and rest: "stop_if (rp_elevator_stopped r) (in_firm (company_id el) e) el s1 = Inr s2"
      "announce_report (in_firm (company_id el) e) f s2 = Inr s'"
    unfolding report_public_def Let_def None option.case
    by (elim run_elims) (hypsubst, rule that, assumption, simp add: born_def blank_fault_def, assumption+)
  have "beside_faults s1 s'" using rest by (meson beside_intros)
  with life_step_insert [OF ins f0 assms(2)] show ?thesis by (simp add: life_step_beside)
qed

lemma sticker_report_step:
  assumes "sticker_report e w token website r s = Inr (reference, s')" "board_ok t s"
  shows "life_step (now e) s s'"
  using assms
  by (auto simp: sticker_report_def bind_res_Inr_iff split: option.splits if_splits
      dest: report_public_step intro: life_step_idle)

lemmas same_columns = fault.select_convs

lemma assign_step:
  assumes "assign e w k u by s = Inr (f, s')" "board_ok t s"
  shows "life_step (now e) s s'"
proof -
  from assms(1) obtain g where g: "locked_fault e k s = Inr g"
    and run: "(if fl_status g \<notin> {F_open, F_assigned} then Inl refuse_fault
      else if fl_status g = F_assigned \<and> fl_technician g = Some (pk u) then Inr (g, s)
      else bind_res (save_fault e (\<lambda>x. x\<lparr>fl_technician := Some (pk u), fl_status := F_assigned,
        fl_assigned_at := Some (now e), updated_by := by\<rparr>) g s) (\<lambda>(f, s).
      bind_res (announce_assignment e w f s) (\<lambda>s. Inr (f, s)))) = Inr (f, s')"
    unfolding assign_def by (elim run_elims)
  note g = locked_fault_Inr [OF g]
  show ?thesis
  proof (cases "fl_status g = F_assigned \<and> fl_technician g = Some (pk u)")
    case True
    with run have "s' = s" by simp
    with assms(2) show ?thesis by (auto intro: life_step_idle)
  next
    case False
    with run obtain s1 where st: "fl_status g \<in> {F_open, F_assigned}"
      and sv: "save_fault e (\<lambda>x. x\<lparr>fl_technician := Some (pk u), fl_status := F_assigned,
        fl_assigned_at := Some (now e), updated_by := by\<rparr>) g s = Inr (f, s1)"
      and an: "announce_assignment e w f s1 = Inr s'"
      by (auto simp: bind_res_Inr_iff split: if_splits)
    have "life_step (now e) s s1"
      by (rule life_step_save [OF sv assms(2)]) (use g moves.assigned [OF st] in simp_all)
    then show ?thesis by (rule life_step_beside) (rule announce_assignment_faults [OF an])
  qed
qed

lemma arrive_step:
  assumes "arrive e k by s = Inr (f, s')" "board_ok t s"
  shows "life_step (now e) s s'"
proof -
  from assms(1) obtain g where g: "locked_fault e k s = Inr g" and st: "fl_status g = F_assigned"
    and sv: "save_fault e (\<lambda>x. x\<lparr>fl_status := F_on_site, fl_on_site_at := Some (now e), updated_by := by\<rparr>) g s =
      Inr (f, s')"
    by (auto simp: arrive_def bind_res_Inr_iff split: if_splits)
  show ?thesis
    by (rule life_step_save [OF sv assms(2)]) (use locked_fault_Inr [OF g] moves.arrived [OF st] in simp_all)
qed

lemma resolve_step:
  assumes "resolve e w k by notes parts restore s = Inr (f, s')" "board_ok t s"
  shows "life_step (now e) s s'"
proof -
  from assms(1) obtain g where g: "locked_fault e k s = Inr g" and st: "fl_status g = F_on_site"
    unfolding resolve_def by (auto simp: bind_res_Inr_iff split: if_splits)
  define bl where bl: "bl = (if fl_billable_overridden g then fl_billable g
    else Some (derive_billable e w (g\<lparr>fl_parts_used := parts\<rparr>) s))"
  from assms(1) obtain s1 el b s2 where
    sv: "save_fault e (\<lambda>x. x\<lparr>fl_status := F_resolved, fl_resolved_at := Some (now e),
          fl_resolution_notes := notes, fl_parts_used := parts, fl_billable := bl, updated_by := by\<rparr>) g s = Inr (f, s1)"
    and el: "(if restore \<and> el_status el = Out_of_service then set_elevator_status e E_active el s1 else Inr s1) = Inr s2"
    and an: "announce_resolution e f s2 = Inr s'"
    unfolding resolve_def g st bind_res.simps Let_def bl [symmetric] simp_thms if_False
    by (elim run_elims) (hypsubst, rule that, assumption+)
  have "bl \<noteq> None \<or> fl_billable_overridden g \<and> bl = fl_billable g" using bl by simp
  note mv = moves.resolved [OF st this]
  have "life_step (now e) s s1"
    by (rule life_step_save [OF sv assms(2)]) (use locked_fault_Inr [OF g] mv in simp_all)
  moreover have "beside_faults s1 s2" using el by (auto dest: set_elevator_faults split: if_splits)
  moreover have "beside_faults s2 s'" by (rule announce_resolution_faults [OF an])
  ultimately show ?thesis by (blast intro: life_step_beside)
qed

lemma close_fault_step:
  assumes "close_fault e k by s = Inr (f, s')" "board_ok t s"
  shows "life_step (now e) s s'"
proof -
  from assms(1) obtain g where g: "locked_fault e k s = Inr g" and st: "fl_status g = F_resolved"
    and sv: "save_fault e (\<lambda>x. x\<lparr>fl_status := F_closed, fl_closed_at := Some (now e), updated_by := by\<rparr>) g s =
      Inr (f, s')"
    by (auto simp: close_fault_def bind_res_Inr_iff split: if_splits)
  show ?thesis
    by (rule life_step_save [OF sv assms(2)]) (use locked_fault_Inr [OF g] moves.closed [OF st] in simp_all)
qed

lemma cancel_fault_step:
  assumes "cancel_fault e k reason by s = Inr (f, s')" "board_ok t s"
  shows "life_step (now e) s s'"
proof -
  from assms(1) obtain g where g: "locked_fault e k s = Inr g" and st: "fl_status g \<in> set CANCELLABLE"
    and sv: "save_fault e (\<lambda>x. x\<lparr>fl_status := F_cancelled, fl_cancelled_at := Some (now e),
      fl_cancel_reason := reason, updated_by := by\<rparr>) g s = Inr (f, s')"
    by (auto simp: cancel_fault_def bind_res_Inr_iff split: if_splits)
  show ?thesis
    by (rule life_step_save [OF sv assms(2)]) (use locked_fault_Inr [OF g] moves.cancelled [OF st] in simp_all)
qed

lemma change_fault_shape:
  "\<exists>p d b o1. change_fault c f = f\<lparr>fl_priority := p, fl_description := d, fl_billable := b, fl_billable_overridden := o1\<rparr> \<and>
    (b = fl_billable f \<and> o1 = fl_billable_overridden f \<or> b \<noteq> None \<and> o1)"
proof (cases c)
  case (Set_priority p)
  then show ?thesis
    by (intro exI [of _ p] exI [of _ "fl_description f"] exI [of _ "fl_billable f"] exI [of _ "fl_billable_overridden f"])
      (cases f, simp)
next
  case (Set_fault_description d)
  then show ?thesis
    by (intro exI [of _ "fl_priority f"] exI [of _ d] exI [of _ "fl_billable f"] exI [of _ "fl_billable_overridden f"])
      (cases f, simp)
next
  case (Set_billable b)
  then show ?thesis
    by (intro exI [of _ "fl_priority f"] exI [of _ "fl_description f"] exI [of _ "Some b"] exI [of _ True])
      (cases f, simp)
qed

lemma fold_change_fault_shape:
  "\<exists>p d b o1. fold change_fault cs f =
      f\<lparr>fl_priority := p, fl_description := d, fl_billable := b, fl_billable_overridden := o1\<rparr> \<and>
    (b = fl_billable f \<and> o1 = fl_billable_overridden f \<or> b \<noteq> None \<and> o1)"
proof (induction cs arbitrary: f)
  case Nil
  show ?case
    by (intro exI [of _ "fl_priority f"] exI [of _ "fl_description f"] exI [of _ "fl_billable f"]
        exI [of _ "fl_billable_overridden f"]) (cases f, simp)
next
  case (Cons c cs)
  from change_fault_shape [of c f] obtain p d b o1 where c: "change_fault c f =
      f\<lparr>fl_priority := p, fl_description := d, fl_billable := b, fl_billable_overridden := o1\<rparr>"
    "b = fl_billable f \<and> o1 = fl_billable_overridden f \<or> b \<noteq> None \<and> o1" by blast
  from Cons.IH [of "change_fault c f"] obtain p' d' b' o' where cs: "fold change_fault cs (change_fault c f) =
      (change_fault c f)\<lparr>fl_priority := p', fl_description := d', fl_billable := b', fl_billable_overridden := o'\<rparr>"
    "b' = fl_billable (change_fault c f) \<and> o' = fl_billable_overridden (change_fault c f) \<or> b' \<noteq> None \<and> o'" by blast
  show ?case
    by (rule exI [of _ p'], rule exI [of _ d'], rule exI [of _ b'], rule exI [of _ o'])
      (use c cs in auto)
qed

lemma edit_fault_step:
  assumes "edit_fault e k changes by s = Inr (f, s')" "board_ok t s"
  shows "life_step (now e) s s'"
proof -
  from assms(1) obtain g s1 where g: "locked_fault e k s = Inr g"
    and up: "db_update e faults_update (fault_fits ((fold change_fault changes g)\<lparr>updated_by := by\<rparr>))
        (unique_with faults_clash ((fold change_fault changes g)\<lparr>updated_by := by\<rparr>)
          (filter (\<lambda>x. pk x \<noteq> pk ((fold change_fault changes g)\<lparr>updated_by := by\<rparr>)) (faults s)))
        ((fold change_fault changes g)\<lparr>updated_by := by\<rparr>) s = Inr (f, s1)"
    and an: "(if fl_priority f = Emergency \<and> fl_priority g \<noteq> Emergency then announce_report e f s1 else Inr s1) = Inr s'"
    unfolding edit_fault_def Let_def by (elim run_elims) (hypsubst, rule that, assumption+)
  note m = locked_fault_Inr [OF g]
  from fold_change_fault_shape [of changes g] obtain p d b o1 where sh: "fold change_fault changes g =
      g\<lparr>fl_priority := p, fl_description := d, fl_billable := b, fl_billable_overridden := o1\<rparr>"
    "b = fl_billable g \<and> o1 = fl_billable_overridden g \<or> b \<noteq> None \<and> o1" by blast
  from up have f: "f = g\<lparr>fl_priority := p, fl_description := d, fl_billable := b, fl_billable_overridden := o1,
      updated_by := by, updated_at := now e\<rparr>"
    and s1: "s1 = faults_update (update_where (\<lambda>x. pk x = pk g) (\<lambda>_. f)) s"
    unfolding sh(1) by (auto simp: db_update_def Let_def split: if_splits)
  have dist: "distinct (map pk (faults s))" using assms(2) by (simp add: board_ok_def faults_ok_def)
  have "table_step (now e) (faults s) (update_where (\<lambda>x. pk x = pk g) (\<lambda>_. f) (faults s))"
    by (rule rewritten_step [OF dist]) (use m moves.corrected [OF sh(2)] in \<open>simp_all add: f\<close>)
  then have "life_step (now e) s s1"
    using assms(2) m by (auto simp: s1 life_step_def board_ok_def set_update_where f)
  moreover have "beside_faults s1 s'" using an by (auto dest: announce_report_faults split: if_splits)
  ultimately show ?thesis by (rule life_step_beside)
qed

lemma purge_step:
  assumes "purge_public_reporter_data e s = (n, s')" "board_ok t s"
  shows "life_step (now e) s s'"
proof -
  let ?e = "e\<lparr>ctx := system_context (ctx e)\<rparr>"
  let ?g = "\<lambda>f. f\<lparr>fl_reporter_name := [], fl_reporter_phone := [], updated_at := now e\<rparr>"
  have s': "s' = s\<lparr>faults := update_where (forgettable ?e) ?g (faults s)\<rparr>"
    using assms(1) by (simp add: purge_public_reporter_data_def forget_public_reporters_def)
  have fin: "fl_status f \<in> {F_closed, F_cancelled}" if "forgettable ?e f" for f
    using that by (auto simp: forgettable_def)
  have "table_step (now e) (faults s) (update_where (forgettable ?e) ?g (faults s))"
  proof (rule table_step.moved)
    show "list_all2 (\<lambda>f f'. f' = f \<or> moves (now e) f f' \<and> pk f' = pk f \<and> company_id f' = company_id f \<and>
      fl_reference f' = fl_reference f \<and> is_deleted f' = is_deleted f) (faults s)
      (update_where (forgettable ?e) ?g (faults s))"
      using moves.forgotten [OF fin]
      by (auto simp: update_where_def list_all2_map2 intro!: list_all2_same [THEN iffD2])
  qed
  then show ?thesis
    using assms(2) by (auto simp: s' life_step_def board_ok_def set_update_where)
qed

text \<open>Refinement: whatever service runs, the table of faults makes a step of the life cycle.\<close>

lemma service_step: "fault_service e s s' \<Longrightarrow> board_ok t s \<Longrightarrow> life_step (now e) s s'"
  by (induction rule: fault_service.induct)
    (blast intro: report_by_staff_step sticker_report_step report_by_portal_step assign_step arrive_step
      resolve_step close_fault_step cancel_fault_step edit_fault_step purge_step)+

lemma life_step_ok: "life_step t s s' \<Longrightarrow> board_ok u s \<Longrightarrow> u \<le> t \<Longrightarrow> board_ok t s'"
  by (auto simp: life_step_def board_ok_def intro: table_step_ok)

text \<open>A history of the firm's faults: services one after another, at times that never go back.\<close>

inductive fault_history :: "instant \<Rightarrow> 'a board_scheme \<Rightarrow> instant \<Rightarrow> 'a board_scheme \<Rightarrow> bool"
  for t0 :: instant and s0 :: "'a board_scheme" where
  start: "fault_history t0 s0 t0 s0"
| serve: "fault_history t0 s0 t s \<Longrightarrow> t \<le> now e \<Longrightarrow> fault_service e s s' \<Longrightarrow> fault_history t0 s0 (now e) s'"

lemma history_ok: "fault_history t0 s0 t s \<Longrightarrow> board_ok t0 s0 \<Longrightarrow> board_ok t s \<and> t0 \<le> t"
proof (induction rule: fault_history.induct)
  case (serve t s e s')
  then have ok: "board_ok t s" "t0 \<le> t" by auto
  with life_step_ok [OF service_step [OF serve.hyps(3) ok(1)] ok(1)] serve.hyps(2) show ?case by simp
qed simp

end
