(* ===== verification/Inspection_Laws.thy ===== *)
theory Inspection_Laws
  imports Inspections Notification_Laws Months Fault_Laws
begin

text \<open>
  The laws of inspections: the rules of \<open>rules.py\<close> as dates, the elevator that always shows its
  newest inspection and never runs under a red label because of one, the ways of counting open
  defects that agree, the fault a defect gets once, and the warnings that are raised once.
\<close>

section \<open>Dates\<close>

lemma year_later:
  assumes "valid_date d"
  shows "default_next_inspection d = the_res (add_months d 12) (Crash Value_error)"
proof -
  obtain y m n where d: "d = Date y m n" by (cases d)
  from assms have v: "1 \<le> y" "y \<le> 9999" "1 \<le> m" "m \<le> 12" "1 \<le> n" "n \<le> days_in_month y m"
    by (simp_all add: d valid_date_def)
  have qm: "(11 + m) div 12 = 1" "(11 + m) mod 12 + 1 = m" using v(3,4) by presburger+
  have am: "add_months (Date y m n) 12 = mk_date (y + 1) m (min n (days_in_month (y + 1) m))"
    by (simp add: add_months_def Let_def qm)
  show ?thesis
  proof (cases "n \<le> days_in_month (y + 1) m")
    case True
    have "mk_date (y + 1) m 28 = None" if "mk_date (y + 1) m n = None"
      using that v True by (auto simp: mk_date_def valid_date_def days_in_month_def split: if_splits)
    with True show ?thesis
      by (auto simp: am default_next_inspection_def INSPECTION_INTERVAL_YEARS_def d min_absorb1 split: option.split)
  next
    case False
    then have dim: "days_in_month (y + 1) m = 28" using v by (auto simp: days_in_month_def split: if_splits)
    with False have "mk_date (y + 1) m n = None" by (simp add: mk_date_def valid_date_def)
    with False dim show ?thesis
      by (simp add: am default_next_inspection_def INSPECTION_INTERVAL_YEARS_def d)
  qed
qed

lemma deadline_by_label:
  "correction_deadline l d next_due = Inr x \<Longrightarrow>
    (case l of Green \<Rightarrow> x = None | Blue \<Rightarrow> x = next_due
     | Yellow \<Rightarrow> (\<exists>t. x = Some t \<and> ordinal t = ordinal d + 120)
     | Red \<Rightarrow> (\<exists>t. x = Some t \<and> ordinal t = ordinal d + 60))"
  by (cases l) (auto simp: correction_deadline_def bind_res_Inr_iff the_res_Inr_iff dest: add_days_Some(1))

text \<open>The tightest threshold crossed.\<close>

lemma threshold_for_eq:
  "threshold_for n = (if n \<le> 3 then Some 3 else if n \<le> 14 then Some 14 else if n \<le> 30 then Some 30 else None)"
  by (simp add: threshold_for_def CORRECTION_THRESHOLDS_def agg_min_def)

section \<open>The elevator shows its newest inspection\<close>

definition shows_inspection :: "inspection \<Rightarrow> elevator \<Rightarrow> bool" where
  "shows_inspection i el \<longleftrightarrow> el_last_inspection_date el = Some (ip_inspected_on i) \<and>
    el_inspection_label el = Some (ip_label i) \<and> el_next_inspection_date el = Some (ip_next_due i) \<and>
    el_inspection_body el = ip_body i \<and> el_inspection_report_number el = ip_report_number i \<and>
    (ip_label i = Red \<longrightarrow> el_status el \<noteq> E_active)"

definition live_latest :: "pk \<Rightarrow> 'a inspectorate_scheme \<Rightarrow> inspection option" where
  "live_latest k s = newest inspection_key (filter (\<lambda>i. ip_elevator i = k \<and> \<not> is_deleted i) (inspections s))"

definition lifts_ok :: "'a inspectorate_scheme \<Rightarrow> bool" where
  "lifts_ok s \<longleftrightarrow> distinct (map pk (elevators s)) \<and> distinct (map pk (inspections s)) \<and>
    (\<forall>i \<in> set (inspections s). pk i < next_pk s \<and> inspection_checks i \<and>
      (\<forall>el \<in> set (elevators s). ip_elevator i = pk el \<longrightarrow> company_id i = company_id el)) \<and>
    (\<forall>el \<in> set (elevators s). case live_latest (pk el) s of None \<Rightarrow> True | Some i \<Rightarrow> shows_inspection i el)"

lemma lifts_okD:
  assumes "lifts_ok s"
  shows "distinct (map pk (elevators s))" "distinct (map pk (inspections s))"
    "i \<in> set (inspections s) \<Longrightarrow> pk i < next_pk s"
    "i \<in> set (inspections s) \<Longrightarrow> inspection_checks i"
    "i \<in> set (inspections s) \<Longrightarrow> el \<in> set (elevators s) \<Longrightarrow> ip_elevator i = pk el \<Longrightarrow> company_id i = company_id el"
    "el \<in> set (elevators s) \<Longrightarrow> live_latest (pk el) s = Some i \<Longrightarrow> shows_inspection i el"
  using assms by (auto simp: lifts_ok_def split: option.splits)

text \<open>Whoever sees the lift's firm sees its newest inspection.\<close>

definition sees_firm :: "tenant_ctx \<Rightarrow> pk \<Rightarrow> bool" where
  "sees_firm c co \<longleftrightarrow> system_mode c \<or> current_company c = Some co"

lemma sees_firm_visible: "sees_firm c (company_id r) \<Longrightarrow> visible c r \<longleftrightarrow> \<not> is_deleted r"
  by (auto simp: sees_firm_def visible_def)

lemma visible_sees_firm: "visible c r \<Longrightarrow> sees_firm c (company_id r)"
  by (auto simp: sees_firm_def visible_def split: if_splits option.splits)

lemma latest_inspection_live:
  assumes "\<And>i. i \<in> set (inspections s) \<Longrightarrow> ip_elevator i = k \<Longrightarrow> company_id i = co" "sees_firm (ctx e) co"
  shows "latest_inspection e k s = live_latest k s"
proof -
  have "filter (\<lambda>i. ip_elevator i = k) (objects (ctx e) (inspections s)) =
      filter (\<lambda>i. ip_elevator i = k \<and> \<not> is_deleted i) (inspections s)"
    unfolding objects_def filter_filter using assms
    by (intro filter_cong) (auto simp: sees_firm_visible)
  then show ?thesis by (simp add: latest_inspection_def live_latest_def)
qed

text \<open>What notifying, and adding defects, leaves alone.\<close>

definition beside_lifts :: "'a inspectorate_scheme \<Rightarrow> 'a inspectorate_scheme \<Rightarrow> bool" where
  "beside_lifts s s' \<longleftrightarrow> elevators s' = elevators s \<and> inspections s' = inspections s \<and> next_pk s \<le> next_pk s'"

lemma noted_beside_lifts: "noted s s' \<Longrightarrow> beside_lifts s s'"
  by (auto simp: noted_def beside_lifts_def)

lemma beside_lifts_refl [simp]: "beside_lifts s s"
  by (simp add: beside_lifts_def)

lemma beside_lifts_trans: "beside_lifts s t \<Longrightarrow> beside_lifts t u \<Longrightarrow> beside_lifts s u"
  by (simp add: beside_lifts_def)

lemma beside_lifts_ok: "beside_lifts s s' \<Longrightarrow> lifts_ok s \<Longrightarrow> lifts_ok s'"
  by (auto simp: beside_lifts_def lifts_ok_def live_latest_def intro: less_le_trans)

lemma announce_red_label_noted: "announce_red_label e el i s = Inr s' \<Longrightarrow> noted s s'"
  by (auto simp: announce_red_label_def bind_res_Inr_iff dest: notify_noted)

lemma add_nonconformity_beside: "add_nonconformity e i entry by s = Inr (n, s') \<Longrightarrow> beside_lifts s s'"
  by (auto simp: add_nonconformity_def db_insert_Inr_iff beside_lifts_def)

lemma add_defects_beside:
  "fold_res (\<lambda>entry s. bind_res (add_nonconformity e i entry by s) (\<lambda>(_, s). Inr s)) defects s = Inr s' \<Longrightarrow>
    beside_lifts s s'"
  by (erule fold_res_invariant [where P = "beside_lifts s"])
    (auto simp: bind_res_Inr_iff dest: add_nonconformity_beside intro: beside_lifts_trans)

text \<open>
  The lifts but one show their newest inspection; the one is the one being brought in line.
\<close>

definition lifts_ok_but :: "pk \<Rightarrow> 'a inspectorate_scheme \<Rightarrow> bool" where
  "lifts_ok_but k s \<longleftrightarrow> distinct (map pk (elevators s)) \<and> distinct (map pk (inspections s)) \<and>
    (\<forall>i \<in> set (inspections s). pk i < next_pk s \<and> inspection_checks i \<and>
      (\<forall>el \<in> set (elevators s). ip_elevator i = pk el \<longrightarrow> company_id i = company_id el)) \<and>
    (\<forall>el \<in> set (elevators s). pk el \<noteq> k \<longrightarrow>
      (case live_latest (pk el) s of None \<Rightarrow> True | Some i \<Rightarrow> shows_inspection i el))"

lemma lifts_ok_but_beside: "beside_lifts s s' \<Longrightarrow> lifts_ok_but k s \<Longrightarrow> lifts_ok_but k s'"
  by (auto simp: beside_lifts_def lifts_ok_but_def live_latest_def intro: less_le_trans)

lemma sync_elevator_ok:
  assumes "sync_elevator e el s = Inr s'" "lifts_ok_but (pk el) s" "el \<in> set (elevators s)"
    "sees_firm (ctx e) (company_id el)"
  shows "lifts_ok s'" "inspections s' = inspections s" "next_pk s' = next_pk s"
proof -
  have firm: "company_id i = company_id el" if "i \<in> set (inspections s)" "ip_elevator i = pk el" for i
    using assms(2,3) that by (auto simp: lifts_ok_but_def)
  have live: "latest_inspection e (pk el) s = live_latest (pk el) s" by (rule latest_inspection_live [OF firm assms(4)])
  have "lifts_ok s' \<and> inspections s' = inspections s \<and> next_pk s' = next_pk s"
  proof (cases "live_latest (pk el) s")
    case None
    with assms(1) live have "s' = s" by (simp add: sync_elevator_def)
    moreover have "x = el" if "x \<in> set (elevators s)" "pk x = pk el" for x
      using assms(2,3) that distinct_map_unique [of pk "elevators s" x el] by (simp add: lifts_ok_but_def)
    ultimately show ?thesis using assms(2) None by (fastforce simp: lifts_ok_but_def lifts_ok_def)
  next
    case (Some i)
    let ?f = "\<lambda>x. (show_inspection i x)\<lparr>el_status := (case synced_status i el of None \<Rightarrow> el_status x | Some v \<Rightarrow> v)\<rparr>"
    from assms(1) live Some have s': "s' = elevators_update (update_where (\<lambda>x. pk x = pk el)
        (\<lambda>x. (?f x)\<lparr>updated_at := now e\<rparr>)) s"
      by (auto simp: sync_elevator_def bind_res_Inr_iff save_fields_Inr Let_def)
    have dist: "distinct (map pk (elevators s))" using assms(2) by (simp add: lifts_ok_but_def)
    have rows: "elevators s' = update_where (\<lambda>x. pk x = pk el) (\<lambda>_. (?f el)\<lparr>updated_at := now e\<rparr>) (elevators s)"
      using update_where_in [OF dist assms(3) refl, of "\<lambda>x. (?f x)\<lparr>updated_at := now e\<rparr>"] by (simp add: s')
    let ?el = "(?f el)\<lparr>updated_at := now e\<rparr>"
    have el': "pk ?el = pk el" "company_id ?el = company_id el" by (simp_all add: show_inspection_def)
    have "ip_label i = Red \<Longrightarrow> el_status ?el \<noteq> E_active"
      by (auto simp: synced_status_def Let_def)
    then have sh: "shows_inspection i ?el" by (simp add: shows_inspection_def show_inspection_def)
    have same: "inspections s' = inspections s" "next_pk s' = next_pk s" "live_latest k s' = live_latest k s" for k
      by (simp_all add: s' live_latest_def)
    have "map pk (elevators s') = map pk (elevators s)"
      unfolding rows by (rule map_update_where_same) (simp add: el')
    moreover have "\<forall>x \<in> set (elevators s'). case live_latest (pk x) s' of None \<Rightarrow> True | Some i \<Rightarrow> shows_inspection i x"
      using assms(2) Some sh unfolding rows same
      by (auto simp: set_update_where lifts_ok_but_def el' simp del: shows_inspection_def)
    moreover have "\<forall>i \<in> set (inspections s). \<forall>x \<in> set (elevators s'). ip_elevator i = pk x \<longrightarrow> company_id i = company_id x"
      using assms(2,3) unfolding rows by (auto simp: set_update_where lifts_ok_but_def el')
    ultimately show ?thesis using assms(2) by (auto simp: lifts_ok_def lifts_ok_but_def same)
  qed
  then show "lifts_ok s'" "inspections s' = inspections s" "next_pk s' = next_pk s" by blast+
qed


section \<open>Recording and correcting\<close>

lemma live_latest_append:
  "inspections s' = inspections s @ [i] \<Longrightarrow> ip_elevator i \<noteq> k \<Longrightarrow> live_latest k s' = live_latest k s"
  by (simp add: live_latest_def)

lemma insert_inspection_ok:
  assumes "insert_inspection e i s = Inr (i', s')" "lifts_ok s" "el \<in> set (elevators s)"
    "ip_elevator i = pk el" "company_id i = company_id el"
  shows "lifts_ok_but (pk el) s'" "inspections s' = inspections s @ [i']" "elevators s' = elevators s"
    "i' = stamped e (next_pk s) i" "inspection_checks i'"
proof -
  from assms(1) have i': "i' = stamped e (next_pk s) i" and c: "inspection_checks i"
    and s': "s' = inspections_update (\<lambda>rows. rows @ [i']) (s\<lparr>next_pk := Suc (next_pk s)\<rparr>)"
    by (auto simp: insert_inspection_def db_insert_Inr_iff)
  have same: "pk i' = next_pk s" "ip_elevator i' = pk el" "company_id i' = company_id el" "inspection_checks i'"
    using assms(4,5) c by (simp_all add: i' stamped_def inspection_checks_def)
  then show "inspection_checks i'" by simp
  show rows: "inspections s' = inspections s @ [i']" "elevators s' = elevators s" "i' = stamped e (next_pk s) i"
    by (simp_all add: s' i')
  note ok = lifts_okD [OF assms(2)]
  have co: "company_id i' = company_id x" if "x \<in> set (elevators s)" "pk x = pk el" for x
    using distinct_map_unique [OF ok(1) that(1) assms(3) that(2)] same(3) by simp
  have "live_latest (pk x) s' = live_latest (pk x) s" if "pk x \<noteq> pk el" for x :: elevator
    using live_latest_append [OF rows(1)] that same(2) by auto
  then have "\<forall>x \<in> set (elevators s'). pk x \<noteq> pk el \<longrightarrow>
      (case live_latest (pk x) s' of None \<Rightarrow> True | Some i \<Rightarrow> shows_inspection i x)"
    using assms(2) by (auto simp: rows lifts_ok_def)
  moreover have "distinct (map pk (inspections s'))" using ok(2) by (auto simp: rows same dest: ok(3))
  moreover have "\<forall>j \<in> set (inspections s'). pk j < next_pk s' \<and> inspection_checks j \<and>
      (\<forall>x \<in> set (elevators s'). ip_elevator j = pk x \<longrightarrow> company_id j = company_id x)"
    using ok(3-5) co same by (auto simp: rows s' less_Suc_eq)
  ultimately show "lifts_ok_but (pk el) s'" using ok(1) by (simp add: lifts_ok_but_def rows)
qed

lemma record_inspection_steps:
  assumes "record_inspection e el d l by kind follows body number next_due defects s = Inr (i', s')"
  obtains due i deadline s1 s2 s3 where
    "(case next_due of Some d \<Rightarrow> Inr d | None \<Rightarrow> default_next_inspection_due d follows) = Inr due"
    "i = blank_inspection\<lparr>company_id := company_id el, ip_elevator := pk el, ip_kind := kind,
      ip_follows := map_option pk follows, ip_inspected_on := d, ip_label := l, ip_body := body,
      ip_report_number := number, ip_next_due := due, created_by := by, updated_by := by\<rparr>"
    "derive_deadline i follows = Inr deadline" "insert_inspection e (i\<lparr>ip_deadline := deadline\<rparr>) s = Inr (i', s1)"
    "fold_res (\<lambda>entry s. bind_res (add_nonconformity e i' entry by s) (\<lambda>(_, s). Inr s)) defects s1 = Inr s2"
    "sync_elevator e el s2 = Inr s3" "(if l = Red then announce_red_label e el i' s3 else Inr s3) = Inr s'"
  using assms unfolding record_inspection_def Let_def
  by (elim run_elims) (hypsubst, rule that [OF _ refl], assumption+)

lemma record_inspection_ok:
  assumes run: "record_inspection e el d l by kind follows body number next_due defects s = Inr (i, s')"
    and ok: "lifts_ok s" and el: "el \<in> set (elevators s)" "sees_firm (ctx e) (company_id el)"
  shows "lifts_ok s'" "inspections s' = inspections s @ [i]" "ip_label i = l" "ip_elevator i = pk el"
    "correction_deadline l (case follows of Some o1 \<Rightarrow> ip_inspected_on o1 | None \<Rightarrow> d) (Some (ip_next_due i)) = Inr (ip_deadline i)"
proof -
  from record_inspection_steps [OF run] obtain due j deadline s1 s2 s3 where
    "(case next_due of Some d \<Rightarrow> Inr d | None \<Rightarrow> default_next_inspection_due d follows) = Inr due"
    and j: "j = blank_inspection\<lparr>company_id := company_id el, ip_elevator := pk el, ip_kind := kind,
      ip_follows := map_option pk follows, ip_inspected_on := d, ip_label := l, ip_body := body,
      ip_report_number := number, ip_next_due := due, created_by := by, updated_by := by\<rparr>"
    and dl: "derive_deadline j follows = Inr deadline"
    and ins: "insert_inspection e (j\<lparr>ip_deadline := deadline\<rparr>) s = Inr (i, s1)"
    and nc: "fold_res (\<lambda>entry s. bind_res (add_nonconformity e i entry by s) (\<lambda>(_, s). Inr s)) defects s1 = Inr s2"
    and sync: "sync_elevator e el s2 = Inr s3" and an: "(if l = Red then announce_red_label e el i s3 else Inr s3) = Inr s'"
    by (rule record_inspection_steps [OF run])
  note one = insert_inspection_ok [OF ins ok el(1)]
  have j': "ip_elevator (j\<lparr>ip_deadline := deadline\<rparr>) = pk el" "company_id (j\<lparr>ip_deadline := deadline\<rparr>) = company_id el"
    by (simp_all add: j)
  note two = add_defects_beside [OF nc]
  have el2: "el \<in> set (elevators s2)" using one(3) [OF j'] two el(1) by (simp add: beside_lifts_def)
  note three = sync_elevator_ok [OF sync lifts_ok_but_beside [OF two one(1) [OF j']] el2 el(2)]
  have four: "beside_lifts s3 s'" using an by (auto dest: announce_red_label_noted noted_beside_lifts split: if_splits)
  show "lifts_ok s'" by (rule beside_lifts_ok [OF four three(1)])
  show "inspections s' = inspections s @ [i]"
    using one(2) [OF j'] two three(2) four by (simp add: beside_lifts_def)
  have i: "i = stamped e (next_pk s) (j\<lparr>ip_deadline := deadline\<rparr>)" by (rule one(4) [OF j'])
  show "ip_label i = l" "ip_elevator i = pk el" by (simp_all add: i j stamped_def)
  show "correction_deadline l (case follows of Some o1 \<Rightarrow> ip_inspected_on o1 | None \<Rightarrow> d) (Some (ip_next_due i)) = Inr (ip_deadline i)"
    using dl by (simp add: i j stamped_def derive_deadline_def origin_of_def split: option.splits)
qed

lemma change_inspection_same:
  "pk (change_inspection c i) = pk i \<and> company_id (change_inspection c i) = company_id i \<and>
    ip_elevator (change_inspection c i) = ip_elevator i \<and> is_deleted (change_inspection c i) = is_deleted i"
  by (cases c) simp_all

lemma fold_change_inspection_same:
  "pk (fold change_inspection cs i) = pk i \<and> company_id (fold change_inspection cs i) = company_id i \<and>
    ip_elevator (fold change_inspection cs i) = ip_elevator i \<and> is_deleted (fold change_inspection cs i) = is_deleted i"
  by (induction cs arbitrary: i) (simp_all add: change_inspection_same)

text \<open>An inspection rewritten, its lift not yet in line.\<close>

lemma lifts_ok_weaken: "lifts_ok s \<Longrightarrow> lifts_ok_but k s"
  by (simp add: lifts_ok_def lifts_ok_but_def)

lemma inspection_replaced:
  assumes "lifts_ok_but (ip_elevator i) s" "i \<in> set (inspections s)" "pk j = pk i" "company_id j = company_id i"
    "ip_elevator j = ip_elevator i" "inspection_checks j"
    and s': "s' = inspections_update (update_where (\<lambda>x. pk x = pk i) (\<lambda>_. j)) s"
  shows "lifts_ok_but (ip_elevator i) s' \<and> j \<in> set (inspections s') \<and> elevators s' = elevators s"
proof -
  have dist: "distinct (map pk (inspections s))" using assms(1) by (simp add: lifts_ok_but_def)
  have same: "x = i" if "x \<in> set (inspections s)" "pk x = pk i" for x
    using distinct_map_unique [OF dist that(1) assms(2) that(2)] .
  have "filter (\<lambda>x. ip_elevator x = k \<and> \<not> is_deleted x) (inspections s') =
      filter (\<lambda>x. ip_elevator x = k \<and> \<not> is_deleted x) (inspections s)" if "k \<noteq> ip_elevator i" for k
  proof -
    have "filter (\<lambda>x. ip_elevator x = k \<and> \<not> is_deleted x) (update_where (\<lambda>x. pk x = pk i) (\<lambda>_. j) xs) =
      filter (\<lambda>x. ip_elevator x = k \<and> \<not> is_deleted x) xs" if "set xs \<subseteq> set (inspections s)" for xs
      using that \<open>k \<noteq> ip_elevator i\<close> assms(5) same by (induction xs) auto
    then show ?thesis by (simp add: s')
  qed
  then have live: "live_latest k s' = live_latest k s" if "k \<noteq> ip_elevator i" for k
    using that by (simp add: live_latest_def)
  have "map pk (inspections s') = map pk (inspections s)"
    by (simp add: s' map_pk_save assms(3))
  moreover have "\<forall>x \<in> set (inspections s'). pk x < next_pk s' \<and> inspection_checks x \<and>
      (\<forall>el \<in> set (elevators s'). ip_elevator x = pk el \<longrightarrow> company_id x = company_id el)"
    using assms(1-6) by (auto simp: s' set_update_where lifts_ok_but_def)
  moreover have "elevators s' = elevators s" by (simp add: s')
  moreover have "j \<in> set (inspections s')" using assms(2) by (auto simp: s' set_update_where)
  ultimately show ?thesis using assms(1) live by (auto simp: lifts_ok_but_def)
qed

lemma set_report_keeps:
  assumes "set_report e i report s = Inr (i', s')" "lifts_ok_but (ip_elevator i) s" "i \<in> set (inspections s)"
  shows "lifts_ok_but (ip_elevator i) s' \<and> i' \<in> set (inspections s') \<and> elevators s' = elevators s \<and>
    ip_elevator i' = ip_elevator i \<and> ip_label i' = ip_label i \<and> company_id i' = company_id i \<and>
    ip_deadline i' = ip_deadline i \<and> pk i' = pk i \<and>
    ip_inspected_on i' = ip_inspected_on i \<and> ip_next_due i' = ip_next_due i"
proof (cases report)
  case None
  with assms show ?thesis by (simp add: set_report_def)
next
  case (Some r)
  with assms(1) obtain k where "save_fields e inspections_update True (\<lambda>x. x\<lparr>ip_report := k\<rparr>) i s = Inr (i', s')"
    by (auto simp: set_report_def attach_report_def bind_res_Inr_iff split: option.splits if_splits)
  then have i': "i' = i\<lparr>ip_report := k, updated_at := now e\<rparr>"
    and s': "s' = inspections_update (update_where (\<lambda>x. pk x = pk i) (\<lambda>x. x\<lparr>ip_report := k, updated_at := now e\<rparr>)) s"
    by (simp_all add: save_fields_Inr)
  have dist: "distinct (map pk (inspections s))" using assms(2) by (simp add: lifts_ok_but_def)
  have "update_where (\<lambda>x. pk x = pk i) (\<lambda>x. x\<lparr>ip_report := k, updated_at := now e\<rparr>) (inspections s) =
      update_where (\<lambda>x. pk x = pk i) (\<lambda>_. i') (inspections s)"
    using update_where_in [OF dist assms(3) refl, of "\<lambda>x. x\<lparr>ip_report := k, updated_at := now e\<rparr>"] by (simp add: i')
  then have s'': "s' = inspections_update (update_where (\<lambda>x. pk x = pk i) (\<lambda>_. i')) s" by (simp add: s')
  have "inspection_checks i" using assms(2,3) by (simp add: lifts_ok_but_def)
  then have c: "inspection_checks i'" by (simp add: i' inspection_checks_def)
  have same: "pk i' = pk i" "company_id i' = company_id i" "ip_elevator i' = ip_elevator i" by (simp_all add: i')
  from inspection_replaced [OF assms(2,3) same c s''] show ?thesis by (simp add: i')
qed

lemma edit_inspection_steps:
  assumes "edit_inspection e i changes report by s = Inr (i', s')"
  obtains follows deadline i2 s1 s2 el s3 where
    "followed i s = Inr follows" "derive_deadline (fold change_inspection changes i) follows = Inr deadline"
    "db_update e inspections_update
      (inspection_fits ((fold change_inspection changes i)\<lparr>ip_deadline := deadline, updated_by := by\<rparr>))
      (inspection_checks ((fold change_inspection changes i)\<lparr>ip_deadline := deadline, updated_by := by\<rparr>))
      ((fold change_inspection changes i)\<lparr>ip_deadline := deadline, updated_by := by\<rparr>) s = Inr (i2, s1)"
    "set_report e i2 report s1 = Inr (i', s2)" "get_row (ip_elevator i') (elevators s2) = Inr el"
    "sync_elevator e el s2 = Inr s3"
    "(if ip_label i' = Red \<and> ip_label i \<noteq> Red then announce_red_label e el i' s3 else Inr s3) = Inr s'"
  using assms unfolding edit_inspection_def Let_def
  by (elim run_elims) (hypsubst, rule that, assumption+)

lemma edit_inspection_ok:
  assumes run: "edit_inspection e i changes report by s = Inr (i', s')"
    and ok: "lifts_ok s" and i: "i \<in> set (inspections s)" "visible (ctx e) i"
  shows "lifts_ok s'" and "i' \<in> set (inspections s')" and "ip_elevator i' = ip_elevator i"
    and "\<exists>follows. followed i s = Inr follows \<and> correction_deadline (ip_label i')
      (case follows of Some o1 \<Rightarrow> ip_inspected_on o1 | None \<Rightarrow> ip_inspected_on i') (Some (ip_next_due i')) = Inr (ip_deadline i')"
proof -
  from edit_inspection_steps [OF run] obtain follows deadline i2 s1 s2 el s3 where
    fo: "followed i s = Inr follows" and dl: "derive_deadline (fold change_inspection changes i) follows = Inr deadline"
    and up: "db_update e inspections_update
      (inspection_fits ((fold change_inspection changes i)\<lparr>ip_deadline := deadline, updated_by := by\<rparr>))
      (inspection_checks ((fold change_inspection changes i)\<lparr>ip_deadline := deadline, updated_by := by\<rparr>))
      ((fold change_inspection changes i)\<lparr>ip_deadline := deadline, updated_by := by\<rparr>) s = Inr (i2, s1)"
    and rep: "set_report e i2 report s1 = Inr (i', s2)" and el: "get_row (ip_elevator i') (elevators s2) = Inr el"
    and sync: "sync_elevator e el s2 = Inr s3"
    and an: "(if ip_label i' = Red \<and> ip_label i \<noteq> Red then announce_red_label e el i' s3 else Inr s3) = Inr s'"
    by (rule edit_inspection_steps [OF run])
  from up have i2: "i2 = (fold change_inspection changes i)\<lparr>ip_deadline := deadline, updated_by := by, updated_at := now e\<rparr>"
    and c: "inspection_checks i2"
    and s1: "s1 = inspections_update (update_where (\<lambda>x. pk x = pk i) (\<lambda>_. i2)) s"
    by (auto simp: db_update_def Let_def fold_change_inspection_same inspection_checks_def split: if_splits)
  have same: "pk i2 = pk i" "company_id i2 = company_id i" "ip_elevator i2 = ip_elevator i"
    by (simp_all add: i2 fold_change_inspection_same)
  note one = inspection_replaced [OF lifts_ok_weaken [OF ok] i(1) same c s1]
  have "lifts_ok_but (ip_elevator i2) s1" "i2 \<in> set (inspections s1)" using one same(3) by simp_all
  note two = set_report_keeps [OF rep this]
  from el have elin: "el \<in> set (elevators s2)" "pk el = ip_elevator i'" by (auto simp: get_row_Inr_iff dest: by_pk_SomeD)
  have but: "lifts_ok_but (pk el) s2" using two elin(2) same(3) by simp
  have "company_id i' = company_id el" using but two elin by (auto simp: lifts_ok_but_def)
  then have "sees_firm (ctx e) (company_id el)" using two same(2) visible_sees_firm [OF i(2)] by simp
  note three = sync_elevator_ok [OF sync but elin(1) this]
  have four: "beside_lifts s3 s'" using an by (auto dest: announce_red_label_noted noted_beside_lifts split: if_splits)
  show "lifts_ok s'" by (rule beside_lifts_ok [OF four three(1)])
  show "i' \<in> set (inspections s')" using two three(2) four by (simp add: beside_lifts_def)
  show "ip_elevator i' = ip_elevator i" using two same(3) by simp
  have "ip_label i' = ip_label (fold change_inspection changes i)" "ip_next_due i' = ip_next_due (fold change_inspection changes i)"
    "ip_inspected_on i' = ip_inspected_on (fold change_inspection changes i)" "ip_deadline i' = deadline"
    using two by (simp_all add: i2)
  with dl have "correction_deadline (ip_label i')
      (case follows of Some o1 \<Rightarrow> ip_inspected_on o1 | None \<Rightarrow> ip_inspected_on i') (Some (ip_next_due i')) = Inr (ip_deadline i')"
    by (simp add: derive_deadline_def origin_of_def split: option.splits)
  with fo show "\<exists>follows. followed i s = Inr follows \<and> correction_deadline (ip_label i')
      (case follows of Some o1 \<Rightarrow> ip_inspected_on o1 | None \<Rightarrow> ip_inspected_on i') (Some (ip_next_due i')) = Inr (ip_deadline i')"
    by blast
qed

section \<open>Defects\<close>

text \<open>A fixed defect has the day it was fixed, an open one has none.\<close>

lemma settle_fixed_on_ok:
  "nc_status (settle_fixed_on t n) = nc_status n"
  "(nc_status n = Nc_fixed \<longrightarrow> nc_fixed_on (settle_fixed_on t n) \<noteq> None) \<and>
   (nc_status n = Nc_open \<longrightarrow> nc_fixed_on (settle_fixed_on t n) = None)"
  by (auto simp: settle_fixed_on_def Let_def)

text \<open>The ways of counting the open defects of an inspection agree.\<close>

lemma open_defects_count:
  assumes "followed i s = Inr f"
  shows "length (open_defects_in e {pk i, pk (origin_of i f)} s) =
    length (filter (\<lambda>n. nc_status n = Nc_open \<and> (nc_inspection n = pk i \<or> Some (nc_inspection n) = ip_follows i))
      (objects (ctx e) (nonconformities s)))"
proof -
  have "pk (origin_of i f) = (case ip_follows i of None \<Rightarrow> pk i | Some k \<Rightarrow> k)"
    using assms by (auto simp: followed_def origin_of_def bind_res_Inr_iff get_row_Inr_iff dest: by_pk_SomeD split: option.splits)
  then show ?thesis
    unfolding open_defects_in_def by (intro arg_cong [where f = length] filter_cong) (auto split: option.splits)
qed

lemma open_correction_annotated:
  assumes "\<And>i. latest_inspection e k s = Some i \<Longrightarrow> returns (followed i s)"
  shows "open_correction e k s = Inr (annotated_correction e k s)"
proof (cases "latest_inspection e k s")
  case None
  then show ?thesis by (simp add: open_correction_def annotated_correction_def Let_def)
next
  case (Some i)
  with assms obtain f where f: "followed i s = Inr f" by (auto simp: returns_def)
  then have "open_nonconformities e i s = Inr (open_defects_in e {pk i, pk (origin_of i f)} s)"
    by (simp add: open_nonconformities_def)
  moreover define c where "c = length (filter (\<lambda>n. nc_status n = Nc_open \<and>
      (nc_inspection n = pk i \<or> Some (nc_inspection n) = ip_follows i)) (objects (ctx e) (nonconformities s)))"
  have "annotated_correction e k s = (if c = 0 \<or> ip_deadline i = None then None else ip_deadline i, c)"
    by (simp add: annotated_correction_def Let_def Some c_def)
  moreover have "length (open_defects_in e {pk i, pk (origin_of i f)} s) = c"
    unfolding c_def by (rule open_defects_count [OF f])
  ultimately show ?thesis
    by (cases "open_defects_in e {pk i, pk (origin_of i f)} s = []") (auto simp: open_correction_def Let_def Some)
qed

lemma due_row_counts:
  assumes "followed i s = Inr f" "ip_follows i \<noteq> Some (pk i)"
  shows "count_open e (pk i) s + (case ip_follows i of None \<Rightarrow> 0 | Some k \<Rightarrow> count_open e k s) =
    length (open_defects_in e {pk i, pk (origin_of i f)} s)"
proof -
  show ?thesis
  proof (cases "ip_follows i")
    case None
    then show ?thesis unfolding open_defects_count [OF assms(1)] count_open_def
      by (auto intro!: arg_cong [where f = length] filter_cong)
  next
    case (Some k)
    with assms(2) have ne: "k \<noteq> pk i" by auto
    have "length (filter (\<lambda>n. nc_status n = Nc_open \<and> (nc_inspection n = pk i \<or> nc_inspection n = k)) xs) =
        length (filter (\<lambda>n. nc_inspection n = pk i \<and> nc_status n = Nc_open) xs) +
        length (filter (\<lambda>n. nc_inspection n = k \<and> nc_status n = Nc_open) xs)" for xs :: "nonconformity list"
      using ne by (induction xs) auto
    then show ?thesis unfolding open_defects_count [OF assms(1)] count_open_def Some option.case option.inject by simp
  qed
qed

section \<open>The daily warnings are raised once\<close>

text \<open>What a job reads is not what a notification writes.\<close>

lemma noted_followed: "noted s u \<Longrightarrow> followed i u = followed i s"
  by (auto simp: noted_def followed_def split: option.split)

lemma noted_reads:
  "noted s u \<Longrightarrow> open_nonconformities e i u = open_nonconformities e i s"
  "noted s u \<Longrightarrow> office_and_technicians el u = office_and_technicians el s"
  "noted s u \<Longrightarrow> inspection_facts el i u = inspection_facts el i s"
  "noted s u \<Longrightarrow> fault_office co u = fault_office co s"
  "noted s u \<Longrightarrow> elevators u = elevators s" "noted s u \<Longrightarrow> buildings u = buildings s"
  "noted s u \<Longrightarrow> inspections_due e d1 d2 u = inspections_due e d1 d2 s"
  "noted s u \<Longrightarrow> deadlines_open e u = deadlines_open e s"
  for s :: "'a inspectorate_scheme"
  by (simp add: open_nonconformities_def noted_followed, simp add: open_defects_in_def noted_def, fastforce)
    (auto simp: noted_def office_and_technicians_def
      fault_office_def technicians_of_def inspection_facts_def inspections_due_def under_active_contract_def
      deadlines_open_def current_inspections_def superseded_def)

lemma warn_deadline_cases:
  assumes "warn_deadline e t i (n, s) = Inr (n', s')"
  obtains (idle) d still_open where "ip_deadline i = Some d" "open_nonconformities e i s = Inr still_open"
      "still_open = [] \<or> warning_for (days_between d t) = None" "s' = s"
  | (warned) d still_open kind threshold el people known created where "ip_deadline i = Some d"
      "open_nonconformities e i s = Inr still_open" "still_open \<noteq> []"
      "warning_for (days_between d t) = Some (kind, threshold)" "get_row (ip_elevator i) (elevators s) = Inr el"
      "office_and_technicians el s = Inr people" "inspection_facts el i s = Inr known"
      "notify e kind people ''elevator'' (ip_elevator i)
         (known @ [(''days_left'', Number (days_between d t)),
           (''open_nonconformities'', Number (int (length still_open)))])
         (kind @ '':'' @ digits (pk i) @ '':'' @ threshold) s = Inr (created, s')"
proof -
  from assms obtain d still_open where d: "ip_deadline i = Some d" "open_nonconformities e i s = Inr still_open"
    by (auto simp: warn_deadline_def bind_res_Inr_iff split: option.splits)
  show thesis
  proof (cases "still_open = [] \<or> warning_for (days_between d t) = None")
    case True
    with assms d have "s' = s" by (auto simp: warn_deadline_def split: if_splits)
    with idle [OF d True] show ?thesis .
  next
    case False
    then obtain kind threshold where w: "warning_for (days_between d t) = Some (kind, threshold)" by auto
    with assms d False show ?thesis
      by (simp add: warn_deadline_def) (elim run_elims, hypsubst, rule warned [OF d _ w], simp_all)
  qed
qed

lemma warn_deadline_noted: "warn_deadline e t i (n, s) = Inr (n', s') \<Longrightarrow> noted s s'"
  by (erule warn_deadline_cases) (auto dest: notify_noted)

lemma warn_deadline_again:
  assumes "warn_deadline e t i (n, s) = Inr (n', s')" "noted s' u"
  shows "warn_deadline e t i (m, u) = Inr (m, u)"
proof -
  have u: "noted s u" by (rule noted_trans [OF warn_deadline_noted [OF assms(1)] assms(2)])
  from assms(1) show ?thesis
  proof (cases rule: warn_deadline_cases)
    case idle
    then show ?thesis by (auto simp: warn_deadline_def noted_reads [OF u])
  next
    case warned
    with notify_again [OF warned(8) assms(2)] show ?thesis
      by (simp add: warn_deadline_def noted_reads [OF u])
  qed
qed

lemma announce_due_noted: "announce_due e el (n, s) = Inr (n', s') \<Longrightarrow> noted s s'"
  by (auto simp: announce_due_def bind_res_Inr_iff dest: notify_noted split: option.splits)

lemma announce_due_again:
  assumes "announce_due e el (n, s) = Inr (n', s')" "noted s' u"
  shows "announce_due e el (m, u) = Inr (m, u)"
proof -
  have u: "noted s u" by (rule noted_trans [OF announce_due_noted [OF assms(1)] assms(2)])
  from assms(1) obtain d b created where "el_next_inspection_date el = Some d"
    "get_row (el_building el) (buildings s) = Inr b"
    "notify e ''inspection_due'' (fault_office (company_id el) s) ''elevator'' (pk el)
             [(''elevator_name'', Text (el_name el)), (''building_name'', Text (bd_name b)),
              (''next_inspection_date'', Text (isoformat d)), (''inspection_body'', Text (el_inspection_body el))]
             (''inspection_due:'' @ digits (pk el) @ '':'' @ isoformat d @ '':'' @ int_text INSPECTION_NOTICE_DAYS)
             s = Inr (created, s')"
    by (auto simp: announce_due_def bind_res_Inr_iff split: option.splits)
  with notify_again [OF this(3) assms(2)] show ?thesis
    by (simp add: announce_due_def noted_reads [OF u])
qed

interpretation deadline_warnings: daily_notice "warn_deadline e t"
  by unfold_locales (rule warn_deadline_noted, assumption, rule warn_deadline_again)

interpretation inspection_notices: daily_notice "announce_due e"
  by unfold_locales (rule announce_due_noted, assumption, rule announce_due_again)

lemma correction_notice_again:
  assumes "correction_deadline_notice_in_scope e t s = Inr (n, s')"
  shows "correction_deadline_notice_in_scope e t s' = Inr (0, s')"
proof -
  note run = assms [unfolded correction_deadline_notice_in_scope_def]
  have "deadlines_open e s' = deadlines_open e s" by (rule noted_reads(8) [OF deadline_warnings.run_noted [OF run]])
  with deadline_warnings.run_again [OF run noted_refl] show ?thesis
    by (simp add: correction_deadline_notice_in_scope_def)
qed

lemma inspection_notice_again:
  assumes "inspection_due_notice_in_scope e t s = Inr (n, s')"
  shows "inspection_due_notice_in_scope e t s' = Inr (0, s')"
proof -
  from assms obtain h where h: "add_days t INSPECTION_NOTICE_DAYS = Some h"
    and run: "fold_res (announce_due e) (inspections_due e t h s) (0, s) = Inr (n, s')"
    by (auto simp: inspection_due_notice_in_scope_def bind_res_Inr_iff the_res_Inr_iff)
  have "noted s s'" by (rule inspection_notices.run_noted [OF run])
  with inspection_notices.run_again [OF run noted_refl, of 0] h show ?thesis
    by (simp add: inspection_due_notice_in_scope_def noted_reads(7))
qed

section \<open>The fault of a defect\<close>

lemma open_fault_steps:
  assumes "open_fault e w k by s = Inr (f, s')"
  obtains n i el where "by_pk k (objects (ctx e) (nonconformities s)) = Some n"
    "by_pk (nc_inspection n) (inspections s) = Some i" "by_pk (ip_elevator i) (elevators s) = Some el"
    "case nc_fault n of Some g \<Rightarrow> by_pk g (faults s) = Some f \<and> s' = s
     | None \<Rightarrow> \<exists>s1. report_by_staff e w el (take 1000 (nc_description n))
            (if nc_severity n = Red then High else Normal) by None False False s = Inr (f, s1) \<and>
          s' = nonconformities_update (update_where (\<lambda>x. pk x = k)
            (\<lambda>x. x\<lparr>nc_fault := Some (pk f), updated_by := Some (pk by), updated_at := now e\<rparr>)) s1"
proof -
  from assms obtain n i el where b': "get_row k (objects (ctx e) (nonconformities s)) = Inr n"
    "get_row (nc_inspection n) (inspections s) = Inr i" "get_row (ip_elevator i) (elevators s) = Inr el"
    and c: "(case nc_fault n of Some f \<Rightarrow> bind_res (get_row f (faults s)) (\<lambda>f. Inr (f, s))
    | None \<Rightarrow>
        bind_res (report_by_staff e w el (take 1000 (nc_description n))
            (if nc_severity n = Red then High else Normal) by None False False s) (\<lambda>(f, s).
        bind_res (save_fields e nonconformities_update True
            (\<lambda>x. x\<lparr>nc_fault := Some (pk f), updated_by := Some (pk by)\<rparr>) n s) (\<lambda>(_, s).
        Inr (f, s)))) = Inr (f, s')"
    unfolding open_fault_def by - ((erule bind_res_InrE)+, rule that)
  have b: "by_pk k (objects (ctx e) (nonconformities s)) = Some n"
    "by_pk (nc_inspection n) (inspections s) = Some i" "by_pk (ip_elevator i) (elevators s) = Some el"
    using b' by (simp_all only: get_row_Inr_iff)
  have "pk n = k" using by_pk_SomeD [OF b(1)] by simp
  with c have "case nc_fault n of Some g \<Rightarrow> by_pk g (faults s) = Some f \<and> s' = s
     | None \<Rightarrow> \<exists>s1. report_by_staff e w el (take 1000 (nc_description n))
            (if nc_severity n = Red then High else Normal) by None False False s = Inr (f, s1) \<and>
          s' = nonconformities_update (update_where (\<lambda>x. pk x = k)
            (\<lambda>x. x\<lparr>nc_fault := Some (pk f), updated_by := Some (pk by), updated_at := now e\<rparr>)) s1"
    by (auto simp: bind_res_Inr_iff get_row_Inr_iff save_fields_Inr split: option.splits)
  with b that show ?thesis by blast
qed

text \<open>What reporting from the firm leaves alone, the lift staying in service.\<close>

lemma insert_attempts_frame:
  "insert_attempts e rs f s = Inr (f', s') \<Longrightarrow> \<exists>k fs. s' = s\<lparr>next_pk := k, faults := fs\<rparr>"
proof (induction rs)
  case (Cons r rs)
  show ?case
  proof (cases "db_insert e faults_update (fault_fits (f\<lparr>fl_reference := r\<rparr>))
      (unique_with faults_clash (f\<lparr>fl_reference := r\<rparr>) (faults s)) (f\<lparr>fl_reference := r\<rparr>) s")
    case (Inl err)
    with Cons show ?thesis by (cases err) auto
  next
    case (Inr x)
    with Cons.prems have "x = (f', s')" by simp
    with Inr have "s' = faults_update (\<lambda>rows. rows @ [f']) (s\<lparr>next_pk := Suc (next_pk s)\<rparr>)"
      by (simp add: db_insert_Inr_iff)
    then have "s' = s\<lparr>next_pk := Suc (next_pk s), faults := faults s @ [f']\<rparr>" by simp
    then show ?thesis by blast
  qed
qed simp

lemma report_frame:
  fixes s s' :: "'a inspectorate_scheme"
  assumes "report_by_staff e w el d p u None False tr s = Inr (f, s')"
  shows "nonconformities s' = nonconformities s \<and> inspections s' = inspections s \<and> elevators s' = elevators s"
proof -
  from assms obtain f0 s1 where ins: "insert_fault e w f0 s = Inr (f, s1)" and an: "announce_report e f s1 = Inr s'"
    by (auto simp: report_by_staff_def bind_res_Inr_iff stop_if_def)
  from insert_attempts_frame [OF ins [unfolded insert_fault_def]] obtain k fs where s1: "s1 = s\<lparr>next_pk := k, faults := fs\<rparr>"
    by blast
  have "noted s1 s'" using an by (auto simp: announce_report_def Let_def bind_res_Inr_iff dest: notify_noted)
  then show ?thesis by (auto simp: noted_def s1)
qed

lemma report_by_staff_member:
  assumes "report_by_staff e w el d p u technician st tr s = Inr (f, s')" "board_ok t s"
  shows "f \<in> set (faults s')"
proof -
  from assms(1) obtain s1 s2 s3 f0 where ins: "insert_fault e w f0 s = Inr (f, s1)" and f0: "born (now e) f0"
    and rest: "stop_if st e el s1 = Inr s2" "announce_report e f s2 = Inr s3"
      "(if technician = None then Inr s3 else announce_assignment e w f s3) = Inr s'"
    unfolding report_by_staff_def
    by (elim run_elims) (hypsubst, rule that, assumption, simp add: born_def blank_fault_def, assumption+)
  have "beside_faults s3 s'" using rest(3) by (auto dest: announce_assignment_faults split: if_splits)
  then have "beside_faults s1 s'" using rest(1,2) by (meson beside_intros)
  with insert_fault_step(4) [OF ins f0 assms(2)] show ?thesis by (simp add: beside_faults_def)
qed

text \<open>The row of a key after an update that keeps key, firm and mark of deletion.\<close>

lemma by_pk_updated:
  assumes "\<And>x. pk (g x) = pk x" "\<And>x. company_id (g x) = company_id x" "\<And>x. is_deleted (g x) = is_deleted x"
  shows "by_pk k (objects c (update_where (\<lambda>x. pk x = k) g rows)) = map_option g (by_pk k (objects c rows))"
proof -
  have "visible c (g x) = visible c x" for x unfolding visible_def assms(2,3) ..
  then show ?thesis by (induction rows) (simp_all add: by_pk_def assms(1))
qed

text \<open>A second request for the defect's fault answers with the same fault and changes nothing.\<close>

lemma open_fault_again:
  assumes run: "open_fault e w k by s = Inr (f, s')" and ok: "board_ok t s" "t \<le> now e"
    "distinct (map pk (nonconformities s))" and ctx: "ctx e' = ctx e"
  shows "open_fault e' w' k by' s' = Inr (f, s')"
  using run
proof (rule open_fault_steps)
  fix n i el
  assume n: "by_pk k (objects (ctx e) (nonconformities s)) = Some n"
    and i: "by_pk (nc_inspection n) (inspections s) = Some i" and el: "by_pk (ip_elevator i) (elevators s) = Some el"
    and c: "case nc_fault n of Some g \<Rightarrow> by_pk g (faults s) = Some f \<and> s' = s
     | None \<Rightarrow> \<exists>s1. report_by_staff e w el (take 1000 (nc_description n))
            (if nc_severity n = Red then High else Normal) by None False False s = Inr (f, s1) \<and>
          s' = nonconformities_update (update_where (\<lambda>x. pk x = k)
            (\<lambda>x. x\<lparr>nc_fault := Some (pk f), updated_by := Some (pk by), updated_at := now e\<rparr>)) s1"
  show ?thesis
  proof (cases "nc_fault n")
    case (Some g)
    with c n i el ctx show ?thesis by (simp add: open_fault_def get_row_def)
  next
    case None
    with c obtain s1 where rep: "report_by_staff e w el (take 1000 (nc_description n))
            (if nc_severity n = Red then High else Normal) by None False False s = Inr (f, s1)"
      and s': "s' = nonconformities_update (update_where (\<lambda>x. pk x = k)
            (\<lambda>x. x\<lparr>nc_fault := Some (pk f), updated_by := Some (pk by), updated_at := now e\<rparr>)) s1"
      by auto
    let ?g = "\<lambda>x. x\<lparr>nc_fault := Some (pk f), updated_by := Some (pk by), updated_at := now e\<rparr>"
    note fr = report_frame [OF rep]
    have "board_ok (now e) s1" by (rule life_step_ok [OF report_by_staff_step [OF rep ok(1)] ok(1,2)])
    then have "by_pk (pk f) (faults s1) = Some f"
      using by_pk_unique report_by_staff_member [OF rep ok(1)] by (auto simp: board_ok_def faults_ok_def)
    moreover have "by_pk k (objects (ctx e) (nonconformities s')) = Some (?g n)"
    proof -
      have "by_pk k (objects (ctx e) (update_where (\<lambda>x. pk x = k) ?g (nonconformities s))) =
          map_option ?g (by_pk k (objects (ctx e) (nonconformities s)))"
        by (rule by_pk_updated) simp_all
      then show ?thesis using n fr by (simp add: s')
    qed
    ultimately show ?thesis using i el fr ctx by (simp add: open_fault_def get_row_def s')
  qed
qed

section \<open>The services together\<close>

inductive inspection_service :: "env \<Rightarrow> 'a inspectorate_scheme \<Rightarrow> 'a inspectorate_scheme \<Rightarrow> bool" for e :: env where
  recording: "el \<in> set (elevators s) \<Longrightarrow> visible (ctx e) el \<Longrightarrow>
    record_inspection e el d l by kind follows body number next_due defects s = Inr (i, s') \<Longrightarrow> inspection_service e s s'"
| correcting: "i \<in> set (inspections s) \<Longrightarrow> visible (ctx e) i \<Longrightarrow>
    edit_inspection e i changes report by s = Inr (i', s') \<Longrightarrow> inspection_service e s s'"
| warning: "correction_deadline_notice_in_scope e t s = Inr (n, s') \<Longrightarrow> inspection_service e s s'"
| announcing: "inspection_due_notice_in_scope e t s = Inr (n, s') \<Longrightarrow> inspection_service e s s'"

lemma inspection_service_ok: "inspection_service e s s' \<Longrightarrow> lifts_ok s \<Longrightarrow> lifts_ok s'"
proof (induction rule: inspection_service.induct)
  case recording
  then show ?case using record_inspection_ok(1) visible_sees_firm by blast
next
  case correcting
  then show ?case using edit_inspection_ok(1) by blast
next
  case (warning t s n s')
  have "noted s s'" by (rule deadline_warnings.run_noted [OF warning(1) [unfolded correction_deadline_notice_in_scope_def]])
  with warning(2) show ?case by (blast intro: beside_lifts_ok noted_beside_lifts)
next
  case (announcing t s n s')
  then obtain h where "fold_res (announce_due e) (inspections_due e t h s) (0, s) = Inr (n, s')"
    by (auto simp: inspection_due_notice_in_scope_def bind_res_Inr_iff)
  from inspection_notices.run_noted [OF this] announcing(2) show ?case
    by (blast intro: beside_lifts_ok noted_beside_lifts)
qed

text \<open>Resolving a fault with the lift restored does not look at the label the lift carries.\<close>

lemma resolve_restores:
  assumes run: "resolve e w k by notes parts True s = Inr (f, s')" and dist: "distinct (map pk (elevators s))"
    and el: "by_pk (fl_elevator f) (elevators s) = Some el" "el_status el = Out_of_service"
  shows "by_pk (fl_elevator f) (elevators s') = Some (el\<lparr>el_status := E_active, updated_at := now e\<rparr>)"
proof -
  from run obtain g where g: "locked_fault e k s = Inr g" and st: "fl_status g = F_on_site"
    unfolding resolve_def by (auto simp: bind_res_Inr_iff split: if_splits)
  from run obtain h s1 el' b s2 where sv: "save_fault e h g s = Inr (f, s1)"
    and j: "joined_elevator (fl_elevator f) s1 = Inr (el', b)"
    and r: "(if el_status el' = Out_of_service then set_elevator_status e E_active el' s1 else Inr s1) = Inr s2"
    and an: "announce_resolution e f s2 = Inr s'"
    unfolding resolve_def g st bind_res.simps Let_def simp_thms if_False
    by (elim run_elims) (hypsubst, rule that, assumption+)
  have s1: "elevators s1 = elevators s" using sv by (auto simp: save_fault_def save_fields_Inr)
  have "el' = el" using j el(1) by (auto simp: joined_elevator_def bind_res_Inr_iff get_row_Inr_iff s1)
  with r el(2) have s2: "elevators s2 = update_where (\<lambda>x. pk x = pk el)
      (\<lambda>x. x\<lparr>el_status := E_active, updated_at := now e\<rparr>) (elevators s)"
    by (auto simp: set_elevator_status_def bind_res_Inr_iff save_fields_Inr s1)
  have "noted s2 s'" using an by (auto simp: announce_resolution_def bind_res_Inr_iff dest: notify_noted)
  then have "elevators s' = elevators s2" by (auto simp: noted_def)
  moreover have "by_pk (pk el) (update_where (\<lambda>x. pk x = pk el) (\<lambda>x. x\<lparr>el_status := E_active, updated_at := now e\<rparr>) rows) =
      map_option (\<lambda>x. x\<lparr>el_status := E_active, updated_at := now e\<rparr>) (by_pk (pk el) rows)" for rows :: "elevator list"
    by (induction rows) (simp_all add: by_pk_def)
  ultimately show ?thesis using el(1) by_pk_SomeD [OF el(1)] by (simp add: s2)
qed

end
