(* ===== verification/Maintenance_Laws.thy ===== *)
theory Maintenance_Laws
  imports Maintenance Inspection_Laws
begin

text \<open>
  The laws of maintenance: months as text that read back, the lift whose dates are those of its
  latest completed visit, the row of the plan that says what the month's visits say, the plan that a
  second run of the day leaves alone, and the notices that are raised once.
\<close>

section \<open>Months\<close>

lemma is_digit_digit_char [simp]: "is_digit (digit_char n)"
proof -
  have "n mod 10 < 10" by simp
  then show ?thesis by (simp add: digit_char_def is_digit_def Let_def)
qed

lemma digits_are_digits [simp]: "list_all is_digit (digits n)"
  by (induction n rule: digits.induct) (subst digits.simps, simp)

lemma padded_are_digits [simp]: "list_all is_digit (padded w n)"
proof -
  have "list_all is_digit (replicate k (CHR ''0''))" for k by (induction k) (simp_all add: is_digit_def)
  then show ?thesis by (simp add: padded_def)
qed

lemma padded_not_empty [simp]: "padded w n \<noteq> []"
proof -
  have "digits n \<noteq> []" by (subst digits.simps) simp
  then show ?thesis by (simp add: padded_def)
qed

lemma int_of_text_padded: "int_of_text (padded w n) = Some n"
  using undigits_padded [of w n] by (simp add: int_of_text_def undigits_def)

lemma split_dash_digits: "list_all is_digit t \<Longrightarrow> split_dash t = [t]"
  by (induction t) (auto simp: is_digit_def)

lemma split_dash_at: "list_all is_digit t \<Longrightarrow> split_dash (t @ CHR ''-'' # rest) = t # split_dash rest"
  by (induction t) (auto simp: is_digit_def)

lemma split_dash_period: "split_dash (period_of d) = [padded 4 (nat (year d)), padded 2 (nat (month d))]"
  by (simp add: period_of_def split_dash_at split_dash_digits)

definition first_day :: "date \<Rightarrow> date" where "first_day d = Date (year d) (month d) 1"
definition last_day :: "date \<Rightarrow> date" where "last_day d = Date (year d) (month d) (days_in_month (year d) (month d))"

lemma month_ends_valid:
  assumes "valid_date d"
  shows "valid_date (first_day d)" "valid_date (last_day d)" "first_day d \<le> d" "d \<le> last_day d"
  using assms days_in_month_ge [of "year d" "month d"]
  by (cases d; simp add: valid_date_def first_day_def last_day_def)+

lemma month_bounds_of: "valid_date d \<Longrightarrow> month_bounds (period_of d) = Inr (first_day d, last_day d)"
  using month_ends_valid [of d] days_in_month_ge [of "year d" "month d"]
  by (cases d) (auto simp: month_bounds_def split_dash_period int_of_text_padded mk_date_def valid_date_def
      first_day_def last_day_def)

lemma period_of_eq_iff:
  assumes "valid_date a" "valid_date b"
  shows "period_of a = period_of b \<longleftrightarrow> year a = year b \<and> month a = month b"
proof
  assume "period_of a = period_of b"
  with month_bounds_of [OF assms(1)] month_bounds_of [OF assms(2)] have "first_day a = first_day b" by simp
  then show "year a = year b \<and> month a = month b" by (simp add: first_day_def)
qed (simp add: period_of_def)

text \<open>A day is of the month of another exactly when it lies between that month's ends.\<close>

lemma same_period_iff:
  assumes "valid_date a" "valid_date d"
  shows "period_of a = period_of d \<longleftrightarrow> first_day d \<le> a \<and> a \<le> last_day d"
proof -
  obtain y m n where a: "a = Date y m n" by (cases a)
  obtain y' m' n' where d: "d = Date y' m' n'" by (cases d)
  show ?thesis
    using assms unfolding period_of_eq_iff [OF assms]
    by (auto simp: a d first_day_def last_day_def valid_date_def)
qed

lemma period_of_bounds:
  assumes "valid_date d"
  shows "period_of (first_day d) = period_of d" "period_of (last_day d) = period_of d"
  using assms by (simp_all add: period_of_def first_day_def last_day_def)

lemma due_date_in_of:
  assumes "valid_date d"
  shows "due_date_in (period_of d) next = Inr (case next of None \<Rightarrow> Date (year d) (month d) 15 | Some x \<Rightarrow> min x (last_day d))"
  by (simp add: due_date_in_def month_bounds_of [OF assms] first_day_def split: option.split)

text \<open>A due date is never after its month, and never after the day the lift falls due.\<close>

lemma due_date_bounds:
  assumes "valid_date d" "due_date_in (period_of d) next = Inr due"
  shows "due \<le> last_day d" "next = Some x \<Longrightarrow> due \<le> x" "next = Some x \<Longrightarrow> x \<le> last_day d \<Longrightarrow> due = x"
  using assms(2) days_in_month_ge [of "year d" "month d"] unfolding due_date_in_of [OF assms(1)]
  by (auto simp: last_day_def min_absorb1 split: option.splits)

text \<open>The month after: the month of the day after the last.\<close>

lemma next_period_of:
  assumes "valid_date d" "period_of d \<noteq> period_of (Date 9999 12 1)"
  shows "next_period (period_of d) =
    Inr (period_of (if month d = 12 then Date (year d + 1) 1 1 else Date (year d) (month d + 1) 1))"
proof -
  obtain y m n where d: "d = Date y m n" by (cases d)
  from assms have v: "1 \<le> y" "y \<le> 9999" "1 \<le> m" "m \<le> 12" "\<not> (y = 9999 \<and> m = 12)"
    by (auto simp: d valid_date_def period_of_def)
  let ?x = "if m = 12 then Date (y + 1) 1 1 else Date y (m + 1) 1"
  have x: "valid_date ?x" using v days_in_month_ge [of y "m + 1"] by (auto simp: valid_date_def days_in_month_def)
  have "ordinal ?x = ordinal (last_day d) + 1"
    using v days_before_month_Suc [of m y] days_before_month_13 [of y] days_before_year_Suc [of y]
    by (auto simp: d last_day_def ordinal_def days_before_month_def)
  then have "add_days (last_day d) 1 = Some ?x"
    using x ordinal_bounds [OF x] of_ordinal_ordinal [OF x] by (simp add: add_days_def)
  then show ?thesis unfolding next_period_def month_bounds_of [OF assms(1)] by (simp add: d)
qed

section \<open>The order of the shop\<close>

text \<open>
  Keys are unique, a visit and a row of the plan belong to their lift's firm, dates are dates, a
  period is the month of a date, and a lift has one live row a month.
\<close>

definition shop_ok :: "'a workshop_scheme \<Rightarrow> bool" where
  "shop_ok s \<longleftrightarrow> distinct (map pk (elevators s)) \<and> distinct (map pk (visits s)) \<and> distinct (map pk (plan s)) \<and>
    (\<forall>a \<in> set (plan s). \<forall>b \<in> set (plan s). plan_clash a b \<longrightarrow> pk a = pk b) \<and>
    (\<forall>v \<in> set (visits s). pk v < next_pk s \<and> valid_date (vs_date v) \<and>
      (\<forall>el \<in> set (elevators s). vs_elevator v = pk el \<longrightarrow> company_id v = company_id el)) \<and>
    (\<forall>r \<in> set (plan s). pk r < next_pk s \<and> (\<exists>d. valid_date d \<and> pv_period r = period_of d) \<and>
      (\<forall>el \<in> set (elevators s). pv_elevator r = pk el \<longrightarrow> company_id r = company_id el))"

lemma shop_okD:
  assumes "shop_ok s"
  shows "distinct (map pk (elevators s))" "distinct (map pk (visits s))" "distinct (map pk (plan s))"
    "a \<in> set (plan s) \<Longrightarrow> b \<in> set (plan s) \<Longrightarrow> plan_clash a b \<Longrightarrow> pk a = pk b"
    "v \<in> set (visits s) \<Longrightarrow> pk v < next_pk s" "v \<in> set (visits s) \<Longrightarrow> valid_date (vs_date v)"
    "v \<in> set (visits s) \<Longrightarrow> el \<in> set (elevators s) \<Longrightarrow> vs_elevator v = pk el \<Longrightarrow> company_id v = company_id el"
    "r \<in> set (plan s) \<Longrightarrow> pk r < next_pk s" "r \<in> set (plan s) \<Longrightarrow> \<exists>d. valid_date d \<and> pv_period r = period_of d"
    "r \<in> set (plan s) \<Longrightarrow> el \<in> set (elevators s) \<Longrightarrow> pv_elevator r = pk el \<Longrightarrow> company_id r = company_id el"
  using assms by (auto simp: shop_ok_def)

text \<open>What a row of the plan says of the record, and what an update of its dates or its technician keeps.\<close>

definition row_facts :: "planned_visit \<Rightarrow> pk \<times> pk \<times> bool \<times> pk \<times> string \<times> plan_status \<times> pk option" where
  "row_facts r = (pk r, company_id r, is_deleted r, pv_elevator r, pv_period r, pv_status r, pv_visit r)"

lemma row_facts_eq:
  "row_facts a = row_facts b \<longleftrightarrow> pk a = pk b \<and> company_id a = company_id b \<and> is_deleted a = is_deleted b \<and>
    pv_elevator a = pv_elevator b \<and> pv_period a = pv_period b \<and> pv_status a = pv_status b \<and> pv_visit a = pv_visit b"
  by (simp add: row_facts_def)

lemma same_facts:
  "map f xs = map f ys \<Longrightarrow> x \<in> set xs \<Longrightarrow> \<exists>y \<in> set ys. f x = f y"
  by (metis imageE image_eqI list.set_map)

lemma same_row_facts_pk: "map row_facts xs = map row_facts ys \<Longrightarrow> map pk xs = map pk ys"
proof -
  assume "map row_facts xs = map row_facts ys"
  then have "map (fst \<circ> row_facts) xs = map (fst \<circ> row_facts) ys" by (metis map_map)
  then show ?thesis by (simp add: row_facts_def comp_def)
qed

text \<open>What may change around the record: due dates, technicians, checklists, notices, and the lifts' dates.\<close>

definition lift_key :: "elevator \<Rightarrow> pk \<times> pk" where "lift_key el = (pk el, company_id el)"

definition beside_record :: "'a workshop_scheme \<Rightarrow> 'a workshop_scheme \<Rightarrow> bool" where
  "beside_record s s' \<longleftrightarrow> visits s' = visits s \<and> map row_facts (plan s') = map row_facts (plan s) \<and>
    map lift_key (elevators s') = map lift_key (elevators s) \<and> next_pk s \<le> next_pk s'"

lemma beside_record_refl [simp]: "beside_record s s"
  by (simp add: beside_record_def)

lemma beside_record_trans: "beside_record s t \<Longrightarrow> beside_record t u \<Longrightarrow> beside_record s u"
  by (simp add: beside_record_def)

lemma noted_beside_record: "noted s s' \<Longrightarrow> beside_record s s'"
  by (auto simp: noted_def beside_record_def)

lemma same_lift_key_pk: "map lift_key xs = map lift_key ys \<Longrightarrow> map pk xs = map pk ys"
proof -
  assume "map lift_key xs = map lift_key ys"
  then have "map (fst \<circ> lift_key) xs = map (fst \<circ> lift_key) ys" by (metis map_map)
  then show ?thesis by (simp add: lift_key_def comp_def)
qed

lemma shop_ok_beside:
  assumes "beside_record s s'" "shop_ok s" shows "shop_ok s'"
proof -
  from assms(1) have v: "visits s' = visits s" and k: "next_pk s \<le> next_pk s'"
    and p: "map row_facts (plan s') = map row_facts (plan s)"
    and l: "map lift_key (elevators s') = map lift_key (elevators s)" by (simp_all add: beside_record_def)
  note ok = shop_okD [OF assms(2)]
  have row: "\<exists>y \<in> set (plan s). row_facts x = row_facts y" if "x \<in> set (plan s')" for x
    by (rule same_facts [OF p that])
  have lift: "\<exists>y \<in> set (elevators s). lift_key x = lift_key y" if "x \<in> set (elevators s')" for x
    by (rule same_facts [OF l that])
  have "pk a = pk b" if ab: "a \<in> set (plan s')" "b \<in> set (plan s')" "plan_clash a b" for a b
  proof -
    from row [OF ab(1)] row [OF ab(2)] obtain x y where "x \<in> set (plan s)" "row_facts a = row_facts x"
      "y \<in> set (plan s)" "row_facts b = row_facts y" by blast
    with ok(4) [of x y] ab(3) show ?thesis by (auto simp: row_facts_eq plan_clash_def)
  qed
  moreover have "pk x < next_pk s' \<and> (\<exists>d. valid_date d \<and> pv_period x = period_of d) \<and>
      (\<forall>el \<in> set (elevators s'). pv_elevator x = pk el \<longrightarrow> company_id x = company_id el)"
    if x: "x \<in> set (plan s')" for x
  proof -
    from row [OF x] obtain y where y: "y \<in> set (plan s)" "row_facts x = row_facts y" by blast
    with ok(8-10) [OF y(1)] k lift show ?thesis by (fastforce simp: row_facts_eq lift_key_def)
  qed
  moreover have "pk x < next_pk s' \<and> valid_date (vs_date x) \<and>
      (\<forall>el \<in> set (elevators s'). vs_elevator x = pk el \<longrightarrow> company_id x = company_id el)"
    if "x \<in> set (visits s)" for x
    using ok(5-7) [OF that] k lift by (fastforce simp: lift_key_def)
  ultimately show ?thesis
    unfolding shop_ok_def v using ok(1-3) same_row_facts_pk [OF p] same_lift_key_pk [OF l] by simp
qed

section \<open>What the record says\<close>

definition live_completed :: "pk \<Rightarrow> 'a workshop_scheme \<Rightarrow> visit option" where
  "live_completed k s =
    newest (\<lambda>v. (vs_date v, pk v)) (filter (\<lambda>v. vs_elevator v = k \<and> vs_status v = Completed \<and> \<not> is_deleted v) (visits s))"

definition served :: "'a workshop_scheme \<Rightarrow> elevator \<Rightarrow> bool" where
  "served s el \<longleftrightarrow>
    maintenance_dates el (live_completed (pk el) s) = Inr (el_last_maintenance_date el, el_next_maintenance_date el)"

definition served_but :: "pk set \<Rightarrow> 'a workshop_scheme \<Rightarrow> bool" where
  "served_but K s \<longleftrightarrow> (\<forall>el \<in> set (elevators s). pk el \<notin> K \<longrightarrow> served s el)"

text \<open>The live visits of a lift in a month, the latest first.\<close>

definition live_month :: "pk \<Rightarrow> string \<Rightarrow> 'a workshop_scheme \<Rightarrow> visit list" where
  "live_month k p s =
    rev (sort_key (\<lambda>v. (vs_date v, pk v))
      (filter (\<lambda>v. vs_elevator v = k \<and> period_of (vs_date v) = p \<and> \<not> is_deleted v) (visits s)))"

definition row_agrees :: "'a workshop_scheme \<Rightarrow> planned_visit \<Rightarrow> bool" where
  "row_agrees s r \<longleftrightarrow> (pv_status r, pv_visit r) = outcome_of (live_month (pv_elevator r) (pv_period r) s)"

definition plan_agrees_but :: "(pk \<times> string) set \<Rightarrow> 'a workshop_scheme \<Rightarrow> bool" where
  "plan_agrees_but K s \<longleftrightarrow> (\<forall>r \<in> set (plan s). \<not> is_deleted r \<longrightarrow> pv_status r \<noteq> Plan_cancelled \<longrightarrow>
    (pv_elevator r, pv_period r) \<notin> K \<longrightarrow> row_agrees s r)"

lemma plan_agrees_beside:
  assumes "beside_record s s'" "plan_agrees_but K s" shows "plan_agrees_but K s'"
proof -
  from assms(1) have v: "visits s' = visits s" and p: "map row_facts (plan s') = map row_facts (plan s)"
    by (simp_all add: beside_record_def)
  have "live_month k q s' = live_month k q s" for k q by (simp add: live_month_def v)
  with assms(2) same_facts [OF p] show ?thesis
    unfolding plan_agrees_but_def row_agrees_def by (fastforce simp: row_facts_eq)
qed

lemma served_beside:
  assumes "beside_record s s'" "elevators s' = elevators s" "served_but K s" shows "served_but K s'"
proof -
  have "live_completed k s' = live_completed k s" for k using assms(1) by (simp add: live_completed_def beside_record_def)
  with assms(2,3) show ?thesis by (simp add: served_but_def served_def)
qed

section \<open>The lift's dates\<close>

text \<open>Whoever sees a lift's firm sees its visits and its rows.\<close>

lemma latest_completed_live:
  assumes "shop_ok s" "el \<in> set (elevators s)" "sees_firm (ctx e) (company_id el)"
  shows "latest_completed e (pk el) s = live_completed (pk el) s"
proof -
  have "filter (\<lambda>v. vs_elevator v = pk el \<and> vs_status v = Completed) (objects (ctx e) (visits s)) =
      filter (\<lambda>v. vs_elevator v = pk el \<and> vs_status v = Completed \<and> \<not> is_deleted v) (visits s)"
    unfolding objects_def filter_filter using shop_okD(7) [OF assms(1)] assms(2,3)
    by (intro filter_cong) (auto simp: sees_firm_visible)
  then show ?thesis by (simp add: latest_completed_def live_completed_def)
qed

lemma save_planned_beside:
  assumes "save_planned e g r s = Inr (r', s')" "\<And>x. row_facts (g x) = row_facts x"
  shows "beside_record s s' \<and> elevators s' = elevators s \<and> next_pk s' = next_pk s"
proof -
  have "row_facts ((g x)\<lparr>updated_at := t\<rparr>) = row_facts x" for x t
    using assms(2) [of x] by (simp add: row_facts_eq)
  then have "map row_facts (update_where P (\<lambda>x. (g x)\<lparr>updated_at := t\<rparr>) rows) = map row_facts rows" for P t rows
    by (intro map_update_where_same)
  with assms(1) show ?thesis by (auto simp: save_planned_def save_fields_Inr beside_record_def)
qed

lemma refresh_row_beside:
  "refresh_row e d r (n, s) = Inr (n', s') \<Longrightarrow> beside_record s s' \<and> elevators s' = elevators s \<and> next_pk s' = next_pk s"
  by (auto simp: refresh_row_def bind_res_Inr_iff row_facts_eq dest!: save_planned_beside split: if_splits)

lemma refresh_planned_beside:
  assumes "refresh_planned_due_dates e t el s = Inr (n, s')"
  shows "beside_record s s' \<and> elevators s' = elevators s \<and> next_pk s' = next_pk s"
proof -
  let ?P = "\<lambda>ns :: nat \<times> 'a workshop_scheme. beside_record s (snd ns) \<and> elevators (snd ns) = elevators s \<and> next_pk (snd ns) = next_pk s"
  have "?P (n, s')"
  proof (rule fold_res_invariant [OF assms [unfolded refresh_planned_due_dates_def], where P = ?P])
    fix x and a b :: "nat \<times> 'a workshop_scheme"
    assume "?P a" "refresh_row e (el_next_maintenance_date el) x a = Inr b"
    then show "?P b" using refresh_row_beside [of e "el_next_maintenance_date el" x "fst a" "snd a" "fst b" "snd b"]
      by (auto intro: beside_record_trans)
  qed simp
  then show ?thesis by simp
qed

lemma recalculate_steps:
  assumes "recalculate_next_maintenance e el s = Inr s'"
  obtains l n el' s1 k where
    "maintenance_dates el (latest_completed e (pk el) s) = Inr (l, n)"
    "el' = el\<lparr>el_last_maintenance_date := l, el_next_maintenance_date := n, updated_at := now e\<rparr>"
    "s1 = elevators_update (update_where (\<lambda>x. pk x = pk el)
      (\<lambda>x. x\<lparr>el_last_maintenance_date := l, el_next_maintenance_date := n, updated_at := now e\<rparr>)) s"
    "refresh_planned_due_dates e (today e) el' s1 = Inr (k, s')"
  using assms unfolding recalculate_next_maintenance_def
  by (elim run_elims) (auto simp: save_fields_Inr)

lemma maintenance_dates_cong:
  "el_maintenance_interval_days a = el_maintenance_interval_days b \<Longrightarrow> maintenance_dates a v = maintenance_dates b v"
  by (cases v) (simp_all add: maintenance_dates_def)

text \<open>Recalculated, the lift's dates are those of its latest completed visit; the others keep theirs.\<close>

lemma recalculate_ok:
  assumes run: "recalculate_next_maintenance e el s = Inr s'" and ok: "shop_ok s"
    and el: "el \<in> set (elevators s)" "sees_firm (ctx e) (company_id el)" and but: "served_but (insert (pk el) K) s"
  shows "beside_record s s'" "served_but K s'" "next_pk s' = next_pk s"
    "x \<in> set (elevators s) \<Longrightarrow> pk x \<noteq> pk el \<Longrightarrow> x \<in> set (elevators s')"
proof -
  from recalculate_steps [OF run] obtain l n el' s1 k where
    d: "maintenance_dates el (latest_completed e (pk el) s) = Inr (l, n)"
    and el': "el' = el\<lparr>el_last_maintenance_date := l, el_next_maintenance_date := n, updated_at := now e\<rparr>"
    and s1: "s1 = elevators_update (update_where (\<lambda>x. pk x = pk el)
      (\<lambda>x. x\<lparr>el_last_maintenance_date := l, el_next_maintenance_date := n, updated_at := now e\<rparr>)) s"
    and more: "refresh_planned_due_dates e (today e) el' s1 = Inr (k, s')"
    by (rule recalculate_steps [OF run])
  let ?g = "\<lambda>x :: elevator. x\<lparr>el_last_maintenance_date := l, el_next_maintenance_date := n, updated_at := now e\<rparr>"
  have els: "elevators s1 = update_where (\<lambda>x. pk x = pk el) (\<lambda>_. el') (elevators s)"
    using update_where_in [OF shop_okD(1) [OF ok] el(1) refl, of ?g] by (simp add: s1 el')
  have "map lift_key (elevators s1) = map lift_key (elevators s)"
    unfolding s1 by (simp add: map_update_where_same lift_key_def)
  then have one: "beside_record s s1" by (simp add: beside_record_def s1)
  note two = refresh_planned_beside [OF more]
  show "beside_record s s'" using one two beside_record_trans by blast
  show "next_pk s' = next_pk s" using two by (simp add: s1)
  have same: "live_completed j s' = live_completed j s" for j
    using \<open>beside_record s s'\<close> by (simp add: live_completed_def beside_record_def)
  have "served s' el'"
    using d latest_completed_live [OF ok el] maintenance_dates_cong [of el' el] by (simp add: served_def same el')
  with but show "served_but K s'"
    using two unfolding served_but_def by (auto simp: els set_update_where served_def same)
  show "x \<in> set (elevators s) \<Longrightarrow> pk x \<noteq> pk el \<Longrightarrow> x \<in> set (elevators s')"
    using two by (auto simp: els set_update_where)
qed

section \<open>The month's row\<close>

definition sees_lift :: "env \<Rightarrow> pk \<Rightarrow> 'a workshop_scheme \<Rightarrow> bool" where
  "sees_lift e k s \<longleftrightarrow> (\<forall>v \<in> set (visits s). vs_elevator v = k \<longrightarrow> sees_firm (ctx e) (company_id v)) \<and>
    (\<forall>r \<in> set (plan s). pv_elevator r = k \<longrightarrow> sees_firm (ctx e) (company_id r))"

lemma month_visits_live:
  assumes ok: "shop_ok s" and d: "valid_date d" and see: "sees_lift e k s"
  shows "month_visits e k (first_day d) (last_day d) s = live_month k (period_of d) s"
proof -
  have "filter (\<lambda>v. vs_elevator v = k \<and> first_day d \<le> vs_date v \<and> vs_date v \<le> last_day d) (objects (ctx e) (visits s)) =
      filter (\<lambda>v. vs_elevator v = k \<and> period_of (vs_date v) = period_of d \<and> \<not> is_deleted v) (visits s)"
    unfolding objects_def filter_filter
    using see [unfolded sees_lift_def] sees_firm_visible [of "ctx e"] same_period_iff [OF shop_okD(6) [OF ok] d]
    by (intro filter_cong) auto
  then show ?thesis by (simp add: month_visits_def live_month_def)
qed

lemma find_any: "List.find (\<lambda>_. True) xs = (case xs of [] \<Rightarrow> None | x # _ \<Rightarrow> Some x)"
  by (cases xs) simp_all

text \<open>The row found is the only live one of the lift and the month, unless there is none.\<close>

lemma open_row_only:
  assumes ok: "shop_ok s" and see: "sees_lift e k s"
  shows "open_row e k p s = Some r \<Longrightarrow> r \<in> set (plan s) \<and> pv_elevator r = k \<and> pv_period r = p \<and> visible (ctx e) r \<and>
      pv_status r \<noteq> Plan_cancelled"
    and "x \<in> set (plan s) \<Longrightarrow> \<not> is_deleted x \<Longrightarrow> pv_elevator x = k \<Longrightarrow> pv_period x = p \<Longrightarrow>
      pv_status x \<noteq> Plan_cancelled \<Longrightarrow> open_row e k p s = Some x"
proof -
  let ?rows = "filter (\<lambda>r. pv_elevator r = k \<and> pv_period r = p \<and> pv_status r \<noteq> Plan_cancelled) (objects (ctx e) (plan s))"
  have mem: "r \<in> set (plan_order rows) \<longleftrightarrow> r \<in> set rows" for r and rows :: "planned_visit list"
    by (simp add: plan_order_def)
  show one: "r \<in> set (plan s) \<and> pv_elevator r = k \<and> pv_period r = p \<and> visible (ctx e) r \<and> pv_status r \<noteq> Plan_cancelled"
    if "open_row e k p s = Some r" for r
    using find_Some_iff [OF that [unfolded open_row_def]] unfolding mem by (auto simp: set_objects)
  assume x: "x \<in> set (plan s)" "\<not> is_deleted x" "pv_elevator x = k" "pv_period x = p" "pv_status x \<noteq> Plan_cancelled"
  then have "x \<in> set (plan_order ?rows)" using see [unfolded sees_lift_def] unfolding mem
    by (simp add: set_objects sees_firm_visible)
  then obtain y where y: "open_row e k p s = Some y" unfolding open_row_def find_any by (cases "plan_order ?rows") auto
  have "plan_clash y x" using one [OF y] x visible_not_deleted [of "ctx e" y] by (simp add: plan_clash_def)
  then have "pk y = pk x" using shop_okD(4) [OF ok] one [OF y] x(1) by blast
  then have "y = x" using distinct_map_unique [OF shop_okD(3) [OF ok]] one [OF y] x(1) by blast
  with y show "open_row e k p s = Some x" by simp
qed

lemma sees_lift_of: "shop_ok s \<Longrightarrow> el \<in> set (elevators s) \<Longrightarrow> sees_firm (ctx e) (company_id el) \<Longrightarrow> sees_lift e (pk el) s"
  using shop_okD(7,10) [of s] by (fastforce simp: sees_lift_def)

lemma sees_lift_beside: "beside_record s s' \<Longrightarrow> sees_lift e k s \<Longrightarrow> sees_lift e k s'"
  using same_facts [of row_facts "plan s'" "plan s"] by (fastforce simp: sees_lift_def beside_record_def row_facts_eq)

text \<open>A row of the plan replaced by one of the same key, firm, lift and month.\<close>

definition put_row :: "planned_visit \<Rightarrow> 'a workshop_scheme \<Rightarrow> 'a workshop_scheme" where
  "put_row r s = plan_update (update_where (\<lambda>x. pk x = pk r) (\<lambda>_. r)) s"

definition same_place :: "planned_visit \<Rightarrow> planned_visit \<Rightarrow> bool" where
  "same_place a b \<longleftrightarrow> pk a = pk b \<and> company_id a = company_id b \<and> is_deleted a = is_deleted b \<and>
    pv_elevator a = pv_elevator b \<and> pv_period a = pv_period b"

lemma put_row_simps [simp]:
  "visits (put_row r s) = visits s" "elevators (put_row r s) = elevators s" "next_pk (put_row r s) = next_pk s"
  "plan (put_row r s) = update_where (\<lambda>x. pk x = pk r) (\<lambda>_. r) (plan s)"
  by (simp_all add: put_row_def)

lemma put_row_mem:
  assumes "shop_ok s" "r0 \<in> set (plan s)" "same_place r r0"
  shows "x \<in> set (plan (put_row r s)) \<longleftrightarrow> x = r \<or> x \<in> set (plan s) \<and> pk x \<noteq> pk r"
  using assms by (auto simp: set_update_where same_place_def)

lemma put_row_shop_ok:
  assumes ok: "shop_ok s" and r: "r0 \<in> set (plan s)" "same_place r r0"
  shows "shop_ok (put_row r s)"
proof -
  note o = shop_okD [OF ok]
  have mem: "\<exists>y \<in> set (plan s). same_place x y" if "x \<in> set (plan (put_row r s))" for x
    using that r unfolding put_row_mem [OF ok r] by (auto simp: same_place_def)
  have "pk a = pk b" if ab: "a \<in> set (plan (put_row r s))" "b \<in> set (plan (put_row r s))" "plan_clash a b" for a b
  proof -
    from mem [OF ab(1)] mem [OF ab(2)] obtain x y where "x \<in> set (plan s)" "same_place a x" "y \<in> set (plan s)" "same_place b y" by blast
    with ab(3) o(4) [of x y] show ?thesis by (simp add: plan_clash_def same_place_def)
  qed
  moreover have "pk x < next_pk s \<and> (\<exists>d. valid_date d \<and> pv_period x = period_of d) \<and>
      (\<forall>el \<in> set (elevators s). pv_elevator x = pk el \<longrightarrow> company_id x = company_id el)"
    if x: "x \<in> set (plan (put_row r s))" for x
  proof -
    from mem [OF x] obtain y where "y \<in> set (plan s)" "same_place x y" by blast
    with o(8-10) [of y] show ?thesis by (simp add: same_place_def)
  qed
  moreover have "distinct (map pk (plan (put_row r s)))" using o(3) by (simp add: map_pk_save)
  moreover have "\<forall>v \<in> set (visits s). pk v < next_pk s \<and> valid_date (vs_date v) \<and>
      (\<forall>el \<in> set (elevators s). vs_elevator v = pk el \<longrightarrow> company_id v = company_id el)"
    using ok unfolding shop_ok_def by blast
  ultimately show ?thesis unfolding shop_ok_def put_row_simps(1-3) using o(1,2) by blast
qed

lemma save_planned_put:
  assumes "save_planned e g r s = Inr (r', s')" "shop_ok s" "r0 \<in> set (plan s)" "pk r0 = pk r" "same_place (g r0) r0"
  shows "s' = put_row ((g r0)\<lparr>updated_at := now e\<rparr>) s"
proof -
  have "update_where (\<lambda>x. pk x = pk r) (\<lambda>x. (g x)\<lparr>updated_at := now e\<rparr>) (plan s) =
      update_where (\<lambda>x. pk x = pk r) (\<lambda>_. (g r0)\<lparr>updated_at := now e\<rparr>) (plan s)"
    by (rule update_where_in [OF shop_okD(3) [OF assms(2)] assms(3,4)])
  moreover have "pk ((g r0)\<lparr>updated_at := now e\<rparr>) = pk r" using assms(4,5) by (simp add: same_place_def)
  ultimately show ?thesis using assms(1) by (cases s) (simp add: save_planned_def save_fields_Inr put_row_def)
qed

text \<open>A row's status and visit rewritten.\<close>

definition status_set :: "env \<Rightarrow> planned_visit \<Rightarrow> plan_status \<Rightarrow> pk option \<Rightarrow> 'a workshop_scheme \<Rightarrow> 'a workshop_scheme" where
  "status_set e r st v s = put_row (r\<lparr>pv_status := st, pv_visit := v, updated_at := now e\<rparr>) s"

lemma status_set_simps [simp]:
  "visits (status_set e r st v s) = visits s" "elevators (status_set e r st v s) = elevators s"
  "next_pk (status_set e r st v s) = next_pk s" "live_month k p (status_set e r st v s) = live_month k p s"
  "live_completed k (status_set e r st v s) = live_completed k s"
  by (simp_all add: status_set_def live_month_def live_completed_def)

lemma status_set_shop_ok: "shop_ok s \<Longrightarrow> r \<in> set (plan s) \<Longrightarrow> shop_ok (status_set e r st v s)"
  unfolding status_set_def by (erule (1) put_row_shop_ok) (simp add: same_place_def)

text \<open>Synced, the row of the lift and the month agrees with its visits, and every other row stands.\<close>

lemma sync_planned_ok:
  assumes run: "sync_planned_visit e k d s = Inr s'" and ok: "shop_ok s" and d: "valid_date d"
    and see: "sees_lift e k s" and but: "plan_agrees_but (insert (k, period_of d) K) s"
  shows "shop_ok s'" "plan_agrees_but K s'" "visits s' = visits s" "elevators s' = elevators s" "next_pk s' = next_pk s"
    "sees_lift e j s \<Longrightarrow> sees_lift e j s'"
    "r0 \<in> set (plan s) \<Longrightarrow> (pv_elevator r0, pv_period r0) \<noteq> (k, period_of d) \<Longrightarrow> r0 \<in> set (plan s')"
proof -
  note only = open_row_only [OF ok see]
  let ?goal = "shop_ok s' \<and> plan_agrees_but K s' \<and> visits s' = visits s \<and> elevators s' = elevators s \<and>
    next_pk s' = next_pk s \<and> (sees_lift e j s \<longrightarrow> sees_lift e j s') \<and>
    (r0 \<in> set (plan s) \<longrightarrow> (pv_elevator r0, pv_period r0) \<noteq> (k, period_of d) \<longrightarrow> r0 \<in> set (plan s'))"
  have ?goal
  proof (cases "open_row e k (period_of d) s")
    case None
    with run have s': "s' = s" by (simp add: sync_planned_visit_def)
    have "plan_agrees_but K s"
      using but only(2) None unfolding plan_agrees_but_def by auto
    with ok show ?thesis by (simp add: s')
  next
    case (Some r)
    note r = only(1) [OF Some]
    obtain st v where o: "outcome_of (live_month k (period_of d) s) = (st, v)" by (cases "outcome_of (live_month k (period_of d) s)")
    have mb: "month_bounds (pv_period r) = Inr (first_day d, last_day d)" using r by (simp add: month_bounds_of [OF d])
    have mv: "month_visits e k (first_day d) (last_day d) s = live_month k (period_of d) s"
      by (rule month_visits_live [OF ok d see])
    show ?thesis
    proof (cases "pv_status r \<noteq> st \<or> pv_visit r \<noteq> v")
      case False
      with run Some have s': "s' = s" by (simp add: sync_planned_visit_def mb mv o)
      have "row_agrees s r" using False r o by (simp add: row_agrees_def)
      moreover have "x = r" if "x \<in> set (plan s)" "\<not> is_deleted x" "pv_elevator x = k" "pv_period x = period_of d"
          "pv_status x \<noteq> Plan_cancelled" for x
        using only(2) [OF that] Some by simp
      ultimately have "plan_agrees_but K s" using but unfolding plan_agrees_but_def by auto
      with ok show ?thesis by (simp add: s')
    next
      case True
      with run Some have "s' = plan_update (update_where (\<lambda>x. pk x = pk r)
          (\<lambda>x. x\<lparr>pv_status := st, pv_visit := v, updated_at := now e\<rparr>)) s"
        by (auto simp: sync_planned_visit_def mb mv o bind_res_Inr_iff save_planned_def save_fields_Inr)
      also have "\<dots> = status_set e r st v s"
        using update_where_in [OF shop_okD(3) [OF ok], of r "pk r" "\<lambda>x. x\<lparr>pv_status := st, pv_visit := v, updated_at := now e\<rparr>"] r
        by (cases s) (simp add: status_set_def put_row_def)
      finally have s': "s' = status_set e r st v s" .
      let ?r = "r\<lparr>pv_status := st, pv_visit := v, updated_at := now e\<rparr>"
      have mem: "x = ?r \<or> x \<in> set (plan s) \<and> pk x \<noteq> pk r" if "x \<in> set (plan s')" for x
        using that r by (auto simp: s' status_set_def set_update_where split: if_splits)
      have "row_agrees s' ?r" using r o by (simp add: row_agrees_def s')
      moreover have "row_agrees s' x" if x: "x \<in> set (plan s)" "pk x \<noteq> pk r" "\<not> is_deleted x" "pv_status x \<noteq> Plan_cancelled"
          "(pv_elevator x, pv_period x) \<notin> K" for x
      proof -
        have "(pv_elevator x, pv_period x) \<noteq> (k, period_of d)" using only(2) [of x] x Some by auto
        then have "row_agrees s x" using but x by (auto simp: plan_agrees_but_def)
        then show ?thesis by (simp add: row_agrees_def s')
      qed
      ultimately have "plan_agrees_but K s'" unfolding plan_agrees_but_def using mem by blast
      moreover have "r0 \<in> set (plan s')" if "r0 \<in> set (plan s)" "(pv_elevator r0, pv_period r0) \<noteq> (k, period_of d)"
      proof -
        have "pk r0 \<noteq> pk r" using distinct_map_unique [OF shop_okD(3) [OF ok] that(1)] r that(2) by auto
        with that(1) show ?thesis by (auto simp: s' status_set_def set_update_where)
      qed
      moreover have "sees_lift e j s'" if "sees_lift e j s"
        using that r mem unfolding sees_lift_def by (fastforce simp: s')
      ultimately show ?thesis using status_set_shop_ok [OF ok] r by (simp add: s')
    qed
  qed
  then show "shop_ok s'" "plan_agrees_but K s'" "visits s' = visits s" "elevators s' = elevators s" "next_pk s' = next_pk s"
    "sees_lift e j s \<Longrightarrow> sees_lift e j s'"
    "r0 \<in> set (plan s) \<Longrightarrow> (pv_elevator r0, pv_period r0) \<noteq> (k, period_of d) \<Longrightarrow> r0 \<in> set (plan s')" by blast+
qed

section \<open>Recording, correcting, deleting\<close>

lemma set_checklist_beside:
  assumes "set_checklist_if e v items s = Inr s'"
  shows "beside_record s s' \<and> elevators s' = elevators s"
proof (cases items)
  case None
  with assms show ?thesis by (simp add: set_checklist_if_def)
next
  case (Some xs)
  with assms have run: "fold_res (insert_item e v) xs
      (visit_items_update (\<lambda>rows. fst (queryset_delete e (\<lambda>i. vi_visit i = pk v \<and> visible (ctx e) i) rows)) s) = Inr s'"
    by (simp add: set_checklist_if_def set_checklist_def)
  show ?thesis
  proof (rule fold_res_invariant [OF run, where P = "\<lambda>t. beside_record s t \<and> elevators t = elevators s"])
    fix x t u
    assume "beside_record s t \<and> elevators t = elevators s" "insert_item e v x t = Inr u"
    then show "beside_record s u \<and> elevators u = elevators s"
      by (auto simp: insert_item_def Let_def bind_res_Inr_iff db_insert_Inr_iff beside_record_def)
  qed (simp add: beside_record_def)
qed

text \<open>The visits changed, but for some lifts and months not what they say.\<close>

lemma record_changed:
  assumes "elevators s' = elevators s" "plan s' = plan s"
    and "\<And>k. k \<notin> K \<Longrightarrow> live_completed k s' = live_completed k s"
    and "\<And>k p. (k, p) \<notin> M \<Longrightarrow> live_month k p s' = live_month k p s"
    and "served_but K s" "plan_agrees_but M s"
  shows "served_but K s'" "plan_agrees_but M s'"
  using assms by (auto simp: served_but_def served_def plan_agrees_but_def row_agrees_def)

lemma served_but_mono: "K \<subseteq> K' \<Longrightarrow> served_but K s \<Longrightarrow> served_but K' s"
  by (auto simp: served_but_def)

lemma plan_agrees_but_mono: "K \<subseteq> K' \<Longrightarrow> plan_agrees_but K s \<Longrightarrow> plan_agrees_but K' s"
  by (auto simp: plan_agrees_but_def)

lemma visit_inserted:
  assumes run: "db_insert e visits_update fc ch v s = Inr (v', s')"
    and ok: "shop_ok s" "served_but {} s" "plan_agrees_but {} s"
    and v: "valid_date (vs_date v)" "el \<in> set (elevators s)" "vs_elevator v = pk el" "company_id v = company_id el"
  shows "shop_ok s'" "served_but {pk el} s'" "plan_agrees_but {(pk el, period_of (vs_date v))} s'"
    "elevators s' = elevators s" "vs_elevator v' = pk el" "vs_date v' = vs_date v"
proof -
  from run have v': "v' = stamped e (next_pk s) v" and s': "s' = visits_update (\<lambda>rows. rows @ [v']) (s\<lparr>next_pk := Suc (next_pk s)\<rparr>)"
    by (simp_all add: db_insert_Inr_iff)
  have same: "vs_elevator v' = pk el" "vs_date v' = vs_date v" "company_id v' = company_id el" "pk v' = next_pk s"
    using v by (simp_all add: v' stamped_def)
  then show "vs_elevator v' = pk el" "vs_date v' = vs_date v" by simp_all
  show els: "elevators s' = elevators s" by (simp add: s')
  have "company_id v' = company_id x" if "x \<in> set (elevators s)" "pk el = pk x" for x
    using distinct_map_unique [OF shop_okD(1) [OF ok(1)] that(1) v(2)] that(2) same(3) by simp
  then show "shop_ok s'"
    using ok(1) same v(1) by (auto simp: shop_ok_def s' less_Suc_eq)
  have "live_completed k s' = live_completed k s" if "k \<notin> {pk el}" for k
    using that same by (auto simp: live_completed_def s')
  moreover have "live_month k p s' = live_month k p s" if "(k, p) \<notin> {(pk el, period_of (vs_date v))}" for k p
    using that same by (auto simp: live_month_def s')
  moreover have "plan s' = plan s" by (simp add: s')
  ultimately show "served_but {pk el} s'" "plan_agrees_but {(pk el, period_of (vs_date v))} s'"
    using record_changed [OF els, of "{pk el}" "{(pk el, period_of (vs_date v))}"] ok(2,3)
      served_but_mono [of "{}" "{pk el}" s] plan_agrees_but_mono [of "{}" "{(pk el, period_of (vs_date v))}" s] by simp_all
qed

lemma visit_replaced:
  assumes s': "s' = visits_update (update_where (\<lambda>x. pk x = pk v) (\<lambda>_. v')) s"
    and ok: "shop_ok s" "served_but K s" "plan_agrees_but M s"
    and v: "v \<in> set (visits s)" "pk v' = pk v" "company_id v' = company_id v" "valid_date (vs_date v')"
    and el: "\<And>el. el \<in> set (elevators s) \<Longrightarrow> vs_elevator v' = pk el \<Longrightarrow> company_id v = company_id el"
    and K: "{vs_elevator v, vs_elevator v'} \<subseteq> K"
      "{(vs_elevator v, period_of (vs_date v)), (vs_elevator v', period_of (vs_date v'))} \<subseteq> M"
  shows "shop_ok s'" "served_but K s'" "plan_agrees_but M s'" "elevators s' = elevators s" "v' \<in> set (visits s')"
proof -
  show els: "elevators s' = elevators s" by (simp add: s')
  have pl: "plan s' = plan s" by (simp add: s')
  have same: "x = v" if "x \<in> set (visits s)" "pk x = pk v" for x
    using distinct_map_unique [OF shop_okD(2) [OF ok(1)] that(1) v(1) that(2)] .
  have filter: "filter P (visits s') = filter P (visits s)" if "\<not> P v" "\<not> P v'" for P
  proof -
    have "filter P (update_where (\<lambda>x. pk x = pk v) (\<lambda>_. v') xs) = filter P xs" if "set xs \<subseteq> set (visits s)" for xs
      using that same \<open>\<not> P v\<close> \<open>\<not> P v'\<close> by (induction xs) auto
    then show ?thesis by (simp add: s')
  qed
  show "v' \<in> set (visits s')" using v(1) by (auto simp: s' set_update_where)
  have "distinct (map pk (visits s'))" using shop_okD(2) [OF ok(1)] v(2) by (simp add: s' map_pk_save)
  moreover have "\<forall>x \<in> set (visits s'). pk x < next_pk s' \<and> valid_date (vs_date x) \<and>
      (\<forall>el \<in> set (elevators s'). vs_elevator x = pk el \<longrightarrow> company_id x = company_id el)"
    using ok(1) v el by (auto simp: s' set_update_where shop_ok_def)
  ultimately show "shop_ok s'" using ok(1) by (simp add: shop_ok_def els pl) (simp add: s')
  have "live_completed k s' = live_completed k s" if "k \<notin> K" for k
    using that K unfolding live_completed_def by (subst filter) auto
  moreover have "live_month k p s' = live_month k p s" if "(k, p) \<notin> M" for k p
    using that K unfolding live_month_def by (subst filter) auto
  ultimately show "served_but K s'" "plan_agrees_but M s'"
    using record_changed [OF els pl, of K M] ok(2,3) by blast+
qed

text \<open>A tidy shop: every lift has the dates, and every row of the plan the status, that the record gives it.\<close>

definition tidy :: "'a workshop_scheme \<Rightarrow> bool" where
  "tidy s \<longleftrightarrow> shop_ok s \<and> served_but {} s \<and> plan_agrees_but {} s"

lemma record_visit_steps:
  assumes "record_visit e el c v items s = Inr (v', s')"
  obtains s1 s2 s3 where
    "ensure_active_contract e el c s = Inr ()"
    "db_insert e visits_update (visit_fits v) True (v\<lparr>vs_elevator := pk el, vs_contract := pk c\<rparr>) s = Inr (v', s1)"
    "set_checklist_if e v' items s1 = Inr s2" "recalculate_next_maintenance e el s2 = Inr s3"
    "sync_planned_visit e (vs_elevator v') (vs_date v') s3 = Inr s'"
  using assms unfolding record_visit_def sync_plan_for_visit_def
  by (elim run_elims) (auto simp: bind_res_Inr_iff intro: that)

lemma record_visit_tidy:
  assumes run: "record_visit e el c v items s = Inr (v', s')" and ok: "tidy s"
    and v: "valid_date (vs_date v)" "company_id v = company_id el"
    and el: "el \<in> set (elevators s)" "sees_firm (ctx e) (company_id el)"
  shows "tidy s'" "ct_status c = C_active"
proof -
  from record_visit_steps [OF run] obtain s1 s2 s3 where
    act: "ensure_active_contract e el c s = Inr ()"
    and ins: "db_insert e visits_update (visit_fits v) True (v\<lparr>vs_elevator := pk el, vs_contract := pk c\<rparr>) s = Inr (v', s1)"
    and chk: "set_checklist_if e v' items s1 = Inr s2" and rec: "recalculate_next_maintenance e el s2 = Inr s3"
    and sync: "sync_planned_visit e (vs_elevator v') (vs_date v') s3 = Inr s'"
    by (rule record_visit_steps [OF run])
  show "ct_status c = C_active" using act by (simp add: ensure_active_contract_def split: if_splits)
  have o: "shop_ok s" "served_but {} s" "plan_agrees_but {} s" using ok by (simp_all add: tidy_def)
  note one = visit_inserted [OF ins o, simplified, OF v(1) el(1) refl v(2)]
  note two = set_checklist_beside [OF chk]
  have ok2: "shop_ok s2" "served_but {pk el} s2" "plan_agrees_but {(pk el, period_of (vs_date v))} s2"
    using shop_ok_beside plan_agrees_beside served_beside two one(1-3) by blast+
  have in2: "el \<in> set (elevators s2)" using two one(4) el(1) by simp
  note three = recalculate_ok [OF rec ok2(1) in2 el(2) ok2(2)]
  have ok3: "shop_ok s3" "plan_agrees_but {(pk el, period_of (vs_date v))} s3" "sees_lift e (pk el) s3"
    using shop_ok_beside plan_agrees_beside sees_lift_beside [OF _ sees_lift_of [OF ok2(1) in2 el(2)]] three(1) ok2 by blast+
  have d: "valid_date (vs_date v')" "vs_elevator v' = pk el" using one(5,6) v(1) by simp_all
  note four = sync_planned_ok [OF sync ok3(1) d(1), unfolded d(2), OF ok3(3), of "{}"]
  have "plan_agrees_but {} s'" "shop_ok s'" using four(1,2) ok3(2) one(6) by simp_all
  moreover have "live_completed k s' = live_completed k s3" for k using four(3) ok3 by (simp add: live_completed_def one(6))
  with three(2) four(4) ok3 have "served_but {} s'" by (simp add: served_but_def served_def one(6))
  ultimately show "tidy s'" by (simp add: tidy_def)
qed


lemma moved_elevator_is:
  "vs_elevator (fold change_visit cs v) = (case moved_elevator cs of Some k \<Rightarrow> k | None \<Rightarrow> vs_elevator v)"
proof (induction cs arbitrary: v)
  case (Cons c cs)
  then show ?case by (cases c) (auto split: option.splits)
qed simp

lemma change_visit_same:
  "pk (change_visit c v) = pk v \<and> company_id (change_visit c v) = company_id v \<and> is_deleted (change_visit c v) = is_deleted v"
  by (cases c) simp_all

lemma fold_change_visit_same:
  "pk (fold change_visit cs v) = pk v \<and> company_id (fold change_visit cs v) = company_id v \<and>
    is_deleted (fold change_visit cs v) = is_deleted v"
  by (induction cs arbitrary: v) (simp_all add: change_visit_same)

lemma edit_visit_steps:
  assumes "edit_visit e v changes items by s = Inr (v', s')"
  obtains el c previous s1 s2 s3 s4 where
    "named_row e ''elevator'' (moved_elevator changes) (vs_elevator v) (elevators s) = Inr el"
    "ensure_active_contract e el c s = Inr ()" "get_row (vs_elevator v) (elevators s) = Inr previous"
    "v' = (fold change_visit changes v)\<lparr>updated_by := by,
      vs_amended := (if vs_signature_status v = Some Signed then True else vs_amended v), updated_at := now e\<rparr>"
    "s1 = visits_update (update_where (\<lambda>x. pk x = pk v) (\<lambda>_. v')) s"
    "set_checklist_if e v' items s1 = Inr s2" "recalculate_next_maintenance e el s2 = Inr s3"
    "(if pk previous \<noteq> pk el then recalculate_next_maintenance e previous s3 else Inr s3) = Inr s4"
    "sync_plan_for_visit e v' (Some (vs_elevator v, vs_date v)) s4 = Inr s'"
  using assms unfolding edit_visit_def Let_def db_update_def
  by (elim run_elims) (auto simp: fold_change_visit_same split: if_splits intro: that)

lemma delete_visit_steps:
  assumes "delete_visit e v by s = Inr s'"
  obtains el v1 s1 v2 s2 s3 where
    "get_row (vs_elevator v) (elevators s) = Inr el"
    "save_fields e visits_update True (\<lambda>x. x\<lparr>updated_by := by\<rparr>) v s = Inr (v1, s1)"
    "save_fields e visits_update True (\<lambda>x. x\<lparr>is_deleted := True, deleted_at := Some (now e)\<rparr>) v1 s1 = Inr (v2, s2)"
    "recalculate_next_maintenance e el s2 = Inr s3" "sync_planned_visit e (vs_elevator v2) (vs_date v2) s3 = Inr s'"
  using assms unfolding delete_visit_def sync_plan_for_visit_def
  by (elim run_elims) (auto simp: bind_res_Inr_iff intro: that)

text \<open>Recalculating a lift keeps what is still to be brought in line.\<close>

lemma recalculate_in_line:
  assumes "recalculate_next_maintenance e el s = Inr s'" "shop_ok s" "el \<in> set (elevators s)"
    "sees_firm (ctx e) (company_id el)" "served_but (insert (pk el) K) s" "plan_agrees_but M s"
  shows "shop_ok s' \<and> served_but K s' \<and> plan_agrees_but M s' \<and> sees_lift e (pk el) s' \<and> (sees_lift e j s \<longrightarrow> sees_lift e j s')"
  using recalculate_ok [OF assms(1-5)] shop_ok_beside plan_agrees_beside [OF _ assms(6)] sees_lift_beside
    sees_lift_of [OF assms(2-4)] assms(2) by blast

text \<open>Syncing a month keeps it too.\<close>

lemma sync_in_line:
  assumes "sync_planned_visit e k d s = Inr s'" "shop_ok s" "valid_date d" "sees_lift e k s"
    "plan_agrees_but (insert (k, period_of d) M) s" "served_but K s"
  shows "shop_ok s' \<and> served_but K s' \<and> plan_agrees_but M s' \<and> (sees_lift e j s \<longrightarrow> sees_lift e j s')"
proof -
  note one = sync_planned_ok [OF assms(1-5)]
  have "live_completed i s' = live_completed i s" for i using one(3) by (simp add: live_completed_def)
  then have "served_but K s'" using one(4) assms(6) by (simp add: served_but_def served_def)
  with one show ?thesis by blast
qed

lemma save_visit_row:
  assumes "save_fields e visits_update True g v s = Inr (v', s')" "shop_ok s" "v \<in> set (visits s)"
  shows "v' = (g v)\<lparr>updated_at := now e\<rparr>" "s' = visits_update (update_where (\<lambda>x. pk x = pk v) (\<lambda>_. v')) s"
proof -
  from assms(1) show v': "v' = (g v)\<lparr>updated_at := now e\<rparr>" by (simp add: save_fields_Inr)
  have "update_where (\<lambda>x. pk x = pk v) (\<lambda>x. (g x)\<lparr>updated_at := now e\<rparr>) (visits s) =
      update_where (\<lambda>x. pk x = pk v) (\<lambda>_. v') (visits s)"
    using update_where_in [OF shop_okD(2) [OF assms(2)] assms(3) refl, of "\<lambda>x. (g x)\<lparr>updated_at := now e\<rparr>"] by (simp add: v')
  with assms(1) show "s' = visits_update (update_where (\<lambda>x. pk x = pk v) (\<lambda>_. v')) s"
    by (cases s) (simp add: save_fields_Inr)
qed

lemma delete_visit_tidy:
  assumes run: "delete_visit e v by s = Inr s'" and ok: "tidy s" and v: "v \<in> set (visits s)" "visible (ctx e) v"
  shows "tidy s'"
proof -
  from delete_visit_steps [OF run] obtain el v1 s1 v2 s2 s3 where
    el: "get_row (vs_elevator v) (elevators s) = Inr el"
    and one: "save_fields e visits_update True (\<lambda>x. x\<lparr>updated_by := by\<rparr>) v s = Inr (v1, s1)"
    and two: "save_fields e visits_update True (\<lambda>x. x\<lparr>is_deleted := True, deleted_at := Some (now e)\<rparr>) v1 s1 = Inr (v2, s2)"
    and rec: "recalculate_next_maintenance e el s2 = Inr s3" and sync: "sync_planned_visit e (vs_elevator v2) (vs_date v2) s3 = Inr s'"
    by (rule delete_visit_steps [OF run])
  from el have elin: "el \<in> set (elevators s)" "pk el = vs_elevator v" by (auto simp: get_row_Inr_iff dest: by_pk_SomeD)
  have o: "shop_ok s" "served_but {} s" "plan_agrees_but {} s" using ok by (simp_all add: tidy_def)
  let ?K = "{vs_elevator v}" and ?M = "{(vs_elevator v, period_of (vs_date v))}"
  have co: "company_id v = company_id x" if "x \<in> set (elevators s)" "vs_elevator v = pk x" for x
    using shop_okD(7) [OF o(1) v(1) that] .
  have oK: "served_but ?K s" "plan_agrees_but ?M s" using served_but_mono plan_agrees_but_mono o(2,3) by blast+
  note r1 = save_visit_row [OF one o(1) v(1)]
  have same1: "pk v1 = pk v" "company_id v1 = company_id v" "vs_elevator v1 = vs_elevator v" "vs_date v1 = vs_date v"
    by (simp_all add: r1(1))
  have d: "valid_date (vs_date v)" by (rule shop_okD(6) [OF o(1) v(1)])
  have "shop_ok s1 \<and> served_but ?K s1 \<and> plan_agrees_but ?M s1 \<and> elevators s1 = elevators s \<and> v1 \<in> set (visits s1)"
    using visit_replaced [OF r1(2) o(1) oK v(1) same1(1,2)] co same1 d by simp
  then have o1: "shop_ok s1" "served_but ?K s1" "plan_agrees_but ?M s1" "elevators s1 = elevators s" "v1 \<in> set (visits s1)"
    by blast+
  note r2 = save_visit_row [OF two o1(1,5)]
  have same2: "pk v2 = pk v1" "company_id v2 = company_id v1" "vs_elevator v2 = vs_elevator v" "vs_date v2 = vs_date v"
    by (simp_all add: r2(1) same1)
  have "shop_ok s2 \<and> served_but ?K s2 \<and> plan_agrees_but ?M s2 \<and> elevators s2 = elevators s1"
    using visit_replaced [OF r2(2) o1(1-3,5) same2(1,2)] co same1 same2 d o1(4) by simp
  then have o2: "shop_ok s2" "served_but (insert (pk el) {}) s2" "plan_agrees_but ?M s2" "el \<in> set (elevators s2)"
    using o1(4) elin by simp_all
  have see: "sees_firm (ctx e) (company_id el)"
    using visible_sees_firm [OF v(2)] co [OF elin(1)] elin(2) by simp
  from recalculate_in_line [OF rec o2(1,4) see o2(2,3)] have o3: "shop_ok s3" "served_but {} s3" "plan_agrees_but ?M s3"
    "sees_lift e (pk el) s3" by blast+
  from sync_in_line [OF sync o3(1), of "{}" "{}"] o3 d elin(2) same2 show ?thesis by (simp add: tidy_def)
qed

lemma edit_visit_tidy:
  assumes run: "edit_visit e v changes items by s = Inr (v', s')" and ok: "tidy s"
    and v: "v \<in> set (visits s)" "visible (ctx e) v" "\<not> system_mode (ctx e)"
    and d: "valid_date (vs_date (fold change_visit changes v))"
  shows "tidy s'"
proof -
  from edit_visit_steps [OF run] obtain el c previous s1 s2 s3 s4 where
    el: "named_row e ''elevator'' (moved_elevator changes) (vs_elevator v) (elevators s) = Inr el"
    and "ensure_active_contract e el c s = Inr ()" and prev: "get_row (vs_elevator v) (elevators s) = Inr previous"
    and v': "v' = (fold change_visit changes v)\<lparr>updated_by := by,
      vs_amended := (if vs_signature_status v = Some Signed then True else vs_amended v), updated_at := now e\<rparr>"
    and s1: "s1 = visits_update (update_where (\<lambda>x. pk x = pk v) (\<lambda>_. v')) s"
    and chk: "set_checklist_if e v' items s1 = Inr s2" and rec: "recalculate_next_maintenance e el s2 = Inr s3"
    and rec2: "(if pk previous \<noteq> pk el then recalculate_next_maintenance e previous s3 else Inr s3) = Inr s4"
    and sync: "sync_plan_for_visit e v' (Some (vs_elevator v, vs_date v)) s4 = Inr s'"
    by (rule edit_visit_steps [OF run])
  have o: "shop_ok s" "served_but {} s" "plan_agrees_but {} s" using ok by (simp_all add: tidy_def)
  have firm: "current_company (ctx e) = Some (company_id v)" by (rule visible_company [OF v(2,3)])
  from prev have pin: "previous \<in> set (elevators s)" "pk previous = vs_elevator v"
    by (auto simp: get_row_Inr_iff dest: by_pk_SomeD)
  have pco: "company_id previous = company_id v" using shop_okD(7) [OF o(1) v(1) pin(1)] pin(2) by simp
  have ein: "el \<in> set (elevators s) \<and> pk el = vs_elevator v' \<and> company_id el = company_id v"
  proof (cases "moved_elevator changes")
    case None
    with el have "by_pk (vs_elevator v) (elevators s) = Some el" by (simp add: named_row_def get_row_Inr_iff)
    with None shop_okD(7) [OF o(1) v(1)] show ?thesis by (auto simp: v' moved_elevator_is dest!: by_pk_SomeD)
  next
    case (Some k)
    with el have "by_pk k (objects (ctx e) (elevators s)) = Some el" by (simp add: named_row_def related_def the_res_Inr_iff)
    then have "el \<in> set (elevators s)" "visible (ctx e) el" "pk el = k" by (auto simp: set_objects dest!: by_pk_SomeD)
    with Some visible_company [OF this(2) v(3)] firm show ?thesis by (simp add: v' moved_elevator_is)
  qed
  let ?K = "{pk el, vs_elevator v}" and ?M = "{(vs_elevator v', period_of (vs_date v')), (vs_elevator v, period_of (vs_date v))}"
  have oK: "served_but ?K s" "plan_agrees_but ?M s" using served_but_mono plan_agrees_but_mono o(2,3) by blast+
  have same: "pk v' = pk v" "company_id v' = company_id v" "valid_date (vs_date v')"
    using d by (simp_all add: v' fold_change_visit_same)
  have co: "company_id v = company_id x" if "x \<in> set (elevators s)" "vs_elevator v' = pk x" for x
    using distinct_map_unique [OF shop_okD(1) [OF o(1)] that(1), of el] ein that(2) by simp
  have "shop_ok s1 \<and> served_but ?K s1 \<and> plan_agrees_but ?M s1 \<and> elevators s1 = elevators s"
    using visit_replaced [OF s1 o(1) oK v(1) same co] ein by simp
  then have o2: "shop_ok s2" "served_but ?K s2" "plan_agrees_but ?M s2" "elevators s2 = elevators s"
    using set_checklist_beside [OF chk] shop_ok_beside plan_agrees_beside served_beside [of s1 s2] by (blast, blast, blast, simp)
  have see: "sees_firm (ctx e) (company_id el)" "sees_firm (ctx e) (company_id previous)"
    using ein pco firm by (simp_all add: sees_firm_def)
  have ein2: "el \<in> set (elevators s2)" using ein o2(4) by simp
  have o4: "shop_ok s4 \<and> served_but {} s4 \<and> plan_agrees_but ?M s4 \<and> sees_lift e (vs_elevator v') s4 \<and> sees_lift e (vs_elevator v) s4"
  proof (cases "pk previous = pk el")
    case True
    with rec2 have "s4 = s3" by simp
    moreover have "served_but (insert (pk el) {}) s2" using o2(2) True pin(2) by simp
    from recalculate_in_line [OF rec o2(1) ein2 see(1) this o2(3)]
    have "shop_ok s3 \<and> served_but {} s3 \<and> plan_agrees_but ?M s3 \<and> sees_lift e (pk el) s3" by blast
    ultimately show ?thesis using ein True pin(2) by simp
  next
    case False
    with rec2 have rec2: "recalculate_next_maintenance e previous s3 = Inr s4" by simp
    have o3: "shop_ok s3" "served_but (insert (pk previous) {}) s3" "plan_agrees_but ?M s3" "sees_lift e (vs_elevator v') s3"
      using recalculate_in_line [OF rec o2(1) ein2 see(1) o2(2,3)] ein pin(2) by auto
    have "previous \<in> set (elevators s3)"
      using recalculate_ok(4) [OF rec o2(1) ein2 see(1) o2(2)] pin(1) o2(4) False by auto
    from recalculate_in_line [OF rec2 o3(1) this see(2) o3(2,3)] o3(4) pin(2) show ?thesis by auto
  qed
  then have o4: "shop_ok s4" "served_but {} s4" "plan_agrees_but ?M s4" "sees_lift e (vs_elevator v') s4" "sees_lift e (vs_elevator v) s4"
    by blast+
  have dv: "valid_date (vs_date v)" by (rule shop_okD(6) [OF o(1) v(1)])
  from sync obtain s5 where one: "sync_planned_visit e (vs_elevator v') (vs_date v') s4 = Inr s5"
    and two: "(if (vs_elevator v, period_of (vs_date v)) = (vs_elevator v', period_of (vs_date v')) then Inr s5
      else sync_planned_visit e (vs_elevator v) (vs_date v) s5) = Inr s'"
    by (auto simp: sync_plan_for_visit_def bind_res_Inr_iff)
  let ?R = "{(vs_elevator v, period_of (vs_date v))} - {(vs_elevator v', period_of (vs_date v'))}"
  have "plan_agrees_but (insert (vs_elevator v', period_of (vs_date v')) ?R) s4"
    by (rule plan_agrees_but_mono [OF _ o4(3)]) blast
  from sync_in_line [OF one o4(1) same(3) o4(4) this o4(2), of "vs_elevator v"] o4(5)
  have o5: "shop_ok s5" "served_but {} s5" "plan_agrees_but ?R s5" "sees_lift e (vs_elevator v) s5" by blast+
  show ?thesis
  proof (cases "(vs_elevator v, period_of (vs_date v)) = (vs_elevator v', period_of (vs_date v'))")
    case True
    with two o5 show ?thesis by (simp add: tidy_def)
  next
    case False
    then have "plan_agrees_but (insert (vs_elevator v, period_of (vs_date v)) {}) s5" using o5(3) plan_agrees_but_mono by blast
    moreover have "sync_planned_visit e (vs_elevator v) (vs_date v) s5 = Inr s'" using two False by (simp split: if_splits)
    ultimately show ?thesis using sync_in_line [OF _ o5(1) dv o5(4) _ o5(2)] by (auto simp: tidy_def)
  qed
qed

section \<open>Assigning\<close>

lemma announce_one_noted: "announce_one e as a rows kp (n, s) = Inr (n', s') \<Longrightarrow> noted s s'"
  by (auto simp: announce_one_def bind_res_Inr_iff split: option.splits dest: notify_noted)

lemma announce_assignments_noted:
  assumes "announce_assignments e as a rows s = Inr (n, s')" shows "noted s s'"
proof -
  have "noted s (snd (n, s'))"
  proof (rule fold_res_invariant [OF assms [unfolded announce_assignments_def], where P = "\<lambda>ns. noted s (snd ns)"])
    fix x and t u :: "nat \<times> 'a workshop_scheme"
    assume "noted s (snd t)" "announce_one e as a rows x t = Inr u"
    then show "noted s (snd u)"
      using announce_one_noted [of e as a rows x "fst t" "snd t" "fst u" "snd u"] noted_trans by auto
  qed simp
  then show ?thesis by simp
qed

lemma noted_elevators: "noted s s' \<Longrightarrow> elevators s' = elevators s"
  by (auto simp: noted_def)

lemma tidy_beside: "beside_record s s' \<Longrightarrow> elevators s' = elevators s \<Longrightarrow> tidy s \<Longrightarrow> tidy s'"
  using shop_ok_beside plan_agrees_beside served_beside unfolding tidy_def by blast

lemma tidy_noted: "noted s s' \<Longrightarrow> tidy s \<Longrightarrow> tidy s'"
  using tidy_beside noted_beside_record noted_elevators by blast

lemma coalesce_beside: "coalesce_assignment e k p r s = Inr (b, s') \<Longrightarrow> beside_record s s' \<and> elevators s' = elevators s"
  by (auto simp: coalesce_assignment_def Let_def bind_res_Inr_iff save_fields_Inr beside_record_def
      split: option.splits if_splits)

lemma change_planned_facts: "row_facts (fold change_planned cs r) = row_facts r"
proof (induction cs arbitrary: r)
  case (Cons c cs)
  then show ?case by (cases c) (simp_all add: row_facts_eq)
qed simp

lemma edit_planned_tidy:
  assumes run: "edit_planned_visit e action r changes editor s = Inr (r', s')" and ok: "tidy s" and r: "r \<in> set (plan s)"
  shows "tidy s'"
proof -
  let ?r = "(fold change_planned changes r)\<lparr>pv_edited := True, updated_by := editor\<rparr>"
  let ?r1 = "?r\<lparr>updated_at := now e\<rparr>"
  have facts: "row_facts ?r1 = row_facts r" using change_planned_facts [of changes r] by (simp add: row_facts_eq)
  have "pk ?r = pk r" using facts by (simp add: row_facts_eq)
  let ?s1 = "plan_update (update_where (\<lambda>x. pk x = pk r) (\<lambda>_. ?r1)) s"
  have same: "row_facts x = row_facts ?r1" if "x \<in> set (plan s)" "pk x = pk r" for x
    using distinct_map_unique [of pk "plan s" x r] ok that r facts by (simp add: tidy_def shop_ok_def)
  have "map row_facts (update_where (\<lambda>x. pk x = pk r) (\<lambda>_. ?r1) xs) = map row_facts xs" if "set xs \<subseteq> set (plan s)" for xs
    using that same by (induction xs) auto
  then have one: "beside_record s ?s1" by (simp add: beside_record_def)
  then have t1: "tidy ?s1" by (rule tidy_beside) (simp_all add: ok)
  have after: "tidy u" if "coalesce_assignment e k p x ?s1 = Inr (b, t)" "noted t u" for k p x b t u
    using tidy_noted [OF that(2)] tidy_beside coalesce_beside [OF that(1)] t1 by blast
  from run obtain r1 s1 where up: "db_update e plan_update (length (pv_period ?r) \<le> 7)
      (unique_with plan_clash ?r (filter (\<lambda>x. pk x \<noteq> pk ?r) (plan s))) ?r s = Inr (r1, s1)"
    and rest: "(case pv_technician r1 of
        None \<Rightarrow> Inr (r1, s1)
      | Some technician \<Rightarrow>
          if pv_technician r = Some technician \<or> pv_status r1 \<noteq> Planned then Inr (r1, s1)
          else bind_res (coalesce_assignment e technician (pv_period r1) (pk r1) s1) (\<lambda>(folded, s).
            if folded then Inr (r1, s)
            else bind_res (announce_assignments e [(technician, pv_period r1)] (''edit:'' @ action)
              (Some [digits (pk r1)]) s) (\<lambda>(_, s). Inr (r1, s)))) = Inr (r', s')"
    unfolding edit_planned_visit_def Let_def by (elim run_elims) (hypsubst, rule that)
  have s1: "s1 = ?s1" using up \<open>pk ?r = pk r\<close> by (auto simp: db_update_def Let_def split: if_splits)
  from rest have "s' = s1 \<or> (\<exists>k p x b t. coalesce_assignment e k p x s1 = Inr (b, t) \<and> noted t s')"
  proof (cases "pv_technician r1")
    case (Some k)
    show ?thesis
    proof (cases "pv_technician r = Some k \<or> pv_status r1 \<noteq> Planned")
      case True
      with Some rest show ?thesis by auto
    next
      case False
      with Some rest obtain b t where co: "coalesce_assignment e k (pv_period r1) (pk r1) s1 = Inr (b, t)"
        and "(if b then Inr (r1, t) else bind_res (announce_assignments e [(k, pv_period r1)] (''edit:'' @ action)
              (Some [digits (pk r1)]) t) (\<lambda>(_, s). Inr (r1, s))) = Inr (r', s')"
        by (auto simp: bind_res_Inr_iff)
      then have "noted t s'" by (auto simp: bind_res_Inr_iff split: if_splits dest: announce_assignments_noted)
      with co show ?thesis by blast
    qed
  qed (use rest in simp)
  then show ?thesis using t1 after unfolding s1 by blast
qed

lemma assign_row_beside:
  "assign_row e k editor r (a, s) = Inr (a', s') \<Longrightarrow> beside_record s s' \<and> elevators s' = elevators s"
  by (auto simp: assign_row_def bind_res_Inr_iff row_facts_eq dest!: save_planned_beside)

lemma bulk_assign_tidy:
  assumes run: "bulk_assign e action rows technician editor s = Inr (n, s')" and ok: "tidy s"
  shows "tidy s'" "n = length rows"
proof -
  from run obtain a s1 m where one: "fold_res (assign_row e (pk technician) editor) rows ([], s) = Inr (a, s1)"
    and two: "announce_assignments e a (''bulk:'' @ action) None s1 = Inr (m, s')" and n: "n = length rows"
    by (auto simp: bulk_assign_def bind_res_Inr_iff)
  have "tidy (snd (a, s1))"
  proof (rule fold_res_invariant [OF one, where P = "\<lambda>as. tidy (snd as)"])
    fix x and t u :: "(pk \<times> string) list \<times> 'a workshop_scheme"
    assume "tidy (snd t)" "assign_row e (pk technician) editor x t = Inr u"
    then show "tidy (snd u)" using assign_row_beside [of e "pk technician" editor x "fst t" "snd t" "fst u" "snd u"] tidy_beside
      by auto
  qed (simp add: ok)
  then show "tidy s'" using tidy_noted [OF announce_assignments_noted [OF two]] by simp
  show "n = length rows" by (rule n)
qed

section \<open>The overdue notice\<close>

lemma announce_overdue_noted: "announce_overdue e el (n, s) = Inr (n', s') \<Longrightarrow> noted s s'"
  by (auto simp: announce_overdue_def bind_res_Inr_iff dest: notify_noted split: option.splits)

lemma announce_overdue_again:
  assumes "announce_overdue e el (n, s) = Inr (n', s')" "noted s' u"
  shows "announce_overdue e el (m, u) = Inr (m, u)"
proof -
  have u: "noted s u" by (rule noted_trans [OF announce_overdue_noted [OF assms(1)] assms(2)])
  from assms(1) obtain d b people created where "el_next_maintenance_date el = Some d"
    "get_row (el_building el) (buildings s) = Inr b" "office_and_technicians el s = Inr people"
    "notify e ''maintenance_overdue'' people ''elevator'' (pk el)
             [(''elevator_name'', Text (el_name el)), (''building_name'', Text (bd_name b)),
              (''next_maintenance_date'', Text (isoformat d))]
             (''overdue:'' @ digits (pk el) @ '':'' @ isoformat d) s = Inr (created, s')"
    by (auto simp: announce_overdue_def bind_res_Inr_iff split: option.splits)
  with notify_again [OF this(4) assms(2)] show ?thesis
    by (simp add: announce_overdue_def noted_reads [OF u])
qed

text \<open>Everybody of the office and every technician of the customer holds the notice of the missed day.\<close>

definition overdue_told :: "elevator \<Rightarrow> 'a inspectorate_scheme \<Rightarrow> bool" where
  "overdue_told el s \<longleftrightarrow> (\<exists>d people. el_next_maintenance_date el = Some d \<and> office_and_technicians el s = Inr people \<and>
    (\<forall>u \<in> set people. staff_is_active u \<longrightarrow> \<not> is_deleted u \<longrightarrow>
      holds_key (pk u) (''overdue:'' @ digits (pk el) @ '':'' @ isoformat d) s))"

lemma announce_overdue_tells:
  assumes "announce_overdue e el (n, s) = Inr (n', s')" "noted s' u"
  shows "overdue_told el u"
proof -
  have u: "noted s u" by (rule noted_trans [OF announce_overdue_noted [OF assms(1)] assms(2)])
  from assms(1) obtain d b people created where d: "el_next_maintenance_date el = Some d"
    and "get_row (el_building el) (buildings s) = Inr b" and p: "office_and_technicians el s = Inr people"
    and run: "notify e ''maintenance_overdue'' people ''elevator'' (pk el)
             [(''elevator_name'', Text (el_name el)), (''building_name'', Text (bd_name b)),
              (''next_maintenance_date'', Text (isoformat d))]
             (''overdue:'' @ digits (pk el) @ '':'' @ isoformat d) s = Inr (created, s')"
    by (auto simp: announce_overdue_def bind_res_Inr_iff split: option.splits)
  have "office_and_technicians el u = Inr people" using p by (simp add: noted_reads [OF u])
  with d notify_reaches [OF run] holds_key_noted [OF _ assms(2)] show ?thesis unfolding overdue_told_def by blast
qed

interpretation overdue_notices: reaching_notice "announce_overdue e" overdue_told
  by unfold_locales (rule announce_overdue_noted, assumption, rule announce_overdue_again, assumption+,
    rule announce_overdue_tells)

lemma overdue_lifts_noted: "noted s u \<Longrightarrow> overdue_lifts e t u = overdue_lifts e t s"
  by (auto simp: noted_def overdue_lifts_def)

lemma overdue_again:
  assumes "maintenance_overdue_in_scope e t s = Inr (n, s')"
  shows "maintenance_overdue_in_scope e t s' = Inr (0, s')"
proof -
  note run = assms [unfolded maintenance_overdue_in_scope_def]
  have "overdue_lifts e t s' = overdue_lifts e t s" by (rule overdue_lifts_noted [OF overdue_notices.run_noted [OF run]])
  with overdue_notices.run_again [OF run noted_refl] show ?thesis by (simp add: maintenance_overdue_in_scope_def)
qed

section \<open>The signature\<close>

text \<open>
  What a visit being recorded may say of the building's signature: a completed one says something, a
  signed one names who signed and no later than now, any other names nobody.
\<close>

lemma signature_fields_ok:
  assumes "check_signature_fields e st f = Inr g"
  shows "sg_status g = sg_status f" "st = Completed \<Longrightarrow> sg_status g \<noteq> None"
    "sg_status g = Some Signed \<Longrightarrow> sg_name g \<noteq> [] \<and> sg_role g \<noteq> None \<and> (\<exists>t. sg_at g = Some t \<and> t \<le> now e)"
    "sg_status g \<noteq> Some Signed \<Longrightarrow> strip (sg_name g) = [] \<and> sg_role g = None \<and> sg_at g = None"
  using assms unfolding check_signature_fields_def Let_def
  by (auto split: option.splits signature_status.splits if_splits)

section \<open>The services\<close>

text \<open>What the office and the technicians may do to visits and to the plan, on rows they see.\<close>

inductive workshop_service :: "env \<Rightarrow> 'a workshop_scheme \<Rightarrow> 'a workshop_scheme \<Rightarrow> bool" for e where
  recording: "el \<in> set (elevators s) \<Longrightarrow> visible (ctx e) el \<Longrightarrow> valid_date (vs_date v) \<Longrightarrow> company_id v = company_id el \<Longrightarrow>
    record_visit e el c v items s = Inr (v', s') \<Longrightarrow> workshop_service e s s'"
| correcting: "v \<in> set (visits s) \<Longrightarrow> visible (ctx e) v \<Longrightarrow> \<not> system_mode (ctx e) \<Longrightarrow>
    valid_date (vs_date (fold change_visit changes v)) \<Longrightarrow>
    edit_visit e v changes items by s = Inr (v', s') \<Longrightarrow> workshop_service e s s'"
| deleting: "v \<in> set (visits s) \<Longrightarrow> visible (ctx e) v \<Longrightarrow> delete_visit e v by s = Inr s' \<Longrightarrow> workshop_service e s s'"
| planning: "r \<in> set (plan s) \<Longrightarrow> edit_planned_visit e action r plan_changes editor s = Inr (r', s') \<Longrightarrow> workshop_service e s s'"
| assigning: "bulk_assign e action rows technician editor s = Inr (n, s') \<Longrightarrow> workshop_service e s s'"
| reminding: "maintenance_overdue_in_scope e t s = Inr (n, s') \<Longrightarrow> workshop_service e s s'"

lemma workshop_service_tidy: "workshop_service e s s' \<Longrightarrow> tidy s \<Longrightarrow> tidy s'"
proof (erule workshop_service.cases)
  fix el t v c items v' t'
  assume "tidy s" "s = t" "s' = t'" "el \<in> set (elevators t)" "visible (ctx e) el" "valid_date (vs_date v)"
    "company_id v = company_id el" "record_visit e el c v items t = Inr (v', t')"
  then show "tidy s'" using record_visit_tidy(1) visible_sees_firm [of "ctx e" el] by simp
next
  fix v t changes items "by" v' t'
  assume "tidy s" "s = t" "s' = t'" "v \<in> set (visits t)" "visible (ctx e) v" "\<not> system_mode (ctx e)"
    "valid_date (vs_date (fold change_visit changes v))" "edit_visit e v changes items by t = Inr (v', t')"
  then show "tidy s'" using edit_visit_tidy by simp
next
  fix v t "by" t'
  assume "tidy s" "s = t" "s' = t'" "v \<in> set (visits t)" "visible (ctx e) v" "delete_visit e v by t = Inr t'"
  then show "tidy s'" using delete_visit_tidy by simp
next
  fix r t action plan_changes editor r' t'
  assume "tidy s" "s = t" "s' = t'" "r \<in> set (plan t)"
    "edit_planned_visit e action r plan_changes editor t = Inr (r', t')"
  then show "tidy s'" using edit_planned_tidy by simp
next
  fix action rows technician editor t n t'
  assume "tidy s" "s = t" "s' = t'" "bulk_assign e action rows technician editor t = Inr (n, t')"
  then show "tidy s'" using bulk_assign_tidy(1) by simp
next
  fix d t n t'
  assume "tidy s" "s = t" "s' = t'" "maintenance_overdue_in_scope e d t = Inr (n, t')"
  then show "tidy s'" using tidy_noted [OF overdue_notices.run_noted] by (simp add: maintenance_overdue_in_scope_def)
qed

end
