(* ===== verification/Plan_Laws.thy ===== *)
theory Plan_Laws
  imports Maintenance_Laws
begin

text \<open>
  What the nightly plan promises: one live row a month for every lift under contract, this month and
  the next, no open row for a lift that lost its cover unless somebody edited it, and nothing at all
  to do when it runs again the same day.
\<close>

section \<open>What the generator leaves alone\<close>

definition same_estate :: "'a workshop_scheme \<Rightarrow> 'a workshop_scheme \<Rightarrow> bool" where
  "same_estate s s' \<longleftrightarrow> elevators s' = elevators s \<and> buildings s' = buildings s \<and> contract_lines s' = contract_lines s \<and>
    contracts s' = contracts s \<and> assignments s' = assignments s \<and> staff_users s' = staff_users s \<and> visits s' = visits s"

lemma same_estate_refl [simp]: "same_estate s s"
  by (simp add: same_estate_def)

lemma same_estate_trans: "same_estate s t \<Longrightarrow> same_estate t u \<Longrightarrow> same_estate s u"
  by (simp add: same_estate_def)

lemma put_row_estate: "same_estate s (put_row r s)"
  by (simp add: same_estate_def put_row_def)

lemma noted_estate: "noted s s' \<Longrightarrow> same_estate s s' \<and> plan s' = plan s"
  by (auto simp: noted_def same_estate_def)

lemma same_estate_reads:
  assumes "same_estate s s'"
  shows "covered_elevators e s' = covered_elevators e s" "default_technician e k s' = default_technician e k s"
  using assms by (simp_all add: same_estate_def covered_elevators_def default_technician_def technicians_assigned_def)

lemma sees_lift_estate:
  "shop_ok s \<Longrightarrow> el \<in> set (elevators s) \<Longrightarrow> visible (ctx e) el \<Longrightarrow> sees_lift e (pk el) s"
  using sees_lift_of visible_sees_firm by blast

section \<open>Settled rows\<close>

text \<open>A row the generator has nothing to do with: edited, or following the facts.\<close>

definition row_settled :: "planned_visit \<Rightarrow> date \<Rightarrow> pk option \<Rightarrow> bool" where
  "row_settled r due only \<longleftrightarrow> pv_edited r \<or> pv_status r \<noteq> Plan_cancelled \<and>
    (pv_status r = Planned \<longrightarrow> pv_due_date r = due \<and> (pv_technician r = None \<longrightarrow> only = None))"

lemma row_settled_iff:
  "row_settled r due only \<longleftrightarrow> pv_edited r \<or>
    (let ff = snd (follow_the_facts r due only) in \<not> ff_status ff \<and> \<not> ff_due ff \<and> \<not> ff_technician ff)"
  by (auto simp: row_settled_def follow_the_facts_def Let_def)

definition lift_settled :: "env \<Rightarrow> string \<Rightarrow> elevator \<Rightarrow> 'a workshop_scheme \<Rightarrow> bool" where
  "lift_settled e p el s \<longleftrightarrow> (\<exists>due b. due_date_in p (el_next_maintenance_date el) = Inr due \<and>
    get_row (el_building el) (buildings s) = Inr b \<and>
    (\<exists>r \<in> set (plan s). visible (ctx e) r \<and> pv_elevator r = pk el \<and> pv_period r = p \<and>
      row_settled r due (default_technician e (bd_customer b) s)))"

text \<open>The rows of other lifts and other months are what they were.\<close>

definition only_rows :: "(pk \<times> string) set \<Rightarrow> 'a workshop_scheme \<Rightarrow> 'a workshop_scheme \<Rightarrow> bool" where
  "only_rows M s s' \<longleftrightarrow> (\<forall>r. (pv_elevator r, pv_period r) \<notin> M \<longrightarrow> (r \<in> set (plan s') \<longleftrightarrow> r \<in> set (plan s)))"

lemma only_rows_refl [simp]: "only_rows M s s"
  by (simp add: only_rows_def)

lemma only_rows_trans: "only_rows M s t \<Longrightarrow> only_rows M t u \<Longrightarrow> only_rows M s u"
  by (simp add: only_rows_def)

lemma only_rows_mono: "only_rows M s t \<Longrightarrow> M \<subseteq> N \<Longrightarrow> only_rows N s t"
  by (auto simp: only_rows_def)

lemma put_row_only:
  assumes "shop_ok s" "r0 \<in> set (plan s)" "same_place r r0"
  shows "only_rows {(pv_elevator r, pv_period r)} s (put_row r s)"
proof -
  have "pk x \<noteq> pk r" if "x \<in> set (plan s)" "(pv_elevator x, pv_period x) \<noteq> (pv_elevator r, pv_period r)" for x
    using distinct_map_unique [OF shop_okD(3) [OF assms(1)] that(1) assms(2)] that(2) assms(3) by (auto simp: same_place_def)
  then show ?thesis unfolding only_rows_def put_row_mem [OF assms] by auto
qed

lemma lift_settled_keeps:
  assumes "lift_settled e p el s" "same_estate s s'" "only_rows M s s'" "(pk el, p) \<notin> M"
  shows "lift_settled e p el s'"
proof -
  from assms(1) obtain due b r where "due_date_in p (el_next_maintenance_date el) = Inr due"
    "get_row (el_building el) (buildings s) = Inr b" "r \<in> set (plan s)" "visible (ctx e) r" "pv_elevator r = pk el"
    "pv_period r = p" "row_settled r due (default_technician e (bd_customer b) s)"
    by (auto simp: lift_settled_def)
  moreover have "buildings s' = buildings s" using assms(2) by (simp add: same_estate_def)
  moreover have "r \<in> set (plan s')" using assms(3,4) calculation by (simp add: only_rows_def)
  ultimately show ?thesis using same_estate_reads(2) [OF assms(2)] unfolding lift_settled_def by auto
qed

section \<open>One lift, one month\<close>

lemma outcome_not_cancelled: "outcome_of vs = (st, v) \<Longrightarrow> st = Done \<or> st = Planned"
  by (auto simp: outcome_of_def split: option.splits)

text \<open>A sync writes the status and the visit of the open row of the lift and the month, or nothing.\<close>

lemma sync_shape:
  assumes run: "sync_planned_visit e k d s = Inr s'" and ok: "shop_ok s" and see: "sees_lift e k s"
  shows "s' = s \<or> (\<exists>r st v. r \<in> set (plan s) \<and> pv_elevator r = k \<and> pv_period r = period_of d \<and> visible (ctx e) r \<and>
    pv_status r \<noteq> Plan_cancelled \<and> (st = Done \<or> st = Planned) \<and> s' = status_set e r st v s)"
proof (cases "open_row e k (period_of d) s")
  case None
  with run show ?thesis by (simp add: sync_planned_visit_def)
next
  case (Some r)
  note r = open_row_only(1) [OF ok see Some]
  from run Some obtain a b where mb: "month_bounds (pv_period r) = Inr (a, b)"
    and more: "(let (st, v) = outcome_of (month_visits e k a b s) in
         if pv_status r \<noteq> st \<or> pv_visit r \<noteq> v
         then bind_res (save_planned e (\<lambda>x. x\<lparr>pv_status := st, pv_visit := v\<rparr>) r s) (\<lambda>(_, s). Inr s)
         else Inr s) = Inr s'"
    by (auto simp: sync_planned_visit_def bind_res_Inr_iff)
  obtain st v where o: "outcome_of (month_visits e k a b s) = (st, v)" by (cases "outcome_of (month_visits e k a b s)")
  show ?thesis
  proof (cases "pv_status r \<noteq> st \<or> pv_visit r \<noteq> v")
    case False
    with more show ?thesis by (simp add: o)
  next
    case True
    with more obtain x where "save_planned e (\<lambda>x. x\<lparr>pv_status := st, pv_visit := v\<rparr>) r s = Inr (x, s')"
      by (auto simp: o bind_res_Inr_iff)
    from save_planned_put [OF this ok, of r] r have "s' = status_set e r st v s"
      by (simp add: same_place_def status_set_def)
    with r outcome_not_cancelled [OF o] show ?thesis by blast
  qed
qed

lemma period_length:
  assumes "valid_date d" shows "length (period_of d) = 7"
proof -
  have "nat (year d) < 10000" "nat (month d) < 100" using assms unfolding valid_date_def by linarith+
  then have "length (digits (nat (year d))) \<le> 4" "length (digits (nat (month d))) \<le> 2"
    using digits_length [of "nat (year d)" 3] digits_length [of "nat (month d)" 1] by simp_all
  then show ?thesis by (simp add: period_of_def padded_def)
qed

text \<open>The row of a lift among the rows read for the month.\<close>

definition snapshot_of :: "env \<Rightarrow> string \<Rightarrow> planned_visit list \<Rightarrow> pk \<Rightarrow> 'a workshop_scheme \<Rightarrow> bool" where
  "snapshot_of e p ex k s \<longleftrightarrow> (\<forall>r. pv_elevator r = k \<longrightarrow>
    (r \<in> set ex \<longleftrightarrow> r \<in> set (plan s) \<and> visible (ctx e) r \<and> pv_period r = p))"

lemma snapshot_rows: "snapshot_of e p (rows_of_period e p s) k s"
  by (auto simp: snapshot_of_def rows_of_period_def plan_order_def set_objects)

lemma snapshot_keeps: "snapshot_of e p ex k s \<Longrightarrow> only_rows M s s' \<Longrightarrow> (k, p) \<notin> M \<Longrightarrow> snapshot_of e p ex k s'"
  unfolding snapshot_of_def only_rows_def by metis

lemma follow_again:
  assumes "follow_the_facts r due only = (r', ff)" "\<not> pv_edited r"
  shows "row_settled r' due only" "same_place r' r" "pv_edited r' = pv_edited r" "ff_status ff \<longleftrightarrow> pv_status r = Plan_cancelled"
    "pv_status r' = (if ff_status ff then pv_status r' else pv_status r)"
    "pv_due_date r' = (if ff_due ff then pv_due_date r' else pv_due_date r)"
    "pv_technician r' = (if ff_technician ff then pv_technician r' else pv_technician r)"
    "ff_status ff \<Longrightarrow> pv_status r' = Planned"
  using assms by (auto simp: follow_the_facts_def Let_def row_settled_def same_place_def split: if_splits)

lemma row_settled_status:
  "row_settled r due only \<Longrightarrow> pv_status r = Planned \<Longrightarrow> st = Done \<or> st = Planned \<Longrightarrow>
    row_settled (r\<lparr>pv_status := st, pv_visit := v, updated_at := t\<rparr>) due only"
  by (auto simp: row_settled_def)

lemma row_settled_touch [simp]: "row_settled (r\<lparr>updated_at := t\<rparr>) due only = row_settled r due only"
  by (simp add: row_settled_def)

lemma lift_settledI:
  assumes "due_date_in p (el_next_maintenance_date el) = Inr due" "get_row (el_building el) (buildings s) = Inr b"
    "r \<in> set (plan s)" "visible (ctx e) r" "pv_elevator r = pk el" "pv_period r = p"
    "row_settled r due (default_technician e (bd_customer b) s)"
  shows "lift_settled e p el s"
  using assms by (auto simp: lift_settled_def)

lemma plan_lift_steps:
  assumes "plan_lift e p ex el (run, s) = Inr (run', s')"
  obtains due b where "due_date_in p (el_next_maintenance_date el) = Inr due"
    "get_row (el_building el) (buildings s) = Inr b"
    "(case List.find (\<lambda>r. pv_elevator r = pk el) (rev ex) of
      None \<Rightarrow> (\<exists>made. create_row e (blank_planned\<lparr>company_id := company_id el, pv_elevator := pk el, pv_period := p,
            pv_due_date := due, pv_technician := default_technician e (bd_customer b) s\<rparr>) s = Inr (made, s'))
    | Some r \<Rightarrow> pv_edited r \<and> s' = s \<or> \<not> pv_edited r \<and>
        (\<exists>r' ff. follow_the_facts r due (default_technician e (bd_customer b) s) = (r', ff) \<and>
          (\<not> ff_status ff \<and> \<not> ff_due ff \<and> \<not> ff_technician ff \<and> s' = s \<or>
           (\<exists>x s1. save_followed e r' ff s = Inr (x, s1) \<and>
            (if ff_status ff then \<exists>a b. month_bounds p = Inr (a, b) \<and> sync_planned_visit e (pv_elevator r') a s1 = Inr s'
             else s' = s1)))))"
proof -
  from assms obtain due b where d: "due_date_in p (el_next_maintenance_date el) = Inr due"
    and b: "get_row (el_building el) (buildings s) = Inr b"
    by (auto simp: plan_lift_def bind_res_Inr_iff)
  show thesis
    using assms
    by (intro that [OF d b], cases "List.find (\<lambda>r. pv_elevator r = pk el) (rev ex)")
      (auto simp: plan_lift_def bind_res_Inr_iff d b Let_def split: prod.splits if_splits)
qed

text \<open>A lift's new row.\<close>

lemma create_row_ok:
  assumes run: "create_row e (blank_planned\<lparr>company_id := company_id el, pv_elevator := pk el, pv_period := p,
        pv_due_date := due, pv_technician := only\<rparr>) s = Inr (made, s')"
    and ok: "shop_ok s" and el: "el \<in> set (elevators s)" "visible (ctx e) el" and p: "valid_date d" "p = period_of d"
    and none: "\<And>r. r \<in> set (plan s) \<Longrightarrow> visible (ctx e) r \<Longrightarrow> pv_elevator r = pk el \<Longrightarrow> pv_period r \<noteq> p"
  shows "shop_ok s' \<and> same_estate s s' \<and> only_rows {(pk el, p)} s s' \<and>
    (\<exists>r \<in> set (plan s'). visible (ctx e) r \<and> pv_elevator r = pk el \<and> pv_period r = p \<and> row_settled r due only)"
proof -
  let ?r = "blank_planned\<lparr>company_id := company_id el, pv_elevator := pk el, pv_period := p,
        pv_due_date := due, pv_technician := only\<rparr>"
  note see = sees_lift_estate [OF ok el]
  have gone: "is_deleted x" if "x \<in> set (plan s)" "pv_elevator x = pk el" "pv_period x = p" for x
    using none [OF that(1) _ that(2)] that see by (auto simp: sees_lift_def sees_firm_visible)
  then have fresh: "unique_with plan_clash ?r (plan s)"
    by (auto simp: unique_with_def plan_clash_def)
  have len: "length (pv_period ?r) \<le> 7" using period_length [OF p(1)] by (simp add: p(2))
  let ?n = "stamped e (next_pk s) ?r"
  from run fresh len have s': "s' = plan_update (\<lambda>rows. rows @ [?n]) (s\<lparr>next_pk := Suc (next_pk s)\<rparr>)"
    by (auto simp: create_row_def db_insert_def Let_def split: if_splits)
  have n: "pk ?n = next_pk s" "company_id ?n = company_id el" "pv_elevator ?n = pk el" "pv_period ?n = p"
    "\<not> is_deleted ?n" "pv_status ?n = Planned" "pv_due_date ?n = due" "pv_technician ?n = only"
    by (simp_all add: stamped_def blank_planned_def)
  have co: "company_id el = company_id x" if "x \<in> set (elevators s)" "pk el = pk x" for x
    using distinct_map_unique [OF shop_okD(1) [OF ok] that(1) el(1)] that(2) by simp
  have vis: "visible (ctx e) ?n" using visible_sees_firm [OF el(2)] n(2,5) sees_firm_visible [of "ctx e" ?n] by simp
  have rows: "plan s' = plan s @ [?n]" by (simp add: s')
  have "shop_ok s'"
    unfolding shop_ok_def
  proof (intro conjI)
    have "\<not> plan_clash x ?n \<and> \<not> plan_clash ?n x" if "x \<in> set (plan s)" for x
      using gone [OF that] n(3,4) unfolding plan_clash_def by metis
    with shop_okD(4) [OF ok] show "\<forall>a \<in> set (plan s'). \<forall>b \<in> set (plan s'). plan_clash a b \<longrightarrow> pk a = pk b"
      unfolding rows by auto
    have "next_pk s \<notin> pk ` set (plan s)" by (auto dest: shop_okD(8) [OF ok])
    then show "distinct (map pk (plan s'))" using shop_okD(3) [OF ok] n(1) by (simp add: rows)
    have "pk r < next_pk s' \<and> (\<exists>d. valid_date d \<and> pv_period r = period_of d) \<and>
      (\<forall>el \<in> set (elevators s). pv_elevator r = pk el \<longrightarrow> company_id r = company_id el)" if "r \<in> set (plan s)" for r
      using shop_okD(8-10) [OF ok that] by (simp add: s' less_Suc_eq)
    moreover have "pk ?n < next_pk s' \<and> (\<exists>d. valid_date d \<and> pv_period ?n = period_of d) \<and>
      (\<forall>el \<in> set (elevators s). pv_elevator ?n = pk el \<longrightarrow> company_id ?n = company_id el)"
      unfolding n using co p by (auto simp: s')
    moreover have "elevators s' = elevators s" by (simp add: s')
    ultimately show "\<forall>r \<in> set (plan s'). pk r < next_pk s' \<and> (\<exists>d. valid_date d \<and> pv_period r = period_of d) \<and>
      (\<forall>el \<in> set (elevators s'). pv_elevator r = pk el \<longrightarrow> company_id r = company_id el)"
      unfolding rows by auto
    show "\<forall>v \<in> set (visits s'). pk v < next_pk s' \<and> valid_date (vs_date v) \<and>
      (\<forall>el \<in> set (elevators s'). vs_elevator v = pk el \<longrightarrow> company_id v = company_id el)"
    proof
      fix v assume "v \<in> set (visits s')"
      then have "v \<in> set (visits s)" by (simp add: s')
      from shop_okD(5-7) [OF ok this] show "pk v < next_pk s' \<and> valid_date (vs_date v) \<and>
        (\<forall>el \<in> set (elevators s'). vs_elevator v = pk el \<longrightarrow> company_id v = company_id el)" by (simp add: s' less_Suc_eq)
    qed
  qed (use shop_okD(1,2) [OF ok] in \<open>simp_all add: s'\<close>)
  moreover have "only_rows {(pk el, p)} s s'" using n unfolding only_rows_def rows by auto
  moreover have "same_estate s s'" by (simp add: s' same_estate_def)
  moreover have "?n \<in> set (plan s')" by (simp add: rows)
  moreover have "row_settled ?n due only" using n by (simp add: row_settled_def)
  ultimately show ?thesis using n vis by blast
qed

text \<open>The month's row after the generator saw the lift: there is one, and it is settled.\<close>

lemma find_snapshot:
  assumes "snapshot_of e p ex k s" "shop_ok s"
  shows "List.find (\<lambda>r. pv_elevator r = k) (rev ex) = None \<Longrightarrow> r \<in> set (plan s) \<Longrightarrow> visible (ctx e) r \<Longrightarrow> pv_elevator r = k \<Longrightarrow> pv_period r \<noteq> p"
    and "List.find (\<lambda>r. pv_elevator r = k) (rev ex) = Some x \<Longrightarrow> x \<in> set (plan s) \<and> visible (ctx e) x \<and> pv_elevator x = k \<and> pv_period x = p"
  using assms(1) find_Some_iff [of "\<lambda>r. pv_elevator r = k" "rev ex" x]
    find_None_iff' [of "\<lambda>r. pv_elevator r = k" "rev ex"] unfolding snapshot_of_def by (force, force)

lemma save_followed_put:
  assumes run: "save_followed e r' ff s = Inr (x, s')" and ok: "shop_ok s" and r: "r \<in> set (plan s)"
    and ff: "follow_the_facts r due only = (r', ff)" "\<not> pv_edited r"
  shows "\<exists>r1. s' = put_row r1 s \<and> same_place r1 r \<and> row_settled r1 due only \<and>
    (ff_status ff \<longrightarrow> pv_status r1 = Planned)"
proof -
  let ?g = "\<lambda>x :: planned_visit. x\<lparr>pv_status := (if ff_status ff then pv_status r' else pv_status x),
      pv_due_date := (if ff_due ff then pv_due_date r' else pv_due_date x),
      pv_technician := (if ff_technician ff then pv_technician r' else pv_technician x)\<rparr>"
  note f = follow_again [OF ff]
  have pk: "pk r = pk r'" using f(2) by (simp add: same_place_def)
  have s': "s' = put_row ((?g r)\<lparr>updated_at := now e\<rparr>) s"
    by (rule save_planned_put [OF run [unfolded save_followed_def] ok r pk]) (simp add: same_place_def)
  have "pv_status (?g r) = pv_status r'" "pv_due_date (?g r) = pv_due_date r'" "pv_technician (?g r) = pv_technician r'"
    "pv_edited (?g r) = pv_edited r'" using f(3,5-7) by auto
  then have "row_settled (?g r) due only" using f(1) unfolding row_settled_def by simp
  moreover have "ff_status ff \<longrightarrow> pv_status (?g r) = Planned" using f(8) by simp
  ultimately show ?thesis
    using s' by (intro exI [of _ "(?g r)\<lparr>updated_at := now e\<rparr>"]) (simp add: same_place_def)
qed

lemma visible_place: "same_place a b \<Longrightarrow> visible c a = visible c b"
  by (auto simp: visible_def same_place_def split: option.split)

text \<open>The sync of a row that was just reopened keeps it settled.\<close>

lemma reopened_sync:
  assumes run: "sync_planned_visit e k d s = Inr s'" and ok: "shop_ok s" and see: "sees_lift e k s"
    and r: "r \<in> set (plan s)" "visible (ctx e) r" "pv_elevator r = k" "pv_period r = period_of d"
      "row_settled r due only" "pv_status r = Planned"
  shows "shop_ok s' \<and> same_estate s s' \<and> only_rows {(k, period_of d)} s s' \<and>
    (\<exists>r \<in> set (plan s'). visible (ctx e) r \<and> pv_elevator r = k \<and> pv_period r = period_of d \<and> row_settled r due only)"
proof (cases "s' = s")
  case True
  with ok r show ?thesis by auto
next
  case False
  with sync_shape [OF run ok see] obtain x st v where x: "x \<in> set (plan s)" "pv_elevator x = k" "pv_period x = period_of d"
    "visible (ctx e) x" and st: "st = Done \<or> st = Planned" and s': "s' = status_set e x st v s" by blast
  have "plan_clash x r" using x r visible_not_deleted by (auto simp: plan_clash_def)
  then have "pk x = pk r" by (rule shop_okD(4) [OF ok x(1) r(1)])
  then have xr: "x = r" by (rule distinct_map_unique [OF shop_okD(3) [OF ok] x(1) r(1)])
  let ?r = "r\<lparr>pv_status := st, pv_visit := v, updated_at := now e\<rparr>"
  have place: "same_place ?r r" by (simp add: same_place_def)
  have "s' = put_row ?r s" by (simp add: s' xr status_set_def)
  moreover have "?r \<in> set (plan (put_row ?r s))" unfolding put_row_mem [OF ok r(1) place] by simp
  moreover have "row_settled ?r due only" by (rule row_settled_status [OF r(5,6) st])
  moreover have "visible (ctx e) ?r" using visible_place [OF place] r(2) by simp
  moreover have "only_rows {(k, period_of d)} s (put_row ?r s)"
    using put_row_only [OF ok r(1) place] r(3,4) by simp
  moreover have "pv_elevator ?r = k" "pv_period ?r = period_of d" using r(3,4) by simp_all
  ultimately show ?thesis using put_row_shop_ok [OF ok r(1) place] put_row_estate [of s ?r] by blast
qed

lemma plan_lift_ok:
  assumes run: "plan_lift e p ex el (run, s) = Inr (run', s')" and ok: "shop_ok s"
    and el: "el \<in> set (elevators s)" "visible (ctx e) el" and d: "valid_date d" "p = period_of d"
    and snap: "snapshot_of e p ex (pk el) s"
  shows "shop_ok s' \<and> same_estate s s' \<and> only_rows {(pk el, p)} s s' \<and> lift_settled e p el s'"
proof -
  from plan_lift_steps [OF run] obtain due b where due: "due_date_in p (el_next_maintenance_date el) = Inr due"
    and b: "get_row (el_building el) (buildings s) = Inr b"
    and c: "(case List.find (\<lambda>r. pv_elevator r = pk el) (rev ex) of
      None \<Rightarrow> (\<exists>made. create_row e (blank_planned\<lparr>company_id := company_id el, pv_elevator := pk el, pv_period := p,
            pv_due_date := due, pv_technician := default_technician e (bd_customer b) s\<rparr>) s = Inr (made, s'))
    | Some r \<Rightarrow> pv_edited r \<and> s' = s \<or> \<not> pv_edited r \<and>
        (\<exists>r' ff. follow_the_facts r due (default_technician e (bd_customer b) s) = (r', ff) \<and>
          (\<not> ff_status ff \<and> \<not> ff_due ff \<and> \<not> ff_technician ff \<and> s' = s \<or>
           (\<exists>x s1. save_followed e r' ff s = Inr (x, s1) \<and>
            (if ff_status ff then \<exists>a b. month_bounds p = Inr (a, b) \<and> sync_planned_visit e (pv_elevator r') a s1 = Inr s'
             else s' = s1)))))"
    by (rule plan_lift_steps [OF run])
  let ?only = "default_technician e (bd_customer b) s"
  let ?done = "\<lambda>t. shop_ok t \<and> same_estate s t \<and> only_rows {(pk el, p)} s t \<and>
    (\<exists>r \<in> set (plan t). visible (ctx e) r \<and> pv_elevator r = pk el \<and> pv_period r = p \<and> row_settled r due ?only)"
  have "?done s'"
  proof (cases "List.find (\<lambda>r. pv_elevator r = pk el) (rev ex)")
    case None
    with c obtain made where "create_row e (blank_planned\<lparr>company_id := company_id el, pv_elevator := pk el, pv_period := p,
            pv_due_date := due, pv_technician := ?only\<rparr>) s = Inr (made, s')" by auto
    from create_row_ok [OF this ok el d find_snapshot(1) [OF snap ok None]] show ?thesis .
  next
    case (Some r)
    note r = find_snapshot(2) [OF snap ok Some]
    have quiet: "?done s" if "row_settled r due ?only" using r ok that by auto
    from c Some consider "pv_edited r" "s' = s" | r' ff where "\<not> pv_edited r" "follow_the_facts r due ?only = (r', ff)"
      "\<not> ff_status ff \<and> \<not> ff_due ff \<and> \<not> ff_technician ff" "s' = s"
      | r' ff x s1 where "\<not> pv_edited r" "follow_the_facts r due ?only = (r', ff)" "save_followed e r' ff s = Inr (x, s1)"
        "if ff_status ff then \<exists>a b. month_bounds p = Inr (a, b) \<and> sync_planned_visit e (pv_elevator r') a s1 = Inr s' else s' = s1"
      by auto
    then show ?thesis
    proof cases
      case 1
      with quiet show ?thesis by (simp add: row_settled_def)
    next
      case (2 r' ff)
      then have "row_settled r due ?only" by (simp add: row_settled_iff Let_def)
      with quiet 2 show ?thesis by simp
    next
      case (3 r' ff x s1)
      from save_followed_put [OF 3(3) ok _ 3(2,1)] r obtain r1 where s1: "s1 = put_row r1 s"
        and r1: "same_place r1 r" "row_settled r1 due ?only" "ff_status ff \<longrightarrow> pv_status r1 = Planned" by blast
      have rin: "r \<in> set (plan s)" using r by blast
      have where1: "pv_elevator r1 = pk el" "pv_period r1 = p" "visible (ctx e) r1"
        using r1(1) r visible_place [OF r1(1)] by (simp_all add: same_place_def)
      have in1: "r1 \<in> set (plan s1)" unfolding s1 put_row_mem [OF ok rin r1(1)] by simp
      have ok1: "shop_ok s1" unfolding s1 by (rule put_row_shop_ok [OF ok rin r1(1)])
      have est: "same_estate s s1" unfolding s1 by (rule put_row_estate)
      have rows: "only_rows {(pk el, p)} s s1" using put_row_only [OF ok rin r1(1)] where1 by (simp add: s1)
      show ?thesis
      proof (cases "ff_status ff")
        case False
        with 3(4) ok1 est rows in1 where1 r1(2) show ?thesis by auto
      next
        case True
        with 3(4) obtain z where "month_bounds p = Inr (first_day d, z)"
          "sync_planned_visit e (pv_elevator r') (first_day d) s1 = Inr s'" by (auto simp: d month_bounds_of [OF d(1)])
        moreover have "pv_elevator r' = pk el" using follow_again(2) [OF 3(2,1)] r by (simp add: same_place_def)
        ultimately have sync: "sync_planned_visit e (pk el) (first_day d) s1 = Inr s'" by simp
        have el1: "el \<in> set (elevators s1)" using el(1) by (simp add: s1)
        have p1: "pv_period r1 = period_of (first_day d)" using where1 d period_of_bounds by simp
        have "pv_status r1 = Planned" using r1(3) True by simp
        from reopened_sync [OF sync ok1 sees_lift_estate [OF ok1 el1 el(2)] in1 where1(3,1) p1 r1(2) this]
        have "shop_ok s' \<and> same_estate s1 s' \<and> only_rows {(pk el, p)} s1 s' \<and>
          (\<exists>r \<in> set (plan s'). visible (ctx e) r \<and> pv_elevator r = pk el \<and> pv_period r = p \<and> row_settled r due ?only)"
          by (simp add: d period_of_bounds)
        with est rows same_estate_trans only_rows_trans show ?thesis by blast
      qed
    qed
  qed
  moreover from this have "buildings s' = buildings s" by (simp add: same_estate_def)
  ultimately show ?thesis using due b same_estate_reads(2) [of s s' e "bd_customer b"] by (auto simp: lift_settled_def)
qed

section \<open>A whole month\<close>

lemma plan_lifts_ok:
  assumes "fold_res (plan_lift e p ex) cov (run, s) = Inr (run', s')" "shop_ok s" "distinct (map pk cov)"
    "\<And>el. el \<in> set cov \<Longrightarrow> el \<in> set (elevators s) \<and> visible (ctx e) el \<and> snapshot_of e p ex (pk el) s"
    and d: "valid_date d" "p = period_of d"
  shows "shop_ok s' \<and> same_estate s s' \<and> only_rows ((\<lambda>el. (pk el, p)) ` set cov) s s' \<and>
    (\<forall>el \<in> set cov. lift_settled e p el s')"
  using assms(1-4)
proof (induction cov arbitrary: run s)
  case (Cons el cov)
  from Cons.prems(1) obtain run1 s1 where one: "plan_lift e p ex el (run, s) = Inr (run1, s1)"
    and more: "fold_res (plan_lift e p ex) cov (run1, s1) = Inr (run', s')" by (auto simp: bind_res_Inr_iff)
  have "shop_ok s1 \<and> same_estate s s1 \<and> only_rows {(pk el, p)} s s1 \<and> lift_settled e p el s1"
    using plan_lift_ok [OF one Cons.prems(2) _ _ d] Cons.prems(4) [of el] by simp
  then have o1: "shop_ok s1" "same_estate s s1" "only_rows {(pk el, p)} s s1" "lift_settled e p el s1" by blast+
  have fresh: "pk x \<noteq> pk el" if "x \<in> set cov" for x using Cons.prems(3) that by (auto simp: image_iff)
  have "x \<in> set (elevators s1) \<and> visible (ctx e) x \<and> snapshot_of e p ex (pk x) s1" if "x \<in> set cov" for x
    using Cons.prems(4) [of x] snapshot_keeps [OF _ o1(3), of e p ex "pk x"] fresh [OF that] o1(2) that
    by (simp add: same_estate_def)
  from Cons.IH [OF more o1(1) _ this] Cons.prems(3) have rest: "shop_ok s'" "same_estate s1 s'"
    "only_rows ((\<lambda>el. (pk el, p)) ` set cov) s1 s'" "\<forall>el \<in> set cov. lift_settled e p el s'" by auto
  have "(pk el, p) \<notin> (\<lambda>el. (pk el, p)) ` set cov" using Cons.prems(3) by auto
  with lift_settled_keeps [OF o1(4) rest(2,3)] rest(4) have "\<forall>x \<in> set (el # cov). lift_settled e p x s'" by simp
  moreover have "only_rows ((\<lambda>el. (pk el, p)) ` set (el # cov)) s s'"
    by (rule only_rows_trans [OF only_rows_mono [OF o1(3)] only_rows_mono [OF rest(3)]]) auto
  ultimately show ?case using rest(1) same_estate_trans [OF o1(2) rest(2)] by simp
qed simp

definition uncovered_settled :: "env \<Rightarrow> string \<Rightarrow> pk set \<Rightarrow> 'a workshop_scheme \<Rightarrow> bool" where
  "uncovered_settled e p ids s \<longleftrightarrow> (\<forall>x \<in> set (plan s). visible (ctx e) x \<longrightarrow> pv_period x = p \<longrightarrow> pv_elevator x \<notin> ids \<longrightarrow>
    pv_status x = Planned \<longrightarrow> pv_edited x)"

lemma cancel_shape:
  assumes run: "cancel_uncovered e ids r (n, s) = Inr (n', s')" and ok: "shop_ok s"
    and r: "pv_elevator r \<notin> set ids \<longrightarrow> r \<in> set (plan s)"
  shows "s' = s \<and> (pv_elevator r \<in> set ids \<or> pv_status r \<noteq> Planned \<or> pv_edited r) \<or>
    pv_elevator r \<notin> set ids \<and> s' = put_row (r\<lparr>pv_status := Plan_cancelled, updated_at := now e\<rparr>) s"
proof (cases "pv_elevator r \<notin> set ids \<and> pv_status r = Planned \<and> \<not> pv_edited r")
  case True
  with run obtain x where "save_planned e (\<lambda>x. x\<lparr>pv_status := Plan_cancelled\<rparr>) r s = Inr (x, s')"
    by (auto simp: cancel_uncovered_def bind_res_Inr_iff)
  from save_planned_put [OF this ok, of r] r True show ?thesis by (simp add: same_place_def)
next
  case False
  with run show ?thesis by (auto simp: cancel_uncovered_def)
qed

lemma cancel_all_ok:
  assumes run: "fold_res (cancel_uncovered e ids) ex (n, s) = Inr (n', s')" and ok: "shop_ok s" and dist: "distinct (map pk ex)"
    and ex: "\<And>r. r \<in> set ex \<Longrightarrow> pv_period r = p \<and> (pv_elevator r \<notin> set ids \<longrightarrow> r \<in> set (plan s))"
    and all: "\<And>x. x \<in> set (plan s) \<Longrightarrow> visible (ctx e) x \<Longrightarrow> pv_period x = p \<Longrightarrow> pv_elevator x \<notin> set ids \<Longrightarrow>
      pv_status x = Planned \<Longrightarrow> pv_edited x \<or> x \<in> set ex"
  shows "shop_ok s' \<and> same_estate s s' \<and> only_rows ((\<lambda>k. (k, p)) ` (- set ids)) s s' \<and> uncovered_settled e p (set ids) s'"
  using run ok dist ex all
proof (induction ex arbitrary: n s)
  case Nil
  then show ?case by (auto simp: uncovered_settled_def)
next
  case (Cons r ex)
  from Cons.prems(1) obtain n1 s1 where one: "cancel_uncovered e ids r (n, s) = Inr (n1, s1)"
    and more: "fold_res (cancel_uncovered e ids) ex (n1, s1) = Inr (n', s')" by (auto simp: bind_res_Inr_iff)
  have rin: "pv_elevator r \<notin> set ids \<longrightarrow> r \<in> set (plan s)" and rp: "pv_period r = p" using Cons.prems(4) [of r] by auto
  from cancel_shape [OF one Cons.prems(2) rin]
  consider "s1 = s" "pv_elevator r \<in> set ids \<or> pv_status r \<noteq> Planned \<or> pv_edited r"
    | "pv_elevator r \<notin> set ids" "s1 = put_row (r\<lparr>pv_status := Plan_cancelled, updated_at := now e\<rparr>) s" by blast
  then show ?case
  proof cases
    case 1
    note s1 = 1(1) and quiet = 1(2)
    show ?thesis
      using Cons.IH [OF more [unfolded s1] Cons.prems(2)] Cons.prems(3-5) quiet by fastforce
  next
    case 2
    let ?r = "r\<lparr>pv_status := Plan_cancelled, updated_at := now e\<rparr>"
    note unc = 2(1) and s1 = 2(2)
    note rin = mp [OF rin unc]
    have place: "same_place ?r r" by (simp add: same_place_def)
    have ok1: "shop_ok s1" unfolding s1 by (rule put_row_shop_ok [OF Cons.prems(2) rin place])
    have mem: "x \<in> set (plan s1) \<longleftrightarrow> x = ?r \<or> x \<in> set (plan s) \<and> pk x \<noteq> pk r" for x
      unfolding s1 put_row_mem [OF Cons.prems(2) rin place] by simp
    have rows: "only_rows {(pv_elevator r, p)} s s1" using put_row_only [OF Cons.prems(2) rin place] rp by (simp add: s1)
    have "pv_period x = p \<and> (pv_elevator x \<notin> set ids \<longrightarrow> x \<in> set (plan s1))" if "x \<in> set ex" for x
    proof -
      have "pk x \<noteq> pk r" using Cons.prems(3) that by (auto simp: image_iff)
      with Cons.prems(4) [of x] that show ?thesis by (simp add: mem)
    qed
    moreover have "pv_edited x \<or> x \<in> set ex" if "x \<in> set (plan s1)" "visible (ctx e) x" "pv_period x = p" "pv_elevator x \<notin> set ids"
      "pv_status x = Planned" for x
      using Cons.prems(5) [of x] that by (auto simp: mem)
    ultimately have rest: "shop_ok s' \<and> same_estate s1 s' \<and> only_rows ((\<lambda>k. (k, p)) ` (- set ids)) s1 s' \<and>
        uncovered_settled e p (set ids) s'"
      using Cons.IH [OF more ok1] Cons.prems(3) by simp
    have "same_estate s s1" unfolding s1 by (rule put_row_estate)
    moreover have "only_rows ((\<lambda>k. (k, p)) ` (- set ids)) s s1" by (rule only_rows_mono [OF rows]) (use unc in auto)
    ultimately show ?thesis using rest same_estate_trans [of s s1 s'] only_rows_trans [of _ s s1 s'] by blast
  qed
qed

text \<open>The month after one pass of the generator.\<close>

definition month_settled :: "env \<Rightarrow> string \<Rightarrow> elevator list \<Rightarrow> 'a workshop_scheme \<Rightarrow> bool" where
  "month_settled e p cov s \<longleftrightarrow> (\<forall>el \<in> set cov. lift_settled e p el s) \<and> uncovered_settled e p (pk ` set cov) s"

lemma month_settled_keeps:
  assumes "month_settled e p cov s" "same_estate s s'" "only_rows M s s'" "\<And>k. (k, p) \<notin> M"
  shows "month_settled e p cov s'"
proof -
  have "x \<in> set (plan s') \<longleftrightarrow> x \<in> set (plan s)" if "pv_period x = p" for x
    using assms(3,4) that by (simp add: only_rows_def)
  then have "uncovered_settled e p (pk ` set cov) s'" using assms(1)
    unfolding month_settled_def uncovered_settled_def by blast
  with lift_settled_keeps [OF _ assms(2,3,4)] assms(1) show ?thesis by (simp add: month_settled_def)
qed

lemma rows_of_period_mem: "r \<in> set (rows_of_period e p s) \<longleftrightarrow> r \<in> set (plan s) \<and> visible (ctx e) r \<and> pv_period r = p"
  by (auto simp: rows_of_period_def plan_order_def set_objects)

lemma rows_of_period_distinct: "shop_ok s \<Longrightarrow> distinct (map pk (rows_of_period e p s))"
proof -
  assume "shop_ok s"
  then have "distinct (map pk (filter P (objects c (plan s))))" for P c
    using shop_okD(3) [of s] by (simp add: objects_def distinct_map_filter)
  then have "inj_on pk (set (filter (\<lambda>r. pv_period r = p) (objects (ctx e) (plan s))))"
    "distinct (filter (\<lambda>r. pv_period r = p) (objects (ctx e) (plan s)))" by (simp_all add: distinct_map)
  then show ?thesis by (simp add: rows_of_period_def plan_order_def distinct_map)
qed

lemma plan_period_ok:
  assumes run: "plan_period e cov p (n, s) = Inr (n', s')" and ok: "shop_ok s" and cov: "distinct (map pk cov)"
    "\<And>el. el \<in> set cov \<Longrightarrow> el \<in> set (elevators s) \<and> visible (ctx e) el" and d: "valid_date d" "p = period_of d"
  shows "shop_ok s' \<and> same_estate s s' \<and> only_rows ((\<lambda>k. (k, p)) ` UNIV) s s' \<and> month_settled e p cov s'"
proof -
  let ?ex = "rows_of_period e p s"
  from run obtain n1 s1 where one: "fold_res (plan_lift e p ?ex) cov (n, s) = Inr (n1, s1)"
    and two: "fold_res (cancel_uncovered e (map pk cov)) ?ex (n1, s1) = Inr (n', s')"
    by (auto simp: plan_period_def Let_def bind_res_Inr_iff)
  have o1: "shop_ok s1" "same_estate s s1" "only_rows ((\<lambda>el. (pk el, p)) ` set cov) s s1" "\<forall>el \<in> set cov. lift_settled e p el s1"
    using plan_lifts_ok [OF one ok cov(1) _ d] cov(2) snapshot_rows by blast+
  have un: "x \<in> set (plan s1) \<longleftrightarrow> x \<in> set (plan s)" if "pv_elevator x \<notin> pk ` set cov" for x
    using o1(3) that by (auto simp: only_rows_def)
  have "shop_ok s' \<and> same_estate s1 s' \<and> only_rows ((\<lambda>k. (k, p)) ` (- set (map pk cov))) s1 s' \<and>
      uncovered_settled e p (set (map pk cov)) s'"
    by (rule cancel_all_ok [OF two o1(1) rows_of_period_distinct [OF ok]]) (auto simp: rows_of_period_mem un)
  then have o2: "shop_ok s'" "same_estate s1 s'" "only_rows ((\<lambda>k. (k, p)) ` (- set (map pk cov))) s1 s'"
    "uncovered_settled e p (set (map pk cov)) s'" by blast+
  have "lift_settled e p el s'" if "el \<in> set cov" for el
    using lift_settled_keeps [OF _ o2(2,3)] o1(4) that by auto
  with o2(4) have "month_settled e p cov s'" by (simp add: month_settled_def)
  moreover have "only_rows ((\<lambda>k. (k, p)) ` UNIV) s s'"
    by (rule only_rows_trans [OF only_rows_mono [OF o1(3)] only_rows_mono [OF o2(3)]]) auto
  ultimately show ?thesis using o2(1) same_estate_trans [OF o1(2) o2(2)] by blast
qed

section \<open>The plan\<close>

lemma lift_quiet:
  assumes settled: "lift_settled e p el s" and ok: "shop_ok s" and ctx: "ctx e' = ctx e"
  shows "plan_lift e' p (rows_of_period e' p s) el (n, s) = Inr (n, s)"
proof -
  from settled obtain due b r where due: "due_date_in p (el_next_maintenance_date el) = Inr due"
    and b: "get_row (el_building el) (buildings s) = Inr b" and r: "r \<in> set (plan s)" "visible (ctx e) r"
      "pv_elevator r = pk el" "pv_period r = p"
    and st: "row_settled r due (default_technician e (bd_customer b) s)"
    by (auto simp: lift_settled_def)
  have def: "default_technician e' c s = default_technician e c s" for c
    by (simp add: default_technician_def technicians_assigned_def ctx)
  let ?find = "List.find (\<lambda>r. pv_elevator r = pk el) (rev (rows_of_period e' p s))"
  have "?find \<noteq> None" using r unfolding find_None_iff' by (auto simp: rows_of_period_mem ctx)
  then obtain x where x: "?find = Some x" by auto
  from find_Some_iff [OF this] have xs: "x \<in> set (plan s)" "visible (ctx e) x" "pv_elevator x = pk el" "pv_period x = p"
    by (simp_all add: rows_of_period_mem ctx)
  have "plan_clash x r" using xs r visible_not_deleted by (auto simp: plan_clash_def)
  then have "x = r"
    using shop_okD(4) [OF ok xs(1) r(1)] distinct_map_unique [OF shop_okD(3) [OF ok] xs(1) r(1)] by blast
  with x st show ?thesis
    by (cases "follow_the_facts r due (default_technician e (bd_customer b) s)")
      (auto simp: plan_lift_def due b def row_settled_iff Let_def)
qed

lemma fold_res_quiet: "(\<And>x. x \<in> set xs \<Longrightarrow> f x s = Inr s) \<Longrightarrow> fold_res f xs s = Inr s"
  by (induction xs) simp_all

lemma month_quiet:
  assumes "month_settled e p cov s" "shop_ok s" "ctx e' = ctx e"
  shows "plan_period e' cov p (n, s) = Inr (n, s)"
proof -
  have "fold_res (plan_lift e' p (rows_of_period e' p s)) cov (n, s) = Inr (n, s)"
    using assms(1) by (intro fold_res_quiet lift_quiet [OF _ assms(2,3)]) (simp add: month_settled_def)
  moreover have "fold_res (cancel_uncovered e' (map pk cov)) (rows_of_period e' p s) (n, s) = Inr (n, s)"
  proof (rule fold_res_quiet)
    fix r assume "r \<in> set (rows_of_period e' p s)"
    then show "cancel_uncovered e' (map pk cov) r (n, s) = Inr (n, s)"
      using assms(1,3) by (auto simp: cancel_uncovered_def month_settled_def uncovered_settled_def rows_of_period_mem)
  qed
  ultimately show ?thesis by (simp add: plan_period_def)
qed

lemma covered_elevators_ok:
  assumes "shop_ok s"
  shows "distinct (map pk (covered_elevators e s))"
    "el \<in> set (covered_elevators e s) \<Longrightarrow> el \<in> set (elevators s) \<and> visible (ctx e) el"
proof -
  have "distinct (map pk (filter P (objects c (elevators s))))" for P c
    using shop_okD(1) [OF assms] by (simp add: objects_def distinct_map_filter)
  then show "distinct (map pk (covered_elevators e s))"
    by (simp add: covered_elevators_def distinct_map)
  show "el \<in> set (covered_elevators e s) \<Longrightarrow> el \<in> set (elevators s) \<and> visible (ctx e) el"
    by (auto simp: covered_elevators_def set_objects)
qed

lemma following_month:
  assumes "next_period (period_of t) = Inr p" "valid_date t"
  obtains d where "valid_date d" "p = period_of d" "period_of d \<noteq> period_of t"
proof -
  from assms obtain d where d: "add_days (last_day t) 1 = Some d" and p: "p = period_of d"
    by (auto simp: next_period_def month_bounds_of bind_res_Inr_iff the_res_Inr_iff)
  note v = add_days_Some [OF d]
  have "last_day t < d" using v ordinal_less_iff [OF month_ends_valid(2) [OF assms(2)] v(2)] by simp
  then have "period_of d \<noteq> period_of t" using same_period_iff [OF v(2) assms(2)] by auto
  with that v(2) p show thesis by blast
qed

text \<open>After the generator both months are settled, and the estate is what it was.\<close>

lemma generate_plan_settles:
  assumes run: "generate_plan e t s = Inr (r, s')" and ok: "shop_ok s" and t: "valid_date t"
  shows "shop_ok s' \<and> same_estate s s' \<and> month_settled e (period_of t) (covered_elevators e s) s' \<and>
    (\<exists>p. next_period (period_of t) = Inr p \<and> month_settled e p (covered_elevators e s) s')"
proof -
  let ?cov = "covered_elevators e s"
  from run obtain p r1 s1 r2 s2 n where np: "next_period (period_of t) = Inr p"
    and one: "plan_period e ?cov (period_of t) (fresh_run, s) = Inr (r1, s1)"
    and two: "plan_period e ?cov p (r1, s1) = Inr (r2, s2)"
    and an: "announce_assignments e (run_assigned r2) (''plan:'' @ isoformat t) None s2 = Inr (n, s')"
    by (auto simp: generate_plan_def bind_res_Inr_iff)
  obtain d where d: "valid_date d" "p = period_of d" "period_of d \<noteq> period_of t" by (rule following_month [OF np t])
  note cov = covered_elevators_ok [OF ok]
  from plan_period_ok [OF one ok cov t refl] have o1: "shop_ok s1" "same_estate s s1" "month_settled e (period_of t) ?cov s1" by blast+
  have cov1: "el \<in> set (elevators s1) \<and> visible (ctx e) el" if "el \<in> set ?cov" for el
    using cov(2) [OF that] o1(2) by (simp add: same_estate_def)
  from plan_period_ok [OF two o1(1) cov(1) cov1 d(1,2)] have o2: "shop_ok s2" "same_estate s1 s2"
    "only_rows ((\<lambda>k. (k, p)) ` UNIV) s1 s2" "month_settled e p ?cov s2" by blast+
  have first: "month_settled e (period_of t) ?cov s2"
    by (rule month_settled_keeps [OF o1(3) o2(2,3)]) (use d in auto)
  have n: "noted s2 s'" by (rule announce_assignments_noted [OF an])
  then have last: "same_estate s2 s'" "only_rows {} s2 s'" using noted_estate [OF n] by (simp_all add: only_rows_def)
  have "shop_ok s'" using shop_ok_beside [OF noted_beside_record [OF n] o2(1)] .
  moreover have "month_settled e (period_of t) ?cov s'" "month_settled e p ?cov s'"
    using month_settled_keeps [OF _ last] first o2(4) by blast+
  ultimately show ?thesis using np same_estate_trans o1(2) o2(2) last(1) by blast
qed

text \<open>A second run the same day finds every row in place and changes nothing.\<close>

lemma generate_plan_again:
  assumes run: "generate_plan e t s = Inr (r, s')" and ok: "shop_ok s" and t: "valid_date t" and ctx: "ctx e' = ctx e"
  shows "generate_plan e' t s' = Inr (fresh_run, s')"
proof -
  from generate_plan_settles [OF run ok t] obtain p where o: "shop_ok s'" "same_estate s s'"
    "month_settled e (period_of t) (covered_elevators e s) s'" "next_period (period_of t) = Inr p"
    "month_settled e p (covered_elevators e s) s'" by blast
  have cov: "covered_elevators e' s' = covered_elevators e s"
    using same_estate_reads(1) [OF o(2)] by (simp add: covered_elevators_def ctx)
  show ?thesis
    using month_quiet [OF o(3,1) ctx, of fresh_run] month_quiet [OF o(5,1) ctx, of fresh_run]
    by (simp add: generate_plan_def o(4) cov announce_assignments_def fresh_run_def)
qed

text \<open>Each covered lift has exactly one live row in each of the two months.\<close>

lemma settled_one_row:
  assumes "month_settled e p cov s" "shop_ok s" "el \<in> set cov"
  shows "\<exists>!r. r \<in> set (plan s) \<and> visible (ctx e) r \<and> pv_elevator r = pk el \<and> pv_period r = p"
proof -
  from assms(1,3) obtain r where r: "r \<in> set (plan s)" "visible (ctx e) r" "pv_elevator r = pk el" "pv_period r = p"
    by (auto simp: month_settled_def lift_settled_def)
  moreover have "x = r" if "x \<in> set (plan s)" "visible (ctx e) x" "pv_elevator x = pk el" "pv_period x = p" for x
  proof -
    have "plan_clash x r" using that r visible_not_deleted by (auto simp: plan_clash_def)
    then show ?thesis
      using shop_okD(4) [OF assms(2) that(1) r(1)] distinct_map_unique [OF shop_okD(3) [OF assms(2)] that(1) r(1)] by blast
  qed
  ultimately show ?thesis by blast
qed

end
