(* ===== verification/Fault_Promises.thy ===== *)
theory Fault_Promises
  imports Fault_Laws
begin

text \<open>
  What the fault services promise their callers: which transitions are refused, that repeated
  public reports of one lift converge on one fault, and that a public reporter is forgotten.
\<close>

section \<open>Transitions\<close>

text \<open>The row a lock reads can be saved in the same context.\<close>

lemma save_fault_returns:
  "by_pk k (objects (ctx e) (faults s)) = Some f \<Longrightarrow> \<exists>s'. save_fault e g f s = Inr ((g f)\<lparr>updated_at := now e\<rparr>, s')"
  by (drule by_pk_SomeD) (auto simp: set_objects save_fault_def save_fields_def dest: visible_may_save)

lemma arrive_outcome:
  assumes "by_pk k (objects (ctx e) (faults s)) = Some f"
  shows "if fl_status f = F_assigned
    then \<exists>f' s'. arrive e k by s = Inr (f', s') \<and> fl_status f' = F_on_site \<and> fl_on_site_at f' = Some (now e)
    else arrive e k by s = Inl refuse_fault"
  using save_fault_returns [OF assms, of "\<lambda>x. x\<lparr>fl_status := F_on_site, fl_on_site_at := Some (now e), updated_by := by\<rparr>"]
  by (auto simp: arrive_def locked_fault_def get_row_def assms)

lemma close_outcome:
  assumes "by_pk k (objects (ctx e) (faults s)) = Some f"
  shows "if fl_status f = F_resolved
    then \<exists>f' s'. close_fault e k by s = Inr (f', s') \<and> fl_status f' = F_closed \<and> fl_closed_at f' = Some (now e)
    else close_fault e k by s = Inl refuse_fault"
  using save_fault_returns [OF assms, of "\<lambda>x. x\<lparr>fl_status := F_closed, fl_closed_at := Some (now e), updated_by := by\<rparr>"]
  by (auto simp: close_fault_def locked_fault_def get_row_def assms)

lemma cancel_outcome:
  assumes "by_pk k (objects (ctx e) (faults s)) = Some f"
  shows "if fl_status f \<in> {F_open, F_assigned, F_on_site}
    then \<exists>f' s'. cancel_fault e k reason by s = Inr (f', s') \<and> fl_status f' = F_cancelled \<and> fl_cancel_reason f' = reason
    else cancel_fault e k reason by s = Inl refuse_fault"
  using save_fault_returns [OF assms, of "\<lambda>x. x\<lparr>fl_status := F_cancelled, fl_cancelled_at := Some (now e),
      fl_cancel_reason := reason, updated_by := by\<rparr>"]
  by (auto simp: cancel_fault_def locked_fault_def get_row_def assms CANCELLABLE_def)

lemma refused_before_resolving:
  "by_pk k (objects (ctx e) (faults s)) = Some f \<Longrightarrow> fl_status f \<noteq> F_on_site \<Longrightarrow>
    resolve e w k by notes parts restore s = Inl refuse_fault"
  by (simp add: resolve_def locked_fault_def get_row_def)

lemma refused_once_finished:
  "by_pk k (objects (ctx e) (faults s)) = Some f \<Longrightarrow> fl_status f \<in> {F_on_site, F_resolved, F_closed, F_cancelled} \<Longrightarrow>
    assign e w k u by s = Inl refuse_fault"
  by (auto simp: assign_def locked_fault_def get_row_def)

section \<open>Finished faults\<close>

lemma moves_finished:
  "moves t f f' \<Longrightarrow> fl_status f \<in> {F_closed, F_cancelled} \<Longrightarrow> fl_status f' = fl_status f"
  by (drule moves_status) auto

lemma table_step_finished:
  assumes "table_step t fs fs'" "f \<in> set fs" "fl_status f \<in> {F_closed, F_cancelled}"
  shows "\<exists>f' \<in> set fs'. pk f' = pk f \<and> fl_status f' = fl_status f"
  using assms(1)
proof cases
  case moved
  from assms(2) obtain i where i: "i < length fs" "fs ! i = f" by (auto simp: in_set_conv_nth)
  have "fs' ! i \<in> set fs'" using list_all2_lengthD [OF moved] i(1) by simp
  moreover have "fs' ! i = f \<or> moves t f (fs' ! i) \<and> pk (fs' ! i) = pk f"
    using list_all2_nthD [OF moved i(1)] i(2) by auto
  ultimately obtain f' where "f' \<in> set fs'" "f' = f \<or> moves t f f' \<and> pk f' = pk f" by blast
  with moves_finished assms(3) show ?thesis by metis
qed (use assms in auto)

lemma history_finished:
  assumes "fault_history t0 s0 t s" "board_ok t0 s0" "f \<in> set (faults s0)" "fl_status f \<in> {F_closed, F_cancelled}"
  shows "\<exists>f' \<in> set (faults s). pk f' = pk f \<and> fl_status f' = fl_status f"
  using assms(1)
proof (induction rule: fault_history.induct)
  case start
  with assms(3) show ?case by blast
next
  case (serve t s e s')
  then obtain g where g: "g \<in> set (faults s)" "pk g = pk f" "fl_status g = fl_status f" by blast
  have "table_step (now e) (faults s) (faults s')"
    using service_step [OF serve.hyps(3)] history_ok [OF serve.hyps(1) assms(2)] by (auto simp: life_step_def)
  from table_step_finished [OF this g(1)] g(2,3) assms(4) show ?case by auto
qed

section \<open>One public fault at a time\<close>

definition reported_key :: "fault \<Rightarrow> instant \<times> pk" where
  "reported_key f = (fl_reported_at f, pk f)"

definition merge_candidate :: "env \<Rightarrow> pk \<Rightarrow> fault \<Rightarrow> bool" where
  "merge_candidate e k f \<longleftrightarrow> visible (ctx e) f \<and> fl_elevator f = k \<and> fl_channel f = Public_qr \<and>
    fl_status f \<in> {F_open, F_assigned} \<and> now e - PUBLIC_MERGE_WINDOW \<le> fl_reported_at f"

lemma merge_target_eq:
  "merge_target e el s = newest reported_key (filter (merge_candidate e (pk el)) (faults s))"
proof -
  have "filter (\<lambda>f. fl_elevator f = pk el \<and> fl_channel f = Public_qr \<and> fl_status f \<in> {F_open, F_assigned} \<and>
        now e - PUBLIC_MERGE_WINDOW \<le> fl_reported_at f) (objects (ctx e) (faults s)) =
      filter (merge_candidate e (pk el)) (faults s)"
    unfolding objects_def filter_filter by (rule filter_cong) (auto simp: merge_candidate_def)
  then show ?thesis
    unfolding merge_target_def find_newest by (simp add: reported_key_def [abs_def])
qed

text \<open>A report is merged into the newest candidate.\<close>

lemma merge_target_newest:
  assumes "distinct (map pk (faults s))" "f \<in> set (faults s)" "merge_candidate e (pk el) f"
    and "\<And>g. g \<in> set (faults s) \<Longrightarrow> merge_candidate e (pk el) g \<Longrightarrow> reported_key g \<le> reported_key f"
  shows "merge_target e el s = Some f"
  unfolding merge_target_eq using assms
  by (intro newest_eq) (auto simp: reported_key_def intro: distinct_map_unique)

lemma merge_target_is_newest:
  "merge_target e el s = Some f \<Longrightarrow> g \<in> set (faults s) \<Longrightarrow> merge_candidate e (pk el) g \<Longrightarrow>
    reported_key g \<le> reported_key f"
  unfolding merge_target_eq by (erule newest_max) simp

text \<open>What a public report leaves: its fault, the newest candidate of the lift.\<close>

lemma report_public_newest:
  assumes run: "report_public e w el r s = Inr (f, s')" and ok: "board_ok t s" and t: "t \<le> now e"
  shows "f \<in> set (faults s')" "fl_channel f = Public_qr" "fl_elevator f = pk el" "fl_status f \<in> {F_open, F_assigned}"
    "visible (ctx (in_firm (company_id el) e)) f" "distinct (map pk (faults s'))"
    "\<And>g. g \<in> set (faults s') \<Longrightarrow> merge_candidate (in_firm (company_id el) e) (pk el) g \<Longrightarrow>
      reported_key g \<le> reported_key f"
    "length (faults s') = length (faults s) \<or>
      length (faults s') = Suc (length (faults s)) \<and> fl_reported_at f = now e \<and> merge_target (in_firm (company_id el) e) el s = None"
    "PRIORITY_RANK (fl_priority f) \<le> PRIORITY_RANK (public_priority r)"
proof -
  let ?e = "in_firm (company_id el) e"
  have ok': "board_ok (now e) s'" by (rule life_step_ok [OF report_public_step [OF run ok] ok t])
  then show dist: "distinct (map pk (faults s'))" by (simp add: board_ok_def faults_ok_def)
  have "f \<in> set (faults s') \<and> fl_channel f = Public_qr \<and> fl_elevator f = pk el \<and> fl_status f \<in> {F_open, F_assigned} \<and>
    visible (ctx ?e) f \<and> (\<forall>g \<in> set (faults s'). merge_candidate ?e (pk el) g \<longrightarrow> reported_key g \<le> reported_key f) \<and>
    (length (faults s') = length (faults s) \<or>
     length (faults s') = Suc (length (faults s)) \<and> fl_reported_at f = now e \<and> merge_target ?e el s = None) \<and>
    PRIORITY_RANK (fl_priority f) \<le> PRIORITY_RANK (public_priority r)"
  proof (cases "merge_target ?e el s")
    case (Some g)
    with run have m: "merge_report ?e g r (public_priority r) s = Inr (f, s')" by (simp add: report_public_def Let_def)
    note g = merge_target_SomeD [OF Some]
    have gin: "g \<in> set (faults s)" using g by simp
    note st = merge_report_step [OF m ok gin]
    have f: "pk f = pk g" "company_id f = company_id g" "is_deleted f = is_deleted g" "fl_channel f = Public_qr"
      "fl_elevator f = pk el" "fl_status f = fl_status g" "fl_reported_at f = fl_reported_at g"
      unfolding st(2) using g by (simp_all add: merged_same)
    have pr: "PRIORITY_RANK (fl_priority f) \<le> PRIORITY_RANK (public_priority r)"
      unfolding st(2) by (auto simp: merged_def Let_def)
    from merge_report_rows [OF m ok gin] have rows: "faults s' = update_where (\<lambda>x. pk x = pk g) (\<lambda>_. f) (faults s)" .
    have new: "reported_key h \<le> reported_key f" if "h \<in> set (faults s')" "merge_candidate ?e (pk el) h" for h
    proof -
      from that(1) rows consider "h = f" | "h \<in> set (faults s)" by (auto simp: set_update_where split: if_splits)
      then show ?thesis
      proof cases
        case 2
        from merge_target_is_newest [OF Some 2 that(2)] show ?thesis by (simp add: reported_key_def f)
      qed simp
    qed
    have "visible (ctx ?e) f" using visible_same [OF _ f(2,3)] g by blast
    with st(3) f g new pr show ?thesis by (simp add: rows)
  next
    case None
    with run obtain s1 s2 f0 where ins: "insert_fault ?e w f0 s = Inr (f, s1)"
      and f0: "born (now ?e) f0 \<and> fl_channel f0 = Public_qr \<and> fl_elevator f0 = pk el \<and> fl_status f0 = F_open \<and>
        company_id f0 = company_id el \<and> \<not> is_deleted f0 \<and> fl_priority f0 = public_priority r"
      and rest: "stop_if (rp_elevator_stopped r) ?e el s1 = Inr s2" "announce_report ?e f s2 = Inr s'"
      unfolding report_public_def Let_def None option.case
      by (elim run_elims) (hypsubst, rule that, assumption, simp add: born_def blank_fault_def, assumption+)
    have same: "faults s' = faults s1" using rest stop_if_faults announce_report_faults
      by (fastforce simp: beside_faults_def)
    from insert_attempts_Inr [OF ins [unfolded insert_fault_def]] obtain q where
      q: "f = stamped ?e (next_pk s) (f0\<lparr>fl_reference := q\<rparr>)" "faults s1 = faults s @ [f]" by blast
    have f: "fl_channel f = Public_qr" "fl_elevator f = pk el" "fl_status f = F_open" "fl_reported_at f = now e"
      "fl_priority f = public_priority r" "company_id f = company_id el" "\<not> is_deleted f" "pk f = next_pk s"
      using f0 by (simp_all add: q(1) stamped_def born_def)
    have "may_save (ctx ?e) f" using ins by (auto simp: in_firm_def company_context_def may_save_def f)
    moreover have "visible (ctx ?e) f"
      using f by (simp add: visible_def in_firm_def company_context_def)
    moreover have "reported_key h \<le> reported_key f" if h: "h \<in> set (faults s')" for h
    proof -
      have "h = f \<or> h \<in> set (faults s)" using h by (auto simp: same q(2))
      then show ?thesis
      proof
        assume h: "h \<in> set (faults s)"
        then have "life_ok t h" "pk h < next_pk s" using ok by (auto simp: board_ok_def faults_ok_def)
        then show ?thesis using t life_ok_reported [of t h] by (simp add: reported_key_def f less_eq_prod_def)
      qed simp
    qed
    ultimately show ?thesis using f None by (simp add: same q(2))
  qed
  then show "f \<in> set (faults s')" "fl_channel f = Public_qr" "fl_elevator f = pk el" "fl_status f \<in> {F_open, F_assigned}"
    "visible (ctx ?e) f"
    "\<And>g. g \<in> set (faults s') \<Longrightarrow> merge_candidate ?e (pk el) g \<Longrightarrow> reported_key g \<le> reported_key f"
    "length (faults s') = length (faults s) \<or>
      length (faults s') = Suc (length (faults s)) \<and> fl_reported_at f = now e \<and> merge_target ?e el s = None"
    "PRIORITY_RANK (fl_priority f) \<le> PRIORITY_RANK (public_priority r)"
    by blast+
qed

text \<open>A second report within the window joins the fault of the first.\<close>

lemma second_report_joins:
  assumes "report_public e w el r s = Inr (f, s1)" "board_ok t s" "t \<le> now e"
    and "report_public e' w' el r' s1 = Inr (f', s2)" "now e \<le> now e'" "ctx e' = ctx e"
    and "now e' - PUBLIC_MERGE_WINDOW \<le> fl_reported_at f"
  shows "pk f' = pk f \<and> fl_reference f' = fl_reference f \<and> length (faults s2) = length (faults s1) \<and>
    PRIORITY_RANK (fl_priority f') \<le> PRIORITY_RANK (fl_priority f) \<and>
    length (fl_additional_reports f') = Suc (length (fl_additional_reports f))"
proof -
  let ?e = "in_firm (company_id el) e'"
  note one = report_public_newest [OF assms(1-3)]
  have "ctx ?e = ctx (in_firm (company_id el) e)" using assms(6) by (simp add: in_firm_def)
  then have "merge_candidate (in_firm (company_id el) e) (pk el) g" if "merge_candidate ?e (pk el) g" for g
    using that assms(5) by (simp add: merge_candidate_def)
  moreover have "merge_candidate ?e (pk el) f"
    using one(2-5) assms(7) \<open>ctx ?e = _\<close> by (simp add: merge_candidate_def)
  ultimately have "merge_target ?e el s1 = Some f"
    using one(7) by (intro merge_target_newest [OF one(6) one(1)]) blast+
  with assms(4) have m: "merge_report ?e f r' (public_priority r') s1 = Inr (f', s2)"
    by (simp add: report_public_def Let_def)
  have ok1: "board_ok (now e) s1" by (rule life_step_ok [OF report_public_step [OF assms(1,2)] assms(2,3)])
  note st = merge_report_step [OF m ok1 one(1)]
  have "length (faults s2) = length (faults s1)" by (simp add: merge_report_rows [OF m ok1 one(1)])
  then show ?thesis unfolding st(2) by (auto simp: merged_def Let_def)
qed

section \<open>Forgetting\<close>

lemma forgotten_not_forgettable:
  "forgettable e (f\<lparr>fl_reporter_name := [], fl_reporter_phone := [], updated_at := t\<rparr>) = False"
  by (simp add: forgettable_def)

lemma purge_forgets_all:
  "purge_public_reporter_data e s = (n, s') \<Longrightarrow>
    filter (forgettable (e\<lparr>ctx := system_context (ctx e)\<rparr>)) (faults s') = [] \<and>
    purge_public_reporter_data e s' = (0, s')"
proof -
  let ?e = "e\<lparr>ctx := system_context (ctx e)\<rparr>"
  assume run: "purge_public_reporter_data e s = (n, s')"
  then have none: "filter (forgettable ?e) (faults s') = []"
    by (auto simp: purge_public_reporter_data_def forget_public_reporters_def filter_empty_conv set_update_where
        forgotten_not_forgettable)
  then have "update_where (forgettable ?e) g (faults s') = faults s'" for g
    by (intro update_where_none) (auto simp: filter_empty_conv)
  with none show ?thesis by (simp add: purge_public_reporter_data_def forget_public_reporters_def)
qed

section \<open>References\<close>

lemma new_reference_shape:
  "length (new_reference draw) = 6" "set (new_reference draw) \<subseteq> set REFERENCE_ALPHABET"
proof -
  show "length (new_reference draw) = 6" by (simp add: new_reference_def REFERENCE_LENGTH_def)
  have "draw i mod length REFERENCE_ALPHABET < length REFERENCE_ALPHABET" for i
    by (simp add: REFERENCE_ALPHABET_def)
  then show "set (new_reference draw) \<subseteq> set REFERENCE_ALPHABET"
    unfolding new_reference_def by (auto simp del: length_greater_0_conv intro: nth_mem)
qed

end
