(* ===== verification/Statement.thy ===== *)
theory Statement
  imports Movement_Laws
begin

text \<open>
  \<open>apps/ledger/statement.py\<close>: an account's movements in a range of days, each with the
  running balance after it, under the balance carried in.
\<close>

record statement_row =
  sr_date :: date
  sr_description :: string
  sr_debit :: rat
  sr_credit :: rat
  sr_balance :: rat
  sr_document_type :: string
  sr_document_id :: "pk option"
  sr_is_reversal :: bool
  sr_movement_id :: pk

record statement =
  st_account :: account
  st_start :: "date option"
  st_end :: "date option"
  st_opening :: rat
  st_rows :: "statement_row list"
  st_closing :: rat

definition total_debit :: "statement \<Rightarrow> rat" where
  "total_debit st = sum_list (map sr_debit (st_rows st))"

definition total_credit :: "statement \<Rightarrow> rat" where
  "total_credit st = sum_list (map sr_credit (st_rows st))"

text \<open>The loop: the rows, and the balance after the last of them.\<close>

fun rows_from :: "rat \<Rightarrow> movement list \<Rightarrow> statement_row list \<times> rat" where
  "rows_from balance [] = ([], balance)"
| "rows_from balance (m # ms) =
    (let amount = quantize_zero (mv_amount m);
         debit = (if mv_direction m = Some Debit then amount else 0);
         credit = (if mv_direction m = Some Credit then amount else 0);
         after = balance + debit - credit;
         row = \<lparr>sr_date = mv_date m, sr_description = mv_description m, sr_debit = debit,
           sr_credit = credit, sr_balance = after, sr_document_type = mv_document_type m,
           sr_document_id = mv_document_id m, sr_is_reversal = (mv_reverses m \<noteq> None),
           sr_movement_id = pk m\<rparr>;
         (rows, closing) = rows_from after ms
     in (row # rows, closing))"

definition in_range :: "date option \<Rightarrow> date option \<Rightarrow> movement \<Rightarrow> bool" where
  "in_range start stop m \<longleftrightarrow> (case start of None \<Rightarrow> True | Some d \<Rightarrow> d \<le> mv_date m) \<and>
    (case stop of None \<Rightarrow> True | Some d \<Rightarrow> mv_date m \<le> d)"

definition statement_rows ::
  "env \<Rightarrow> account \<Rightarrow> date option \<Rightarrow> date option \<Rightarrow> 'a books_scheme \<Rightarrow> statement" where
  "statement_rows e a start stop s =
    (let opening1 = (case start of Some d \<Rightarrow> account_balance_before e a d s | None \<Rightarrow> 0);
         ms = sort_key (\<lambda>m. (mv_date m, created_at m, pk m))
           (filter (\<lambda>m. mv_account m = Some (pk a) \<and> in_range start stop m)
             (objects (ctx e) (movements s)));
         (rows, closing) = rows_from opening1 ms
     in \<lparr>st_account = a, st_start = start, st_end = stop, st_opening = opening1, st_rows = rows,
         st_closing = closing\<rparr>)"

section \<open>What a statement shows\<close>

lemma rows_from_closing:
  "\<forall>m \<in> set ms. cents (mv_amount m) \<Longrightarrow>
    snd (rows_from b ms) = b + sum_list (map signed_amount ms)"
proof (induction ms arbitrary: b)
  case Nil
  then show ?case by simp
next
  case (Cons m ms)
  have "b + (if mv_direction m = Some Debit then mv_amount m else 0) -
      (if mv_direction m = Some Credit then mv_amount m else 0) = b + signed_amount m"
    by (simp add: signed_amount_def split: option.split direction.split)
  with Cons show ?case
    by (simp add: Let_def split_beta)
qed

text \<open>Each row's balance is the one before it plus its debit less its credit.\<close>

fun chained :: "rat \<Rightarrow> statement_row list \<Rightarrow> bool" where
  "chained b [] \<longleftrightarrow> True"
| "chained b (r # rs) \<longleftrightarrow> sr_balance r = b + sr_debit r - sr_credit r \<and> chained (sr_balance r) rs"

lemma rows_from_chained: "chained b (fst (rows_from b ms))"
  by (induction ms arbitrary: b) (simp_all add: Let_def split_beta)

lemma rows_from_closing_totals:
  "snd (rows_from b ms) =
    b + sum_list (map sr_debit (fst (rows_from b ms))) - sum_list (map sr_credit (fst (rows_from b ms)))"
  by (induction ms arbitrary: b) (simp_all add: Let_def split_beta)

lemma rows_from_ids: "map sr_movement_id (fst (rows_from b ms)) = map pk ms"
  by (induction ms arbitrary: b) (simp_all add: Let_def split_beta)

lemma rows_from_dates: "map sr_date (fst (rows_from b ms)) = map mv_date ms"
  by (induction ms arbitrary: b) (simp_all add: Let_def split_beta)

text \<open>The opening and the rows are the account's movements up to the end of the range.\<close>

lemma statement_sum:
  assumes "movements_ok s"
  shows "st_closing (statement_rows e a start stop s) = st_opening (statement_rows e a start stop s) +
    account_total (pk a) (filter (in_range start stop) (objects (ctx e) (movements s)))"
  using movements_okD(5) [OF assms]
  by (simp add: statement_rows_def Let_def split_beta rows_from_closing set_objects sum_list_map_sort
      account_total_def conj_commute)

lemma statement_closing:
  assumes ok: "movements_ok s" and order: "\<And>d t. start = Some d \<Longrightarrow> stop = Some t \<Longrightarrow> d \<le> t"
  shows "st_closing (statement_rows e a start stop s) =
    account_total (pk a) (filter (in_range None stop) (objects (ctx e) (movements s)))"
proof (cases start)
  case None
  then show ?thesis
    by (simp add: statement_sum [OF ok]) (simp add: statement_rows_def Let_def split_beta)
next
  case (Some d)
  have cents: "\<forall>m \<in> set (movements s). cents (mv_amount m)" using movements_okD(5) [OF ok] by blast
  have o: "st_opening (statement_rows e a start stop s) =
      account_total (pk a) (filter (\<lambda>m. mv_date m < d) (objects (ctx e) (movements s)))"
    using account_balance_eq(2) [OF cents] by (simp add: statement_rows_def Let_def split_beta Some)
  have "account_total k (filter (\<lambda>m. mv_date m < d) ms) + account_total k (filter (in_range start stop) ms) =
      account_total k (filter (in_range None stop) ms)" for k ms
    using order [OF Some]
    by (induction ms) (auto simp: in_range_def Some split: option.split)
  then show ?thesis by (simp only: statement_sum [OF ok] o)
qed

text \<open>Without bounds the closing balance is the account's balance.\<close>

lemma statement_closing_unbounded:
  assumes "movements_ok s"
  shows "st_closing (statement_rows e a None None s) = account_balance e a s"
proof -
  have "filter (in_range None None) ms = ms" for ms
    by (induction ms) (simp_all add: in_range_def)
  with statement_closing [OF assms, of None None e a] show ?thesis
    using account_balance_eq(1) [of s e a] movements_okD(5) [OF assms] by simp
qed

text \<open>Two statements that meet: the second opens where the first closes.\<close>

lemma statements_compose:
  assumes ok: "movements_ok s" and meet: "\<And>x. x < d \<longleftrightarrow> x \<le> stop"
  shows "st_opening (statement_rows e a (Some d) until s) =
    st_closing (statement_rows e a None (Some stop) s)"
proof -
  have cents: "\<forall>m \<in> set (movements s). cents (mv_amount m)" using movements_okD(5) [OF ok] by blast
  have "filter (in_range None (Some stop)) ms = filter (\<lambda>m. mv_date m < d) ms" for ms
    by (induction ms) (simp_all add: in_range_def meet)
  with statement_closing [OF ok, of None "Some stop" e a] account_balance_eq(2) [OF cents]
  show ?thesis by (simp add: statement_rows_def Let_def split_beta)
qed

end
