(* ===== verification/Finance.thy ===== *)
theory Finance
  imports Movement_Laws
begin

text \<open>
  \<open>apps/ledger/finance.py\<close>: what the firm is owed, what it owes, and where its money is,
  per currency, over a window of days.
\<close>

section \<open>The window\<close>

text \<open>\<open>date.weekday()\<close>: Monday is 0; 1 January of year 1 was a Monday.\<close>

definition weekday :: "date \<Rightarrow> int" where
  "weekday d = (ordinal d + 6) mod 7"

definition period_range :: "string \<Rightarrow> date \<Rightarrow> (date \<times> date) result" where
  "period_range period dt =
    (if period = ''today'' then Inr (dt, dt)
     else if period = ''yesterday''
     then bind_res (the_res (add_days dt (-1)) (Crash Overflow_error)) (\<lambda>y. Inr (y, y))
     else if period = ''week''
     then bind_res (the_res (add_days dt (- weekday dt)) (Crash Overflow_error)) (\<lambda>m. Inr (m, dt))
     else if period = ''month'' then Inr (Date (year dt) (month dt) 1, dt)
     else Inl (Crash Value_error))"

section \<open>What is owed (balance_totals)\<close>

record balance_summary =
  bs_receivables :: rat
  bs_payables :: rat
  bs_net :: rat

definition balance_totals :: "(account \<times> rat) list \<Rightarrow> balance_summary" where
  "balance_totals accs =
    (let receivables = quantize_zero (sum_list (map snd (filter (\<lambda>(a, b). 0 < b) accs)));
         payables = quantize_zero (- sum_list (map snd (filter (\<lambda>(a, b). b < 0) accs)))
     in \<lparr>bs_receivables = receivables, bs_payables = payables, bs_net = receivables - payables\<rparr>)"

section \<open>Cash flows\<close>

definition internal :: "movement_source \<Rightarrow> bool" where
  "internal src \<longleftrightarrow> src \<in> {Transfer_src, Opening_src}"

text \<open>The movement a movement reverses, and the one that reverses it.\<close>

definition reversed_movement :: "'a books_scheme \<Rightarrow> movement \<Rightarrow> movement option" where
  "reversed_movement s m =
    (case mv_reverses m of None \<Rightarrow> None | Some k \<Rightarrow> by_pk k (movements s))"

definition reversing_movement :: "'a books_scheme \<Rightarrow> movement \<Rightarrow> movement option" where
  "reversing_movement s m = List.find (\<lambda>r. mv_reverses r = Some (pk m)) (movements s)"

definition dated_in :: "date \<Rightarrow> date \<Rightarrow> movement option \<Rightarrow> bool" where
  "dated_in start stop m = (case m of None \<Rightarrow> False | Some x \<Rightarrow> start \<le> mv_date x \<and> mv_date x \<le> stop)"

definition flows :: "env \<Rightarrow> date \<Rightarrow> date \<Rightarrow> 'a books_scheme \<Rightarrow> movement list" where
  "flows e start stop s =
    filter (\<lambda>m. mv_cash m \<noteq> None \<and> start \<le> mv_date m \<and> mv_date m \<le> stop \<and>
      \<not> internal (mv_source m) \<and>
      \<not> (case reversed_movement s m of None \<Rightarrow> False | Some o1 \<Rightarrow> internal (mv_source o1)) \<and>
      \<not> dated_in start stop (reversing_movement s m) \<and>
      \<not> dated_in start stop (reversed_movement s m))
    (objects (ctx e) (movements s))"

record cash_line =
  cl_cash_account :: cash_account
  cl_balance :: rat
  cl_money_in :: rat
  cl_money_out :: rat

record currency_summary =
  cs_currency :: string
  cs_receivables :: rat
  cs_payables :: rat
  cs_cash_accounts :: "cash_line list"
  cs_money_in :: rat
  cs_money_out :: rat

record finance_summary =
  fs_period :: string
  fs_from :: date
  fs_to :: date
  fs_currencies :: "currency_summary list"

text \<open>The two sums of a till over the flows.\<close>

definition flow_in :: "pk \<Rightarrow> movement list \<Rightarrow> rat" where
  "flow_in k ms = quantize_zero (sum_list (map mv_amount
    (filter (\<lambda>m. mv_cash m = Some k \<and> mv_cash_direction m = Some In) ms)))"

definition flow_out :: "pk \<Rightarrow> movement list \<Rightarrow> rat" where
  "flow_out k ms = quantize_zero (sum_list (map mv_amount
    (filter (\<lambda>m. mv_cash m = Some k \<and> mv_cash_direction m = Some Out) ms)))"

definition cash_lines :: "env \<Rightarrow> date \<Rightarrow> date \<Rightarrow> 'a books_scheme \<Rightarrow> cash_line list" where
  "cash_lines e start stop s =
    (let fl = flows e start stop s;
         moved = filter (\<lambda>m. mv_cash m \<noteq> None \<and> start \<le> mv_date m \<and> mv_date m \<le> stop)
           (objects (ctx e) (movements s));
         tills = sort_key (\<lambda>(c, b). (cash_name c, pk c))
           (with_cash_balance e (objects (ctx e) (cash_accounts s)) s)
     in map (\<lambda>(c, b). \<lparr>cl_cash_account = c, cl_balance = quantize_zero b,
             cl_money_in = flow_in (pk c) fl, cl_money_out = flow_out (pk c) fl\<rparr>)
          (filter (\<lambda>(c, b). cash_is_active c \<or> quantize_zero b \<noteq> 0 \<or>
             list_ex (\<lambda>m. mv_cash m = Some (pk c)) moved \<or>
             list_ex (\<lambda>m. mv_cash m = Some (pk c)) fl) tills))"

definition finance_currencies :: "env \<Rightarrow> date \<Rightarrow> date \<Rightarrow> 'a books_scheme \<Rightarrow> currency_summary list" where
  "finance_currencies e start stop s =
    (let lines = cash_lines e start stop s;
         accs = with_balance e (objects (ctx e) (accounts s)) s
     in map (\<lambda>currency.
          let mine = filter (\<lambda>l. cash_currency (cl_cash_account l) = currency) lines;
              owed = balance_totals (filter (\<lambda>(a, b). acc_currency a = currency) accs)
          in \<lparr>cs_currency = currency, cs_receivables = quantize_zero (bs_receivables owed),
              cs_payables = quantize_zero (bs_payables owed), cs_cash_accounts = mine,
              cs_money_in = quantize_zero (sum_list (map cl_money_in mine)),
              cs_money_out = quantize_zero (sum_list (map cl_money_out mine))\<rparr>)
        (sort (remdups (map (\<lambda>l. cash_currency (cl_cash_account l)) lines @
          map (\<lambda>(a, b). acc_currency a) accs))))"

definition summary :: "env \<Rightarrow> string \<Rightarrow> date \<Rightarrow> 'a books_scheme \<Rightarrow> finance_summary result" where
  "summary e period dt s =
    bind_res (period_range period dt) (\<lambda>(start, stop).
    Inr \<lparr>fs_period = period, fs_from = start, fs_to = stop,
         fs_currencies = finance_currencies e start stop s\<rparr>)"

section \<open>Laws\<close>

text \<open>Receivables less payables is the sum of the balances: nobody is left out or counted twice.\<close>

lemma balance_totals_net:
  assumes "\<forall>(a, b) \<in> set accs. cents b"
  shows "bs_net (balance_totals accs) = sum_list (map snd accs)"
    and "0 \<le> bs_receivables (balance_totals accs)" and "0 \<le> bs_payables (balance_totals accs)"
proof -
  let ?pos = "sum_list (map snd (filter (\<lambda>(a, b). 0 < b) accs))"
  let ?neg = "sum_list (map snd (filter (\<lambda>(a, b). b < 0) accs))"
  have c: "cents ?pos" "cents ?neg" using assms by (fastforce intro!: cents_sum_list)+
  have "?pos + ?neg = sum_list (map snd accs)"
    by (induction accs) (auto split: prod.splits)
  with c show "bs_net (balance_totals accs) = sum_list (map snd accs)"
    by (simp add: balance_totals_def Let_def)
  have "0 \<le> ?pos" by (rule sum_list_nonneg) auto
  moreover have "?neg \<le> 0" by (rule sum_list_nonpos) auto
  ultimately show "0 \<le> bs_receivables (balance_totals accs)" "0 \<le> bs_payables (balance_totals accs)"
    using c by (simp_all add: balance_totals_def Let_def)
qed

lemma weekday_range: "0 \<le> weekday d \<and> weekday d \<le> 6"
  by (simp add: weekday_def)

text \<open>Every window ends today or earlier, and starts no later than it ends.\<close>

lemma period_range_Inr:
  assumes "period_range period dt = Inr (a, b)" "valid_date dt"
  shows "valid_date a \<and> valid_date b \<and> a \<le> b \<and> b \<le> dt"
proof -
  consider "period = ''today''" | "period = ''yesterday''" | "period = ''week''" | "period = ''month''"
    | "period \<noteq> ''today''" "period \<noteq> ''yesterday''" "period \<noteq> ''week''" "period \<noteq> ''month''"
    by blast
  then show ?thesis
  proof cases
    case 1
    with assms(1) have "dt = a" "dt = b" by (auto simp: period_range_def)
    with assms(2) show ?thesis by simp
  next
    case 2
    with assms(1) have d: "add_days dt (-1) = Some a" "b = a"
      by (auto simp: period_range_def bind_res_Inr_iff the_res_Inr_iff)
    from add_days_Some [OF d(1)] assms(2) d(2) ordinal_le_iff [of a dt] show ?thesis by simp
  next
    case 3
    with assms(1) have d: "add_days dt (- weekday dt) = Some a \<and> dt = b"
      by (auto simp: period_range_def bind_res_Inr_iff the_res_Inr_iff)
    from add_days_Some [OF conjunct1 [OF d]] assms(2) conjunct2 [OF d] ordinal_le_iff [of a b] weekday_range [of dt]
    show ?thesis by simp
  next
    case 4
    with assms(1) have d: "Date (year dt) (month dt) 1 = a \<and> dt = b"
      by (auto simp: period_range_def)
    obtain y m k where dt: "dt = Date y m k" by (cases dt)
    with assms(2) d days_in_month_ge [of y m] show ?thesis by (auto simp: valid_date_def)
  next
    case 5
    with assms(1) show ?thesis by (simp add: period_range_def)
  qed
qed

text \<open>A document made and cancelled inside the window shows in neither sum.\<close>

lemma cancelled_in_window_no_flow:
  assumes ok: "movements_ok s" and m: "m \<in> set (movements s)" and r: "r \<in> set (movements s)"
    and rev: "mv_reverses r = Some (pk m)"
    and dates: "start \<le> mv_date m" "mv_date m \<le> stop" "start \<le> mv_date r" "mv_date r \<le> stop"
  shows "m \<notin> set (flows e start stop s)" and "r \<notin> set (flows e start stop s)"
proof -
  have "\<exists>x. reversing_movement s m = Some x"
    using r rev by (cases "reversing_movement s m") (auto simp: reversing_movement_def find_None_iff')
  then obtain x where x: "reversing_movement s m = Some x" ..
  then have "x \<in> set (movements s) \<and> mv_reverses x = Some (pk m)"
    unfolding reversing_movement_def by (rule find_Some_iff)
  with r rev movements_okD(8) [OF ok] have "x = r"
    by (auto simp: all_unique_def movements_clash_def)
  with x dates show "m \<notin> set (flows e start stop s)" by (simp add: flows_def dated_in_def)
  have "by_pk (pk m) (movements s) = Some m"
    using by_pk_unique [OF movements_okD(1) [OF ok] m] .
  with rev dates show "r \<notin> set (flows e start stop s)"
    by (simp add: flows_def dated_in_def reversed_movement_def)
qed

text \<open>Transfers between tills and opening balances never show as money in or out.\<close>

lemma internal_no_flow: "m \<in> set (flows e start stop s) \<Longrightarrow> \<not> internal (mv_source m)"
  by (simp add: flows_def)

end
