(* ===== verification/Example_Firm.thy ===== *)
theory Example_Firm
  imports Contract_Laws Collection_Laws Statement Finance
begin

text \<open>
  A small firm: one customer, their account, a till, a bank account, an issued invoice, a
  contract with one elevator under it. Its books satisfy the invariants of the components;
  the theorems of the development are applied to it.
\<close>

definition e0 :: env where
  "e0 = \<lparr>ctx = \<lparr>current_company = Some 1, system_mode = False\<rparr>, now = 1000,
    today = Date 2026 10 23, utc_today = Date 2026 10 23\<rparr>"

definition company0 :: company where
  "company0 = \<lparr>co_pk = 1, co_is_deleted = False, co_updated_at = 0, co_updated_by = None,
    co_is_active = True, ledger_closed_through = Some (Date 2026 8 31)\<rparr>"

definition customer0 :: customer where
  "customer0 = \<lparr>pk = 2, company_id = 1, created_at = 0, updated_at = 0, created_by = None,
    updated_by = None, is_deleted = False, deleted_at = None, cust_legal_name = ''A''\<rparr>"

definition account0 :: account where
  "account0 = blank_account\<lparr>pk := 3, company_id := 1, acc_customer := Some 2, acc_name := ''A''\<rparr>"

definition till0 :: cash_account where
  "till0 = blank_cash_account\<lparr>pk := 4, company_id := 1, cash_role := Some Default_till, cash_name := ''M''\<rparr>"

definition bank0 :: cash_account where
  "bank0 = blank_cash_account\<lparr>pk := 5, company_id := 1, cash_kind := Bank_account, cash_name := ''B''\<rparr>"

definition supplier_account0 :: account where
  "supplier_account0 = blank_account\<lparr>pk := 6, company_id := 1, acc_kind := Supplier_account,
    acc_supplier := Some 7, acc_name := ''S''\<rparr>"

definition invoice0 :: invoice where
  "invoice0 = \<lparr>pk = 10, company_id = 1, created_at = 0, updated_at = 0, created_by = None,
    updated_by = None, is_deleted = False, deleted_at = None, inv_contract = 11, inv_customer = 2,
    inv_period_start = Date 2026 9 1, inv_period_end = Date 2026 9 30, inv_status = Issued,
    inv_currency = DEFAULT_CURRENCY, inv_vat_rate = 20, inv_subtotal = 100, inv_vat_amount = 20,
    inv_total = 120, inv_number = ''F1'', inv_date = Some (Date 2026 10 1), inv_paid_on = None,
    inv_cancelled_at = None, inv_cancel_reason = [], inv_notes = []\<rparr>"

definition invoice1 :: invoice where
  "invoice1 = invoice0\<lparr>pk := 16, inv_period_start := Date 2026 8 1, inv_period_end := Date 2026 8 31,
    inv_number := ''F2''\<rparr>"

definition contract0 :: contract where
  "contract0 = \<lparr>pk = 11, company_id = 1, created_at = 0, updated_at = 0, created_by = None,
    updated_by = None, is_deleted = False, deleted_at = None, ct_customer = 2,
    ct_number = ''2026-0001'', ct_status = C_active, ct_scope = Full_coverage,
    ct_start_date = Date 2025 10 1, ct_end_date = Date 2026 9 30, ct_pricing_type = Per_elevator,
    ct_monthly_fee = None, ct_currency = DEFAULT_CURRENCY, ct_vat_rate = Some 20,
    ct_billing_period = Monthly, ct_auto_renew = True, ct_renewal_notice_days = 30,
    ct_previous = None, ct_terminated_at = None, ct_termination_reason = []\<rparr>"

definition elevator0 :: elevator where
  "elevator0 = \<lparr>pk = 12, company_id = 1, created_at = 0, updated_at = 0, created_by = None,
    updated_by = None, is_deleted = False, deleted_at = None, el_building = 14, el_name = ''L'',
    el_registration_number = [], el_status = E_active, el_qr_token = ''q'', el_maintenance_interval_days = 30,
    el_last_inspection_date = None, el_inspection_label = None, el_next_inspection_date = None,
    el_inspection_body = [], el_inspection_report_number = [], el_last_maintenance_date = None,
    el_next_maintenance_date = None\<rparr>"

definition line0 :: contract_line where
  "line0 = blank_contract_line\<lparr>pk := 13, company_id := 1, ce_contract := 11, ce_elevator := 12,
    ce_unit_price := Some 100, ce_added_at := Date 2025 10 1\<rparr>"

definition building0 :: building where
  "building0 = \<lparr>pk = 14, company_id = 1, created_at = 0, updated_at = 0, created_by = None,
    updated_by = None, is_deleted = False, deleted_at = None, bd_customer = 2, bd_name = ''H''\<rparr>"

definition staff0 :: staff where
  "staff0 = \<lparr>pk = 15, company_id = 1, created_at = 0, updated_at = 0, created_by = None,
    updated_by = None, is_deleted = False, deleted_at = None, staff_first_name = ''O'',
    staff_last_name = ''N'', staff_email = ''o'', staff_role = Owner, staff_is_active = True\<rparr>"

definition firm0 :: estate where
  "firm0 = \<lparr>next_pk = 20, companies = [company0], customers = [customer0], suppliers = [],
    staff_users = [staff0], accounts = [account0, supplier_account0], cash_accounts = [till0, bank0],
    movements = [], counters = [], collections = [], applications = [], payments_out = [],
    manual_entries = [], transfers = [], openings = [], invoices = [invoice0, invoice1], invoice_lines = [],
    notifications = [], preferences = [], mail_queue = [], mail_suppressed = False,
    buildings = [building0], contracts = [contract0], contract_lines = [line0],
    elevators = [elevator0], faults = []\<rparr>"

definition sept :: date where "sept = Date 2026 9 20"
definition oct :: date where "oct = Date 2026 10 20"

section \<open>The firm is well formed\<close>

lemma firm0_movements_ok: "movements_ok firm0"
  by (simp add: movements_ok_def firm0_def all_unique_def)

lemma firm0_counters_ok: "counters_ok firm0"
  by (simp add: counters_ok_def firm0_def)

lemma firm0_keys: "estate_keys firm0" "contract0 \<in> set (contracts firm0)" "sees_lines e0 11 firm0"
  by (simp_all add: estate_keys_def firm0_def contract0_def line0_def sees_lines_def open_line_def
      blank_contract_line_def visible_def e0_def)

section \<open>Runs\<close>

text \<open>A run that returned, and what it returned.\<close>

definition the_run :: "exn + 'a \<Rightarrow> 'a" where
  "the_run r = projr r"

lemma the_run: "returns r \<Longrightarrow> r = Inr (the_run r)"
  by (auto simp: returns_def the_run_def)

lemma the_run_pair: "returns r \<Longrightarrow> r = Inr (fst (the_run r), snd (the_run r))"
  by (auto simp: returns_def the_run_def)

lemma returns_iff [code]: "returns r = (case r of Inl _ \<Rightarrow> False | Inr _ \<Rightarrow> True)"
  by (cases r) simp_all

text \<open>A collection of 60 into the till, 50 of it applied to the invoice.\<close>

definition collect0 :: "(collection \<times> estate) result" where
  "collect0 = record_collection e0 account0 till0 (Finite 60) ''cash'' oct [] [(invoice0, Finite 50)] None firm0"

lemma collect0_returns: "returns collect0"
  by code_simp

lemma collect0_run: "record_collection e0 account0 till0 (Finite 60) ''cash'' oct []
    [(invoice0, Finite 50)] None firm0 = Inr (fst (the_run collect0), snd (the_run collect0))"
  using the_run_pair [OF collect0_returns] by (simp only: collect0_def)

definition after_collect0 :: estate where "after_collect0 = snd (the_run collect0)"

lemma firm0_collections_ok: "collections_ok firm0"
proof -
  have "in_sync firm0 invoice0" "in_sync firm0 invoice1" by code_simp+
  then have "synced firm0" by (simp add: synced_def firm0_def)
  moreover have "apps_ok firm0" by (simp add: apps_ok_def firm0_def cents_def invoice0_def invoice1_def)
  ultimately show ?thesis
    by (simp add: collections_ok_def no_overpayment_def no_overallocation_def collected_total_def
        standing_applications_def) (simp add: firm0_def)
qed

lemma collect0_ok: "collections_ok after_collect0"
  unfolding after_collect0_def by (rule record_collection_keeps_ok [OF firm0_collections_ok collect0_run])

text \<open>Applying the other 10 of it, and cancelling it.\<close>

definition apply0 :: "(collection \<times> estate) result" where
  "apply0 = apply_collection e0 (pk (fst (the_run collect0))) [(invoice1, Finite 10)] None after_collect0"

definition cancel0 :: "(collection \<times> estate) result" where
  "cancel0 = cancel_collection e0 (\<lambda>_ u. u) (pk (fst (the_run collect0))) None after_collect0"

lemma apply0_returns: "returns apply0"
  by code_simp

lemma cancel0_returns: "returns cancel0"
  by code_simp

lemma apply0_run: "apply_collection e0 (pk (fst (the_run collect0))) [(invoice1, Finite 10)] None after_collect0 = Inr (fst (the_run apply0), snd (the_run apply0))"
  using the_run_pair [OF apply0_returns] by (simp only: apply0_def)

lemma cancel0_run: "cancel_collection e0 (\<lambda>_ u. u) (pk (fst (the_run collect0))) None after_collect0 = Inr (fst (the_run cancel0), snd (the_run cancel0))"
  using the_run_pair [OF cancel0_returns] by (simp only: cancel0_def)


text \<open>A posting to the account and the till, and its reversal.\<close>

definition doc0 :: "string \<times> pk" where
  "doc0 = (collection_type, 9)"

definition post0 :: "(movement \<times> estate) result" where
  "post0 = post e0 (Some account0) (Some till0) (Some ''credit'') (Some ''in'') (Finite 60)
    DEFAULT_CURRENCY oct ''collection'' (Some doc0) [] None firm0"

definition after_post0 :: estate where "after_post0 = snd (the_run post0)"

lemma post0_returns: "returns post0"
  by code_simp

lemma post0_run: "post e0 (Some account0) (Some till0) (Some ''credit'') (Some ''in'') (Finite 60)
    DEFAULT_CURRENCY oct ''collection'' (Some doc0) [] None firm0 = Inr (fst (the_run post0), snd (the_run post0))"
  using the_run_pair [OF post0_returns] by (simp only: post0_def)


lemma post0_ok: "movements_ok after_post0"
  unfolding after_post0_def by (rule post_keeps_ok [OF firm0_movements_ok post0_run])

lemma post0_visible: "\<forall>m \<in> set (movements after_post0). of_document doc0 m \<longrightarrow> visible (ctx e0) m"
  by code_simp

definition reverse0 :: "(movement list \<times> estate) result" where
  "reverse0 = reverse_document e0 doc0 oct None Reversal_src after_post0"

lemma reverse0_returns: "returns reverse0"
  by code_simp

lemma reverse0_run: "reverse_document e0 doc0 oct None Reversal_src after_post0 = Inr (fst (the_run reverse0), snd (the_run reverse0))"
  using the_run_pair [OF reverse0_returns] by (simp only: reverse0_def)


lemma post0_totals: "filter (\<lambda>m. \<not> of_document doc0 m) (movements after_post0) = []"
  by code_simp

text \<open>The contract, past its end, renewed.\<close>

definition expire0 :: "(expiry_outcome option \<times> estate) result" where
  "expire0 = expire e0 contract0 (Date 2026 10 23) firm0"

lemma expire0_returns: "returns expire0" "fst (the_run expire0) \<noteq> None"
  by code_simp+

lemma expire0_run: "expire e0 contract0 (Date 2026 10 23) firm0
    = Inr (Some (the (fst (the_run expire0))), snd (the_run expire0))"
  using the_run_pair [OF expire0_returns(1)] expire0_returns(2) by (simp add: expire0_def)

lemma firm0_contract: "pk contract0 = 11" "ct_auto_renew contract0" "line0 \<in> set (open_lines_of e0 11 firm0)"
  by (simp_all add: contract0_def) code_simp

lemma firm0_totals: "account_total k (movements firm0) = 0" "cash_total k (movements firm0) = 0"
  "pk account0 = 3" "pk till0 = 4"
  by (simp_all add: firm0_def account0_def till0_def blank_account_def blank_cash_account_def)

end
