(* ===== verification/Example_Billing.thy ===== *)
theory Example_Billing
  imports Billing_Laws Example_Firm
begin

text \<open>
  The small firm billed: the daily run drafts the one period nobody billed yet; a draft of an
  earlier month is edited, issued and cancelled.
\<close>

text \<open>The outside: every line reads the same, and a day is 86400 seconds from day one.\<close>

definition out0 :: outside where
  "out0 = \<lparr>render = (\<lambda>_. ''x''), midnight = (\<lambda>d. 86400 * ordinal d), date_at = (\<lambda>_. Date 2026 7 15)\<rparr>"

definition sys0 :: env where
  "sys0 = e0\<lparr>ctx := \<lparr>current_company = None, system_mode = True\<rparr>\<rparr>"

lemma firm0_billing_ok: "billing_ok firm0"
  by (simp add: billing_ok_def invoices_ok_def adds_up_def firm0_def all_unique_def invoices_clash_def
      invoice0_def invoice1_def)

definition generate0 :: "(draft_run \<times> estate) result" where
  "generate0 = generate sys0 out0 (Date 2026 10 23) firm0"

lemma generate0_made: "map inv_period_start (run_created (fst (the_run generate0))) = [Date 2026 7 1]"
    "returns generate0"
  by code_simp+

lemma generate0_run: "generate sys0 out0 (Date 2026 10 23) firm0 =
    Inr (fst (the_run generate0), snd (the_run generate0))"
  using the_run_pair [OF generate0_made(2)] by (simp only: generate0_def)

text \<open>Drafting September, which has its invoice.\<close>

definition september :: period where
  "september = \<lparr>p_start = Date 2026 9 1, p_end = Date 2026 9 30, p_nominal_end = Date 2026 9 30, p_months = 1\<rparr>"

definition again0 :: "(invoice option \<times> estate) result" where
  "again0 = draft_for sys0 out0 contract0 september firm0"

lemma again0_returns: "returns again0"
  by code_simp

lemma again0_run: "draft_for sys0 out0 contract0 september firm0 = Inr (fst (the_run again0), snd (the_run again0))"
  using the_run_pair [OF again0_returns] by (simp only: again0_def)

text \<open>A draft of June with one line of a hundred.\<close>

definition draft0 :: invoice where
  "draft0 = invoice0\<lparr>pk := 17, inv_period_start := Date 2026 6 1, inv_period_end := Date 2026 6 30,
    inv_status := Draft, inv_number := [], inv_date := None\<rparr>"

definition june_line :: invoice_line where
  "june_line = blank_line\<lparr>pk := 18, company_id := 1, ln_draft := 17, ln_kind := Fault_line, ln_fault := Some 19,
    ln_quantity := 1, ln_unit_price := Some 100, ln_amount := 100\<rparr>"

definition firm1 :: estate where
  "firm1 = firm0\<lparr>invoices := [invoice0, invoice1, draft0], invoice_lines := [june_line]\<rparr>"

lemma june_totals: "totals [100] 20 = Inr (100, 20, 120)"
proof -
  have "returns (totals [100] 20)" "the_run (totals [100] 20) = (100, 20, 120)" by code_simp+
  then show ?thesis by (metis the_run)
qed

lemma firm1_billing_ok: "billing_ok firm1"
  by (simp add: billing_ok_def invoices_ok_def adds_up_def firm1_def firm0_def all_unique_def invoices_clash_def
      lines_clash_def invoice0_def invoice1_def draft0_def june_line_def blank_line_def live_lines_def june_totals)

definition issue0 :: "(invoice \<times> estate) result" where
  "issue0 = issue e0 17 ''F3'' (Date 2026 10 2) None firm1"

lemma issue0_returns: "returns issue0"
  by code_simp

lemma issue0_run: "issue e0 17 ''F3'' (Date 2026 10 2) None firm1 = Inr (fst (the_run issue0), snd (the_run issue0))"
  using the_run_pair [OF issue0_returns] by (simp only: issue0_def)

definition discard0 :: "(invoice \<times> estate) result" where
  "discard0 = cancel_invoice e0 17 ''r'' None firm1"

lemma discard0_returns: "returns discard0"
  by code_simp

lemma discard0_run: "cancel_invoice e0 17 ''r'' None firm1 = Inr (fst (the_run discard0), snd (the_run discard0))"
  using the_run_pair [OF discard0_returns] by (simp only: discard0_def)

text \<open>The line taken off, and then edited by somebody who had read it before.\<close>

definition removed0 :: "estate result" where
  "removed0 = remove_line e0 june_line None firm1"

lemma removed0_returns: "returns removed0"
  by code_simp

lemma removed0_run: "remove_line e0 june_line None firm1 = Inr (the_run removed0)"
  using the_run [OF removed0_returns] by (simp only: removed0_def)

definition stale0 :: "(invoice_line \<times> estate) result" where
  "stale0 = edit_line e0 june_line [Set_unit_price (Some 200)] None (the_run removed0)"

lemma stale0_returns: "returns stale0"
  by code_simp

lemma stale0_run: "edit_line e0 june_line [Set_unit_price (Some 200)] None (the_run removed0) =
    Inr (fst (the_run stale0), snd (the_run stale0))"
  using the_run_pair [OF stale0_returns] by (simp only: stale0_def)

lemma june_line_in_hand: "in_hand june_line firm1" "ln_draft june_line = 17" "\<not> is_deleted june_line"
  by (simp_all add: in_hand_def firm1_def june_line_def blank_line_def)

lemma removed0_in_hand: "in_hand june_line (the_run removed0)"
  by code_simp

lemma removed0_ok: "billing_ok (the_run removed0)"
  using line_removing.keeps_ok [of firm1 "(june_line, None)" e0 "()" "the_run removed0"]
  by (simp add: firm1_billing_ok june_line_in_hand removed0_run)

end
