(* ===== verification/Example_Board.thy ===== *)
theory Example_Board
  imports Fault_Promises Example_Billing
begin

text \<open>
  The fault board of the small firm: a technician at work on one fault, and two public reports of
  the same lift within a minute.
\<close>

definition technician0 :: staff where
  "technician0 = staff0\<lparr>pk := 18, staff_first_name := ''T'', staff_email := ''t'', staff_role := Technician\<rparr>"

definition assignment0 :: assignment where
  "assignment0 = \<lparr>pk = 19, company_id = 1, created_at = 0, updated_at = 0, created_by = None,
    updated_by = None, is_deleted = False, deleted_at = None, as_user = 18, as_customer = 2\<rparr>"

definition fault0 :: fault where
  "fault0 = blank_fault\<lparr>pk := 17, company_id := 1, fl_elevator := 12, fl_reference := ''222222'',
    fl_reported_by := Some 15, fl_status := F_on_site, fl_technician := Some 18, fl_reported_at := 10,
    fl_assigned_at := Some 20, fl_on_site_at := Some 30\<rparr>"

text \<open>An old public fault, closed, that still names its reporter.\<close>

definition fault1 :: fault where
  "fault1 = blank_fault\<lparr>pk := 9, company_id := 1, fl_elevator := 12, fl_reference := ''333333'',
    fl_channel := Public_qr, fl_reporter_name := ''R'', fl_status := F_closed, fl_technician := Some 18,
    fl_reported_at := 0, fl_assigned_at := Some 1, fl_on_site_at := Some 2, fl_resolved_at := Some 3,
    fl_closed_at := Some 4, fl_billable := Some True\<rparr>"

definition board0 :: board where
  "board0 = estate.extend (firm0\<lparr>staff_users := [staff0, technician0], faults := [fault1, fault0]\<rparr>)
    (board.fields [assignment0])"

definition w0 :: fault_world where
  "w0 = outside.extend out0 (fault_world.fields (\<lambda>_. []) (\<lambda>n i. n))"

lemma board0_ok: "board_ok 30 board0"
  by (simp add: board_ok_def faults_ok_def board0_def firm0_def estate.defs board.defs fault0_def fault1_def blank_fault_def
      all_unique_def faults_clash_def life_ok_def)

definition report0 :: public_report where
  "report0 = \<lparr>rp_description = ''d'', rp_someone_trapped = False, rp_elevator_stopped = False,
    rp_reporter_name = [], rp_reporter_phone = []\<rparr>"

definition trapped0 :: public_report where
  "trapped0 = report0\<lparr>rp_someone_trapped := True, rp_elevator_stopped := True\<rparr>"

definition later0 :: env where "later0 = e0\<lparr>now := 60001000\<rparr>"

definition public0 :: "(fault \<times> board) result" where
  "public0 = report_public e0 w0 elevator0 report0 board0"

definition public1 :: "(fault \<times> board) result" where
  "public1 = report_public later0 w0 elevator0 trapped0 (snd (the_run public0))"

definition resolve0 :: "(fault \<times> board) result" where
  "resolve0 = resolve e0 w0 17 (Some 18) ''n'' [] True board0"

lemma public0_returns: "returns public0"
  by code_simp

lemma public1_returns: "returns public1"
  by code_simp

lemma resolve0_returns: "returns resolve0"
  by code_simp

lemma public0_run: "report_public e0 w0 elevator0 report0 board0 = Inr (fst (the_run public0), snd (the_run public0))"
  using the_run_pair [OF public0_returns] by (simp only: public0_def)

lemma public1_run: "report_public later0 w0 elevator0 trapped0 (snd (the_run public0)) =
    Inr (fst (the_run public1), snd (the_run public1))"
  using the_run_pair [OF public1_returns] by (simp only: public1_def)

lemma resolve0_run: "resolve e0 w0 17 (Some 18) ''n'' [] True board0 = Inr (fst (the_run resolve0), snd (the_run resolve0))"
  using the_run_pair [OF resolve0_returns] by (simp only: resolve0_def)

lemma resolve0_service: "fault_service e0 board0 (snd (the_run resolve0))"
  by (rule fault_service.resolving [OF resolve0_run])

lemma resolve0_history: "fault_history 30 board0 1000 (snd (the_run resolve0))"
proof -
  have "now e0 = 1000" by (simp add: e0_def)
  with fault_history.serve [OF fault_history.start _ resolve0_service, of 30] show ?thesis by simp
qed

lemma public0_facts: "fl_reported_at (fst (the_run public0)) = 1000"
  by code_simp

lemma board0_sees: "by_pk 17 (objects (ctx e0) (faults board0)) = Some fault0" "fl_status fault0 = F_on_site"
  "fault1 \<in> set (faults board0)" "fl_status fault1 = F_closed" "pk fault1 = 9"
  by (simp_all add: by_pk_def e0_def visible_def board0_def firm0_def estate.defs board.defs fault0_def fault1_def blank_fault_def)

end
