(* ===== verification/Example_Inspection.thy ===== *)
theory Example_Inspection
  imports Inspection_Laws Example_Board
begin

text \<open>
  The lift of the small firm with a yellow label and one open defect: a follow-up turns it red, the
  recorded label is corrected, the warnings go out, and the defect gets its fault.
\<close>

definition inspection0 :: inspection where
  "inspection0 = blank_inspection\<lparr>pk := 8, company_id := 1, ip_elevator := 12, ip_inspected_on := Date 2026 6 20,
    ip_label := Yellow, ip_next_due := Date 2027 6 20, ip_deadline := Some (Date 2026 10 18)\<rparr>"

definition defect0 :: nonconformity where
  "defect0 = blank_nonconformity\<lparr>pk := 7, company_id := 1, nc_inspection := 8, nc_description := ''d'',
    nc_severity := Yellow\<rparr>"

definition elevator1 :: elevator where
  "elevator1 = show_inspection inspection0 elevator0"

definition lifts0 :: inspectorate where
  "lifts0 = board.extend (board0\<lparr>elevators := [elevator1]\<rparr>) (inspectorate.fields [inspection0] [defect0])"

lemmas lifts0_defs = lifts0_def board0_def firm0_def estate.defs board.defs inspectorate.defs

lemma lifts0_ok: "lifts_ok lifts0"
  by (simp add: lifts_ok_def live_latest_def newest_def lifts0_defs inspection0_def blank_inspection_def elevator1_def
      elevator0_def show_inspection_def shows_inspection_def inspection_checks_def)

lemma lifts0_sees: "elevator1 \<in> set (elevators lifts0)" "visible (ctx e0) elevator1" "sees_firm (ctx e0) (company_id elevator1)"
  "inspection0 \<in> set (inspections lifts0)" "visible (ctx e0) inspection0"
  by (simp_all add: lifts0_defs elevator1_def elevator0_def show_inspection_def visible_def e0_def sees_firm_def
      inspection0_def blank_inspection_def)

definition record0 :: "(inspection \<times> inspectorate) result" where
  "record0 = record_inspection e0 elevator1 (Date 2026 10 20) Red (Some 15) Follow_up (Some inspection0) ''b'' ''r''
    None [(''d'', Red)] lifts0"

lemma record0_returns: "returns record0"
  by code_simp

lemma record0_run: "record_inspection e0 elevator1 (Date 2026 10 20) Red (Some 15) Follow_up (Some inspection0) ''b'' ''r''
    None [(''d'', Red)] lifts0 = Inr (fst (the_run record0), snd (the_run record0))"
  using the_run_pair [OF record0_returns] by (simp only: record0_def)

lemma record0_service: "inspection_service e0 lifts0 (snd (the_run record0))"
  by (rule inspection_service.recording [OF lifts0_sees(1,2) record0_run])

definition notice0 :: "(nat \<times> inspectorate) result" where
  "notice0 = correction_deadline_notice_in_scope e0 (Date 2026 10 10) lifts0"

lemma notice0_raised: "returns notice0" "fst (the_run notice0) = 2"
  by code_simp+

lemma notice0_run: "correction_deadline_notice_in_scope e0 (Date 2026 10 10) lifts0 =
    Inr (fst (the_run notice0), snd (the_run notice0))"
  using the_run_pair [OF notice0_raised(1)] by (simp only: notice0_def)

definition opened0 :: "(fault \<times> inspectorate) result" where
  "opened0 = open_fault e0 w0 7 staff0 lifts0"

lemma opened0_returns: "returns opened0"
  by code_simp

lemma opened0_run: "open_fault e0 w0 7 staff0 lifts0 = Inr (fst (the_run opened0), snd (the_run opened0))"
  using the_run_pair [OF opened0_returns] by (simp only: opened0_def)

lemma lifts0_board_ok: "board_ok 30 lifts0" "distinct (map pk (nonconformities lifts0))"
  using board0_ok by (simp_all add: board_ok_def lifts0_defs)

text \<open>A red lift, put out of service, with a technician at work on a fault of it.\<close>

definition red0 :: inspectorate where
  "red0 = lifts0\<lparr>elevators := [elevator1\<lparr>el_status := Out_of_service, el_inspection_label := Some Red\<rparr>]\<rparr>"

definition restored0 :: "(fault \<times> inspectorate) result" where
  "restored0 = resolve e0 w0 17 (Some 18) ''n'' [] True red0"

lemma restored0_returns: "returns restored0" "fl_elevator (fst (the_run restored0)) = 12"
  by code_simp+

lemma restored0_run: "resolve e0 w0 17 (Some 18) ''n'' [] True red0 = Inr (fst (the_run restored0), snd (the_run restored0))"
  using the_run_pair [OF restored0_returns(1)] by (simp only: restored0_def)

lemma red0_lift: "distinct (map pk (elevators red0))"
  "by_pk 12 (elevators red0) = Some (elevator1\<lparr>el_status := Out_of_service, el_inspection_label := Some Red\<rparr>)"
  by (simp_all add: red0_def by_pk_def elevator1_def elevator0_def show_inspection_def)

end
