(* ===== verification/Example_Workshop.thy ===== *)
theory Example_Workshop
  imports Plan_Laws Example_Inspection
begin

text \<open>
  The lift of the small firm with two completed visits and the plan's row of October, done; and the
  same lift before anybody planned the month.
\<close>

definition visit0 :: visit where
  "visit0 = \<lparr>pk = 3, company_id = 1, created_at = 0, updated_at = 0, created_by = None, updated_by = None,
    is_deleted = False, deleted_at = None, vs_elevator = 12, vs_contract = 11, vs_technician = 18,
    vs_date = Date 2026 9 20, vs_status = Completed, vs_status_note = [], vs_work_notes = [], vs_parts_replaced = [],
    vs_signature_status = Some Signed, vs_signer_name = ''S'', vs_signer_role = Some Signer_manager,
    vs_signed_at = Some 5, vs_amended = False\<rparr>"

definition visit1 :: visit where
  "visit1 = visit0\<lparr>pk := 4, vs_date := Date 2026 10 5\<rparr>"

definition row0 :: planned_visit where
  "row0 = blank_planned\<lparr>pk := 5, company_id := 1, pv_elevator := 12, pv_period := ''2026-10'',
    pv_due_date := Date 2026 10 15, pv_status := Done, pv_visit := Some 4\<rparr>"

definition elevator2 :: elevator where
  "elevator2 = elevator1\<lparr>el_last_maintenance_date := Some (Date 2026 10 5), el_next_maintenance_date := Some (Date 2026 11 4)\<rparr>"

definition shop0 :: workshop where
  "shop0 = inspectorate.extend (lifts0\<lparr>elevators := [elevator2]\<rparr>) (workshop.fields [visit0, visit1] [] [row0] [])"

text \<open>The same without a plan, and nobody assigned.\<close>

definition shop1 :: workshop where "shop1 = shop0\<lparr>plan := [], assignments := []\<rparr>"

lemmas shop0_defs = shop0_def lifts0_defs workshop.defs

lemma period_october: "period_of (Date 2026 10 5) = ''2026-10''" "period_of (Date 2026 9 20) = ''2026-09''"
  by code_simp+

lemma thirty_days: "add_days (Date 2026 10 5) 30 = Some (Date 2026 11 4)"
  by code_simp

lemma october_dates: "valid_date (Date 2026 9 20)" "valid_date (Date 2026 10 5)"
  by (simp_all add: valid_date_def days_in_month_def)

lemma october_row: "\<exists>d. valid_date d \<and> ''2026-10'' = period_of d"
  using period_october by (intro exI [of _ "Date 2026 10 5"]) (simp add: valid_date_def days_in_month_def)

lemma shop0_shop_ok: "shop_ok shop0"
  unfolding shop_ok_def
  by (simp add: shop0_defs elevator2_def elevator1_def elevator0_def show_inspection_def visit0_def visit1_def row0_def
      blank_planned_def board0_def firm0_def estate.defs board.defs inspectorate.defs october_dates october_row)

lemma shop0_fields [simp]: "elevators shop0 = [elevator2]" "visits shop0 = [visit0, visit1]" "plan shop0 = [row0]"
  by (simp_all add: shop0_defs)

lemma visits0 [simp]: "vs_elevator visit0 = 12" "vs_elevator visit1 = 12" "vs_date visit0 = Date 2026 9 20"
  "vs_date visit1 = Date 2026 10 5" "vs_status visit0 = Completed" "vs_status visit1 = Completed"
  "\<not> is_deleted visit0" "\<not> is_deleted visit1" "pk visit0 = 3" "pk visit1 = 4"
  by (simp_all add: visit0_def visit1_def)

lemma shop0_latest: "live_completed 12 shop0 = Some visit1"
  by (simp add: live_completed_def newest_def)

lemma elevator2_fields: "pk elevator2 = 12" "el_maintenance_interval_days elevator2 = 30"
  "el_last_maintenance_date elevator2 = Some (Date 2026 10 5)" "el_next_maintenance_date elevator2 = Some (Date 2026 11 4)"
  "company_id elevator2 = 1" "\<not> is_deleted elevator2"
  by (simp_all add: elevator2_def elevator1_def elevator0_def show_inspection_def)

lemma shop0_tidy: "tidy shop0"
proof -
  have "served_but {} shop0"
    by (simp add: served_but_def served_def maintenance_dates_def elevator2_fields shop0_latest thirty_days)
  moreover have "live_month 12 ''2026-10'' shop0 = [visit1]"
    by (simp add: live_month_def period_october)
  then have "plan_agrees_but {} shop0"
    by (simp add: plan_agrees_but_def row_agrees_def outcome_of_def row0_def blank_planned_def)
  ultimately show ?thesis using shop0_shop_ok by (simp add: tidy_def)
qed

lemma shop1_ok: "shop_ok shop1"
  using shop0_shop_ok by (simp add: shop_ok_def shop1_def)

text \<open>The latest visit deleted: the lift falls due a month after the one before, October's row is open again,
  and due on the day it always was.\<close>

definition deleted0 :: "workshop result" where
  "deleted0 = delete_visit e0 visit1 (Some 15) shop0"

lemma deleted0_rows:
  "case deleted0 of Inl _ \<Rightarrow> False | Inr s \<Rightarrow>
    map (\<lambda>r. (pv_period r, pv_status r, pv_due_date r)) (plan s) = [(''2026-10'', Planned, Date 2026 10 15)] \<and>
    map el_next_maintenance_date (elevators s) = [Some (Date 2026 10 20)]"
  by code_simp

lemma deleted0_run: "delete_visit e0 visit1 (Some 15) shop0 = Inr (the_run deleted0)"
  using deleted0_rows unfolding deleted0_def by (auto simp: the_run_def split: sum.splits)

lemma visit1_sees: "visit1 \<in> set (visits shop0)" "visible (ctx e0) visit1"
  by simp (simp add: visit1_def visit0_def visible_def e0_def)

definition planned0 :: "(plan_run \<times> workshop) result" where
  "planned0 = plan_maintenance e0 shop1"

text \<open>
  The generator's rows: October's is open although the lift was serviced on the fifth, when nobody had
  planned the month.
\<close>

lemma planned0_rows:
  "case planned0 of Inl _ \<Rightarrow> False | Inr (run, s) \<Rightarrow>
    map (\<lambda>r. (pv_period r, pv_status r, pv_visit r, pv_due_date r)) (plan s) =
      [(''2026-10'', Planned, None, Date 2026 10 31), (''2026-11'', Planned, None, Date 2026 11 4)]"
  by code_simp


lemma planned0_run: "plan_maintenance e0 shop1 = Inr (fst (the_run planned0), snd (the_run planned0))"
  using planned0_rows unfolding planned0_def by (auto simp: the_run_def split: sum.splits)

text \<open>The lift a month late: the office and its technician are told.\<close>

definition overdue0 :: "(nat \<times> workshop) result" where
  "overdue0 = maintenance_overdue_in_scope e0 (Date 2026 12 1) shop0"

lemma overdue0_raised: "case overdue0 of Inl _ \<Rightarrow> False | Inr (n, s) \<Rightarrow> n = 2"
  by code_simp

lemma overdue0_run: "maintenance_overdue_in_scope e0 (Date 2026 12 1) shop0 = Inr (fst (the_run overdue0), snd (the_run overdue0))"
  using overdue0_raised unfolding overdue0_def by (auto simp: the_run_def split: sum.splits)

lemma shop0_covered:
  "elevator2 \<in> set (overdue_lifts e0 (Date 2026 12 1) shop0)"
  "elevator2 \<in> set (covered_elevators (e0\<lparr>ctx := system_context (ctx e0)\<rparr>) shop1)"
proof -
  have c: "contract_lines shop0 = [line0]" "contracts shop0 = [contract0]" by (simp_all add: shop0_defs)
  have l: "ce_elevator line0 = 12" "open_line line0" "ce_removed_at line0 = None" "ce_contract line0 = 11"
    "pk contract0 = 11" "ct_status contract0 = C_active" "\<not> is_deleted contract0"
    by (simp_all add: line0_def blank_contract_line_def open_line_def contract0_def)
  show "elevator2 \<in> set (overdue_lifts e0 (Date 2026 12 1) shop0)"
    by (simp add: overdue_lifts_def c l elevator2_fields visible_def e0_def)
  show "elevator2 \<in> set (covered_elevators (e0\<lparr>ctx := system_context (ctx e0)\<rparr>) shop1)"
    by (simp add: covered_elevators_def shop1_def c l elevator2_fields visible_def e0_def system_context_def)
qed

end
