(* ===== verification/Replay.thy ===== *)
theory Replay
  imports Tenancy Documents
begin

text \<open>
  \<open>core/idempotency.py\<close>: a POST sent twice under one \<open>Idempotency-Key\<close> does its work once. Requests run
  side by side, so the module is a step relation: every database statement is one step of one request,
  and between two steps of a request any others may happen - the clock, other requests, a worker that
  dies, the daily purge. What a step does is an executable definition.
\<close>

section \<open>The table (core/models.py)\<close>

text \<open>Whose key it is: exactly one of the two columns is set.\<close>

datatype principal = Staff_principal pk | Portal_principal pk

record key_row =
  ik_pk :: pk
  ik_company :: pk
  ik_owner :: principal
  ik_key :: string
  ik_endpoint :: string
  ik_hash :: string
  ik_status :: "nat option"
  ik_body :: "string option"
  ik_created_at :: instant
  ik_expires_at :: instant

definition is_pending :: "key_row \<Rightarrow> bool" where
  "is_pending row \<longleftrightarrow> ik_status row = None"

text \<open>What a protected request presents: \<open>hash\<close> is the fingerprint of its body.\<close>

record keyed_request =
  rq_company :: pk
  rq_owner :: principal
  rq_key :: string
  rq_endpoint :: string
  rq_hash :: string
  rq_retention :: instant

definition same_key :: "keyed_request \<Rightarrow> key_row \<Rightarrow> bool" where
  "same_key r row \<longleftrightarrow> ik_company row = rq_company r \<and> ik_owner row = rq_owner r \<and> ik_key row = rq_key r"

definition same_question :: "keyed_request \<Rightarrow> key_row \<Rightarrow> bool" where
  "same_question r row \<longleftrightarrow> same_key r row \<and> ik_endpoint row = rq_endpoint r \<and> ik_hash row = rq_hash r"

section \<open>Constants\<close>

text \<open>In microseconds.\<close>

definition RETENTION :: instant where "RETENTION = 24 * 60 * 60 * 1000000"
definition PENDING_TIMEOUT :: instant where "PENDING_TIMEOUT = 60 * 1000000"
definition RESERVE_ATTEMPTS :: nat where "RESERVE_ATTEMPTS = 3"

definition retention_for :: "instant option \<Rightarrow> instant" where
  "retention_for declared = (case declared of None \<Rightarrow> RETENTION | Some t \<Rightarrow> t)"

section \<open>The statements\<close>

text \<open>\<open>IdempotencyKey.objects.create\<close>\<close>

definition insert_key :: "instant \<Rightarrow> keyed_request \<Rightarrow> pk \<Rightarrow> key_row list \<Rightarrow> key_row list result" where
  "insert_key t r k rows =
    (if 255 < length (rq_key r) \<or> 200 < length (rq_endpoint r) then Inl (Crash Data_error)
     else if \<exists>row \<in> set rows. same_key r row then Inl Integrity_error
     else Inr (rows @ [\<lparr>ik_pk = k, ik_company = rq_company r, ik_owner = rq_owner r, ik_key = rq_key r,
       ik_endpoint = rq_endpoint r, ik_hash = rq_hash r, ik_status = None, ik_body = None,
       ik_created_at = t, ik_expires_at = t + rq_retention r\<rparr>]))"

text \<open>What the row a request found means for it; \<open>t\<close> is the reading at the top of the loop.\<close>

datatype verdict = Take_expired | Take_abandoned | Replay nat "string option" | Refuse exn

definition judge :: "instant \<Rightarrow> keyed_request \<Rightarrow> key_row \<Rightarrow> verdict" where
  "judge t r row =
    (if ik_expires_at row \<le> t then Take_expired
     else if ik_hash row \<noteq> rq_hash r \<or> ik_endpoint row \<noteq> rq_endpoint r
     then Refuse (Record_in_use IDEMPOTENCY_KEY_REUSED)
     else case ik_status row of
       Some st \<Rightarrow> Replay st (ik_body row)
     | None \<Rightarrow>
         if t - PENDING_TIMEOUT < ik_created_at row then Refuse (Conflict IDEMPOTENCY_KEY_IN_FLIGHT)
         else Take_abandoned)"

text \<open>The condition of \<open>_take_over\<close>'s update: expired, or abandoned.\<close>

definition may_take :: "bool \<Rightarrow> instant \<Rightarrow> pk \<Rightarrow> key_row \<Rightarrow> bool" where
  "may_take abandoned t k row \<longleftrightarrow> ik_pk row = k \<and>
    (if abandoned then is_pending row \<and> ik_created_at row < t - PENDING_TIMEOUT else ik_expires_at row \<le> t)"

definition take_over :: "bool \<Rightarrow> instant \<Rightarrow> pk \<Rightarrow> keyed_request \<Rightarrow> key_row list \<Rightarrow> key_row list option" where
  "take_over abandoned t k r rows =
    (if length (filter (may_take abandoned t k) rows) \<noteq> 1 then None
     else Some (update_where (may_take abandoned t k)
       (\<lambda>row. row\<lparr>ik_endpoint := rq_endpoint r, ik_hash := rq_hash r, ik_status := None, ik_body := None,
         ik_created_at := t, ik_expires_at := t + rq_retention r\<rparr>) rows))"

text \<open>\<open>_Reservation.mine\<close>: the key and the fencing token.\<close>

definition mine :: "pk \<Rightarrow> instant \<Rightarrow> key_row \<Rightarrow> bool" where
  "mine k reserved_at row \<longleftrightarrow> ik_pk row = k \<and> ik_created_at row = reserved_at \<and> is_pending row"

definition complete_key ::
  "instant \<Rightarrow> pk \<Rightarrow> instant \<Rightarrow> nat \<Rightarrow> string option \<Rightarrow> instant \<Rightarrow> key_row list \<Rightarrow> key_row list option" where
  "complete_key t k reserved_at st body retention rows =
    (if length (filter (mine k reserved_at) rows) \<noteq> 1 then None
     else Some (update_where (mine k reserved_at)
       (\<lambda>row. row\<lparr>ik_status := Some st, ik_body := body, ik_expires_at := t + retention\<rparr>) rows))"

definition release_key :: "pk \<Rightarrow> instant \<Rightarrow> key_row list \<Rightarrow> key_row list" where
  "release_key k reserved_at rows = filter (\<lambda>row. \<not> mine k reserved_at row) rows"

definition expired_keys :: "instant \<Rightarrow> key_row list \<Rightarrow> key_row list" where
  "expired_keys t rows = filter (\<lambda>row. ik_expires_at row \<le> t) rows"

definition purge_expired_keys :: "instant \<Rightarrow> key_row list \<Rightarrow> key_row list \<times> nat" where
  "purge_expired_keys t rows = (filter (\<lambda>row. \<not> ik_expires_at row \<le> t) rows, length (expired_keys t rows))"

section \<open>A request\<close>

text \<open>
  Where a request is: at the top of the loop of \<open>_reserve\<close>, past an insert that was refused, about to
  take a row over, at work with its reservation, or done. \<open>Stored\<close> is a replayed answer.
\<close>

datatype outcome = Committed nat "string option" | Stored nat "string option" | Failed | Refused exn | Died

datatype phase =
    Trying nat
  | Insert_refused nat instant
  | Taking nat instant bool pk
  | Holding pk instant
  | Finished outcome

fun running :: "phase \<Rightarrow> bool" where
  "running (Finished _) = False"
| "running _ = True"

text \<open>The steps of \<open>_reserve\<close>; \<open>t\<close> is the clock now, \<open>t0\<close> the reading of this round.\<close>

fun reserving :: "instant \<Rightarrow> keyed_request \<Rightarrow> phase \<Rightarrow> key_row list \<times> pk \<Rightarrow> phase \<times> key_row list \<times> pk" where
  "reserving t r (Trying n) (rows, k) =
    (if RESERVE_ATTEMPTS \<le> n then (Finished (Refused (Conflict IDEMPOTENCY_KEY_IN_FLIGHT)), rows, k)
     else case insert_key t r k rows of
       Inr rows' \<Rightarrow> (Holding k t, rows', Suc k)
     | Inl Integrity_error \<Rightarrow> (Insert_refused n t, rows, k)
     | Inl err \<Rightarrow> (Finished (Refused err), rows, k))"
| "reserving t r (Insert_refused n t0) (rows, k) =
    ((case List.find (same_key r) rows of
        None \<Rightarrow> if n = 0 then Trying 1 else Finished (Refused Integrity_error)
      | Some row \<Rightarrow>
          (case judge t0 r row of
             Take_expired \<Rightarrow> Taking n t0 False (ik_pk row)
           | Take_abandoned \<Rightarrow> Taking n t0 True (ik_pk row)
           | Replay st body \<Rightarrow> Finished (Stored st body)
           | Refuse err \<Rightarrow> Finished (Refused err))), rows, k)"
| "reserving t r (Taking n t0 abandoned j) (rows, k) =
    (case take_over abandoned t0 j r rows of
       None \<Rightarrow> (Trying (n + 1), rows, k)
     | Some rows' \<Rightarrow> (Holding j t0, rows', k))"
| "reserving t r (Holding j t0) s = (Holding j t0, s)"
| "reserving t r (Finished out) s = (Finished out, s)"

text \<open>\<open>replay_protected\<close>, before the reservation: whether there is anything to protect.\<close>

datatype handling = Run_plain | Turn_away exn | Protect keyed_request

definition replay_protected ::
  "string option \<Rightarrow> bool \<Rightarrow> instant option \<Rightarrow> string \<Rightarrow> string \<Rightarrow> pk option \<Rightarrow> principal \<Rightarrow> handling" where
  "replay_protected header required declared endpoint fingerprint company owner =
    (let key = strip (case header of None \<Rightarrow> [] | Some h \<Rightarrow> h) in
     if key = [] then if required then Turn_away (Bad_request IDEMPOTENCY_KEY_REQUIRED) else Run_plain
     else case company of
       None \<Rightarrow> Run_plain
     | Some co \<Rightarrow> Protect \<lparr>rq_company = co, rq_owner = owner, rq_key = key, rq_endpoint = endpoint,
         rq_hash = fingerprint, rq_retention = retention_for declared\<rparr>)"

section \<open>Requests side by side\<close>

text \<open>Work that was committed: what asked for it, when, until when its answer is kept, and the answer.\<close>

record committed =
  cm_request :: keyed_request
  cm_at :: instant
  cm_until :: instant
  cm_status :: nat
  cm_body :: "string option"

record replay_world =
  clock :: instant
  key_rows :: "key_row list"
  next_key :: pk
  requests :: "nat \<Rightarrow> (keyed_request \<times> phase) option"
  work :: "committed list"

definition quiet_world :: "instant \<Rightarrow> replay_world" where
  "quiet_world t = \<lparr>clock = t, key_rows = [], next_key = 1, requests = (\<lambda>_. None), work = []\<rparr>"

definition at_phase :: "nat \<Rightarrow> keyed_request \<Rightarrow> phase \<Rightarrow> replay_world \<Rightarrow> replay_world" where
  "at_phase p r ph w = w\<lparr>requests := (requests w)(p \<mapsto> (r, ph))\<rparr>"

text \<open>One statement of one request, committed or not. The answer of the handler is anything.\<close>

definition reserve_move :: "nat \<Rightarrow> keyed_request \<Rightarrow> phase \<Rightarrow> replay_world \<Rightarrow> replay_world" where
  "reserve_move p r ph w =
    (case reserving (clock w) r ph (key_rows w, next_key w) of
       (ph', rows, k) \<Rightarrow> at_phase p r ph' (w\<lparr>key_rows := rows, next_key := k\<rparr>))"

definition commit_move :: "nat \<Rightarrow> keyed_request \<Rightarrow> pk \<Rightarrow> instant \<Rightarrow> nat \<Rightarrow> string option \<Rightarrow> replay_world \<Rightarrow> replay_world" where
  "commit_move p r k t0 st body w =
    (case complete_key (clock w) k t0 st body (rq_retention r) (key_rows w) of
       None \<Rightarrow> at_phase p r (Finished (Refused (Conflict IDEMPOTENCY_KEY_IN_FLIGHT))) w
     | Some rows \<Rightarrow> at_phase p r (Finished (Committed st body)) (w\<lparr>key_rows := rows,
         work := work w @ [\<lparr>cm_request = r, cm_at = clock w, cm_until = clock w + rq_retention r,
           cm_status = st, cm_body = body\<rparr>]\<rparr>))"

inductive replay_step :: "replay_world \<Rightarrow> replay_world \<Rightarrow> bool" where
  ticking: "clock w \<le> t \<Longrightarrow> replay_step w (w\<lparr>clock := t\<rparr>)"
| arriving: "requests w p = None \<Longrightarrow> 0 < rq_retention r \<Longrightarrow> replay_step w (at_phase p r (Trying 0) w)"
| moving: "requests w p = Some (r, ph) \<Longrightarrow> replay_step w (reserve_move p r ph w)"
| committing: "requests w p = Some (r, Holding k t0) \<Longrightarrow> 200 \<le> st \<Longrightarrow> st < 300 \<Longrightarrow>
    replay_step w (commit_move p r k t0 st body w)"
| failing: "requests w p = Some (r, Holding k t0) \<Longrightarrow>
    replay_step w (at_phase p r (Finished Failed) (w\<lparr>key_rows := release_key k t0 (key_rows w)\<rparr>))"
| dying: "requests w p = Some (r, ph) \<Longrightarrow> running ph \<Longrightarrow> replay_step w (at_phase p r (Finished Died) w)"
| purging: "replay_step w (w\<lparr>key_rows := fst (purge_expired_keys (clock w) (key_rows w))\<rparr>)"

definition replay_reachable :: "replay_world \<Rightarrow> bool" where
  "replay_reachable w \<longleftrightarrow> (\<exists>t. replay_step\<^sup>*\<^sup>* (quiet_world t) w)"

end
