(* ===== verification/Replay_Laws.thy ===== *)
theory Replay_Laws
  imports Replay
begin

text \<open>
  What holds in every reachable world of requests: work under one key is committed once per retention,
  and a replayed answer is the answer to the very question that was asked. The invariant is about three
  things - the rows, the committed work, the phase of each request - and \<open>evolves\<close> is all the phases of
  the other requests need to know about a statement.
\<close>

section \<open>The invariant\<close>

definition same_request_key :: "keyed_request \<Rightarrow> keyed_request \<Rightarrow> bool" where
  "same_request_key a b \<longleftrightarrow> rq_company a = rq_company b \<and> rq_owner a = rq_owner b \<and> rq_key a = rq_key b"

definition same_request :: "keyed_request \<Rightarrow> keyed_request \<Rightarrow> bool" where
  "same_request a b \<longleftrightarrow> same_request_key a b \<and> rq_endpoint a = rq_endpoint b \<and> rq_hash a = rq_hash b"

definition keys_ok :: "instant \<Rightarrow> pk \<Rightarrow> key_row list \<Rightarrow> bool" where
  "keys_ok t k rows \<longleftrightarrow> distinct (map ik_pk rows) \<and>
    (\<forall>row \<in> set rows. ik_pk row < k \<and> ik_created_at row \<le> t \<and> ik_created_at row < ik_expires_at row) \<and>
    (\<forall>a \<in> set rows. \<forall>b \<in> set rows. ik_company a = ik_company b \<longrightarrow> ik_owner a = ik_owner b \<longrightarrow>
      ik_key a = ik_key b \<longrightarrow> a = b)"

text \<open>The row still says what was answered.\<close>

definition keeps_answer :: "committed \<Rightarrow> key_row \<Rightarrow> bool" where
  "keeps_answer c row \<longleftrightarrow> same_question (cm_request c) row \<and> ik_status row = Some (cm_status c) \<and>
    ik_body row = cm_body c \<and> ik_expires_at row = cm_until c"

definition spaced :: "committed \<Rightarrow> committed \<Rightarrow> bool" where
  "spaced a b \<longleftrightarrow> (same_request_key (cm_request a) (cm_request b) \<longrightarrow> cm_until a \<le> cm_at b)"

definition work_ok :: "instant \<Rightarrow> key_row list \<Rightarrow> committed list \<Rightarrow> bool" where
  "work_ok t rows cs \<longleftrightarrow>
    (\<forall>c \<in> set cs. cm_at c \<le> t \<and> cm_until c = cm_at c + rq_retention (cm_request c) \<and>
      (cm_until c \<le> t \<or> (\<exists>row \<in> set rows. keeps_answer c row))) \<and>
    (\<forall>row \<in> set rows. \<not> is_pending row \<longrightarrow> (\<exists>c \<in> set cs. keeps_answer c row)) \<and> sorted_wrt spaced cs"

definition answer_of :: "keyed_request \<Rightarrow> nat \<Rightarrow> string option \<Rightarrow> committed \<Rightarrow> bool" where
  "answer_of r st body c \<longleftrightarrow> same_request r (cm_request c) \<and> cm_status c = st \<and> cm_body c = body"

fun phase_ok :: "instant \<Rightarrow> pk \<Rightarrow> key_row list \<Rightarrow> committed list \<Rightarrow> keyed_request \<Rightarrow> phase \<Rightarrow> bool" where
  "phase_ok t k rows cs r (Insert_refused n t0) \<longleftrightarrow> t0 \<le> t"
| "phase_ok t k rows cs r (Taking n t0 abandoned j) \<longleftrightarrow>
    t0 \<le> t \<and> j < k \<and> (\<forall>row \<in> set rows. ik_pk row = j \<longrightarrow> same_key r row)"
| "phase_ok t k rows cs r (Holding j t0) \<longleftrightarrow> t0 \<le> t \<and> j < k \<and>
    (\<forall>row \<in> set rows. ik_pk row = j \<longrightarrow>
      t0 \<le> ik_created_at row \<and> (ik_created_at row = t0 \<longrightarrow> same_question r row))"
| "phase_ok t k rows cs r (Finished (Stored st body)) \<longleftrightarrow> (\<exists>c \<in> set cs. answer_of r st body c)"
| "phase_ok t k rows cs r _ \<longleftrightarrow> True"

definition replay_ok :: "replay_world \<Rightarrow> bool" where
  "replay_ok w \<longleftrightarrow> keys_ok (clock w) (next_key w) (key_rows w) \<and> work_ok (clock w) (key_rows w) (work w) \<and>
    (\<forall>p r ph. requests w p = Some (r, ph) \<longrightarrow>
      0 < rq_retention r \<and> phase_ok (clock w) (next_key w) (key_rows w) (work w) r ph)"

section \<open>What a statement may do to the rows\<close>

definition evolved :: "key_row \<Rightarrow> key_row \<Rightarrow> bool" where
  "evolved a b \<longleftrightarrow> ik_pk b = ik_pk a \<and> ik_company b = ik_company a \<and> ik_owner b = ik_owner a \<and>
    ik_key b = ik_key a \<and> ik_created_at a \<le> ik_created_at b \<and>
    (ik_created_at b = ik_created_at a \<longrightarrow> ik_endpoint b = ik_endpoint a \<and> ik_hash b = ik_hash a)"

definition evolves :: "pk \<Rightarrow> key_row list \<Rightarrow> key_row list \<Rightarrow> bool" where
  "evolves k rows rows' \<longleftrightarrow> (\<forall>b \<in> set rows'. k \<le> ik_pk b \<or> (\<exists>a \<in> set rows. evolved a b))"

lemma evolved_refl [simp]: "evolved a a"
  by (simp add: evolved_def)

lemma evolves_sub: "set rows' \<subseteq> set rows \<Longrightarrow> evolves k rows rows'"
  unfolding evolves_def using evolved_refl by blast

lemma phase_frame:
  assumes "phase_ok t k rows cs r ph" and "t \<le> t'" and "k \<le> k'" and "evolves k rows rows'"
    and "set cs \<subseteq> set cs'"
  shows "phase_ok t' k' rows' cs' r ph"
proof -
  have origin: "\<exists>a \<in> set rows. evolved a b" if "b \<in> set rows'" "ik_pk b < k" for b
    using assms(4) that unfolding evolves_def by force
  show ?thesis
  proof (cases ph)
    case (Taking n t0 ab j)
    have "same_key r b" if b: "b \<in> set rows'" "ik_pk b = j" for b
    proof -
      obtain a where "a \<in> set rows" "evolved a b" using origin [of b] b assms(1) Taking by auto
      with assms(1) Taking b show ?thesis by (auto simp: evolved_def same_key_def)
    qed
    with Taking assms(1-3) show ?thesis by auto
  next
    case (Holding j t0)
    have "t0 \<le> ik_created_at b \<and> (ik_created_at b = t0 \<longrightarrow> same_question r b)"
      if b: "b \<in> set rows'" "ik_pk b = j" for b
    proof -
      obtain a where a: "a \<in> set rows" "evolved a b" using origin [of b] b assms(1) Holding by auto
      then have "ik_pk a = j" using b by (simp add: evolved_def)
      with a(1) assms(1) Holding have "t0 \<le> ik_created_at a" "ik_created_at a = t0 \<longrightarrow> same_question r a" by auto
      with a(2) show ?thesis by (auto simp: evolved_def same_key_def same_question_def)
    qed
    with Holding assms(1-3) show ?thesis by auto
  next
    case (Finished out)
    with assms show ?thesis by (cases out) auto
  qed (use assms in auto)
qed

section \<open>Each statement\<close>

lemma keys_okD:
  assumes "keys_ok t k rows"
  shows "distinct (map ik_pk rows)"
    and "row \<in> set rows \<Longrightarrow> ik_pk row < k"
    and "row \<in> set rows \<Longrightarrow> ik_created_at row \<le> t"
    and "row \<in> set rows \<Longrightarrow> ik_created_at row < ik_expires_at row"
    and "a \<in> set rows \<Longrightarrow> b \<in> set rows \<Longrightarrow> same_key r a \<Longrightarrow> same_key r b \<Longrightarrow> a = b"
  using assms unfolding keys_ok_def same_key_def by (auto dest!: bspec)

lemma keys_ok_later: "keys_ok t k rows \<Longrightarrow> t \<le> t' \<Longrightarrow> keys_ok t' k rows"
  unfolding keys_ok_def by fastforce

lemma keys_ok_filter: "keys_ok t k rows \<Longrightarrow> keys_ok t k (filter P rows)"
  unfolding keys_ok_def by (auto simp: distinct_map_filter)

lemma work_ok_later: "work_ok t rows cs \<Longrightarrow> t \<le> t' \<Longrightarrow> work_ok t' rows cs"
  unfolding work_ok_def by fastforce

text \<open>Rows may go when they are pending or their window has closed.\<close>

lemma work_ok_filter:
  assumes ok: "work_ok t rows cs"
    and gone: "\<And>row. row \<in> set rows \<Longrightarrow> \<not> P row \<Longrightarrow> is_pending row \<or> ik_expires_at row \<le> t"
  shows "work_ok t (filter P rows) cs"
proof -
  have "cm_until c \<le> t \<or> (\<exists>row \<in> set (filter P rows). keeps_answer c row)" if c: "c \<in> set cs" for c
  proof (cases "cm_until c \<le> t")
    case False
    with ok c obtain row where row: "row \<in> set rows" "keeps_answer c row" unfolding work_ok_def by blast
    then have "P row" using gone [of row] False by (auto simp: keeps_answer_def is_pending_def)
    with row show ?thesis by auto
  qed simp
  with ok show ?thesis unfolding work_ok_def by auto
qed

lemma insert_key_ok:
  assumes run: "insert_key t r k rows = Inr rows'" and ok: "keys_ok t k rows" and "work_ok t rows cs"
    and pos: "0 < rq_retention r"
  shows "keys_ok t (Suc k) rows'" and "work_ok t rows' cs" and "evolves k rows rows'"
    and "phase_ok t (Suc k) rows' cs r (Holding k t)"
proof -
  obtain new where rows': "rows' = rows @ [new]" and new: "ik_pk new = k" "ik_status new = None"
      "ik_created_at new = t" "ik_expires_at new = t + rq_retention r" "same_question r new"
    and fresh: "\<And>row. row \<in> set rows \<Longrightarrow> \<not> same_key r row"
    using run unfolding insert_key_def
    by (auto split: if_splits simp: same_question_def same_key_def)
  note pks = keys_okD(2) [OF ok]
  have "same_key r row \<longleftrightarrow> ik_company row = ik_company new \<and> ik_owner row = ik_owner new \<and>
      ik_key row = ik_key new" for row
    using new(5) by (auto simp: same_question_def same_key_def)
  with fresh have clash: "\<not> (ik_company new = ik_company row \<and> ik_owner new = ik_owner row \<and> ik_key new = ik_key row)"
    if "row \<in> set rows" for row using that by metis
  have apart: "k \<notin> ik_pk ` set rows" using pks by force
  from clash show "keys_ok t (Suc k) rows'"
    using ok new(1-4) pos pks apart unfolding keys_ok_def rows' by (auto simp: less_Suc_eq dest: clash)
  show "work_ok t rows' cs"
    using assms(3) new unfolding work_ok_def rows' by (auto simp: is_pending_def)
  show "evolves k rows rows'"
    unfolding evolves_def rows'
  proof
    fix b
    assume "b \<in> set (rows @ [new])"
    then consider "b = new" | "b \<in> set rows" by auto
    then show "k \<le> ik_pk b \<or> (\<exists>a \<in> set rows. evolved a b)"
    proof cases
      case 2
      then show ?thesis using evolved_refl by blast
    qed (simp add: new(1))
  qed
  show "phase_ok t (Suc k) rows' cs r (Holding k t)"
    using new pks unfolding rows' by force
qed

lemma one_row_updated:
  assumes "keys_ok t k rows" and "row \<in> set rows" and "P row" and "\<And>x. P x \<Longrightarrow> ik_pk x = ik_pk row"
  shows "set (update_where P f rows) = insert (f row) (set rows - {row})"
proof -
  have one: "P x \<longleftrightarrow> x = row" if "x \<in> set rows" for x
    using assms that keys_okD(1) [OF assms(1)] distinct_map_unique by metis
  show ?thesis using assms(2,3) one unfolding update_where_def by (auto simp: image_iff)
qed

lemma update_keys_ok:
  assumes ok: "keys_ok t k rows" and row: "row \<in> set rows" "P row" "\<And>x. P x \<Longrightarrow> ik_pk x = ik_pk row"
    and f: "evolved row (f row)" "ik_created_at (f row) \<le> t" "ik_created_at (f row) < ik_expires_at (f row)"
    and pk: "\<And>x. P x \<Longrightarrow> ik_pk (f x) = ik_pk x"
  shows "keys_ok t k (update_where P f rows)" and "evolves k rows (update_where P f rows)"
proof -
  have upd: "set (update_where P f rows) = insert (f row) (set rows - {row})"
    by (rule one_row_updated [where P = P and row = row, OF ok row(1,2)]) (rule row(3))
  have pks: "map ik_pk (update_where P f rows) = map ik_pk rows"
    using pk by (simp add: update_where_def)
  have key: "ik_company (f row) = ik_company row" "ik_owner (f row) = ik_owner row" "ik_key (f row) = ik_key row"
      "ik_pk (f row) = ik_pk row"
    using f(1) by (simp_all add: evolved_def)
  have back_to: "\<exists>a \<in> set rows. b = (if a = row then f row else a)" if "b \<in> insert (f row) (set rows - {row})" for b
    using that row(1) by auto
  have apart: "a = b" if "a \<in> insert (f row) (set rows - {row})" "b \<in> insert (f row) (set rows - {row})"
    "ik_company a = ik_company b" "ik_owner a = ik_owner b" "ik_key a = ik_key b" for a b
  proof -
    note prem = that
    obtain a' b' where ab: "a' \<in> set rows" "b' \<in> set rows" "a = (if a' = row then f row else a')"
        "b = (if b' = row then f row else b')"
      using back_to prem(1,2) by metis
    then have "a' = b'" using ok prem(3-5) key unfolding keys_ok_def by (metis (full_types))
    with ab show ?thesis by simp
  qed
  have "ik_pk b < k \<and> ik_created_at b \<le> t \<and> ik_created_at b < ik_expires_at b"
    if "b \<in> insert (f row) (set rows - {row})" for b
    using that keys_okD(2-4) [OF ok] row(1) f(2,3) key by auto
  with apart keys_okD(1) [OF ok] show "keys_ok t k (update_where P f rows)"
    unfolding keys_ok_def pks upd by blast
  show "evolves k rows (update_where P f rows)"
    using row(1) f(1) evolved_refl unfolding evolves_def upd by blast
qed

lemma one_matched:
  assumes ok: "keys_ok t k rows" and n: "length (filter P rows) = 1"
  obtains row where "row \<in> set rows" and "P row"
proof -
  from n obtain row where "filter P rows = [row]" by (auto simp: length_Suc_conv)
  then have "row \<in> set (filter P rows)" by simp
  then show ?thesis using that by auto
qed

lemma take_over_ok:
  assumes run: "take_over abandoned t0 j r rows = Some rows'" and ok: "keys_ok t k rows" and kept0: "work_ok t rows cs"
    and ph: "phase_ok t k rows cs r (Taking n t0 abandoned j)" and pos: "0 < rq_retention r"
  shows "keys_ok t k rows'" and "work_ok t rows' cs" and "evolves k rows rows'"
    and "phase_ok t k rows' cs r (Holding j t0)"
proof -
  define P where "P = may_take abandoned t0 j"
  define f where "f = (\<lambda>row :: key_row. row\<lparr>ik_endpoint := rq_endpoint r, ik_hash := rq_hash r, ik_status := None,
    ik_body := None, ik_created_at := t0, ik_expires_at := t0 + rq_retention r\<rparr>)"
  have rows': "rows' = update_where P f rows" and n: "length (filter P rows) = 1"
    using run unfolding take_over_def P_def f_def by (simp_all split: if_splits)
  obtain row where row: "row \<in> set rows" "P row" by (rule one_matched [OF ok n])
  have pk: "\<And>x. P x \<Longrightarrow> ik_pk x = j" unfolding P_def may_take_def by simp
  then have same: "\<And>x. P x \<Longrightarrow> ik_pk x = ik_pk row" using row(2) by metis
  have t0: "t0 \<le> t" "j < k" and key: "same_key r row" using ph row pk by auto
  have free: "is_pending row \<or> ik_expires_at row \<le> t0" and old: "ik_created_at row < t0"
    using row(2) keys_okD(4) [OF ok row(1)]
    unfolding P_def may_take_def PENDING_TIMEOUT_def by (auto split: if_splits)
  have ev: "evolved row (f row)" using old by (simp add: evolved_def f_def)
  show "keys_ok t k rows'" and "evolves k rows rows'"
    unfolding rows' using update_keys_ok [where P = P and f = f and row = row, OF ok row same ev] t0 pos by (simp_all add: f_def)
  have upd: "set rows' = insert (f row) (set rows - {row})"
    unfolding rows' by (rule one_row_updated [where P = P and row = row, OF ok row]) (rule same)
  have "cm_until c \<le> t \<or> (\<exists>x \<in> set rows'. keeps_answer c x)" if c: "c \<in> set cs" for c
  proof (cases "cm_until c \<le> t")
    case False
    with kept0 c obtain x where x: "x \<in> set rows" "keeps_answer c x" unfolding work_ok_def by blast
    then have "x \<noteq> row" using free False t0 by (auto simp: keeps_answer_def is_pending_def)
    with x show ?thesis unfolding upd by auto
  qed simp
  moreover have "is_pending (f row)" by (simp add: f_def is_pending_def)
  ultimately show "work_ok t rows' cs" using kept0 unfolding work_ok_def upd by auto
  have pks: "ik_pk x \<noteq> j" if "x \<in> set rows" "x \<noteq> row" for x
    using that row pk keys_okD(1) [OF ok] distinct_map_unique by metis
  have "same_question r (f row)" using key by (simp add: f_def same_question_def same_key_def)
  then show "phase_ok t k rows' cs r (Holding j t0)"
    using t0 pks by (auto simp: upd f_def)
qed

lemma complete_key_ok:
  assumes run: "complete_key t j t0 st body ret rows = Some rows'" and ok: "keys_ok t k rows"
    and kept0: "work_ok t rows cs" and ph: "phase_ok t k rows cs r (Holding j t0)"
    and ret: "ret = rq_retention r" "0 < rq_retention r"
    and c: "c = \<lparr>cm_request = r, cm_at = t, cm_until = t + ret, cm_status = st, cm_body = body\<rparr>"
  shows "keys_ok t k rows'" and "work_ok t rows' (cs @ [c])" and "evolves k rows rows'"
proof -
  define P where "P = mine j t0"
  define f where "f = (\<lambda>row :: key_row. row\<lparr>ik_status := Some st, ik_body := body, ik_expires_at := t + ret\<rparr>)"
  have rows': "rows' = update_where P f rows" and n: "length (filter P rows) = 1"
    using run unfolding complete_key_def P_def f_def by (simp_all split: if_splits)
  obtain row where row: "row \<in> set rows" "P row" by (rule one_matched [OF ok n])
  have pk: "\<And>x. P x \<Longrightarrow> ik_pk x = j" unfolding P_def mine_def by simp
  then have same: "\<And>x. P x \<Longrightarrow> ik_pk x = ik_pk row" using row(2) by metis
  have mine: "ik_created_at row = t0" "is_pending row" using row(2) unfolding P_def mine_def by auto
  have q: "same_question r row" using ph row pk mine by auto
  have ev: "evolved row (f row)" by (simp add: evolved_def f_def)
  have "ik_created_at row \<le> t" using keys_okD(3) [OF ok row(1)] .
  then show "keys_ok t k rows'" and "evolves k rows rows'"
    unfolding rows' using update_keys_ok [where P = P and f = f and row = row, OF ok row same ev] ret by (simp_all add: f_def)
  have upd: "set rows' = insert (f row) (set rows - {row})"
    unfolding rows' by (rule one_row_updated [where P = P and row = row, OF ok row]) (rule same)
  have still: "\<exists>x \<in> set rows'. keeps_answer d x" if x: "x \<in> set rows" "keeps_answer d x" for d x
  proof -
    have "x \<noteq> row" using x mine by (auto simp: keeps_answer_def is_pending_def)
    with x show ?thesis unfolding upd by auto
  qed
  have kept: "keeps_answer c (f row)"
    using q by (simp add: c f_def keeps_answer_def same_question_def same_key_def)
  have over: "spaced d c" if d: "d \<in> set cs" for d
    unfolding spaced_def
  proof
    assume k: "same_request_key (cm_request d) (cm_request c)"
    show "cm_until d \<le> cm_at c"
    proof (rule ccontr)
      assume "\<not> cm_until d \<le> cm_at c"
      then have "\<not> cm_until d \<le> t" by (simp add: c)
      with kept0 d obtain x where x: "x \<in> set rows" "keeps_answer d x" unfolding work_ok_def by blast
      then have "same_key r x" using k by (auto simp: c keeps_answer_def same_question_def same_key_def same_request_key_def)
      then have "x = row" using keys_okD(5) [OF ok x(1) row(1)] q by (simp add: same_question_def)
      with x mine show False by (simp add: keeps_answer_def is_pending_def)
    qed
  qed
  show "work_ok t rows' (cs @ [c])"
    unfolding work_ok_def
  proof (intro conjI ballI impI)
    fix d
    assume "d \<in> set (cs @ [c])"
    then consider (old) "d \<in> set cs" | (new) "d = c" by auto
    note cases = this
    show "cm_at d \<le> t" using cases by cases (use kept0 in \<open>auto simp: work_ok_def c\<close>)
    show "cm_until d = cm_at d + rq_retention (cm_request d)"
      using cases by cases (use kept0 ret(1) in \<open>auto simp: work_ok_def c\<close>)
    show "cm_until d \<le> t \<or> (\<exists>x \<in> set rows'. keeps_answer d x)"
      using cases
    proof cases
      case old
      with kept0 have "cm_until d \<le> t \<or> (\<exists>x \<in> set rows. keeps_answer d x)" unfolding work_ok_def by blast
      with still show ?thesis by blast
    next
      case new
      with kept show ?thesis unfolding upd by blast
    qed
  next
    fix x
    assume "x \<in> set rows'" and "\<not> is_pending x"
    then show "\<exists>d \<in> set (cs @ [c]). keeps_answer d x"
      using kept0 kept unfolding upd work_ok_def by auto
  next
    show "sorted_wrt spaced (cs @ [c])"
      using kept0 over unfolding work_ok_def by (simp add: sorted_wrt_append)
  qed
qed

lemma release_key_ok:
  assumes "keys_ok t k rows" and "work_ok t rows cs"
  shows "keys_ok t k (release_key j t0 rows)" and "work_ok t (release_key j t0 rows) cs"
    and "evolves k rows (release_key j t0 rows)"
  unfolding release_key_def
  by (rule keys_ok_filter [OF assms(1)])
    (auto intro!: work_ok_filter [OF assms(2)] evolves_sub simp: mine_def)

lemma purge_ok:
  assumes "keys_ok t k rows" and "work_ok t rows cs"
  shows "keys_ok t k (fst (purge_expired_keys t rows))" and "work_ok t (fst (purge_expired_keys t rows)) cs"
    and "evolves k rows (fst (purge_expired_keys t rows))"
  unfolding purge_expired_keys_def fst_conv
  by (rule keys_ok_filter [OF assms(1)])
    (auto intro!: work_ok_filter [OF assms(2)] evolves_sub)

section \<open>Every step\<close>

lemma replay_okI:
  assumes "keys_ok (clock w') (next_key w') (key_rows w')" and "work_ok (clock w') (key_rows w') (work w')"
    and ok: "replay_ok w" and fr: "clock w \<le> clock w'" "next_key w \<le> next_key w'"
      "evolves (next_key w) (key_rows w) (key_rows w')" "set (work w) \<subseteq> set (work w')"
    and new: "\<And>p r ph. requests w' p = Some (r, ph) \<Longrightarrow> requests w p = Some (r, ph) \<or>
      0 < rq_retention r \<and> phase_ok (clock w') (next_key w') (key_rows w') (work w') r ph"
  shows "replay_ok w'"
proof -
  have "phase_ok (clock w') (next_key w') (key_rows w') (work w') r ph \<and> 0 < rq_retention r"
    if "requests w' p = Some (r, ph)" for p r ph
    using new [OF that] ok phase_frame [OF _ fr] unfolding replay_ok_def by metis
  with assms(1,2) show ?thesis unfolding replay_ok_def by blast
qed

lemma replay_okD:
  assumes "replay_ok w"
  shows "keys_ok (clock w) (next_key w) (key_rows w)" and "work_ok (clock w) (key_rows w) (work w)"
    and "requests w p = Some (r, ph) \<Longrightarrow> 0 < rq_retention r"
    and "requests w p = Some (r, ph) \<Longrightarrow> phase_ok (clock w) (next_key w) (key_rows w) (work w) r ph"
  using assms unfolding replay_ok_def by blast+

lemma judge_replays:
  assumes "judge t r row = Replay st body"
  shows "ik_hash row = rq_hash r" and "ik_endpoint row = rq_endpoint r" and "ik_status row = Some st"
    and "ik_body row = body"
  using assms unfolding judge_def by (auto split: if_splits option.splits)

lemma found_row:
  assumes ok: "keys_ok t k rows" "work_ok t rows cs" and t0: "t0 \<le> t"
    and found: "List.find (same_key r) rows = Some row"
  shows "judge t0 r row = Replay st body \<Longrightarrow> phase_ok t k rows cs r (Finished (Stored st body))"
    and "phase_ok t k rows cs r (Taking n t0 abandoned (ik_pk row))"
proof -
  have row: "row \<in> set rows" "same_key r row" using find_Some_iff [OF found] by auto
  show "phase_ok t k rows cs r (Taking n t0 abandoned (ik_pk row))"
    using row t0 keys_okD(2) [OF ok(1) row(1)] distinct_map_unique [OF keys_okD(1) [OF ok(1)]] by auto
  assume "judge t0 r row = Replay st body"
  note j = judge_replays [OF this]
  then obtain c where c: "c \<in> set cs" "keeps_answer c row"
    using ok(2) row(1) unfolding work_ok_def is_pending_def by force
  then have "answer_of r st body c"
    using row(2) j by (auto simp: answer_of_def keeps_answer_def same_question_def same_key_def
        same_request_def same_request_key_def)
  with c(1) show "phase_ok t k rows cs r (Finished (Stored st body))" by auto
qed

lemma reserving_ok:
  assumes ok: "keys_ok t k rows" "work_ok t rows cs" and ph: "phase_ok t k rows cs r ph" and pos: "0 < rq_retention r"
    and run: "reserving t r ph (rows, k) = (ph', rows', k')"
  shows "keys_ok t k' rows' \<and> work_ok t rows' cs \<and> k \<le> k' \<and> evolves k rows rows' \<and> phase_ok t k' rows' cs r ph'"
proof (cases ph)
  case (Trying n)
  show ?thesis
  proof (cases "\<exists>rs. n < RESERVE_ATTEMPTS \<and> insert_key t r k rows = Inr rs")
    case True
    then obtain rs where n: "n < RESERVE_ATTEMPTS" and ins: "insert_key t r k rows = Inr rs" by blast
    then have "ph' = Holding k t" "rows' = rs" "k' = Suc k" using run Trying by auto
    with insert_key_ok [OF ins ok pos] show ?thesis by simp
  next
    case False
    then have "rows' = rows" "k' = k" "phase_ok t k rows cs r ph'"
      using run Trying by (auto split: if_splits sum.splits exn.splits)
    with ok show ?thesis by (simp add: evolves_sub)
  qed
next
  case (Insert_refused n t0)
  have "rows' = rows" "k' = k" "phase_ok t k rows cs r ph'"
    using run Insert_refused ph found_row [OF ok]
    by (auto split: if_splits option.splits verdict.splits simp del: phase_ok.simps(2,4))
  with ok show ?thesis by (simp add: evolves_sub)
next
  case (Taking n t0 abandoned j)
  show ?thesis
  proof (cases "take_over abandoned t0 j r rows")
    case None
    with run Taking ok show ?thesis by (auto simp: evolves_sub)
  next
    case (Some rs)
    then have "ph' = Holding j t0" "rows' = rs" "k' = k" using run Taking by auto
    with take_over_ok [OF Some ok] ph Taking pos show ?thesis by simp
  qed
next
  case (Holding j t0)
  with run ph ok show ?thesis by (auto simp: evolves_sub)
next
  case (Finished out)
  with run ph ok show ?thesis by (auto simp: evolves_sub)
qed

lemma reserve_move_ok:
  assumes ok: "replay_ok w" and at: "requests w p = Some (r, ph)"
  shows "replay_ok (reserve_move p r ph w)"
proof -
  obtain ph' rows k where run: "reserving (clock w) r ph (key_rows w, next_key w) = (ph', rows, k)"
    by (metis prod_cases3)
  have w': "reserve_move p r ph w = at_phase p r ph' (w\<lparr>key_rows := rows, next_key := k\<rparr>)"
    by (simp add: reserve_move_def run)
  note r = replay_okD(3,4) [OF ok at]
  note stmt = reserving_ok [OF replay_okD(1,2) [OF ok] r(2,1) run]
  show ?thesis
    unfolding w' using stmt r
    by (intro replay_okI [OF _ _ ok]) (auto simp: at_phase_def split: if_splits)
qed

lemma commit_move_ok:
  assumes ok: "replay_ok w" and at: "requests w p = Some (r, Holding j t0)"
  shows "replay_ok (commit_move p r j t0 st body w)"
proof (cases "complete_key (clock w) j t0 st body (rq_retention r) (key_rows w)")
  case None
  have "replay_ok (at_phase p r (Finished (Refused e)) w)" for e
    using replay_okD [OF ok] at
    by (intro replay_okI [OF _ _ ok]) (auto simp: at_phase_def evolves_sub split: if_splits)
  with None show ?thesis by (simp add: commit_move_def)
next
  case (Some rows)
  note r = replay_okD(3,4) [OF ok at]
  note stmt = complete_key_ok [OF Some replay_okD(1,2) [OF ok] r(2) refl r(1) refl]
  show ?thesis
    unfolding commit_move_def Some option.case using stmt r
    by (intro replay_okI [OF _ _ ok]) (auto simp: at_phase_def split: if_splits)
qed

theorem replay_step_ok: "replay_step w w' \<Longrightarrow> replay_ok w \<Longrightarrow> replay_ok w'"
proof (induction rule: replay_step.induct)
  case (ticking w t)
  then show ?case
    using replay_okD(1,2) [OF ticking(2)]
    by (intro replay_okI [OF _ _ ticking(2)]) (auto simp: keys_ok_later work_ok_later evolves_sub)
next
  case (arriving w p r)
  then show ?case
    using replay_okD(1,2) [OF arriving(3)]
    by (intro replay_okI [OF _ _ arriving(3)]) (auto simp: at_phase_def evolves_sub split: if_splits)
next
  case (moving w p r ph)
  then show ?case by (intro reserve_move_ok)
next
  case (committing w p r k t0 st body)
  then show ?case by (intro commit_move_ok)
next
  case (failing w p r k t0)
  note ok = failing(2)
  show ?case
    using release_key_ok [OF replay_okD(1,2) [OF ok]] replay_okD(3) [OF ok failing(1)]
    by (intro replay_okI [OF _ _ ok]) (auto simp: at_phase_def split: if_splits)
next
  case (dying w p r ph)
  then show ?case
    using replay_okD(1-3) [OF dying(3)]
    by (intro replay_okI [OF _ _ dying(3)]) (auto simp: at_phase_def evolves_sub split: if_splits)
next
  case (purging w)
  show ?case
    using purge_ok [OF replay_okD(1,2) [OF purging]]
    by (intro replay_okI [OF _ _ purging]) auto
qed

theorem replay_reachable_ok: "replay_reachable w \<Longrightarrow> replay_ok w"
  unfolding replay_reachable_def
proof (elim exE)
  fix t
  assume "replay_step\<^sup>*\<^sup>* (quiet_world t) w"
  then show "replay_ok w"
  proof (induction rule: rtranclp_induct)
    case base
    show ?case by (simp add: replay_ok_def quiet_world_def keys_ok_def work_ok_def)
  next
    case (step y z)
    then show ?case by (blast intro: replay_step_ok)
  qed
qed

lemma work_spaced:
  assumes "replay_reachable w" and "i < j" and "j < length (work w)"
    and "same_request_key (cm_request (work w ! i)) (cm_request (work w ! j))"
  shows "cm_at (work w ! i) + rq_retention (cm_request (work w ! i)) \<le> cm_at (work w ! j)"
proof -
  have ok: "work_ok (clock w) (key_rows w) (work w)"
    using replay_okD(2) [OF replay_reachable_ok [OF assms(1)]] .
  then have "spaced (work w ! i) (work w ! j)"
    using assms(2,3) unfolding work_ok_def by (auto simp: sorted_wrt_iff_nth_less)
  moreover have "cm_until (work w ! i) = cm_at (work w ! i) + rq_retention (cm_request (work w ! i))"
    using ok assms(2,3) unfolding work_ok_def by simp
  ultimately show ?thesis using assms(4) by (simp add: spaced_def)
qed

lemma replayed_is_own:
  assumes "replay_reachable w" and "requests w p = Some (r, Finished (Stored st body))"
  shows "\<exists>c \<in> set (work w). same_request r (cm_request c) \<and> cm_status c = st \<and> cm_body c = body"
  using replay_okD(4) [OF replay_reachable_ok [OF assms(1)] assms(2)] by (simp add: answer_of_def)

section \<open>How long a reservation can take\<close>

text \<open>The number of statements a request still has before it, at most; it falls with every statement.\<close>

fun statements_left :: "phase \<Rightarrow> nat" where
  "statements_left (Trying n) = 3 * (RESERVE_ATTEMPTS - n) + 1"
| "statements_left (Insert_refused n _) = 3 * (RESERVE_ATTEMPTS - n)"
| "statements_left (Taking n _ _ _) = 3 * (RESERVE_ATTEMPTS - n) - 1"
| "statements_left _ = 0"

fun in_rounds :: "phase \<Rightarrow> bool" where
  "in_rounds (Insert_refused n _) \<longleftrightarrow> n < RESERVE_ATTEMPTS"
| "in_rounds (Taking n _ _ _) \<longleftrightarrow> n < RESERVE_ATTEMPTS"
| "in_rounds _ \<longleftrightarrow> True"

lemma reserving_falls:
  assumes "reserving t r ph s = (ph', s')" and "in_rounds ph" and "0 < statements_left ph"
  shows "in_rounds ph' \<and> statements_left ph' < statements_left ph"
proof (cases s)
  case (Pair rows k)
  with assms show ?thesis
    by (cases ph)
      (auto simp: RESERVE_ATTEMPTS_def split: if_splits sum.splits exn.splits option.splits verdict.splits)
qed

text \<open>Alone with the table or not: after at most ten statements a request holds the key or has its answer.\<close>

lemma reservation_ends:
  fixes run :: "nat \<Rightarrow> phase" and world :: "nat \<Rightarrow> instant \<times> key_row list \<times> pk"
  assumes start: "run 0 = Trying 0"
    and step: "\<And>i. run (Suc i) = fst (reserving (fst (world i)) r (run i) (snd (world i)))"
  shows "(\<exists>k t0. run 10 = Holding k t0) \<or> (\<exists>out. run 10 = Finished out)"
proof -
  have "in_rounds (run i) \<and> statements_left (run i) \<le> 10 - i" for i
  proof (induction i)
    case 0
    then show ?case by (simp add: start RESERVE_ATTEMPTS_def)
  next
    case (Suc i)
    obtain ph' s' where run: "reserving (fst (world i)) r (run i) (snd (world i)) = (ph', s')"
      by (metis surj_pair)
    then have ph': "run (Suc i) = ph'" by (simp add: step)
    show ?case
    proof (cases "statements_left (run i) = 0")
      case True
      then have "ph' = run i"
        using run Suc by (cases "run i"; cases "snd (world i)") (auto simp: RESERVE_ATTEMPTS_def)
      with True Suc ph' show ?thesis by simp
    next
      case False
      with reserving_falls [OF run] Suc ph' show ?thesis by fastforce
    qed
  qed
  from this [of 10] show ?thesis by (cases "run 10") (auto simp: RESERVE_ATTEMPTS_def)
qed

end
