(* ===== verification/Example_Replay.thy ===== *)
theory Example_Replay
  imports Replay_Laws
begin

text \<open>
  One key presented three times: the first request records, the second gets the stored answer, the third
  comes when the window has closed, takes the row over and records again.
\<close>

definition asked :: keyed_request where
  "asked = \<lparr>rq_company = 1, rq_owner = Staff_principal 2, rq_key = ''k'', rq_endpoint = ''POST /faults'',
    rq_hash = ''h'', rq_retention = RETENTION\<rparr>"

definition first_asked :: replay_world where "first_asked = at_phase 0 asked (Trying 0) (quiet_world 0)"
definition first_held :: replay_world where "first_held = reserve_move 0 asked (Trying 0) first_asked"
definition first_done :: replay_world where "first_done = commit_move 0 asked 1 0 201 (Some ''5'') first_held"
definition second_asked :: replay_world where "second_asked = at_phase 1 asked (Trying 0) first_done"
definition second_met :: replay_world where "second_met = reserve_move 1 asked (Trying 0) second_asked"
definition second_answered :: replay_world where
  "second_answered = reserve_move 1 asked (Insert_refused 0 0) second_met"
definition next_day :: replay_world where "next_day = second_answered\<lparr>clock := RETENTION\<rparr>"
definition third_asked :: replay_world where "third_asked = at_phase 2 asked (Trying 0) next_day"
definition third_met :: replay_world where "third_met = reserve_move 2 asked (Trying 0) third_asked"
definition third_taking :: replay_world where
  "third_taking = reserve_move 2 asked (Insert_refused 0 RETENTION) third_met"
definition third_held :: replay_world where
  "third_held = reserve_move 2 asked (Taking 0 RETENTION False 1) third_taking"
definition third_done :: replay_world where
  "third_done = commit_move 2 asked 1 RETENTION 201 (Some ''6'') third_held"

lemmas asked_defs = asked_def quiet_world_def first_asked_def first_held_def first_done_def second_asked_def
  second_met_def second_answered_def next_day_def third_asked_def third_met_def third_taking_def third_held_def
  third_done_def at_phase_def reserve_move_def commit_move_def RESERVE_ATTEMPTS_def insert_key_def same_key_def
  judge_def take_over_def may_take_def complete_key_def mine_def is_pending_def RETENTION_def PENDING_TIMEOUT_def

lemma asked_phases:
  "requests first_asked 0 = Some (asked, Trying 0)"
  "requests first_held 0 = Some (asked, Holding 1 0)"
  "requests second_asked 1 = Some (asked, Trying 0)"
  "requests second_met 1 = Some (asked, Insert_refused 0 0)"
  "requests second_answered 1 = Some (asked, Finished (Stored 201 (Some ''5'')))"
  "requests third_asked 2 = Some (asked, Trying 0)"
  "requests third_met 2 = Some (asked, Insert_refused 0 RETENTION)"
  "requests third_taking 2 = Some (asked, Taking 0 RETENTION False 1)"
  "requests third_held 2 = Some (asked, Holding 1 RETENTION)"
  by (simp_all add: asked_defs)

lemma newly_asked:
  "requests (quiet_world 0) 0 = None" "requests first_done 1 = None" "requests next_day 2 = None"
  by (simp_all add: asked_defs)

lemma asked_retention: "0 < rq_retention asked"
  by code_simp

lemma later_day: "clock second_answered \<le> RETENTION"
  by code_simp

lemma third_work:
  "map cm_at (work third_done) = [0, RETENTION]" "map cm_body (work third_done) = [Some ''5'', Some ''6'']"
  "map cm_request (work third_done) = [asked, asked]"
  by (simp_all add: asked_defs)

lemma second_answered_reachable: "replay_step\<^sup>*\<^sup>* (quiet_world 0) second_answered"
proof -
  have "replay_step\<^sup>*\<^sup>* (quiet_world 0) first_asked"
    unfolding first_asked_def by (rule r_into_rtranclp) (rule arriving [OF newly_asked(1) asked_retention])
  also have "replay_step first_asked first_held"
    unfolding first_held_def by (rule moving [OF asked_phases(1)])
  also have "replay_step first_held first_done"
    unfolding first_done_def by (rule committing [OF asked_phases(2)]) simp_all
  also have "replay_step first_done second_asked"
    unfolding second_asked_def by (rule arriving [OF newly_asked(2) asked_retention])
  also have "replay_step second_asked second_met"
    unfolding second_met_def by (rule moving [OF asked_phases(3)])
  also have "replay_step second_met second_answered"
    unfolding second_answered_def by (rule moving [OF asked_phases(4)])
  finally show ?thesis .
qed

lemma third_done_reachable: "replay_reachable third_done"
proof -
  note second_answered_reachable
  also have "replay_step second_answered next_day"
    unfolding next_day_def by (rule ticking [OF later_day])
  also have "replay_step next_day third_asked"
    unfolding third_asked_def by (rule arriving [OF newly_asked(3) asked_retention])
  also have "replay_step third_asked third_met"
    unfolding third_met_def by (rule moving [OF asked_phases(6)])
  also have "replay_step third_met third_taking"
    unfolding third_taking_def by (rule moving [OF asked_phases(7)])
  also have "replay_step third_taking third_held"
    unfolding third_held_def by (rule moving [OF asked_phases(8)])
  also have "replay_step third_held third_done"
    unfolding third_done_def by (rule committing [OF asked_phases(9)]) simp_all
  finally show ?thesis unfolding replay_reachable_def by blast
qed

lemma second_reachable: "replay_reachable second_answered"
  unfolding replay_reachable_def using second_answered_reachable by blast

end
