(* ===== verification/Sessions.thy ===== *)
theory Sessions
  imports Tenancy
begin

text \<open>
  What staff sign-in (\<open>apps/users/services.py\<close>) and the customer portal (\<open>apps/portal/services.py\<close>)
  both keep: a table of refresh sessions, one row per token issued, whose rows of one device share a
  chain; and the lockout of \<open>apps/users/lockout.py\<close>, counted per address pair in the cache.
\<close>

section \<open>Refresh sessions (RefreshSession, PortalRefreshSession)\<close>

text \<open>\<open>ss_owner\<close> is the user of the one table, the portal account of the other.\<close>

record session =
  ss_pk :: pk
  ss_owner :: pk
  ss_chain :: pk
  ss_signed_in_at :: instant
  ss_token_hash :: string
  ss_expires_at :: instant
  ss_revoked_at :: "instant option"
  ss_user_agent :: string
  ss_ip_address :: "string option"
  ss_created_at :: instant

definition ACCESS_TOKEN_LIFETIME :: instant where "ACCESS_TOKEN_LIFETIME = 15 * 60 * 1000000"
definition REFRESH_TOKEN_LIFETIME :: instant where "REFRESH_TOKEN_LIFETIME = 30 * 24 * 60 * 60 * 1000000"

definition live_session :: "session \<Rightarrow> bool" where
  "live_session r \<longleftrightarrow> ss_revoked_at r = None"

text \<open>What accompanies a request: its user agent and address.\<close>

record caller =
  cl_agent :: string
  cl_ip :: "string option"

text \<open>\<open>.filter(..., revoked_at__isnull=True).update(revoked_at=timezone.now())\<close>\<close>

definition revoke_where :: "instant \<Rightarrow> (session \<Rightarrow> bool) \<Rightarrow> session list \<Rightarrow> session list" where
  "revoke_where t P rows = update_where (\<lambda>r. live_session r \<and> P r) (\<lambda>r. r\<lparr>ss_revoked_at := Some t\<rparr>) rows"

definition find_session :: "string \<Rightarrow> session list \<Rightarrow> session option" where
  "find_session h rows = List.find (\<lambda>r. ss_token_hash r = h) rows"

text \<open>
  The row \<open>issue_tokens\<close> writes: a rotation continues the chain and its sign-in time, a sign-in starts a
  chain. \<open>k\<close> stands for both keys drawn, the row's and the chain's.
\<close>

definition session_row ::
  "instant \<Rightarrow> pk \<Rightarrow> pk \<Rightarrow> string \<Rightarrow> caller \<Rightarrow> session option \<Rightarrow> session" where
  "session_row t k owner h cl continues =
    \<lparr>ss_pk = k, ss_owner = owner,
      ss_chain = (case continues of None \<Rightarrow> k | Some c \<Rightarrow> ss_chain c),
      ss_signed_in_at = (case continues of None \<Rightarrow> t | Some c \<Rightarrow> ss_signed_in_at c),
      ss_token_hash = h, ss_expires_at = t + REFRESH_TOKEN_LIFETIME, ss_revoked_at = None,
      ss_user_agent = take 255 (cl_agent cl), ss_ip_address = cl_ip cl, ss_created_at = t\<rparr>"

definition open_session ::
  "instant \<Rightarrow> pk \<Rightarrow> pk \<Rightarrow> string \<Rightarrow> caller \<Rightarrow> session option \<Rightarrow> session list \<Rightarrow> session list result" where
  "open_session t k owner h cl continues rows =
    (if find_session h rows \<noteq> None then Inl Integrity_error
     else Inr (rows @ [session_row t k owner h cl continues]))"

text \<open>
  What \<open>rotate_refresh_token\<close> finds when a token is presented: nothing, a revoked row - of a chain that
  has a live successor, or of one that has ended -, a row whose time is over, or a live one.
\<close>

datatype presented = Unknown_token | Replayed_token session | Ended_token session | Stale_token session | Good_token session

definition present :: "instant \<Rightarrow> string \<Rightarrow> session list \<Rightarrow> presented" where
  "present t h rows =
    (case find_session h rows of
       None \<Rightarrow> Unknown_token
     | Some r \<Rightarrow>
         if ss_revoked_at r \<noteq> None then
           if \<exists>x \<in> set rows. ss_owner x = ss_owner r \<and> ss_chain x = ss_chain r \<and> live_session x
           then Replayed_token r else Ended_token r
         else if ss_expires_at r \<le> t then Stale_token r
         else Good_token r)"

text \<open>The last statement of a rotation: the row presented is revoked, whatever it has become meanwhile.\<close>

definition revoke_row :: "instant \<Rightarrow> pk \<Rightarrow> session list \<Rightarrow> session list" where
  "revoke_row t k rows = update_where (\<lambda>r. ss_pk r = k) (\<lambda>r. r\<lparr>ss_revoked_at := Some t\<rparr>) rows"

text \<open>\<open>live_sessions\<close>: one entry per device, the newest row of each chain, newest first.\<close>

definition newest_first :: "session list \<Rightarrow> session list" where
  "newest_first rows = rev (sort_key (\<lambda>r. (ss_created_at r, ss_pk r)) rows)"

fun first_of_chain :: "session list \<Rightarrow> session list" where
  "first_of_chain [] = []"
| "first_of_chain (r # rs) = r # filter (\<lambda>x. ss_chain x \<noteq> ss_chain r) (first_of_chain rs)"

definition live_sessions :: "instant \<Rightarrow> pk \<Rightarrow> session list \<Rightarrow> session list" where
  "live_sessions t owner rows =
    first_of_chain (newest_first (filter (\<lambda>r. ss_owner r = owner \<and> live_session r \<and> t < ss_expires_at r) rows))"

section \<open>The lockout (apps/users/lockout.py)\<close>

definition MAX_ATTEMPTS :: nat where "MAX_ATTEMPTS = 5"
definition ATTEMPT_WINDOW :: instant where "ATTEMPT_WINDOW = 15 * 60 * 1000000"
definition LOCKOUT :: instant where "LOCKOUT = 15 * 60 * 1000000"

text \<open>
  The cache: per pair, the failures counted with the time the entry goes, and the time a lock goes. An entry
  is there until its time. The digest of a pair stands for the pair.
\<close>

type_synonym bucket = "string \<times> string"

record lock_cache =
  failure_counts :: "bucket \<Rightarrow> (nat \<times> instant) option"
  lock_until :: "bucket \<Rightarrow> instant option"

definition lower_char :: "char \<Rightarrow> char" where
  "lower_char c = (if 65 \<le> (of_char c :: nat) \<and> (of_char c :: nat) \<le> 90 then char_of ((of_char c :: nat) + 32) else c)"

text \<open>\<open>str.lower\<close>, on the characters of an e-mail address.\<close>

definition lower :: "string \<Rightarrow> string" where
  "lower s = List.map lower_char s"

definition bucket_of :: "string \<Rightarrow> string option \<Rightarrow> bucket" where
  "bucket_of email ip = (lower email, case ip of None \<Rightarrow> ''unknown'' | Some [] \<Rightarrow> ''unknown'' | Some a \<Rightarrow> a)"

definition is_locked :: "instant \<Rightarrow> bucket \<Rightarrow> lock_cache \<Rightarrow> bool" where
  "is_locked t b c = (case lock_until c b of None \<Rightarrow> False | Some x \<Rightarrow> t < x)"

text \<open>\<open>cache.add\<close> then \<open>cache.incr\<close>: the window runs from the first failure.\<close>

definition counted_failure :: "instant \<Rightarrow> bucket \<Rightarrow> lock_cache \<Rightarrow> nat \<times> instant" where
  "counted_failure t b c =
    (case failure_counts c b of
       Some (n, x) \<Rightarrow> if t < x then (n + 1, x) else (1, t + ATTEMPT_WINDOW)
     | None \<Rightarrow> (1, t + ATTEMPT_WINDOW))"

definition record_failure :: "instant \<Rightarrow> bucket \<Rightarrow> lock_cache \<Rightarrow> lock_cache" where
  "record_failure t b c =
    (let (n, x) = counted_failure t b c in
     if MAX_ATTEMPTS \<le> n
     then c\<lparr>lock_until := (lock_until c)(b \<mapsto> t + LOCKOUT), failure_counts := (failure_counts c)(b := None)\<rparr>
     else c\<lparr>failure_counts := (failure_counts c)(b \<mapsto> (n, x))\<rparr>)"

definition clear_bucket :: "bucket \<Rightarrow> lock_cache \<Rightarrow> lock_cache" where
  "clear_bucket b c = c\<lparr>failure_counts := (failure_counts c)(b := None), lock_until := (lock_until c)(b := None)\<rparr>"

end
