(* ===== verification/Accounts.thy ===== *)
theory Accounts
  imports Sessions Faults
begin

text \<open>
  \<open>apps/users/services.py\<close>: how people of a firm get in - registration, sign-in, sessions, one-time
  tokens, invitations - and how their accounts are managed. A rotation and a sign-in write even when
  they refuse (the sessions a replay ends, the failure that counts), so they return the state beside the
  answer; the others roll back with their error.
\<close>

section \<open>The tables\<close>

text \<open>
  The columns of \<open>User\<close> that only this component reads are maps from the user's key, beside the
  \<open>staff_users\<close> of the ledger.
\<close>

datatype token_purpose = Password_reset | Email_verification | Portal_invitation | Portal_password_reset

record one_time_token =
  ot_pk :: pk
  ot_user :: "pk option"
  ot_portal :: "pk option"
  ot_purpose :: token_purpose
  ot_token_hash :: string
  ot_expires_at :: instant
  ot_used_at :: "instant option"

record invitation = row +
  iv_email :: string
  iv_first_name :: string
  iv_last_name :: string
  iv_role :: role
  iv_token_hash :: string
  iv_expires_at :: instant
  iv_accepted_at :: "instant option"
  iv_invited_by :: "pk option"

text \<open>An e-mail that leaves when the transaction commits: the template, who to, the link's token.\<close>

record letter =
  lt_template :: string
  lt_to :: string
  lt_token :: string

record entrance = board +
  passwords :: "pk \<Rightarrow> string option"
  verified_emails :: "pk \<Rightarrow> bool"
  last_logins :: "pk \<Rightarrow> instant option"
  refresh_sessions :: "session list"
  one_time_tokens :: "one_time_token list"
  invitations :: "invitation list"
  cache :: lock_cache
  letters :: "letter list"

text \<open>SHA-256, the password hasher and its check.\<close>

record secrets =
  hash_token :: "string \<Rightarrow> string"
  make_password :: "string \<Rightarrow> string"
  password_matches :: "string \<Rightarrow> string \<Rightarrow> bool"

definition PASSWORD_RESET_LIFETIME :: instant where "PASSWORD_RESET_LIFETIME = 60 * 60 * 1000000"
definition EMAIL_VERIFICATION_LIFETIME :: instant where "EMAIL_VERIFICATION_LIFETIME = 24 * 60 * 60 * 1000000"
definition INVITATION_LIFETIME :: instant where "INVITATION_LIFETIME = 72 * 60 * 60 * 1000000"

definition refused :: "error_code \<Rightarrow> exn" where
  "refused c = Business_rule_error c"

definition send_letter :: "string \<Rightarrow> string \<Rightarrow> string \<Rightarrow> 'a entrance_scheme \<Rightarrow> 'a entrance_scheme" where
  "send_letter template to token s = s\<lparr>letters := letters s @ [\<lparr>lt_template = template, lt_to = to, lt_token = token\<rparr>]\<rparr>"

text \<open>\<open>User.objects\<close> is not scoped: it finds whoever it is asked for.\<close>

definition user_by_email :: "string \<Rightarrow> 'a books_scheme \<Rightarrow> staff option" where
  "user_by_email email s = List.find (\<lambda>u. staff_email u = email) (staff_users s)"

definition check_password :: "secrets \<Rightarrow> staff \<Rightarrow> string \<Rightarrow> 'a entrance_scheme \<Rightarrow> bool" where
  "check_password w u raw s = (case passwords s (pk u) of None \<Rightarrow> False | Some h \<Rightarrow> password_matches w raw h)"

definition set_password :: "env \<Rightarrow> secrets \<Rightarrow> staff \<Rightarrow> string \<Rightarrow> 'a entrance_scheme \<Rightarrow> 'a entrance_scheme" where
  "set_password e w u raw s = s\<lparr>passwords := (passwords s)(pk u \<mapsto> make_password w raw),
    staff_users := update_where (\<lambda>x. pk x = pk u) (\<lambda>x. x\<lparr>updated_at := now e\<rparr>) (staff_users s)\<rparr>"

section \<open>Sessions\<close>

text \<open>What the access token says of its holder, and the refresh token with its time.\<close>

record token_pair =
  tp_user :: pk
  tp_company :: pk
  tp_role :: role
  tp_access_until :: instant
  tp_refresh :: string
  tp_refresh_expires_at :: instant

text \<open>\<open>drawn\<close> is what \<open>secrets.token_urlsafe\<close> gave.\<close>

definition issue_tokens ::
  "env \<Rightarrow> secrets \<Rightarrow> staff \<Rightarrow> caller \<Rightarrow> session option \<Rightarrow> string \<Rightarrow> 'a entrance_scheme
    \<Rightarrow> (token_pair \<times> 'a entrance_scheme) result" where
  "issue_tokens e w u cl continues drawn s =
    bind_res (open_session (now e) (next_pk s) (pk u) (hash_token w drawn) cl continues (refresh_sessions s)) (\<lambda>rows.
    Inr (\<lparr>tp_user = pk u, tp_company = company_id u, tp_role = staff_role u,
        tp_access_until = now e + ACCESS_TOKEN_LIFETIME, tp_refresh = drawn,
        tp_refresh_expires_at = now e + REFRESH_TOKEN_LIFETIME\<rparr>,
      s\<lparr>next_pk := Suc (next_pk s), refresh_sessions := rows\<rparr>))"

definition revoke_sessions :: "env \<Rightarrow> (session \<Rightarrow> bool) \<Rightarrow> 'a entrance_scheme \<Rightarrow> 'a entrance_scheme" where
  "revoke_sessions e P s = s\<lparr>refresh_sessions := revoke_where (now e) P (refresh_sessions s)\<rparr>"

definition revoke_all_sessions :: "env \<Rightarrow> pk \<Rightarrow> 'a entrance_scheme \<Rightarrow> 'a entrance_scheme" where
  "revoke_all_sessions e u s = revoke_sessions e (\<lambda>r. ss_owner r = u) s"

text \<open>The transaction at the end of a rotation: it revokes the row it was given, whatever that is now.\<close>

definition commit_rotation ::
  "env \<Rightarrow> secrets \<Rightarrow> staff \<Rightarrow> session \<Rightarrow> caller \<Rightarrow> string \<Rightarrow> 'a entrance_scheme
    \<Rightarrow> (token_pair \<times> 'a entrance_scheme) result" where
  "commit_rotation e w u r cl drawn s =
    issue_tokens e w u cl (Some (r\<lparr>ss_revoked_at := Some (now e)\<rparr>)) drawn
      (s\<lparr>refresh_sessions := revoke_row (now e) (ss_pk r) (refresh_sessions s)\<rparr>)"

definition rotate_refresh_token ::
  "env \<Rightarrow> secrets \<Rightarrow> string \<Rightarrow> caller \<Rightarrow> string \<Rightarrow> 'a entrance_scheme
    \<Rightarrow> token_pair result \<times> 'a entrance_scheme" where
  "rotate_refresh_token e w token cl drawn s =
    (case present (now e) (hash_token w token) (refresh_sessions s) of
       Unknown_token \<Rightarrow> (Inl (refused TOKEN_INVALID), s)
     | Replayed_token r \<Rightarrow> (Inl (refused TOKEN_INVALID), revoke_all_sessions e (ss_owner r) s)
     | Ended_token r \<Rightarrow> (Inl (refused TOKEN_INVALID), s)
     | Stale_token r \<Rightarrow> (Inl (refused TOKEN_EXPIRED), s)
     | Good_token r \<Rightarrow>
         (case by_pk (ss_owner r) (staff_users s) of
            None \<Rightarrow> (Inl (Crash Does_not_exist), s)
          | Some u \<Rightarrow>
              if \<not> staff_is_active u then (Inl (refused ACCOUNT_INACTIVE), s)
              else case commit_rotation e w u r cl drawn s of
                Inl err \<Rightarrow> (Inl err, s)
              | Inr (pair, s') \<Rightarrow> (Inr pair, s')))"

definition revoke_refresh_token :: "env \<Rightarrow> secrets \<Rightarrow> string \<Rightarrow> 'a entrance_scheme \<Rightarrow> 'a entrance_scheme" where
  "revoke_refresh_token e w token s = revoke_sessions e (\<lambda>r. ss_token_hash r = hash_token w token) s"

definition session_for_refresh_token :: "secrets \<Rightarrow> pk \<Rightarrow> string option \<Rightarrow> 'a entrance_scheme \<Rightarrow> session option" where
  "session_for_refresh_token w u token s =
    (case token of None \<Rightarrow> None | Some t \<Rightarrow>
      if t = [] then None
      else List.find (\<lambda>r. ss_owner r = u \<and> ss_token_hash r = hash_token w t) (refresh_sessions s))"

definition revoke_session :: "env \<Rightarrow> pk \<Rightarrow> pk \<Rightarrow> 'a entrance_scheme \<Rightarrow> bool \<times> 'a entrance_scheme" where
  "revoke_session e u chain s =
    (\<exists>r \<in> set (refresh_sessions s). live_session r \<and> ss_owner r = u \<and> ss_chain r = chain,
     revoke_sessions e (\<lambda>r. ss_owner r = u \<and> ss_chain r = chain) s)"

definition revoke_other_sessions :: "env \<Rightarrow> pk \<Rightarrow> session option \<Rightarrow> 'a entrance_scheme \<Rightarrow> nat \<times> 'a entrance_scheme" where
  "revoke_other_sessions e u keep s =
    (let P = (\<lambda>r. ss_owner r = u \<and> (case keep of None \<Rightarrow> True | Some c \<Rightarrow> ss_chain r \<noteq> ss_chain c)) in
     (length (filter (\<lambda>r. live_session r \<and> P r) (refresh_sessions s)), revoke_sessions e P s))"

section \<open>Signing in\<close>

definition authenticate ::
  "env \<Rightarrow> secrets \<Rightarrow> string \<Rightarrow> string \<Rightarrow> string option \<Rightarrow> 'a entrance_scheme \<Rightarrow> staff result \<times> 'a entrance_scheme" where
  "authenticate e w email password ip s =
    (let email = lower email; b = bucket_of email ip in
     if is_locked (now e) b (cache s) then (Inl (refused ACCOUNT_LOCKED), s)
     else case user_by_email email s of
       None \<Rightarrow> (Inl (refused INVALID_CREDENTIALS), s\<lparr>cache := record_failure (now e) b (cache s)\<rparr>)
     | Some u \<Rightarrow>
         if \<not> check_password w u password s
         then (Inl (refused INVALID_CREDENTIALS), s\<lparr>cache := record_failure (now e) b (cache s)\<rparr>)
         else if \<not> staff_is_active u then (Inl (refused ACCOUNT_INACTIVE), s)
         else (Inr u, s\<lparr>cache := clear_bucket b (cache s), last_logins := (last_logins s)(pk u \<mapsto> now e),
           staff_users := update_where (\<lambda>x. pk x = pk u) (\<lambda>x. x\<lparr>updated_at := now e\<rparr>) (staff_users s)\<rparr>))"

definition change_password ::
  "env \<Rightarrow> secrets \<Rightarrow> staff \<Rightarrow> string \<Rightarrow> string \<Rightarrow> session option \<Rightarrow> caller \<Rightarrow> string \<Rightarrow> 'a entrance_scheme
    \<Rightarrow> (token_pair \<times> 'a entrance_scheme) result" where
  "change_password e w u current fresh current_session cl drawn s =
    (if \<not> check_password w u current s then Inl (refused INVALID_CREDENTIALS)
     else issue_tokens e w u cl current_session drawn (revoke_all_sessions e (pk u) (set_password e w u fresh s)))"

section \<open>One-time tokens\<close>

definition retire_tokens :: "env \<Rightarrow> (one_time_token \<Rightarrow> bool) \<Rightarrow> 'a entrance_scheme \<Rightarrow> 'a entrance_scheme" where
  "retire_tokens e P s = s\<lparr>one_time_tokens := update_where (\<lambda>t. P t \<and> ot_used_at t = None)
    (\<lambda>t. t\<lparr>ot_used_at := Some (now e)\<rparr>) (one_time_tokens s)\<rparr>"

definition PORTAL_PURPOSES :: "token_purpose list" where
  "PORTAL_PURPOSES = [Portal_invitation, Portal_password_reset]"

definition one_principal :: "one_time_token \<Rightarrow> bool" where
  "one_principal t \<longleftrightarrow> (ot_user t \<noteq> None \<and> ot_portal t = None \<and> ot_purpose t \<notin> set PORTAL_PURPOSES) \<or>
    (ot_user t = None \<and> ot_portal t \<noteq> None \<and> ot_purpose t \<in> set PORTAL_PURPOSES)"

definition insert_token :: "one_time_token \<Rightarrow> 'a entrance_scheme \<Rightarrow> 'a entrance_scheme result" where
  "insert_token t s =
    (if \<not> one_principal t \<or> (\<exists>x \<in> set (one_time_tokens s). ot_token_hash x = ot_token_hash t) then Inl Integrity_error
     else Inr (s\<lparr>next_pk := Suc (next_pk s), one_time_tokens := one_time_tokens s @ [t\<lparr>ot_pk := next_pk s\<rparr>]\<rparr>))"

definition issue_one_time_token ::
  "env \<Rightarrow> secrets \<Rightarrow> pk \<Rightarrow> token_purpose \<Rightarrow> instant \<Rightarrow> string \<Rightarrow> 'a entrance_scheme \<Rightarrow> 'a entrance_scheme result" where
  "issue_one_time_token e w u purpose lifetime drawn s =
    insert_token \<lparr>ot_pk = 0, ot_user = Some u, ot_portal = None, ot_purpose = purpose,
        ot_token_hash = hash_token w drawn, ot_expires_at = now e + lifetime, ot_used_at = None\<rparr>
      (retire_tokens e (\<lambda>t. ot_user t = Some u \<and> ot_purpose t = purpose) s)"

text \<open>The read and the checks of \<open>_consume_one_time_token\<close>, then its write.\<close>

definition usable_token :: "env \<Rightarrow> secrets \<Rightarrow> string \<Rightarrow> token_purpose \<Rightarrow> 'a entrance_scheme \<Rightarrow> one_time_token result" where
  "usable_token e w token purpose s =
    (case List.find (\<lambda>t. ot_token_hash t = hash_token w token \<and> ot_purpose t = purpose) (one_time_tokens s) of
       None \<Rightarrow> Inl (refused TOKEN_INVALID)
     | Some t \<Rightarrow>
         if ot_used_at t \<noteq> None then Inl (refused TOKEN_INVALID)
         else if ot_expires_at t \<le> now e then Inl (refused TOKEN_EXPIRED)
         else Inr t)"

definition mark_used :: "env \<Rightarrow> one_time_token \<Rightarrow> 'a entrance_scheme \<Rightarrow> 'a entrance_scheme" where
  "mark_used e t s = s\<lparr>one_time_tokens := update_where (\<lambda>x. ot_pk x = ot_pk t)
    (\<lambda>x. x\<lparr>ot_used_at := Some (now e)\<rparr>) (one_time_tokens s)\<rparr>"

definition consume_one_time_token ::
  "env \<Rightarrow> secrets \<Rightarrow> string \<Rightarrow> token_purpose \<Rightarrow> 'a entrance_scheme \<Rightarrow> (staff \<times> 'a entrance_scheme) result" where
  "consume_one_time_token e w token purpose s =
    bind_res (usable_token e w token purpose s) (\<lambda>t.
    case ot_user t of
      None \<Rightarrow> Inl (Crash Assertion_error)
    | Some k \<Rightarrow> bind_res (get_row k (staff_users s)) (\<lambda>u. Inr (u, mark_used e t s)))"

definition request_password_reset ::
  "env \<Rightarrow> secrets \<Rightarrow> string \<Rightarrow> string \<Rightarrow> 'a entrance_scheme \<Rightarrow> (string option \<times> 'a entrance_scheme) result" where
  "request_password_reset e w email drawn s =
    (case List.find (\<lambda>u. staff_email u = lower email \<and> staff_is_active u) (staff_users s) of
       None \<Rightarrow> Inr (None, s)
     | Some u \<Rightarrow>
         bind_res (issue_one_time_token e w (pk u) Password_reset PASSWORD_RESET_LIFETIME drawn s) (\<lambda>s.
         Inr (Some drawn, send_letter ''password_reset'' (staff_email u) drawn s)))"

definition confirm_password_reset ::
  "env \<Rightarrow> secrets \<Rightarrow> string \<Rightarrow> string \<Rightarrow> string option \<Rightarrow> 'a entrance_scheme \<Rightarrow> (staff \<times> 'a entrance_scheme) result" where
  "confirm_password_reset e w token fresh ip s =
    bind_res (consume_one_time_token e w token Password_reset s) (\<lambda>(u, s).
    let s = set_password e w u fresh s;
        s = s\<lparr>cache := clear_bucket (bucket_of (staff_email u) ip) (cache s)\<rparr>
    in Inr (u, revoke_all_sessions e (pk u) s))"

definition request_email_verification ::
  "env \<Rightarrow> secrets \<Rightarrow> staff \<Rightarrow> string \<Rightarrow> 'a entrance_scheme \<Rightarrow> 'a entrance_scheme result" where
  "request_email_verification e w u drawn s =
    bind_res (issue_one_time_token e w (pk u) Email_verification EMAIL_VERIFICATION_LIFETIME drawn s) (\<lambda>s.
    Inr (send_letter ''email_verification'' (staff_email u) drawn s))"

definition confirm_email_verification ::
  "env \<Rightarrow> secrets \<Rightarrow> string \<Rightarrow> 'a entrance_scheme \<Rightarrow> (staff \<times> 'a entrance_scheme) result" where
  "confirm_email_verification e w token s =
    bind_res (consume_one_time_token e w token Email_verification s) (\<lambda>(u, s).
    Inr (u, s\<lparr>verified_emails := (verified_emails s)(pk u := True),
      staff_users := update_where (\<lambda>x. pk x = pk u) (\<lambda>x. x\<lparr>updated_at := now e\<rparr>) (staff_users s)\<rparr>))"

section \<open>New people\<close>

text \<open>\<open>UserManager.create_user\<close>: the address is unique over every firm.\<close>

definition create_user ::
  "env \<Rightarrow> secrets \<Rightarrow> string \<Rightarrow> string \<Rightarrow> pk \<Rightarrow> string \<Rightarrow> string \<Rightarrow> role \<Rightarrow> bool \<Rightarrow> 'a entrance_scheme
    \<Rightarrow> (staff \<times> 'a entrance_scheme) result" where
  "create_user e w email password co first last_name r verified s =
    (let u = \<lparr>pk = next_pk s, company_id = co, created_at = now e, updated_at = now e, created_by = None,
       updated_by = None, is_deleted = False, deleted_at = None, staff_first_name = first,
       staff_last_name = last_name, staff_email = lower email, staff_role = r, staff_is_active = True\<rparr> in
     if email = [] then Inl (Crash Value_error)
     else if 150 < length email \<or> 60 < length first \<or> 60 < length last_name then Inl (Crash Data_error)
     else if user_by_email (lower email) s \<noteq> None then Inl Integrity_error
     else Inr (u, s\<lparr>next_pk := Suc (next_pk s), staff_users := staff_users s @ [u],
       passwords := (passwords s)(pk u := if password = [] then None else Some (make_password w password)),
       verified_emails := (verified_emails s)(pk u := verified),
       last_logins := (last_logins s)(pk u := None)\<rparr>))"

definition register_company ::
  "env \<Rightarrow> secrets \<Rightarrow> string \<Rightarrow> string \<Rightarrow> string \<Rightarrow> string \<Rightarrow> string \<Rightarrow> 'a entrance_scheme
    \<Rightarrow> (company \<times> staff \<times> 'a entrance_scheme) result" where
  "register_company e w first last_name email password drawn s =
    (if user_by_email (lower email) s \<noteq> None then Inl (refused EMAIL_ALREADY_REGISTERED)
     else
       let company = \<lparr>co_pk = next_pk s, co_is_deleted = False, co_updated_at = now e, co_updated_by = None,
             co_is_active = True, ledger_closed_through = None\<rparr>;
           s = s\<lparr>next_pk := Suc (next_pk s), companies := companies s @ [company]\<rparr>;
           sys = e\<lparr>ctx := system_context (ctx e)\<rparr> in
       bind_res (create_user sys w email password (co_pk company) first last_name Owner False s) (\<lambda>(owner, s).
       bind_res (create_default_cash_account sys company s) (\<lambda>(_, s).
       bind_res (request_email_verification e w owner drawn s) (\<lambda>s.
       Inr (company, owner, s)))))"

definition pending_invitation :: "env \<Rightarrow> string \<Rightarrow> 'a entrance_scheme \<Rightarrow> bool" where
  "pending_invitation e email s \<longleftrightarrow>
    (\<exists>i \<in> set (objects (ctx e) (invitations s)). iv_email i = email \<and> iv_accepted_at i = None \<and> now e < iv_expires_at i)"

definition create_invitation ::
  "env \<Rightarrow> secrets \<Rightarrow> pk \<Rightarrow> string \<Rightarrow> string \<Rightarrow> string \<Rightarrow> role \<Rightarrow> pk \<Rightarrow> string \<Rightarrow> 'a entrance_scheme
    \<Rightarrow> (invitation \<times> 'a entrance_scheme) result" where
  "create_invitation e w co email first last_name r invited_by drawn s =
    (if user_by_email (lower email) s \<noteq> None then Inl (refused EMAIL_ALREADY_REGISTERED)
     else if pending_invitation e (lower email) s then Inl (refused INVITATION_ALREADY_PENDING)
     else
       let i = \<lparr>pk = 0, company_id = co, created_at = 0, updated_at = 0, created_by = None, updated_by = None,
         is_deleted = False, deleted_at = None, iv_email = lower email, iv_first_name = first,
         iv_last_name = last_name, iv_role = r, iv_token_hash = hash_token w drawn,
         iv_expires_at = now e + INVITATION_LIFETIME, iv_accepted_at = None, iv_invited_by = Some invited_by\<rparr> in
       bind_res (db_insert e invitations_update
         (length email \<le> 150 \<and> length first \<le> 60 \<and> length last_name \<le> 60)
         (\<forall>x \<in> set (invitations s). iv_token_hash x \<noteq> iv_token_hash i) i s) (\<lambda>(i, s).
       Inr (i, send_letter ''invitation'' (iv_email i) drawn s)))"

definition save_invitation :: "env \<Rightarrow> invitation \<Rightarrow> 'a entrance_scheme \<Rightarrow> 'a entrance_scheme result" where
  "save_invitation e i s =
    (if \<exists>x \<in> set (invitations s). pk x \<noteq> pk i \<and> iv_token_hash x = iv_token_hash i then Inl Integrity_error
     else bind_res (save_row e i (invitations s)) (\<lambda>rows. Inr (s\<lparr>invitations := rows\<rparr>)))"

definition resend_invitation ::
  "env \<Rightarrow> secrets \<Rightarrow> invitation \<Rightarrow> string \<Rightarrow> 'a entrance_scheme \<Rightarrow> 'a entrance_scheme result" where
  "resend_invitation e w i drawn s =
    (if iv_accepted_at i \<noteq> None then Inl (refused TOKEN_INVALID)
     else
       let i = i\<lparr>iv_token_hash := hash_token w drawn, iv_expires_at := now e + INVITATION_LIFETIME\<rparr> in
       bind_res (save_invitation e i s) (\<lambda>s. Inr (send_letter ''invitation'' (iv_email i) drawn s)))"

text \<open>In the system context a query sees every firm's live invitations.\<close>

definition invitation_for_token :: "env \<Rightarrow> secrets \<Rightarrow> string \<Rightarrow> 'a entrance_scheme \<Rightarrow> invitation result" where
  "invitation_for_token e w token s =
    (case List.find (\<lambda>i. iv_token_hash i = hash_token w token) (objects (system_context (ctx e)) (invitations s)) of
       None \<Rightarrow> Inl (refused TOKEN_INVALID)
     | Some i \<Rightarrow>
         if iv_accepted_at i \<noteq> None then Inl (refused TOKEN_INVALID)
         else if iv_expires_at i \<le> now e then Inl (refused TOKEN_EXPIRED)
         else Inr i)"

definition accept_invitation ::
  "env \<Rightarrow> secrets \<Rightarrow> string \<Rightarrow> string \<Rightarrow> 'a entrance_scheme \<Rightarrow> (staff \<times> 'a entrance_scheme) result" where
  "accept_invitation e w token password s =
    (let e = e\<lparr>ctx := system_context (ctx e)\<rparr> in
     bind_res (invitation_for_token e w token s) (\<lambda>i.
     bind_res (create_user e w (iv_email i) password (company_id i) (iv_first_name i) (iv_last_name i)
       (iv_role i) True s) (\<lambda>(u, s).
     bind_res (save_invitation e (i\<lparr>iv_accepted_at := Some (now e)\<rparr>) s) (\<lambda>s. Inr (u, s)))))"

section \<open>Managing colleagues\<close>

definition other_owners :: "staff \<Rightarrow> 'a books_scheme \<Rightarrow> staff list" where
  "other_owners u s = filter (\<lambda>x. company_id x = company_id u \<and> staff_role x = Owner \<and> staff_is_active x \<and> pk x \<noteq> pk u)
    (staff_users s)"

text \<open>The columns an instance carries are written back by its key.\<close>

definition save_user :: "env \<Rightarrow> (staff \<Rightarrow> staff) \<Rightarrow> staff \<Rightarrow> 'a books_scheme \<Rightarrow> 'a books_scheme" where
  "save_user e f u s = s\<lparr>staff_users := update_where (\<lambda>x. pk x = pk u) (\<lambda>x. (f x)\<lparr>updated_at := now e\<rparr>) (staff_users s)\<rparr>"

definition deactivate_user :: "env \<Rightarrow> staff \<Rightarrow> 'a entrance_scheme \<Rightarrow> 'a entrance_scheme result" where
  "deactivate_user e u s =
    (if staff_role u = Owner \<and> other_owners u s = [] then Inl (refused LAST_OWNER_CANNOT_BE_DEACTIVATED)
     else Inr (revoke_all_sessions e (pk u) (save_user e (\<lambda>x. x\<lparr>staff_is_active := False\<rparr>) u s)))"

definition is_last_active_owner :: "staff \<Rightarrow> 'a books_scheme \<Rightarrow> bool" where
  "is_last_active_owner u s \<longleftrightarrow> staff_role u = Owner \<and> staff_is_active u \<and> other_owners u s = []"

definition change_role :: "env \<Rightarrow> staff \<Rightarrow> role \<Rightarrow> 'a entrance_scheme \<Rightarrow> 'a entrance_scheme result" where
  "change_role e u r s =
    (if r \<noteq> staff_role u \<and> is_last_active_owner u s then Inl (refused LAST_OWNER_CANNOT_BE_DEACTIVATED)
     else
       let s = save_user e (\<lambda>x. x\<lparr>staff_role := r\<rparr>) u s in
       Inr (if r \<noteq> Technician
         then s\<lparr>assignments := fst (queryset_delete e (\<lambda>a. as_user a = pk u \<and> visible (ctx e) a) (assignments s))\<rparr>
         else s))"

definition insert_assignment :: "env \<Rightarrow> pk \<Rightarrow> pk \<Rightarrow> pk \<Rightarrow> 'a entrance_scheme \<Rightarrow> 'a entrance_scheme result" where
  "insert_assignment e co u c s =
    bind_res (db_insert e assignments_update True
      (\<not> (\<exists>x \<in> set (assignments s). \<not> is_deleted x \<and> as_user x = u \<and> as_customer x = c))
      \<lparr>pk = 0, company_id = co, created_at = 0, updated_at = 0, created_by = None, updated_by = None,
        is_deleted = False, deleted_at = None, as_user = u, as_customer = c\<rparr> s) (\<lambda>(_, s). Inr s)"

text \<open>Assignments that are no longer wanted go, then the missing ones are made (in the order sent).\<close>

definition set_assigned_customers ::
  "env \<Rightarrow> staff \<Rightarrow> pk list \<Rightarrow> 'a entrance_scheme \<Rightarrow> 'a entrance_scheme result" where
  "set_assigned_customers e u wanted s =
    (if staff_role u \<noteq> Technician then Inl (refused ONLY_TECHNICIANS_ARE_ASSIGNED)
     else
       let current = filter (\<lambda>a. as_user a = pk u) (objects (ctx e) (assignments s)) in
       bind_res (fold_res (\<lambda>a s. bind_res (save_row e (soft_delete e a) (assignments s)) (\<lambda>rows.
           Inr (s\<lparr>assignments := rows\<rparr>))) (filter (\<lambda>a. as_customer a \<notin> set wanted) current) s) (\<lambda>s.
       fold_res (\<lambda>c s. insert_assignment e (company_id u) (pk u) c s)
         (filter (\<lambda>c. c \<notin> as_customer ` set current) (remdups wanted)) s))"

section \<open>What the endpoints add (apps/users/api/v1)\<close>

text \<open>\<open>LoginView.post\<close>: the failure that counts outlives the refusal.\<close>

definition login ::
  "env \<Rightarrow> secrets \<Rightarrow> string \<Rightarrow> string \<Rightarrow> caller \<Rightarrow> string \<Rightarrow> 'a entrance_scheme \<Rightarrow> token_pair result \<times> 'a entrance_scheme" where
  "login e w email password cl drawn s =
    (case authenticate e w email password (cl_ip cl) s of
       (Inl err, s') \<Rightarrow> (Inl err, s')
     | (Inr u, s') \<Rightarrow>
         (case issue_tokens e w u cl None drawn s' of
            Inl err \<Rightarrow> (Inl err, s')
          | Inr (pair, s'') \<Rightarrow> (Inr pair, s'')))"

text \<open>\<open>PasswordChangeView.post\<close>\<close>

definition password_change ::
  "env \<Rightarrow> secrets \<Rightarrow> staff \<Rightarrow> string \<Rightarrow> string \<Rightarrow> string option \<Rightarrow> caller \<Rightarrow> string \<Rightarrow> 'a entrance_scheme
    \<Rightarrow> (token_pair \<times> 'a entrance_scheme) result" where
  "password_change e w u current fresh cookie cl drawn s =
    change_password e w u current fresh (session_for_refresh_token w (pk u) cookie s) cl drawn s"

text \<open>\<open>SessionRevokeView.delete\<close>\<close>

definition end_session :: "env \<Rightarrow> pk \<Rightarrow> pk \<Rightarrow> 'a entrance_scheme \<Rightarrow> 'a entrance_scheme result" where
  "end_session e u chain s =
    (case revoke_session e u chain s of (True, s') \<Rightarrow> Inr s' | (False, _) \<Rightarrow> Inl Drf_not_found)"

text \<open>\<open>UserViewSet.deactivate\<close>: a colleague of the firm in context, never oneself.\<close>

definition colleague :: "env \<Rightarrow> pk \<Rightarrow> 'a books_scheme \<Rightarrow> staff result" where
  "colleague e k s =
    bind_res (require_current_company_id (ctx e)) (\<lambda>co.
    the_res (List.find (\<lambda>u. company_id u = co \<and> pk u = k) (staff_users s)) Http404)"

definition deactivate_colleague :: "env \<Rightarrow> pk \<Rightarrow> pk \<Rightarrow> 'a entrance_scheme \<Rightarrow> 'a entrance_scheme result" where
  "deactivate_colleague e actor k s =
    bind_res (colleague e k s) (\<lambda>u.
    if pk u = actor then Inl (refused CANNOT_DEACTIVATE_SELF) else deactivate_user e u s)"

text \<open>\<open>UserViewSet.update\<close>: only an owner makes owners; the role goes through the service, the fields first.\<close>

record user_form =
  uf_first_name :: "string option"
  uf_last_name :: "string option"
  uf_role :: "role option"

definition apply_user_form :: "user_form \<Rightarrow> staff \<Rightarrow> staff" where
  "apply_user_form form u = u\<lparr>
    staff_first_name := (case uf_first_name form of None \<Rightarrow> staff_first_name u | Some v \<Rightarrow> v),
    staff_last_name := (case uf_last_name form of None \<Rightarrow> staff_last_name u | Some v \<Rightarrow> v)\<rparr>"

definition update_colleague ::
  "env \<Rightarrow> role \<Rightarrow> pk \<Rightarrow> user_form \<Rightarrow> 'a entrance_scheme \<Rightarrow> (unit result \<times> 'a entrance_scheme)" where
  "update_colleague e actor_role k form s =
    (case colleague e k s of
       Inl err \<Rightarrow> (Inl err, s)
     | Inr u \<Rightarrow>
         if uf_role form = Some Owner \<and> actor_role \<noteq> Owner then (Inl Drf_permission_denied, s)
         else
           let u' = apply_user_form form u; s' = save_user e (\<lambda>_. u') u s in
           case uf_role form of
             None \<Rightarrow> (Inr (), s')
           | Some r \<Rightarrow> (case change_role e u' r s' of Inl err \<Rightarrow> (Inl err, s') | Inr s'' \<Rightarrow> (Inr (), s'')))"

text \<open>\<open>InvitationViewSet.create\<close>, with the validation of its form.\<close>

definition invite_colleague ::
  "env \<Rightarrow> secrets \<Rightarrow> staff \<Rightarrow> string \<Rightarrow> string \<Rightarrow> string \<Rightarrow> role \<Rightarrow> string \<Rightarrow> 'a entrance_scheme
    \<Rightarrow> (invitation \<times> 'a entrance_scheme) result" where
  "invite_colleague e w actor email first last_name r drawn s =
    (if \<not> verified_emails s (pk actor) then Inl (refused EMAIL_NOT_VERIFIED)
     else if r = Owner then Inl (invalid ''role'')
     else create_invitation e w (company_id actor) (lower (strip email)) first last_name r (pk actor) drawn s)"

text \<open>\<open>InvitationViewSet.destroy\<close>: the row is marked, and its token stops resolving.\<close>

definition withdraw_invitation :: "env \<Rightarrow> pk \<Rightarrow> 'a entrance_scheme \<Rightarrow> 'a entrance_scheme result" where
  "withdraw_invitation e k s =
    bind_res (the_res (by_pk k (objects (ctx e) (invitations s))) Http404) (\<lambda>i.
    bind_res (save_row e (soft_delete e i) (invitations s)) (\<lambda>rows. Inr (s\<lparr>invitations := rows\<rparr>)))"

text \<open>\<open>AssignedCustomersSerializer.validate_customer_ids\<close>, then \<open>UserViewSet.customers\<close>.\<close>

definition assign_customers :: "env \<Rightarrow> pk \<Rightarrow> pk list \<Rightarrow> 'a entrance_scheme \<Rightarrow> 'a entrance_scheme result" where
  "assign_customers e k ids s =
    bind_res (colleague e k s) (\<lambda>u.
    if \<exists>c \<in> set ids. by_pk c (objects (ctx e) (customers s)) = None then Inl (invalid ''customer_ids'')
    else set_assigned_customers e u (remdups ids) s)"

end
