(* ===== verification/Portal.thy ===== *)
theory Portal
  imports Accounts
begin

text \<open>
  \<open>apps/portal\<close>: the customer's own way in. A portal account is no user with another role but a principal
  of its own, with a session table and a token audience of its own; the token generator, the one-time
  tokens and the lockout are those of the staff (theory Accounts).
\<close>

section \<open>The tables\<close>

record customer_contact = row +
  cc_customer :: pk
  cc_full_name :: string
  cc_email :: string

record portal_account = row +
  pa_customer :: pk
  pa_contact :: pk
  pa_email :: string
  pa_password :: string
  pa_is_active :: bool
  pa_invited_at :: instant
  pa_accepted_at :: "instant option"
  pa_deactivated_at :: "instant option"
  pa_last_login_at :: "instant option"

record reception = entrance +
  contacts :: "customer_contact list"
  portal_accounts :: "portal_account list"
  portal_sessions :: "session list"

datatype portal_status = P_invited | P_active | P_inactive

definition portal_status_of :: "portal_account \<Rightarrow> portal_status" where
  "portal_status_of a =
    (if pa_is_active a then P_active
     else if pa_accepted_at a = None \<and> pa_deactivated_at a = None then P_invited
     else P_inactive)"

definition portal_accounts_clash :: "portal_account \<Rightarrow> portal_account \<Rightarrow> bool" where
  "portal_accounts_clash a b \<longleftrightarrow> \<not> is_deleted a \<and> \<not> is_deleted b \<and>
    (pa_contact a = pa_contact b \<or> (pa_is_active a \<and> pa_is_active b \<and> pa_email a = pa_email b))"

text \<open>\<open>PortalAccount.check_password\<close>: an empty password matches nothing.\<close>

definition portal_password_ok :: "secrets \<Rightarrow> portal_account \<Rightarrow> string \<Rightarrow> bool" where
  "portal_password_ok w a raw \<longleftrightarrow> pa_password a \<noteq> [] \<and> password_matches w raw (pa_password a)"

definition save_portal_account :: "env \<Rightarrow> portal_account \<Rightarrow> 'a reception_scheme \<Rightarrow> 'a reception_scheme result" where
  "save_portal_account e a s =
    (if \<not> may_save (ctx e) a then Inl (Crash Tenant_mismatch)
     else if \<exists>x \<in> set (portal_accounts s). pk x \<noteq> pk a \<and> portal_accounts_clash x a then Inl Integrity_error
     else bind_res (save_row e a (portal_accounts s)) (\<lambda>rows. Inr (s\<lparr>portal_accounts := rows\<rparr>)))"

section \<open>Tokens\<close>

text \<open>What a signed access token claims. Both kinds are signed with one key.\<close>

record claims =
  cm_aud :: "string option"
  cm_user :: "pk option"
  cm_portal_account :: "pk option"

definition PORTAL_AUDIENCE :: string where "PORTAL_AUDIENCE = ''portal''"

definition staff_claims :: "staff \<Rightarrow> claims" where
  "staff_claims u = \<lparr>cm_aud = None, cm_user = Some (pk u), cm_portal_account = None\<rparr>"

definition portal_claims :: "portal_account \<Rightarrow> claims" where
  "portal_claims a = \<lparr>cm_aud = Some PORTAL_AUDIENCE, cm_user = None, cm_portal_account = Some (pk a)\<rparr>"

text \<open>The two authentication classes, after signature and time: \<open>core/authentication.py\<close> and
  \<open>apps/portal/authentication.py\<close>.\<close>

definition staff_token_ok :: "claims \<Rightarrow> bool" where
  "staff_token_ok c \<longleftrightarrow> cm_aud c = None"

definition portal_token_ok :: "claims \<Rightarrow> bool" where
  "portal_token_ok c \<longleftrightarrow> cm_aud c = Some PORTAL_AUDIENCE \<and> cm_portal_account c \<noteq> None"

definition contact_row :: "portal_account \<Rightarrow> 'a reception_scheme \<Rightarrow> customer_contact option" where
  "contact_row a s = by_pk (pa_contact a) (contacts s)"

definition portal_user :: "claims \<Rightarrow> 'a reception_scheme \<Rightarrow> portal_account result" where
  "portal_user c s =
    (if \<not> portal_token_ok c then Inl Drf_authentication_failed
     else case List.find (\<lambda>a. Some (pk a) = cm_portal_account c \<and> \<not> is_deleted a) (portal_accounts s) of
       None \<Rightarrow> Inl Drf_authentication_failed
     | Some a \<Rightarrow>
         (case contact_row a s of
            None \<Rightarrow> Inl (Crash Does_not_exist)
          | Some c \<Rightarrow> if \<not> pa_is_active a \<or> is_deleted c then Inl Drf_authentication_failed else Inr a))"

section \<open>Sessions (apps/portal/services.py)\<close>

record portal_pair =
  pp_account :: pk
  pp_access_until :: instant
  pp_refresh :: string
  pp_refresh_expires_at :: instant

definition issue_portal_tokens ::
  "env \<Rightarrow> secrets \<Rightarrow> portal_account \<Rightarrow> caller \<Rightarrow> session option \<Rightarrow> string \<Rightarrow> 'a reception_scheme
    \<Rightarrow> (portal_pair \<times> 'a reception_scheme) result" where
  "issue_portal_tokens e w a cl continues drawn s =
    bind_res (open_session (now e) (next_pk s) (pk a) (hash_token w drawn) cl continues (portal_sessions s)) (\<lambda>rows.
    Inr (\<lparr>pp_account = pk a, pp_access_until = now e + ACCESS_TOKEN_LIFETIME, pp_refresh = drawn,
        pp_refresh_expires_at = now e + REFRESH_TOKEN_LIFETIME\<rparr>,
      s\<lparr>next_pk := Suc (next_pk s), portal_sessions := rows\<rparr>))"

definition revoke_portal_sessions :: "env \<Rightarrow> (session \<Rightarrow> bool) \<Rightarrow> 'a reception_scheme \<Rightarrow> 'a reception_scheme" where
  "revoke_portal_sessions e P s = s\<lparr>portal_sessions := revoke_where (now e) P (portal_sessions s)\<rparr>"

definition revoke_portal_token :: "env \<Rightarrow> secrets \<Rightarrow> string \<Rightarrow> 'a reception_scheme \<Rightarrow> 'a reception_scheme" where
  "revoke_portal_token e w token s = revoke_portal_sessions e (\<lambda>r. ss_token_hash r = hash_token w token) s"

definition end_portal_sessions :: "env \<Rightarrow> pk \<Rightarrow> 'a reception_scheme \<Rightarrow> 'a reception_scheme" where
  "end_portal_sessions e a s = revoke_portal_sessions e (\<lambda>r. ss_owner r = a) s"

definition rotate_portal_token ::
  "env \<Rightarrow> secrets \<Rightarrow> string \<Rightarrow> caller \<Rightarrow> string \<Rightarrow> 'a reception_scheme
    \<Rightarrow> (portal_account \<times> portal_pair) result \<times> 'a reception_scheme" where
  "rotate_portal_token e w token cl drawn s =
    (case present (now e) (hash_token w token) (portal_sessions s) of
       Unknown_token \<Rightarrow> (Inl (refused TOKEN_INVALID), s)
     | Replayed_token r \<Rightarrow> (Inl (refused TOKEN_INVALID), end_portal_sessions e (ss_owner r) s)
     | Ended_token r \<Rightarrow> (Inl (refused TOKEN_INVALID), s)
     | Stale_token r \<Rightarrow> (Inl (refused TOKEN_EXPIRED), s)
     | Good_token r \<Rightarrow>
         (case by_pk (ss_owner r) (portal_accounts s) of
            None \<Rightarrow> (Inl (Crash Does_not_exist), s)
          | Some a \<Rightarrow>
              if \<not> pa_is_active a \<or> is_deleted a then (Inl (refused ACCOUNT_INACTIVE), s)
              else case issue_portal_tokens e w a cl (Some (r\<lparr>ss_revoked_at := Some (now e)\<rparr>)) drawn
                  (s\<lparr>portal_sessions := revoke_row (now e) (ss_pk r) (portal_sessions s)\<rparr>) of
                Inl err \<Rightarrow> (Inl err, s)
              | Inr (pair, s') \<Rightarrow> (Inr (a, pair), s')))"

section \<open>Signing in\<close>

text \<open>\<open>_lockout_key\<close>: portal failures do not lock the staff sign-in of the same address.\<close>

definition lockout_key :: "string \<Rightarrow> string" where
  "lockout_key email = ''portal:'' @ lower email"

text \<open>\<open>.order_by("-is_active", "-accepted_at", "id").first()\<close> among the accepted accounts of an address.\<close>

definition portal_account_of :: "string \<Rightarrow> 'a reception_scheme \<Rightarrow> portal_account option" where
  "portal_account_of email s =
    (case sort_key (\<lambda>a. (if pa_is_active a then 0 else 1 :: nat, - the (pa_accepted_at a), pk a))
        (filter (\<lambda>a. \<not> is_deleted a \<and> pa_email a = email \<and> pa_accepted_at a \<noteq> None) (portal_accounts s)) of
       [] \<Rightarrow> None | a # _ \<Rightarrow> Some a)"

definition authenticate_portal ::
  "env \<Rightarrow> secrets \<Rightarrow> string \<Rightarrow> string \<Rightarrow> string option \<Rightarrow> 'a reception_scheme
    \<Rightarrow> portal_account result \<times> 'a reception_scheme" where
  "authenticate_portal e w email password ip s =
    (let email = lower email; b = bucket_of (lockout_key email) ip in
     if is_locked (now e) b (cache s) then (Inl (refused ACCOUNT_LOCKED), s)
     else case portal_account_of email s of
       None \<Rightarrow> (Inl (refused INVALID_CREDENTIALS), s\<lparr>cache := record_failure (now e) b (cache s)\<rparr>)
     | Some a \<Rightarrow>
         if \<not> portal_password_ok w a password
         then (Inl (refused INVALID_CREDENTIALS), s\<lparr>cache := record_failure (now e) b (cache s)\<rparr>)
         else if \<not> pa_is_active a then (Inl (refused ACCOUNT_INACTIVE), s)
         else (Inr (a\<lparr>pa_last_login_at := Some (now e)\<rparr>), s\<lparr>cache := clear_bucket b (cache s),
           portal_accounts := update_where (\<lambda>x. pk x = pk a)
             (\<lambda>x. x\<lparr>pa_last_login_at := Some (now e), updated_at := now e\<rparr>) (portal_accounts s)\<rparr>))"

text \<open>\<open>PortalLoginView.post\<close>\<close>

definition portal_login ::
  "env \<Rightarrow> secrets \<Rightarrow> string \<Rightarrow> string \<Rightarrow> caller \<Rightarrow> string \<Rightarrow> 'a reception_scheme
    \<Rightarrow> portal_pair result \<times> 'a reception_scheme" where
  "portal_login e w email password cl drawn s =
    (case authenticate_portal e w email password (cl_ip cl) s of
       (Inl err, s') \<Rightarrow> (Inl err, s')
     | (Inr a, s') \<Rightarrow>
         (case issue_portal_tokens e w a cl None drawn s' of
            Inl err \<Rightarrow> (Inl err, s')
          | Inr (pair, s'') \<Rightarrow> (Inr pair, s'')))"

section \<open>One-time tokens of an account\<close>

definition issue_portal_link ::
  "env \<Rightarrow> secrets \<Rightarrow> pk \<Rightarrow> token_purpose \<Rightarrow> instant \<Rightarrow> string \<Rightarrow> 'a reception_scheme \<Rightarrow> 'a reception_scheme result" where
  "issue_portal_link e w a purpose lifetime drawn s =
    insert_token \<lparr>ot_pk = 0, ot_user = None, ot_portal = Some a, ot_purpose = purpose,
        ot_token_hash = hash_token w drawn, ot_expires_at = now e + lifetime, ot_used_at = None\<rparr>
      (retire_tokens e (\<lambda>t. ot_portal t = Some a \<and> ot_purpose t = purpose) s)"

definition consume_portal_link ::
  "env \<Rightarrow> secrets \<Rightarrow> string \<Rightarrow> token_purpose \<Rightarrow> 'a reception_scheme \<Rightarrow> (portal_account \<times> 'a reception_scheme) result" where
  "consume_portal_link e w token purpose s =
    (case List.find (\<lambda>t. ot_token_hash t = hash_token w token \<and> ot_purpose t = purpose) (one_time_tokens s) of
       None \<Rightarrow> Inl (refused TOKEN_INVALID)
     | Some t \<Rightarrow>
         (case (if ot_used_at t \<noteq> None then None else Option.bind (ot_portal t) (\<lambda>k. by_pk k (portal_accounts s))) of
            None \<Rightarrow> Inl (refused TOKEN_INVALID)
          | Some a \<Rightarrow>
              if ot_expires_at t \<le> now e then Inl (refused TOKEN_EXPIRED)
              else Inr (a, mark_used e t s)))"

section \<open>The life of an account\<close>

definition blank_portal_account :: portal_account where
  "blank_portal_account = \<lparr>pk = 0, company_id = 0, created_at = 0, updated_at = 0, created_by = None,
    updated_by = None, is_deleted = False, deleted_at = None, pa_customer = 0, pa_contact = 0, pa_email = [],
    pa_password = [], pa_is_active = False, pa_invited_at = 0, pa_accepted_at = None, pa_deactivated_at = None,
    pa_last_login_at = None\<rparr>"

definition portal_account_for ::
  "env \<Rightarrow> customer \<Rightarrow> customer_contact \<Rightarrow> string \<Rightarrow> portal_account option \<Rightarrow> 'a reception_scheme
    \<Rightarrow> (portal_account \<times> 'a reception_scheme) result" where
  "portal_account_for e cu co email account s =
    (case account of
       None \<Rightarrow> db_insert e portal_accounts_update (length email \<le> 150)
         (\<not> (\<exists>x \<in> set (portal_accounts s). portal_accounts_clash x (blank_portal_account\<lparr>pa_contact := pk co, pa_email := email\<rparr>)))
         (blank_portal_account\<lparr>company_id := company_id cu, pa_customer := pk cu, pa_contact := pk co,
           pa_email := email, pa_invited_at := now e\<rparr>) s
     | Some a \<Rightarrow>
         let a = a\<lparr>pa_email := email, pa_invited_at := now e\<rparr> in
         bind_res (save_portal_account e a s) (\<lambda>s. Inr (a, s)))"

definition invite_contact ::
  "env \<Rightarrow> secrets \<Rightarrow> customer \<Rightarrow> customer_contact \<Rightarrow> string \<Rightarrow> 'a reception_scheme
    \<Rightarrow> (portal_account \<times> 'a reception_scheme) result" where
  "invite_contact e w cu co drawn s =
    (let email = lower (strip (cc_email co)) in
     if cc_customer co \<noteq> pk cu then Inl (refused CONTACT_NOT_OF_CUSTOMER)
     else if email = [] then Inl (refused CONTACT_HAS_NO_EMAIL)
     else
       let account = List.find (\<lambda>a. pa_contact a = pk co) (objects (ctx e) (portal_accounts s)) in
       if \<exists>a. account = Some a \<and> pa_is_active a then Inl (Duplicate_record PORTAL_ACCOUNT_ALREADY_ACTIVE)
       else if \<exists>a \<in> set (objects (system_context (ctx e)) (portal_accounts s)). pa_email a = email \<and> pa_is_active a
       then Inl (Duplicate_record PORTAL_EMAIL_IN_USE)
       else
         bind_res (portal_account_for e cu co email account s) (\<lambda>(a, s).
         bind_res (issue_portal_link e w (pk a) Portal_invitation INVITATION_LIFETIME drawn s) (\<lambda>s.
         Inr (a, send_letter ''portal_invitation'' email drawn s))))"

definition accept_portal ::
  "env \<Rightarrow> secrets \<Rightarrow> string \<Rightarrow> string \<Rightarrow> 'a reception_scheme \<Rightarrow> (portal_account \<times> 'a reception_scheme) result" where
  "accept_portal e w token password s =
    (let sys = e\<lparr>ctx := system_context (ctx e)\<rparr> in
     bind_res (consume_portal_link e w token Portal_invitation s) (\<lambda>(a, s).
     bind_res (the_res (contact_row a s) (Crash Does_not_exist)) (\<lambda>co.
     if is_deleted a \<or> is_deleted co then Inl (refused TOKEN_INVALID)
     else if \<exists>x \<in> set (objects (ctx sys) (portal_accounts s)). pa_email x = pa_email a \<and> pa_is_active x \<and> pk x \<noteq> pk a
     then Inl (Duplicate_record PORTAL_EMAIL_IN_USE)
     else
       let a = a\<lparr>pa_password := make_password w password, pa_is_active := True, pa_accepted_at := Some (now e),
         pa_deactivated_at := None\<rparr> in
       bind_res (save_portal_account sys a s) (\<lambda>s. Inr (a, s)))))"

definition deactivate_portal ::
  "env \<Rightarrow> portal_account \<Rightarrow> 'a reception_scheme \<Rightarrow> (portal_account \<times> 'a reception_scheme) result" where
  "deactivate_portal e a s =
    (let a = a\<lparr>pa_is_active := False, pa_deactivated_at := Some (now e)\<rparr> in
     bind_res (save_portal_account e a s) (\<lambda>s. Inr (a, end_portal_sessions e (pk a) s)))"

definition request_portal_reset ::
  "env \<Rightarrow> secrets \<Rightarrow> string \<Rightarrow> string \<Rightarrow> 'a reception_scheme \<Rightarrow> (string option \<times> 'a reception_scheme) result" where
  "request_portal_reset e w email drawn s =
    (case List.find (\<lambda>a. pa_email a = lower email \<and> pa_is_active a)
        (objects (system_context (ctx e)) (portal_accounts s)) of
       None \<Rightarrow> Inr (None, s)
     | Some a \<Rightarrow>
         bind_res (issue_portal_link e w (pk a) Portal_password_reset PASSWORD_RESET_LIFETIME drawn s) (\<lambda>s.
         Inr (Some drawn, send_letter ''portal_password_reset'' (pa_email a) drawn s)))"

definition confirm_portal_reset ::
  "env \<Rightarrow> secrets \<Rightarrow> string \<Rightarrow> string \<Rightarrow> string option \<Rightarrow> 'a reception_scheme
    \<Rightarrow> (portal_account \<times> 'a reception_scheme) result" where
  "confirm_portal_reset e w token fresh ip s =
    bind_res (consume_portal_link e w token Portal_password_reset s) (\<lambda>(a, s).
    if \<not> pa_is_active a then Inl (refused ACCOUNT_INACTIVE)
    else
      let a = a\<lparr>pa_password := make_password w fresh\<rparr> in
      bind_res (save_portal_account (e\<lparr>ctx := system_context (ctx e)\<rparr>) a s) (\<lambda>s.
      let s = s\<lparr>cache := clear_bucket (bucket_of (lockout_key (pa_email a)) ip) (cache s)\<rparr>
      in Inr (a, end_portal_sessions e (pk a) s)))"

text \<open>What the signal on a deleted contact runs, as the system.\<close>

definition close_accounts_of :: "env \<Rightarrow> pk \<Rightarrow> 'a reception_scheme \<Rightarrow> (nat \<times> 'a reception_scheme) result" where
  "close_accounts_of e contact s =
    (let open_ones = filter (\<lambda>a. pa_contact a = contact \<and> \<not> is_deleted a \<and> pa_is_active a) (portal_accounts s) in
     bind_res (fold_res (\<lambda>a s. bind_res (deactivate_portal (e\<lparr>ctx := system_context (ctx e)\<rparr>) a s) (\<lambda>(_, s). Inr s)) open_ones s) (\<lambda>s.
     Inr (length open_ones, s)))"

section \<open>What a contact may read (apps/portal/viewsets.py)\<close>

text \<open>\<open>PortalViewSet.get_queryset\<close>, in the context of the account's firm; no path, no rows.\<close>

definition portal_rows ::
  "portal_account \<Rightarrow> ('r row_scheme \<Rightarrow> pk option) option \<Rightarrow> 'r row_scheme list \<Rightarrow> 'r row_scheme list" where
  "portal_rows a path rows =
    (case path of
       None \<Rightarrow> []
     | Some customer_of \<Rightarrow> filter (\<lambda>r. customer_of r = Some (pa_customer a))
         (objects (company_context (Some (company_id a)) no_context) rows))"

section \<open>The office's endpoint (PortalInvitationView)\<close>

definition invite_to_portal ::
  "env \<Rightarrow> secrets \<Rightarrow> pk \<Rightarrow> pk \<Rightarrow> string \<Rightarrow> 'a reception_scheme \<Rightarrow> (portal_account \<times> 'a reception_scheme) result" where
  "invite_to_portal e w customer_k contact_k drawn s =
    bind_res (the_res (by_pk customer_k (objects (ctx e) (customers s))) Http404) (\<lambda>cu.
    case by_pk contact_k (objects (ctx e) (contacts s)) of
      None \<Rightarrow> Inl (refused CONTACT_NOT_OF_CUSTOMER)
    | Some co \<Rightarrow>
        if cc_customer co \<noteq> pk cu then Inl (refused CONTACT_NOT_OF_CUSTOMER)
        else invite_contact e w cu co drawn s)"

end
