(* ===== verification/Session_Laws.thy ===== *)
theory Session_Laws
  imports Sessions
begin

text \<open>
  The order of a table of refresh sessions - one live row per chain, a chain belongs to one owner and one
  sign-in - and what every statement of the services keeps of it; and the bound the lockout gives.
\<close>

section \<open>One live row per chain\<close>

definition same_chain :: "session \<Rightarrow> session \<Rightarrow> bool" where
  "same_chain a b \<longleftrightarrow> ss_chain a = ss_chain b"

definition chains_ok :: "pk \<Rightarrow> session list \<Rightarrow> bool" where
  "chains_ok k rows \<longleftrightarrow> distinct (map ss_pk rows) \<and> distinct (map ss_token_hash rows) \<and>
    (\<forall>a \<in> set rows. ss_pk a < k \<and> ss_chain a < k) \<and>
    (\<forall>a \<in> set rows. \<forall>b \<in> set rows. same_chain a b \<longrightarrow>
      ss_owner a = ss_owner b \<and> ss_signed_in_at a = ss_signed_in_at b \<and>
      (live_session a \<longrightarrow> live_session b \<longrightarrow> a = b))"

lemma chains_okD:
  assumes "chains_ok k rows"
  shows "distinct (map ss_pk rows)" and "distinct (map ss_token_hash rows)"
    and "a \<in> set rows \<Longrightarrow> ss_pk a < k" and "a \<in> set rows \<Longrightarrow> ss_chain a < k"
    and "a \<in> set rows \<Longrightarrow> b \<in> set rows \<Longrightarrow> same_chain a b \<Longrightarrow> ss_owner a = ss_owner b"
    and "a \<in> set rows \<Longrightarrow> b \<in> set rows \<Longrightarrow> same_chain a b \<Longrightarrow> ss_signed_in_at a = ss_signed_in_at b"
    and "a \<in> set rows \<Longrightarrow> b \<in> set rows \<Longrightarrow> same_chain a b \<Longrightarrow> live_session a \<Longrightarrow> live_session b \<Longrightarrow> a = b"
  using assms unfolding chains_ok_def by blast+

lemma chains_ok_Nil [simp]: "chains_ok k []"
  by (simp add: chains_ok_def)

lemma chains_ok_later: "chains_ok k rows \<Longrightarrow> k \<le> k' \<Longrightarrow> chains_ok k' rows"
  unfolding chains_ok_def by (meson less_le_trans)

text \<open>Revoking rows, whichever, keeps the order.\<close>

lemma chains_ok_revoke:
  assumes "chains_ok k rows"
  shows "chains_ok k (update_where P (\<lambda>r. r\<lparr>ss_revoked_at := Some t\<rparr>) rows)"
proof -
  define f where "f = (\<lambda>r. if P r then r\<lparr>ss_revoked_at := Some t\<rparr> else (r :: session))"
  have same: "map ss_pk (map f rows) = map ss_pk rows" "map ss_token_hash (map f rows) = map ss_token_hash rows"
    by (simp_all add: f_def)
  have col: "ss_chain (f a) = ss_chain a" "ss_owner (f a) = ss_owner a" "ss_signed_in_at (f a) = ss_signed_in_at a"
    "ss_pk (f a) = ss_pk a" for a
    by (simp_all add: f_def)
  have live: "live_session (f a) \<Longrightarrow> live_session a \<and> f a = a" for a
    by (auto simp: f_def live_session_def split: if_splits)
  have pair: "ss_owner (f a) = ss_owner (f b) \<and> ss_signed_in_at (f a) = ss_signed_in_at (f b) \<and>
      (live_session (f a) \<longrightarrow> live_session (f b) \<longrightarrow> f a = f b)"
    if "a \<in> set rows" "b \<in> set rows" "same_chain (f a) (f b)" for a b
  proof -
    have "same_chain a b" using that(3) unfolding same_chain_def col .
    with chains_okD(5-7) [OF assms that(1,2)] live show ?thesis unfolding col by metis
  qed
  have "chains_ok k (map f rows)"
    unfolding chains_ok_def same set_map
    using chains_okD(1-4) [OF assms] pair by (auto simp: col)
  then show ?thesis unfolding update_where_def f_def .
qed

lemma chains_ok_revoke_where: "chains_ok k rows \<Longrightarrow> chains_ok k (revoke_where t P rows)"
  unfolding revoke_where_def by (rule chains_ok_revoke)

lemma chains_ok_revoke_row: "chains_ok k rows \<Longrightarrow> chains_ok k (revoke_row t j rows)"
  unfolding revoke_row_def by (rule chains_ok_revoke)

lemma set_revoke_where:
  "set (revoke_where t P rows) = (\<lambda>r. if live_session r \<and> P r then r\<lparr>ss_revoked_at := Some t\<rparr> else r) ` set rows"
  by (simp add: revoke_where_def set_update_where)

lemma revoke_where_live:
  "r \<in> set (revoke_where t P rows) \<Longrightarrow> live_session r \<Longrightarrow> r \<in> set rows \<and> \<not> P r"
  by (auto simp: set_revoke_where live_session_def split: if_splits)

lemma revoke_row_live:
  "r \<in> set (revoke_row t k rows) \<Longrightarrow> live_session r \<Longrightarrow> r \<in> set rows \<and> ss_pk r \<noteq> k"
  by (auto simp: revoke_row_def set_update_where live_session_def split: if_splits)

lemma find_session_Some: "find_session h rows = Some r \<Longrightarrow> r \<in> set rows \<and> ss_token_hash r = h"
  unfolding find_session_def by (rule find_Some_iff)

lemma find_session_None: "find_session h rows = None \<longleftrightarrow> h \<notin> ss_token_hash ` set rows"
  by (auto simp: find_session_def find_None_iff')

text \<open>A session is opened on a new chain, or on a chain with no live row left.\<close>

lemma open_session_ok:
  assumes ok: "chains_ok k rows" and run: "open_session t k owner h cl continues rows = Inr rows'"
    and cont: "\<And>c. continues = Some c \<Longrightarrow> (\<exists>a \<in> set rows. same_chain a c \<and> ss_owner a = owner \<and>
      ss_signed_in_at a = ss_signed_in_at c) \<and> (\<forall>a \<in> set rows. same_chain a c \<longrightarrow> \<not> live_session a)"
  shows "chains_ok (Suc k) rows'"
proof -
  define new where "new = session_row t k owner h cl continues"
  have rows': "rows' = rows @ [new]" and fresh: "h \<notin> ss_token_hash ` set rows"
    using run unfolding open_session_def new_def by (auto simp: find_session_None split: if_splits)
  have new: "ss_pk new = k" "ss_owner new = owner" "ss_token_hash new = h" "live_session new"
    unfolding new_def session_row_def live_session_def by simp_all
  have chain: "ss_chain new < Suc k \<and> (\<forall>a \<in> set rows. same_chain a new \<longrightarrow>
      ss_owner a = owner \<and> ss_signed_in_at a = ss_signed_in_at new \<and> \<not> live_session a)"
  proof (cases continues)
    case None
    then have "ss_chain new = k" by (simp add: new_def session_row_def)
    with chains_okD(4) [OF ok] show ?thesis by (fastforce simp: same_chain_def)
  next
    case (Some c)
    then have c: "ss_chain new = ss_chain c" "ss_signed_in_at new = ss_signed_in_at c"
      by (simp_all add: new_def session_row_def)
    from cont [OF Some] obtain b where b: "b \<in> set rows" "same_chain b c" "ss_owner b = owner"
      "ss_signed_in_at b = ss_signed_in_at c" and dead: "\<forall>a \<in> set rows. same_chain a c \<longrightarrow> \<not> live_session a" by blast
    have "ss_owner a = owner \<and> ss_signed_in_at a = ss_signed_in_at new \<and> \<not> live_session a"
      if a: "a \<in> set rows" "same_chain a new" for a
    proof -
      have "same_chain a c" "same_chain a b" using a(2) b(2) c by (simp_all add: same_chain_def)
      then show ?thesis using dead a(1) chains_okD(5,6) [OF ok a(1) b(1)] b c by simp
    qed
    moreover have "ss_chain new < Suc k"
      using chains_okD(4) [OF ok b(1)] b(2) c by (simp add: same_chain_def)
    ultimately show ?thesis by blast
  qed
  have pks: "k \<notin> ss_pk ` set rows" using chains_okD(3) [OF ok] by blast
  have sym: "same_chain a b = same_chain b a" for a b by (auto simp: same_chain_def)
  have old: "\<forall>a \<in> set rows. ss_pk a < Suc k \<and> ss_chain a < Suc k"
    using chains_okD(3,4) [OF ok] less_SucI by blast
  have pairs: "ss_owner a = ss_owner b \<and> ss_signed_in_at a = ss_signed_in_at b \<and>
      (live_session a \<longrightarrow> live_session b \<longrightarrow> a = b)"
    if "a \<in> set rows'" "b \<in> set rows'" "same_chain a b" for a b
  proof -
    have "a = new \<or> a \<in> set rows" "b = new \<or> b \<in> set rows" using that(1,2) unfolding rows' by auto
    then consider "a \<in> set rows" "b \<in> set rows" | "a = new" "b \<in> set rows" | "b = new" "a \<in> set rows" | "a = new" "b = new"
      by blast
    then show ?thesis
      by cases (use that(3) chains_okD(5-7) [OF ok] chain new sym in \<open>metis+\<close>)
  qed
  have "distinct (map ss_pk rows')" "distinct (map ss_token_hash rows')"
    unfolding rows' using chains_okD(1,2) [OF ok] pks fresh new by auto
  moreover have "\<forall>a \<in> set rows'. ss_pk a < Suc k \<and> ss_chain a < Suc k"
    using old new chain unfolding rows' by auto
  ultimately show ?thesis using pairs unfolding chains_ok_def by blast
qed

text \<open>A rotation: the row presented is revoked and its chain goes on.\<close>

lemma rotation_ok:
  assumes ok: "chains_ok k rows" and r: "r \<in> set rows" "live_session r"
    and run: "open_session t k (ss_owner r) h cl (Some (r\<lparr>ss_revoked_at := Some t\<rparr>)) (revoke_row t (ss_pk r) rows) = Inr rows'"
  shows "chains_ok (Suc k) rows'"
proof (rule open_session_ok [OF chains_ok_revoke_row [OF ok] run], intro conjI)
  fix c
  assume c: "Some (r\<lparr>ss_revoked_at := Some t\<rparr>) = Some c"
  have "r\<lparr>ss_revoked_at := Some t\<rparr> \<in> set (revoke_row t (ss_pk r) rows)"
    using r(1) unfolding revoke_row_def set_update_where by force
  with c show "\<exists>a \<in> set (revoke_row t (ss_pk r) rows). same_chain a c \<and> ss_owner a = ss_owner r \<and>
      ss_signed_in_at a = ss_signed_in_at c" by (auto simp: same_chain_def)
  show "\<forall>a \<in> set (revoke_row t (ss_pk r) rows). same_chain a c \<longrightarrow> \<not> live_session a"
  proof (intro ballI impI notI)
    fix a
    assume a: "a \<in> set (revoke_row t (ss_pk r) rows)" "same_chain a c" "live_session a"
    with revoke_row_live have "a \<in> set rows" "ss_pk a \<noteq> ss_pk r" by blast+
    moreover have "same_chain a r" using a(2) c by (auto simp: same_chain_def)
    ultimately show False using chains_okD(7) [OF ok _ r(1) _ a(3) r(2)] by auto
  qed
qed

section \<open>What a presented token means\<close>

lemma present_cases:
  "present t h rows = Unknown_token \<longleftrightarrow> find_session h rows = None"
  "present t h rows = Replayed_token r \<longleftrightarrow> find_session h rows = Some r \<and> \<not> live_session r \<and>
    (\<exists>x \<in> set rows. ss_owner x = ss_owner r \<and> ss_chain x = ss_chain r \<and> live_session x)"
  "present t h rows = Ended_token r \<longleftrightarrow> find_session h rows = Some r \<and> \<not> live_session r \<and>
    \<not> (\<exists>x \<in> set rows. ss_owner x = ss_owner r \<and> ss_chain x = ss_chain r \<and> live_session x)"
  "present t h rows = Stale_token r \<longleftrightarrow> find_session h rows = Some r \<and> live_session r \<and> ss_expires_at r \<le> t"
  "present t h rows = Good_token r \<longleftrightarrow> find_session h rows = Some r \<and> live_session r \<and> t < ss_expires_at r"
  unfolding present_def by (auto simp: live_session_def split: option.splits)

lemma find_session_append:
  "find_session h (rows @ [x]) = (case find_session h rows of None \<Rightarrow> if ss_token_hash x = h then Some x else None | r \<Rightarrow> r)"
  unfolding find_session_def by (rule find_append1)

lemma find_session_revoke_row:
  "find_session h (revoke_row t k rows) =
    map_option (\<lambda>r. if ss_pk r = k then r\<lparr>ss_revoked_at := Some t\<rparr> else r) (find_session h rows)"
  unfolding find_session_def revoke_row_def by (induction rows) auto

lemma find_session_revoke_where:
  "find_session h (revoke_where t P rows) =
    map_option (\<lambda>r. if live_session r \<and> P r then r\<lparr>ss_revoked_at := Some t\<rparr> else r) (find_session h rows)"
  unfolding find_session_def revoke_where_def by (induction rows) auto

text \<open>The token that was rotated is a replay from then on, while its successor lives.\<close>

lemma rotated_is_replayed:
  assumes good: "present t h rows = Good_token r"
    and run: "open_session t k (ss_owner r) h' cl (Some (r\<lparr>ss_revoked_at := Some t\<rparr>)) (revoke_row t (ss_pk r) rows) = Inr rows'"
  shows "present t' h rows' = Replayed_token (r\<lparr>ss_revoked_at := Some t\<rparr>)"
proof -
  from good have r: "find_session h rows = Some r" by (simp add: present_cases)
  let ?new = "session_row t k (ss_owner r) h' cl (Some (r\<lparr>ss_revoked_at := Some t\<rparr>))"
  have rows': "rows' = revoke_row t (ss_pk r) rows @ [?new]"
    using run unfolding open_session_def by (auto split: if_splits)
  have "find_session h rows' = Some (r\<lparr>ss_revoked_at := Some t\<rparr>)"
    unfolding rows' by (simp add: find_session_append find_session_revoke_row r)
  moreover have "?new \<in> set rows'" "ss_owner ?new = ss_owner r" "ss_chain ?new = ss_chain r" "live_session ?new"
    by (simp_all add: rows' session_row_def live_session_def)
  ultimately show ?thesis unfolding present_cases(2) by (auto simp: live_session_def)
qed

section \<open>One entry per device\<close>

lemma first_of_chain_in: "x \<in> set (first_of_chain rows) \<Longrightarrow> x \<in> set rows"
  by (induction rows) auto

lemma first_of_chain_once: "distinct (map ss_chain (first_of_chain rows))"
proof (induction rows)
  case (Cons r rs)
  then show ?case by (auto simp: distinct_map_filter)
qed simp

lemma first_of_chain_complete: "x \<in> set rows \<Longrightarrow> ss_chain x \<in> ss_chain ` set (first_of_chain rows)"
proof (induction rows)
  case (Cons r rs)
  then show ?case by (cases "ss_chain x = ss_chain r") auto
qed simp

section \<open>Five failures\<close>

text \<open>The failures of a bucket at a time, and how many more it takes to lock it.\<close>

definition failures_at :: "instant \<Rightarrow> bucket \<Rightarrow> lock_cache \<Rightarrow> nat" where
  "failures_at t b c = (case failure_counts c b of Some (n, x) \<Rightarrow> if t < x then n else 0 | None \<Rightarrow> 0)"

lemma record_failure_locks:
  assumes "failures_at t b c = 4" and "t \<le> t'" and "t' < t + LOCKOUT"
  shows "is_locked t' b (record_failure t b c)"
  using assms unfolding record_failure_def counted_failure_def failures_at_def is_locked_def MAX_ATTEMPTS_def
  by (auto split: option.splits prod.splits if_splits)

end
