(* ===== verification/Account_Laws.thy ===== *)
theory Account_Laws
  imports Portal Session_Laws
begin

text \<open>
  What the doors of the firm keep: tokens that rotate (one contract, for staff and for the portal), links
  that work once, five failures and no more, and a firm that never loses its last active owner.
\<close>

section \<open>Tokens that rotate\<close>

locale rotating_tokens =
  fixes rotate :: "env \<Rightarrow> secrets \<Rightarrow> string \<Rightarrow> caller \<Rightarrow> string \<Rightarrow> 's \<Rightarrow> 'p result \<times> 's"
    and table :: "'s \<Rightarrow> session list"
    and fresh :: "'s \<Rightarrow> pk"
  assumes rotates: "rotate e w tok cl d s = (Inr p, s') \<Longrightarrow>
      \<exists>r. present (now e) (hash_token w tok) (table s) = Good_token r \<and> fresh s' = Suc (fresh s) \<and>
        open_session (now e) (fresh s) (ss_owner r) (hash_token w d) cl (Some (r\<lparr>ss_revoked_at := Some (now e)\<rparr>))
          (revoke_row (now e) (ss_pk r) (table s)) = Inr (table s')"
    and replayed: "present (now e) (hash_token w tok) (table s) = Replayed_token r \<Longrightarrow>
      \<exists>s'. rotate e w tok cl d s = (Inl (refused TOKEN_INVALID), s') \<and> fresh s' = fresh s \<and>
        table s' = revoke_where (now e) (\<lambda>x. ss_owner x = ss_owner r) (table s)"
    and refuses: "rotate e w tok cl d s = (Inl err, s') \<Longrightarrow>
      (\<And>r. present (now e) (hash_token w tok) (table s) \<noteq> Replayed_token r) \<Longrightarrow> s' = s"
begin

lemma keeps_chains:
  assumes "rotate e w tok cl d s = (res, s')" and "chains_ok (fresh s) (table s)"
  shows "chains_ok (fresh s') (table s') \<and> fresh s \<le> fresh s'"
proof (cases res)
  case (Inr p)
  then obtain r where r: "present (now e) (hash_token w tok) (table s) = Good_token r" and k: "fresh s' = Suc (fresh s)"
    and run: "open_session (now e) (fresh s) (ss_owner r) (hash_token w d) cl
      (Some (r\<lparr>ss_revoked_at := Some (now e)\<rparr>)) (revoke_row (now e) (ss_pk r) (table s)) = Inr (table s')"
    using assms(1) rotates by blast
  from r have "r \<in> set (table s)" "live_session r" by (auto simp: present_cases dest: find_session_Some)
  from rotation_ok [OF assms(2) this run] k show ?thesis by simp
next
  case (Inl err)
  show ?thesis
  proof (cases "\<exists>r. present (now e) (hash_token w tok) (table s) = Replayed_token r")
    case True
    then obtain r where "present (now e) (hash_token w tok) (table s) = Replayed_token r" by blast
    from replayed [OF this, of cl d] assms(1) show ?thesis
      using chains_ok_revoke_where [OF assms(2)] by auto
  next
    case False
    with refuses [of e w tok cl d s err s'] assms Inl show ?thesis by auto
  qed
qed

text \<open>A token presented again after it was exchanged ends every session of its owner.\<close>

lemma replay_ends_all:
  assumes first: "rotate e w tok cl d s = (Inr p, s1)" and again: "rotate e' w tok cl' d' s1 = (res, s2)"
  obtains r where "find_session (hash_token w tok) (table s) = Some r"
    and "res = Inl (refused TOKEN_INVALID)"
    and "\<And>x. x \<in> set (table s2) \<Longrightarrow> ss_owner x = ss_owner r \<Longrightarrow> \<not> live_session x"
proof -
  from rotates [OF first] obtain r where good: "present (now e) (hash_token w tok) (table s) = Good_token r"
    and run: "open_session (now e) (fresh s) (ss_owner r) (hash_token w d) cl
      (Some (r\<lparr>ss_revoked_at := Some (now e)\<rparr>)) (revoke_row (now e) (ss_pk r) (table s)) = Inr (table s1)" by blast
  have "present (now e') (hash_token w tok) (table s1) = Replayed_token (r\<lparr>ss_revoked_at := Some (now e)\<rparr>)"
    by (rule rotated_is_replayed [OF good run])
  from replayed [OF this, of cl' d'] again have "res = Inl (refused TOKEN_INVALID)"
    and t: "table s2 = revoke_where (now e') (\<lambda>x. ss_owner x = ss_owner r) (table s1)" by auto
  moreover have "\<not> live_session x" if "x \<in> set (table s2)" "ss_owner x = ss_owner r" for x
    using revoke_where_live [of x "now e'" "\<lambda>x. ss_owner x = ss_owner r" "table s1"] that t by auto
  moreover have "find_session (hash_token w tok) (table s) = Some r" using good by (simp add: present_cases)
  ultimately show thesis using that by blast
qed

text \<open>A token of a session that was ended on purpose is refused and ends nothing.\<close>

lemma ended_is_quiet:
  assumes "present (now e) (hash_token w tok) (table s) = Ended_token r" and "rotate e w tok cl d s = (res, s')"
  shows "s' = s \<and> (\<exists>err. res = Inl err)"
proof (cases res)
  case (Inl err)
  with refuses [of e w tok cl d s err s'] assms show ?thesis by auto
next
  case (Inr p)
  with rotates [of e w tok cl d s p s'] assms show ?thesis by auto
qed

end

lemma issue_tokens_Inr [res_simps]:
  "issue_tokens e w u cl continues d s = Inr (p, s') \<longleftrightarrow> (\<exists>rows.
    open_session (now e) (next_pk s) (pk u) (hash_token w d) cl continues (refresh_sessions s) = Inr rows \<and>
    p = \<lparr>tp_user = pk u, tp_company = company_id u, tp_role = staff_role u,
        tp_access_until = now e + ACCESS_TOKEN_LIFETIME, tp_refresh = d,
        tp_refresh_expires_at = now e + REFRESH_TOKEN_LIFETIME\<rparr> \<and>
    s' = s\<lparr>next_pk := Suc (next_pk s), refresh_sessions := rows\<rparr>)"
  by (auto simp: issue_tokens_def bind_res_Inr_iff)

lemma issue_portal_tokens_Inr [res_simps]:
  "issue_portal_tokens e w a cl continues d s = Inr (p, s') \<longleftrightarrow> (\<exists>rows.
    open_session (now e) (next_pk s) (pk a) (hash_token w d) cl continues (portal_sessions s) = Inr rows \<and>
    p = \<lparr>pp_account = pk a, pp_access_until = now e + ACCESS_TOKEN_LIFETIME, pp_refresh = d,
        pp_refresh_expires_at = now e + REFRESH_TOKEN_LIFETIME\<rparr> \<and>
    s' = s\<lparr>next_pk := Suc (next_pk s), portal_sessions := rows\<rparr>)"
  by (auto simp: issue_portal_tokens_def bind_res_Inr_iff)

lemma rotate_Inr:
  assumes "rotate_refresh_token e w tok cl d s = (Inr p, s')"
  obtains r u where "pk u = ss_owner r" and "present (now e) (hash_token w tok) (refresh_sessions s) = Good_token r"
    and "by_pk (ss_owner r) (staff_users s) = Some u" and "staff_is_active u"
    and "commit_rotation e w u r cl d s = Inr (p, s')"
  using assms unfolding rotate_refresh_token_def
  by (auto split: presented.splits option.splits if_splits sum.splits dest: by_pk_SomeD)

lemma rotate_portal_Inr:
  assumes "rotate_portal_token e w tok cl d s = (Inr (a, p), s')"
  obtains r where "pk a = ss_owner r" and "present (now e) (hash_token w tok) (portal_sessions s) = Good_token r"
    and "by_pk (ss_owner r) (portal_accounts s) = Some a" and "pa_is_active a"
    and "issue_portal_tokens e w a cl (Some (r\<lparr>ss_revoked_at := Some (now e)\<rparr>)) d
      (s\<lparr>portal_sessions := revoke_row (now e) (ss_pk r) (portal_sessions s)\<rparr>) = Inr (p, s')"
  using assms unfolding rotate_portal_token_def
  by (auto split: presented.splits option.splits if_splits sum.splits dest: by_pk_SomeD)

interpretation staff_tokens: rotating_tokens rotate_refresh_token refresh_sessions next_pk
proof
  fix e :: env and w :: secrets and tok d :: string and cl :: caller and s s' :: "'a entrance_scheme" and p
  assume "rotate_refresh_token e w tok cl d s = (Inr p, s')"
  then show "\<exists>r. present (now e) (hash_token w tok) (refresh_sessions s) = Good_token r \<and> next_pk s' = Suc (next_pk s) \<and>
      open_session (now e) (next_pk s) (ss_owner r) (hash_token w d) cl (Some (r\<lparr>ss_revoked_at := Some (now e)\<rparr>))
        (revoke_row (now e) (ss_pk r) (refresh_sessions s)) = Inr (refresh_sessions s')"
    by (elim rotate_Inr) (auto simp: commit_rotation_def res_simps)
next
  fix e :: env and w :: secrets and tok d :: string and cl :: caller and s :: "'a entrance_scheme" and r
  assume "present (now e) (hash_token w tok) (refresh_sessions s) = Replayed_token r"
  then show "\<exists>s'. rotate_refresh_token e w tok cl d s = (Inl (refused TOKEN_INVALID), s') \<and> next_pk s' = next_pk s \<and>
      refresh_sessions s' = revoke_where (now e) (\<lambda>x. ss_owner x = ss_owner r) (refresh_sessions s)"
    by (simp add: rotate_refresh_token_def revoke_all_sessions_def revoke_sessions_def)
next
  fix e :: env and w :: secrets and tok d :: string and cl :: caller and s s' :: "'a entrance_scheme" and err
  assume "rotate_refresh_token e w tok cl d s = (Inl err, s')"
    and "\<And>r. present (now e) (hash_token w tok) (refresh_sessions s) \<noteq> Replayed_token r"
  then show "s' = s"
    unfolding rotate_refresh_token_def by (auto split: presented.splits option.splits if_splits sum.splits)
qed

interpretation portal_tokens: rotating_tokens rotate_portal_token portal_sessions next_pk
proof
  fix e :: env and w :: secrets and tok d :: string and cl :: caller and s s' :: "'a reception_scheme" and p
  assume run: "rotate_portal_token e w tok cl d s = (Inr p, s')"
  obtain a q where "p = (a, q)" by fastforce
  with run show "\<exists>r. present (now e) (hash_token w tok) (portal_sessions s) = Good_token r \<and> next_pk s' = Suc (next_pk s) \<and>
      open_session (now e) (next_pk s) (ss_owner r) (hash_token w d) cl (Some (r\<lparr>ss_revoked_at := Some (now e)\<rparr>))
        (revoke_row (now e) (ss_pk r) (portal_sessions s)) = Inr (portal_sessions s')"
    by (auto elim!: rotate_portal_Inr simp: res_simps)
next
  fix e :: env and w :: secrets and tok d :: string and cl :: caller and s :: "'a reception_scheme" and r
  assume "present (now e) (hash_token w tok) (portal_sessions s) = Replayed_token r"
  then show "\<exists>s'. rotate_portal_token e w tok cl d s = (Inl (refused TOKEN_INVALID), s') \<and> next_pk s' = next_pk s \<and>
      portal_sessions s' = revoke_where (now e) (\<lambda>x. ss_owner x = ss_owner r) (portal_sessions s)"
    by (simp add: rotate_portal_token_def end_portal_sessions_def revoke_portal_sessions_def)
next
  fix e :: env and w :: secrets and tok d :: string and cl :: caller and s s' :: "'a reception_scheme" and err
  assume "rotate_portal_token e w tok cl d s = (Inl err, s')"
    and "\<And>r. present (now e) (hash_token w tok) (portal_sessions s) \<noteq> Replayed_token r"
  then show "s' = s"
    unfolding rotate_portal_token_def by (auto split: presented.splits option.splits if_splits sum.splits)
qed

text \<open>
  Two rotations of one token that both read it live: each revokes the same row and opens a successor, and
  the chain has two live rows. The rotation takes no lock on the row it read.
\<close>

lemma two_rotations_split_a_chain:
  assumes good: "present (now e) (hash_token w tok) (refresh_sessions s) = Good_token r"
    and u: "by_pk (ss_owner r) (staff_users s) = Some u"
    and one: "commit_rotation e w u r cl d s = Inr (p, s1)"
    and two: "commit_rotation e' w u r cl' d' s1 = Inr (p', s2)" and ok: "chains_ok (next_pk s) (refresh_sessions s)"
  shows "\<exists>a b. a \<in> set (refresh_sessions s2) \<and> b \<in> set (refresh_sessions s2) \<and> a \<noteq> b \<and>
    live_session a \<and> live_session b \<and> ss_chain a = ss_chain r \<and> ss_chain b = ss_chain r"
proof -
  from good have r: "r \<in> set (refresh_sessions s)" by (auto simp: present_cases dest: find_session_Some)
  let ?a = "session_row (now e) (next_pk s) (pk u) (hash_token w d) cl (Some (r\<lparr>ss_revoked_at := Some (now e)\<rparr>))"
  let ?b = "session_row (now e') (next_pk s1) (pk u) (hash_token w d') cl' (Some (r\<lparr>ss_revoked_at := Some (now e')\<rparr>))"
  have s1: "refresh_sessions s1 = revoke_row (now e) (ss_pk r) (refresh_sessions s) @ [?a]" "next_pk s1 = Suc (next_pk s)"
    using one by (auto simp: commit_rotation_def res_simps open_session_def split: if_splits)
  have s2: "refresh_sessions s2 = revoke_row (now e') (ss_pk r) (refresh_sessions s1) @ [?b]"
    using two by (auto simp: commit_rotation_def res_simps open_session_def split: if_splits)
  have "ss_pk ?a \<noteq> ss_pk r" using chains_okD(3) [OF ok r] by (simp add: session_row_def)
  then have "?a \<in> set (refresh_sessions s2)" unfolding s1 s2 revoke_row_def by (auto simp: set_update_where)
  moreover have "?b \<in> set (refresh_sessions s2)" unfolding s2 by simp
  moreover have "?a \<noteq> ?b" unfolding s1(2) session_row_def by simp
  moreover have "live_session ?a" "live_session ?b" "ss_chain ?a = ss_chain r" "ss_chain ?b = ss_chain r"
    by (simp_all add: session_row_def live_session_def)
  ultimately show ?thesis by blast
qed

section \<open>Links that work once\<close>

lemma find_token_marked:
  assumes "List.find P rows = Some t" and "\<And>x. P (f x) = P x"
  shows "List.find P (update_where (\<lambda>x. ot_pk x = ot_pk t) f rows) = Some (f t)"
  using assms by (induction rows) (auto split: if_splits)

lemma usable_token_Inr:
  "usable_token e w tok purpose s = Inr t \<longleftrightarrow>
    List.find (\<lambda>t. ot_token_hash t = hash_token w tok \<and> ot_purpose t = purpose) (one_time_tokens s) = Some t \<and>
    ot_used_at t = None \<and> now e < ot_expires_at t"
  by (auto simp: usable_token_def split: option.splits)

lemma used_token_refused:
  assumes "usable_token e w tok purpose s = Inr t"
  shows "usable_token e' w tok purpose (mark_used e t s) = Inl (refused TOKEN_INVALID)"
proof -
  have "List.find (\<lambda>t. ot_token_hash t = hash_token w tok \<and> ot_purpose t = purpose)
      (one_time_tokens (mark_used e t s)) = Some (t\<lparr>ot_used_at := Some (now e)\<rparr>)"
    using assms unfolding mark_used_def usable_token_Inr by (simp add: find_token_marked)
  then show ?thesis by (simp add: usable_token_def)
qed

lemma consume_Inr:
  assumes "consume_one_time_token e w tok purpose s = Inr (u, s')"
  obtains t where "usable_token e w tok purpose s = Inr t" and "ot_user t = Some (pk u)"
    and "by_pk (pk u) (staff_users s) = Some u" and "s' = mark_used e t s"
proof -
  from assms obtain t k where "usable_token e w tok purpose s = Inr t" "ot_user t = Some k"
    "by_pk k (staff_users s) = Some u" "s' = mark_used e t s"
    unfolding consume_one_time_token_def by (auto simp: res_simps split: option.splits)
  then show ?thesis using that [of t] by (auto dest: by_pk_SomeD)
qed

text \<open>A new link retires those before it.\<close>

lemma new_link_retires:
  assumes "issue_one_time_token e w u purpose life d s = Inr s'" and "t \<in> set (one_time_tokens s')"
    and "ot_user t = Some u" and "ot_purpose t = purpose" and "ot_used_at t = None"
  shows "ot_token_hash t = hash_token w d"
proof -
  define old where "old = one_time_tokens (retire_tokens e (\<lambda>t. ot_user t = Some u \<and> ot_purpose t = purpose) s)"
  have "ot_used_at x \<noteq> None" if "x \<in> set old" "ot_user x = Some u" "ot_purpose x = purpose" for x
  proof -
    have "x \<in> (\<lambda>y. if (ot_user y = Some u \<and> ot_purpose y = purpose) \<and> ot_used_at y = None
        then y\<lparr>ot_used_at := Some (now e)\<rparr> else y) ` set (one_time_tokens s)"
      using that(1) unfolding old_def retire_tokens_def by (simp add: set_update_where)
    then obtain y where "x = (if (ot_user y = Some u \<and> ot_purpose y = purpose) \<and> ot_used_at y = None
        then y\<lparr>ot_used_at := Some (now e)\<rparr> else y)" by blast
    with that(2,3) show ?thesis by (cases "ot_used_at y = None") (auto split: if_split_asm)
  qed
  then have "t \<notin> set old" using assms(3-5) by blast
  moreover have "one_time_tokens s' = old @ [\<lparr>ot_pk = next_pk s, ot_user = Some u, ot_portal = None,
      ot_purpose = purpose, ot_token_hash = hash_token w d, ot_expires_at = now e + life, ot_used_at = None\<rparr>]"
    using assms(1) unfolding issue_one_time_token_def insert_token_def old_def
    by (clarsimp simp: retire_tokens_def split: if_split_asm)
  ultimately show ?thesis using assms(2) by auto
qed

text \<open>A completed reset: the new password, no session left, the link spent, the caller's lock lifted.\<close>

lemma reset_done:
  assumes run: "confirm_password_reset e w tok raw ip s = Inr (u, s')"
  shows "passwords s' (pk u) = Some (make_password w raw)"
    and "x \<in> set (refresh_sessions s') \<Longrightarrow> ss_owner x = pk u \<Longrightarrow> \<not> live_session x"
    and "usable_token e' w tok Password_reset s' = Inl (refused TOKEN_INVALID)"
    and "\<not> is_locked t (bucket_of (staff_email u) ip) (cache s')"
    and "\<exists>k \<in> set (one_time_tokens s). ot_user k = Some (pk u) \<and> ot_purpose k = Password_reset \<and>
      ot_token_hash k = hash_token w tok \<and> ot_used_at k = None \<and> now e < ot_expires_at k"
proof -
  from run obtain s1 where c: "consume_one_time_token e w tok Password_reset s = Inr (u, s1)"
    and s': "s' = revoke_all_sessions e (pk u) ((set_password e w u raw s1)
      \<lparr>cache := clear_bucket (bucket_of (staff_email u) ip) (cache (set_password e w u raw s1))\<rparr>)"
    by (auto simp: confirm_password_reset_def bind_res_Inr_iff Let_def)
  from c obtain t0 where t0: "usable_token e w tok Password_reset s = Inr t0" "ot_user t0 = Some (pk u)"
    "s1 = mark_used e t0 s" by (rule consume_Inr)
  show "passwords s' (pk u) = Some (make_password w raw)"
    by (simp add: s' set_password_def revoke_all_sessions_def revoke_sessions_def)
  show "x \<in> set (refresh_sessions s') \<Longrightarrow> ss_owner x = pk u \<Longrightarrow> \<not> live_session x"
    by (auto simp: s' revoke_all_sessions_def revoke_sessions_def dest: revoke_where_live)
  show "\<not> is_locked t (bucket_of (staff_email u) ip) (cache s')"
    by (simp add: s' revoke_all_sessions_def revoke_sessions_def is_locked_def clear_bucket_def)
  have "one_time_tokens s' = one_time_tokens (mark_used e t0 s)"
    by (simp add: s' t0(3) set_password_def revoke_all_sessions_def revoke_sessions_def)
  then have "usable_token e' w tok Password_reset s' = usable_token e' w tok Password_reset (mark_used e t0 s)"
    by (simp add: usable_token_def)
  with used_token_refused [OF t0(1)]
  show "usable_token e' w tok Password_reset s' = Inl (refused TOKEN_INVALID)" by simp
  from t0(1) show "\<exists>k \<in> set (one_time_tokens s). ot_user k = Some (pk u) \<and> ot_purpose k = Password_reset \<and>
      ot_token_hash k = hash_token w tok \<and> ot_used_at k = None \<and> now e < ot_expires_at k"
    unfolding usable_token_Inr using t0(2) by (auto dest!: find_Some_iff)
qed

end
