(* ===== verification/Door_Laws.thy ===== *)
theory Door_Laws
  imports Account_Laws
begin

text \<open>
  The invariant of the two doors, over every service of staff and portal accounts: one live row per chain
  in either table, people with keys of their own; and a firm with an active owner keeps one.
\<close>

section \<open>The invariant\<close>

definition who :: "'a books_scheme \<Rightarrow> (pk \<times> pk \<times> role \<times> bool) list" where
  "who s = List.map (\<lambda>u. (pk u, company_id u, staff_role u, staff_is_active u)) (staff_users s)"

definition has_owner :: "pk \<Rightarrow> 'a books_scheme \<Rightarrow> bool" where
  "has_owner co s \<longleftrightarrow> (\<exists>u \<in> set (staff_users s). company_id u = co \<and> staff_role u = Owner \<and> staff_is_active u)"

definition people_ok :: "'a books_scheme \<Rightarrow> bool" where
  "people_ok s \<longleftrightarrow> distinct (map pk (staff_users s)) \<and> (\<forall>u \<in> set (staff_users s). pk u < next_pk s)"

definition doors_ok :: "'a reception_scheme \<Rightarrow> bool" where
  "doors_ok s \<longleftrightarrow> people_ok s \<and> chains_ok (next_pk s) (refresh_sessions s) \<and> chains_ok (next_pk s) (portal_sessions s)"

definition owners_stay :: "'a books_scheme \<Rightarrow> 'a books_scheme \<Rightarrow> bool" where
  "owners_stay s s' \<longleftrightarrow> (\<forall>co. has_owner co s \<longrightarrow> has_owner co s')"

definition kept_doors :: "'a reception_scheme \<Rightarrow> 'a reception_scheme \<Rightarrow> bool" where
  "kept_doors s s' \<longleftrightarrow> (doors_ok s \<longrightarrow> doors_ok s') \<and> owners_stay s s'"

lemma has_owner_who: "has_owner co s \<longleftrightarrow> (\<exists>k. (k, co, Owner, True) \<in> set (who s))"
  by (force simp: has_owner_def who_def)

lemma people_ok_who: "people_ok s \<longleftrightarrow> distinct (map fst (who s)) \<and> (\<forall>x \<in> set (who s). fst x < next_pk s)"
  by (simp add: people_ok_def who_def comp_def)

lemma people_ok_same:
  "who s' = who s \<Longrightarrow> next_pk s \<le> next_pk s' \<Longrightarrow> people_ok s \<Longrightarrow> people_ok s'"
  unfolding people_ok_who by auto

text \<open>A service that leaves people and sessions alone, a session table that keeps its order.\<close>

lemma kept_doorsI:
  assumes "who s' = who s" and "next_pk s \<le> next_pk s'"
    and "chains_ok (next_pk s) (refresh_sessions s) \<Longrightarrow> chains_ok (next_pk s') (refresh_sessions s')"
    and "chains_ok (next_pk s) (portal_sessions s) \<Longrightarrow> chains_ok (next_pk s') (portal_sessions s')"
  shows "kept_doors s s'"
  using assms people_ok_same [OF assms(1,2)]
  unfolding kept_doors_def doors_ok_def owners_stay_def has_owner_who by simp

definition quiet :: "'a reception_scheme \<Rightarrow> 'a reception_scheme \<Rightarrow> bool" where
  "quiet s s' \<longleftrightarrow> who s' = who s \<and> next_pk s \<le> next_pk s' \<and> refresh_sessions s' = refresh_sessions s \<and>
    portal_sessions s' = portal_sessions s"

lemma quiet_kept: "quiet s s' \<Longrightarrow> kept_doors s s'"
  unfolding quiet_def by (rule kept_doorsI) (auto intro: chains_ok_later)

lemma kept_refl [simp]: "kept_doors s s"
  by (simp add: kept_doors_def owners_stay_def)

lemma kept_trans: "kept_doors s t \<Longrightarrow> kept_doors t u \<Longrightarrow> kept_doors s u"
  by (simp add: kept_doors_def owners_stay_def)

lemma quiet_refl [simp]: "quiet s s"
  by (simp add: quiet_def)

lemma quiet_trans: "quiet s t \<Longrightarrow> quiet t u \<Longrightarrow> quiet s u"
  by (simp add: quiet_def)

lemma who_touch [simp]:
  "who (s\<lparr>staff_users := update_where P (\<lambda>x. x\<lparr>updated_at := t\<rparr>) (staff_users s)\<rparr>) = who s"
  unfolding who_def by (simp add: update_where_def comp_def)

section \<open>The quiet services\<close>

lemma quiet_simps [simp]:
  "quiet s (send_letter x to tok s')= quiet s s'" "quiet s (s'\<lparr>cache := c\<rparr>) = quiet s s'"
  "quiet s (s'\<lparr>one_time_tokens := ts\<rparr>) = quiet s s'" "quiet s (retire_tokens e P s') = quiet s s'"
  "quiet s (mark_used e t s') = quiet s s'" "quiet s (s'\<lparr>passwords := ps\<rparr>) = quiet s s'"
  "quiet s (s'\<lparr>last_logins := ls\<rparr>) = quiet s s'" "quiet s (s'\<lparr>verified_emails := vs\<rparr>) = quiet s s'"
  "quiet s (s'\<lparr>invitations := is\<rparr>) = quiet s s'" "quiet s (s'\<lparr>portal_accounts := pas\<rparr>) = quiet s s'"
  "quiet s (s'\<lparr>assignments := as\<rparr>) = quiet s s'"
  by (simp_all add: quiet_def who_def send_letter_def retire_tokens_def mark_used_def)

lemma quiet_touch [simp]:
  "quiet s (s'\<lparr>staff_users := update_where P (\<lambda>x. x\<lparr>updated_at := t\<rparr>) (staff_users s')\<rparr>) = quiet s s'"
  by (simp add: quiet_def)

lemma set_password_quiet: "quiet s (set_password e w u raw s)"
proof -
  have "quiet s ((s\<lparr>passwords := (passwords s)(pk u \<mapsto> make_password w raw)\<rparr>)
      \<lparr>staff_users := update_where (\<lambda>x. pk x = pk u) (\<lambda>x. x\<lparr>updated_at := now e\<rparr>)
        (staff_users (s\<lparr>passwords := (passwords s)(pk u \<mapsto> make_password w raw)\<rparr>))\<rparr>)"
    by (simp only: quiet_touch quiet_simps quiet_refl)
  then show ?thesis by (simp add: set_password_def)
qed

lemma insert_token_quiet: "insert_token t s = Inr s' \<Longrightarrow> quiet s s'"
  by (auto simp: insert_token_def quiet_def who_def split: if_splits)

lemma issue_link_quiet: "issue_one_time_token e w u p life d s = Inr s' \<Longrightarrow> quiet s s'"
  unfolding issue_one_time_token_def by (drule insert_token_quiet) (simp add: quiet_def who_def retire_tokens_def)

lemma issue_portal_link_quiet: "issue_portal_link e w a p life d s = Inr s' \<Longrightarrow> quiet s s'"
  unfolding issue_portal_link_def by (drule insert_token_quiet) (simp add: quiet_def who_def retire_tokens_def)

lemma consume_quiet: "consume_one_time_token e w tok p s = Inr (u, s') \<Longrightarrow> quiet s s'"
  by (elim consume_Inr) simp

lemma consume_portal_quiet: "consume_portal_link e w tok p s = Inr (a, s') \<Longrightarrow> quiet s s'"
  by (auto simp: consume_portal_link_def split: option.splits if_splits)

lemma reset_asked_quiet: "request_password_reset e w email d s = Inr (x, s') \<Longrightarrow> quiet s s'"
  by (auto simp: request_password_reset_def bind_res_Inr_iff split: option.splits dest: issue_link_quiet)

lemma verification_asked_quiet: "request_email_verification e w u d s = Inr s' \<Longrightarrow> quiet s s'"
  by (auto simp: request_email_verification_def bind_res_Inr_iff dest: issue_link_quiet)

lemma verified_quiet: "confirm_email_verification e w tok s = Inr (u, s') \<Longrightarrow> quiet s s'"
proof -
  assume "confirm_email_verification e w tok s = Inr (u, s')"
  then obtain s1 where s1: "consume_one_time_token e w tok Email_verification s = Inr (u, s1)"
    and s': "s' = (s1\<lparr>verified_emails := (verified_emails s1)(pk u := True)\<rparr>)\<lparr>staff_users :=
      update_where (\<lambda>x. pk x = pk u) (\<lambda>x. x\<lparr>updated_at := now e\<rparr>)
        (staff_users (s1\<lparr>verified_emails := (verified_emails s1)(pk u := True)\<rparr>))\<rparr>"
    by (auto simp: confirm_email_verification_def bind_res_Inr_iff)
  show ?thesis unfolding s' by (simp only: quiet_touch quiet_simps consume_quiet [OF s1])
qed

lemma invitation_quiet:
  "create_invitation e w co email f l r by d s = Inr (i, s') \<Longrightarrow> quiet s s'"
  by (auto simp: create_invitation_def Let_def bind_res_Inr_iff db_insert_Inr_iff quiet_def who_def send_letter_def split: if_splits)

lemma invited_quiet: "invite_colleague e w a email f l r d s = Inr (i, s') \<Longrightarrow> quiet s s'"
  by (auto simp: invite_colleague_def split: if_splits dest: invitation_quiet)

lemma save_invitation_quiet: "save_invitation e i s = Inr s' \<Longrightarrow> quiet s s'"
  by (auto simp: save_invitation_def bind_res_Inr_iff split: if_splits)

lemma resent_quiet: "resend_invitation e w i d s = Inr s' \<Longrightarrow> quiet s s'"
  by (auto simp: resend_invitation_def Let_def bind_res_Inr_iff split: if_splits dest: save_invitation_quiet)

lemma withdrawn_quiet: "withdraw_invitation e k s = Inr s' \<Longrightarrow> quiet s s'"
  by (auto simp: withdraw_invitation_def bind_res_Inr_iff)

lemma assigned_quiet:
  assumes "set_assigned_customers e u ids s = Inr s'"
  shows "quiet s s'"
proof -
  from assms obtain s1 xs ys where
    gone: "fold_res (\<lambda>a s. bind_res (save_row e (soft_delete e a) (assignments s)) (\<lambda>rows.
      Inr (s\<lparr>assignments := rows\<rparr>))) xs s = Inr s1"
    and new: "fold_res (\<lambda>c s. insert_assignment e (company_id u) (pk u) c s) ys s1 = Inr s'"
    by (auto simp: set_assigned_customers_def Let_def bind_res_Inr_iff split: if_splits)
  have "quiet s s1"
    by (rule fold_res_invariant [where P = "quiet s", OF gone]) (auto simp: bind_res_Inr_iff)
  moreover have "quiet s1 s'"
    by (rule fold_res_invariant [where P = "quiet s1", OF new])
      (auto simp: insert_assignment_def bind_res_Inr_iff db_insert_Inr_iff quiet_def who_def)
  ultimately show ?thesis by (rule quiet_trans)
qed

lemma portal_saved_quiet: "save_portal_account e a s = Inr s' \<Longrightarrow> quiet s s'"
  by (auto simp: save_portal_account_def bind_res_Inr_iff split: if_splits)

lemma portal_invited_quiet: "invite_to_portal e w cu co d s = Inr (a, s') \<Longrightarrow> quiet s s'"
proof -
  assume "invite_to_portal e w cu co d s = Inr (a, s')"
  then obtain c x where "invite_contact e w c x d s = Inr (a, s')"
    by (auto simp: invite_to_portal_def bind_res_Inr_iff split: option.splits if_splits)
  then obtain account s1 s2 where acc: "portal_account_for e c x (lower (strip (cc_email x))) account s = Inr (a, s1)"
    and link: "issue_portal_link e w (pk a) Portal_invitation INVITATION_LIFETIME d s1 = Inr s2"
    and s': "s' = send_letter ''portal_invitation'' (lower (strip (cc_email x))) d s2"
    by (auto simp: invite_contact_def Let_def bind_res_Inr_iff split: if_splits)
  have "quiet s s1"
    using acc by (auto simp: portal_account_for_def Let_def bind_res_Inr_iff db_insert_Inr_iff quiet_def who_def
        split: option.splits dest: portal_saved_quiet [unfolded quiet_def who_def])
  with issue_portal_link_quiet [OF link] s' show ?thesis by (auto intro: quiet_trans)
qed

lemma portal_accepted_quiet: "accept_portal e w tok raw s = Inr (a, s') \<Longrightarrow> quiet s s'"
  by (auto simp: accept_portal_def Let_def bind_res_Inr_iff split: if_splits
      dest!: consume_portal_quiet portal_saved_quiet intro: quiet_trans)

lemma portal_reset_asked_quiet: "request_portal_reset e w email d s = Inr (x, s') \<Longrightarrow> quiet s s'"
  by (auto simp: request_portal_reset_def bind_res_Inr_iff split: option.splits dest: issue_portal_link_quiet)

lemma quiet_signed_in [simp]:
  "quiet s (s\<lparr>cache := c, last_logins := l, staff_users := update_where P (\<lambda>x. x\<lparr>updated_at := t\<rparr>) (staff_users s)\<rparr>)"
  by (simp add: quiet_def who_def update_where_def comp_def)

lemma authenticate_quiet: "authenticate e w email pw ip s = (res, s') \<Longrightarrow> quiet s s'"
  unfolding authenticate_def Let_def by (auto split: if_splits option.splits)

lemma authenticate_portal_quiet: "authenticate_portal e w email pw ip s = (res, s') \<Longrightarrow> quiet s s'"
  unfolding authenticate_portal_def Let_def by (auto split: if_splits option.splits)

section \<open>The services that open and end sessions\<close>

lemma kept_sessions:
  assumes "who s' = who s" and "next_pk s \<le> next_pk s'" and "portal_sessions s' = portal_sessions s"
    and "chains_ok (next_pk s) (refresh_sessions s) \<Longrightarrow> chains_ok (next_pk s') (refresh_sessions s')"
  shows "kept_doors s s'"
  by (rule kept_doorsI) (use assms chains_ok_later in auto)

lemma kept_portal_sessions:
  assumes "who s' = who s" and "next_pk s \<le> next_pk s'" and "refresh_sessions s' = refresh_sessions s"
    and "chains_ok (next_pk s) (portal_sessions s) \<Longrightarrow> chains_ok (next_pk s') (portal_sessions s')"
  shows "kept_doors s s'"
  by (rule kept_doorsI) (use assms chains_ok_later in auto)

lemma revoke_sessions_kept: "kept_doors s (revoke_sessions e P s)"
  by (rule kept_sessions) (auto simp: revoke_sessions_def who_def intro: chains_ok_revoke_where)

lemma revoke_portal_sessions_kept: "kept_doors s (revoke_portal_sessions e P s)"
  by (rule kept_portal_sessions) (auto simp: revoke_portal_sessions_def who_def intro: chains_ok_revoke_where)

lemma opened_kept: "issue_tokens e w u cl None d s = Inr (p, s') \<Longrightarrow> kept_doors s s'"
  by (rule kept_sessions) (auto simp: res_simps who_def dest: open_session_ok [rotated])

lemma portal_opened_kept: "issue_portal_tokens e w a cl None d s = Inr (p, s') \<Longrightarrow> kept_doors s s'"
  by (rule kept_portal_sessions) (auto simp: res_simps who_def dest: open_session_ok [rotated])

lemma rotated_kept: "rotate_refresh_token e w tok cl d s = (res, s') \<Longrightarrow> kept_doors s s'"
proof -
  assume run: "rotate_refresh_token e w tok cl d s = (res, s')"
  have "who s' = who s" "next_pk s \<le> next_pk s'" "portal_sessions s' = portal_sessions s"
    using run unfolding rotate_refresh_token_def
    by (auto simp: commit_rotation_def res_simps who_def revoke_all_sessions_def revoke_sessions_def
        split: presented.splits option.splits if_splits sum.splits)
  then show ?thesis by (rule kept_sessions) (use staff_tokens.keeps_chains [OF run] in blast)
qed

lemma portal_rotated_kept: "rotate_portal_token e w tok cl d s = (res, s') \<Longrightarrow> kept_doors s s'"
proof -
  assume run: "rotate_portal_token e w tok cl d s = (res, s')"
  have "who s' = who s" "next_pk s \<le> next_pk s'" "refresh_sessions s' = refresh_sessions s"
    using run unfolding rotate_portal_token_def
    by (auto simp: res_simps who_def end_portal_sessions_def revoke_portal_sessions_def
        split: presented.splits option.splits if_splits sum.splits)
  then show ?thesis by (rule kept_portal_sessions) (use portal_tokens.keeps_chains [OF run] in blast)
qed

lemma login_kept: "login e w email pw cl d s = (res, s') \<Longrightarrow> kept_doors s s'"
  unfolding login_def
  by (auto split: prod.splits sum.splits dest!: authenticate_quiet quiet_kept opened_kept intro: kept_trans)

lemma portal_login_kept: "portal_login e w email pw cl d s = (res, s') \<Longrightarrow> kept_doors s s'"
  unfolding portal_login_def
  by (auto split: prod.splits sum.splits dest!: authenticate_portal_quiet quiet_kept portal_opened_kept intro: kept_trans)

text \<open>A changed password: every session of the person ends, then the caller's chain goes on.\<close>

lemma password_changed_kept:
  assumes run: "password_change e w u pw raw cookie cl d s = Inr (p, s')"
  shows "kept_doors s s'"
proof -
  define s1 where "s1 = revoke_all_sessions e (pk u) (set_password e w u raw s)"
  define cur where "cur = session_for_refresh_token w (pk u) cookie s"
  have run': "issue_tokens e w u cl cur d s1 = Inr (p, s')"
    using run unfolding password_change_def change_password_def s1_def cur_def by (auto split: if_splits)
  have rows: "refresh_sessions s1 = revoke_where (now e) (\<lambda>r. ss_owner r = pk u) (refresh_sessions s)"
    and n: "next_pk s1 = next_pk s" and w: "who s1 = who s" "portal_sessions s1 = portal_sessions s"
    using set_password_quiet [of s e w u raw]
    by (auto simp: s1_def revoke_all_sessions_def revoke_sessions_def quiet_def who_def set_password_def)
  have cont: "(\<exists>a \<in> set (refresh_sessions s1). same_chain a c \<and> ss_owner a = pk u \<and> ss_signed_in_at a = ss_signed_in_at c) \<and>
      (\<forall>a \<in> set (refresh_sessions s1). same_chain a c \<longrightarrow> \<not> live_session a)"
    if ok: "chains_ok (next_pk s) (refresh_sessions s)" and c: "cur = Some c" for c
  proof -
    from c have c': "c \<in> set (refresh_sessions s)" "ss_owner c = pk u"
      unfolding cur_def session_for_refresh_token_def by (auto split: option.splits if_splits dest: find_Some_iff)
    define c1 where "c1 = (if live_session c \<and> ss_owner c = pk u then c\<lparr>ss_revoked_at := Some (now e)\<rparr> else c)"
    have "c1 \<in> set (refresh_sessions s1)" unfolding rows set_revoke_where c1_def using c'(1) by blast
    moreover have "same_chain c1 c" "ss_owner c1 = pk u" "ss_signed_in_at c1 = ss_signed_in_at c"
      using c'(2) by (simp_all add: c1_def same_chain_def)
    moreover have "\<not> live_session a" if a: "a \<in> set (refresh_sessions s1)" "same_chain a c" for a
    proof
      assume "live_session a"
      with revoke_where_live a(1) have "a \<in> set (refresh_sessions s)" "ss_owner a \<noteq> pk u" unfolding rows by blast+
      with chains_okD(5) [OF ok _ c'(1) a(2)] c'(2) show False by simp
    qed
    ultimately show ?thesis by blast
  qed
  from run' obtain rows' where opened: "open_session (now e) (next_pk s1) (pk u) (hash_token w d) cl cur (refresh_sessions s1) = Inr rows'"
    and s': "s' = s1\<lparr>next_pk := Suc (next_pk s1), refresh_sessions := rows'\<rparr>" by (auto simp: res_simps)
  show ?thesis
  proof (rule kept_sessions)
    show "who s' = who s" using w by (simp add: s' who_def)
    show "next_pk s \<le> next_pk s'" by (simp add: s' n)
    show "portal_sessions s' = portal_sessions s" by (simp add: s' w)
    assume ok: "chains_ok (next_pk s) (refresh_sessions s)"
    have "chains_ok (next_pk s1) (refresh_sessions s1)" unfolding rows n by (rule chains_ok_revoke_where [OF ok])
    from open_session_ok [OF this opened cont [OF ok]] show "chains_ok (next_pk s') (refresh_sessions s')"
      by (simp add: s')
  qed
qed

lemma reset_kept: "confirm_password_reset e w tok raw ip s = Inr (u, s') \<Longrightarrow> kept_doors s s'"
proof -
  assume "confirm_password_reset e w tok raw ip s = Inr (u, s')"
  then obtain s1 c where s1: "consume_one_time_token e w tok Password_reset s = Inr (u, s1)"
    and s': "s' = revoke_all_sessions e (pk u) ((set_password e w u raw s1)\<lparr>cache := c\<rparr>)"
    by (auto simp: confirm_password_reset_def bind_res_Inr_iff Let_def)
  have "quiet s ((set_password e w u raw s1)\<lparr>cache := c\<rparr>)"
    using quiet_trans [OF consume_quiet [OF s1] set_password_quiet] by simp
  from kept_trans [OF quiet_kept [OF this] revoke_sessions_kept] show ?thesis
    unfolding s' revoke_all_sessions_def .
qed

lemma portal_closed_kept: "deactivate_portal e a s = Inr (x, s') \<Longrightarrow> kept_doors s s'"
  by (auto simp: deactivate_portal_def Let_def bind_res_Inr_iff end_portal_sessions_def
      dest!: portal_saved_quiet quiet_kept intro: kept_trans revoke_portal_sessions_kept)

lemma portal_reset_kept: "confirm_portal_reset e w tok raw ip s = Inr (a, s') \<Longrightarrow> kept_doors s s'"
proof -
  assume "confirm_portal_reset e w tok raw ip s = Inr (a, s')"
  then obtain a0 s1 s2 c k where s1: "consume_portal_link e w tok Portal_password_reset s = Inr (a0, s1)"
    and s2: "save_portal_account (e\<lparr>ctx := system_context (ctx e)\<rparr>) (a0\<lparr>pa_password := make_password w raw\<rparr>) s1 = Inr s2"
    and s': "s' = end_portal_sessions e k (s2\<lparr>cache := c\<rparr>)"
    by (auto simp: confirm_portal_reset_def bind_res_Inr_iff Let_def split: if_splits)
  have "quiet s (s2\<lparr>cache := c\<rparr>)"
    using consume_portal_quiet [OF s1] portal_saved_quiet [OF s2] by (auto intro: quiet_trans)
  from kept_trans [OF quiet_kept [OF this] revoke_portal_sessions_kept] show ?thesis
    unfolding s' end_portal_sessions_def .
qed

lemma contact_closed_kept: "close_accounts_of e c s = Inr (n, s') \<Longrightarrow> kept_doors s s'"
proof -
  assume "close_accounts_of e c s = Inr (n, s')"
  then obtain xs where "fold_res (\<lambda>a s. bind_res (deactivate_portal (e\<lparr>ctx := system_context (ctx e)\<rparr>) a s)
      (\<lambda>(_, s). Inr s)) xs s = Inr s'"
    by (auto simp: close_accounts_of_def Let_def bind_res_Inr_iff)
  then show ?thesis
    by (rule fold_res_invariant [where P = "kept_doors s"])
      (auto simp: bind_res_Inr_iff intro: kept_trans dest: portal_closed_kept)
qed

section \<open>The services that make and change people\<close>

lemma kept_people:
  assumes "refresh_sessions s' = refresh_sessions s" and "portal_sessions s' = portal_sessions s"
    and "next_pk s \<le> next_pk s'" and "people_ok s \<Longrightarrow> people_ok s' \<and> owners_stay s s'"
    and "people_ok s"
  shows "kept_doors s s'"
  using assms chains_ok_later unfolding kept_doors_def doors_ok_def by auto

lemma create_user_kept:
  assumes run: "create_user e w email pw co f l r v s = Inr (u, s')"
  shows "kept_doors s s'" and "u \<in> set (staff_users s')" and "company_id u = co" and "staff_role u = r"
    and "staff_is_active u"
proof -
  from run have u: "pk u = next_pk s" "company_id u = co" "staff_role u = r" "staff_is_active u"
    and s': "staff_users s' = staff_users s @ [u]" "next_pk s' = Suc (next_pk s)"
      "refresh_sessions s' = refresh_sessions s" "portal_sessions s' = portal_sessions s"
    unfolding create_user_def by (auto simp: Let_def split: if_splits)
  from u s' show "u \<in> set (staff_users s')" "company_id u = co" "staff_role u = r" "staff_is_active u" by simp_all
  have "owners_stay s s'" unfolding owners_stay_def has_owner_def s' by auto
  moreover have "people_ok s'" if "people_ok s"
    using that u s' unfolding people_ok_def by (auto simp: less_Suc_eq)
  moreover have "chains_ok (Suc (next_pk s)) rows" if "chains_ok (next_pk s) rows" for rows
    using chains_ok_later [OF that] by simp
  ultimately show "kept_doors s s'"
    unfolding kept_doors_def doors_ok_def s'(2-4) by simp
qed

lemma till_quiet: "create_default_cash_account e c s = Inr (t, s') \<Longrightarrow> quiet s s'"
  by (auto simp: create_default_cash_account_def insert_cash_account_def db_insert_Inr_iff quiet_def who_def
      split: option.splits)

lemma registered_kept:
  assumes run: "register_company e w f l email pw d s = Inr (c, u, s')"
  shows "kept_doors s s'" and "has_owner (co_pk c) s'"
proof -
  define sys where "sys = e\<lparr>ctx := system_context (ctx e)\<rparr>"
  define s0 where "s0 = s\<lparr>next_pk := Suc (next_pk s), companies := companies s @ [c]\<rparr>"
  from run obtain s1 s2 t where made: "create_user sys w email pw (co_pk c) f l Owner False s0 = Inr (u, s1)"
    and till: "create_default_cash_account sys c s1 = Inr (t, s2)"
    and mail: "request_email_verification e w u d s2 = Inr s'"
    unfolding register_company_def s0_def sys_def by (auto simp: Let_def bind_res_Inr_iff split: if_splits)
  have "quiet s s0" by (simp add: s0_def quiet_def who_def)
  with create_user_kept(1) [OF made] have k1: "kept_doors s s1" by (blast intro: quiet_kept kept_trans)
  have q: "quiet s1 s'" using till_quiet [OF till] verification_asked_quiet [OF mail] by (rule quiet_trans)
  from kept_trans [OF k1 quiet_kept [OF q]] show "kept_doors s s'" .
  have "has_owner (co_pk c) s1" using create_user_kept(2-5) [OF made] unfolding has_owner_def by blast
  then show "has_owner (co_pk c) s'" using q by (simp add: quiet_def has_owner_who)
qed

lemma accepted_kept: "accept_invitation e w tok pw s = Inr (u, s') \<Longrightarrow> kept_doors s s'"
  by (auto simp: accept_invitation_def Let_def bind_res_Inr_iff
      dest!: create_user_kept(1) save_invitation_quiet quiet_kept intro: kept_trans)

text \<open>One person's columns change: the owners of every firm stay if theirs has another, or they are none.\<close>

lemma save_user_owners:
  assumes ok: "people_ok s" and u: "u \<in> set (staff_users s)"
    and f: "\<And>x. x \<in> set (staff_users s) \<Longrightarrow> pk x = pk u \<Longrightarrow> pk (f x) = pk x \<and> company_id (f x) = company_id x"
    and spare: "other_owners u s = [] \<Longrightarrow> staff_role u = Owner \<Longrightarrow> staff_is_active u \<Longrightarrow>
      staff_role (f u) = Owner \<and> staff_is_active (f u)"
  shows "people_ok (save_user e f u s)" and "owners_stay s (save_user e f u s)"
proof -
  define g where "g = (\<lambda>x. if pk x = pk u then (f x)\<lparr>updated_at := now e\<rparr> else x)"
  have rows: "staff_users (save_user e f u s) = map g (staff_users s)" "next_pk (save_user e f u s) = next_pk s"
    by (simp_all add: save_user_def update_where_def g_def)
  have col: "pk (g x) = pk x \<and> company_id (g x) = company_id x" if "x \<in> set (staff_users s)" for x
    using f [OF that] by (simp add: g_def)
  have pks: "map pk (map g (staff_users s)) = map pk (staff_users s)" using col by (simp add: comp_def)
  show "people_ok (save_user e f u s)"
    using ok col unfolding people_ok_def rows pks by simp
  have only: "x = u" if "x \<in> set (staff_users s)" "pk x = pk u" for x
    using ok u that distinct_map_unique unfolding people_ok_def by metis
  show "owners_stay s (save_user e f u s)"
    unfolding owners_stay_def has_owner_def rows
  proof (intro allI impI, elim bexE)
    fix co x
    assume x: "x \<in> set (staff_users s)" and own: "company_id x = co \<and> staff_role x = Owner \<and> staff_is_active x"
    show "\<exists>y \<in> set (map g (staff_users s)). company_id y = co \<and> staff_role y = Owner \<and> staff_is_active y"
    proof (cases "pk x = pk u")
      case False
      then have "g x = x" by (simp add: g_def)
      with x own show ?thesis by force
    next
      case True
      with only x have xu: "x = u" by blast
      show ?thesis
      proof (cases "other_owners u s")
        case Nil
        with spare own xu have "staff_role (f u) = Owner" "staff_is_active (f u)" by blast+
        then have "company_id (g u) = co \<and> staff_role (g u) = Owner \<and> staff_is_active (g u)"
          using own xu col [OF u] by (simp add: g_def)
        with u show ?thesis by force
      next
        case (Cons y ys)
        then have "y \<in> set (other_owners u s)" by simp
        then have y: "y \<in> set (staff_users s)" "company_id y = company_id u" "staff_role y = Owner"
          "staff_is_active y" "pk y \<noteq> pk u" by (auto simp: other_owners_def)
        then have "g y = y" by (simp add: g_def)
        with y own xu show ?thesis by force
      qed
    qed
  qed
qed

lemma save_user_kept:
  assumes "u \<in> set (staff_users s)"
    and "\<And>x. x \<in> set (staff_users s) \<Longrightarrow> pk x = pk u \<Longrightarrow> pk (f x) = pk x \<and> company_id (f x) = company_id x"
    and "other_owners u s = [] \<Longrightarrow> staff_role u = Owner \<Longrightarrow> staff_is_active u \<Longrightarrow>
      staff_role (f u) = Owner \<and> staff_is_active (f u)"
    and ok: "people_ok s"
  shows "kept_doors s (save_user e f u s)"
proof (rule kept_people)
  show "people_ok (save_user e f u s) \<and> owners_stay s (save_user e f u s)"
    using save_user_owners [OF ok assms(1-3)] by blast
qed (simp_all add: ok save_user_def)

lemma deactivated_kept:
  assumes "deactivate_user e u s = Inr s'" and "u \<in> set (staff_users s)" and "people_ok s"
  shows "kept_doors s s'"
proof -
  from assms(1) have s': "s' = revoke_all_sessions e (pk u) (save_user e (\<lambda>x. x\<lparr>staff_is_active := False\<rparr>) u s)"
    and "\<not> (staff_role u = Owner \<and> other_owners u s = [])"
    unfolding deactivate_user_def by (auto split: if_splits)
  then have "kept_doors s (save_user e (\<lambda>x. x\<lparr>staff_is_active := False\<rparr>) u s)"
    by (intro save_user_kept [OF assms(2) _ _ assms(3)]) auto
  from kept_trans [OF this revoke_sessions_kept] show ?thesis unfolding s' revoke_all_sessions_def .
qed

lemma role_changed_kept:
  assumes run: "change_role e u r s = Inr s'" and u: "u \<in> set (staff_users s)" and "people_ok s"
  shows "kept_doors s s'"
proof -
  define s1 where "s1 = save_user e (\<lambda>x. x\<lparr>staff_role := r\<rparr>) u s"
  from run have "\<not> (r \<noteq> staff_role u \<and> is_last_active_owner u s)" and q: "quiet s1 s'"
    unfolding change_role_def s1_def by (auto simp: Let_def split: if_splits)
  then have "kept_doors s s1"
    unfolding s1_def is_last_active_owner_def by (intro save_user_kept [OF u _ _ assms(3)]) auto
  from kept_trans [OF this quiet_kept [OF q]] show ?thesis .
qed

lemma colleague_in: "colleague e k s = Inr u \<Longrightarrow> u \<in> set (staff_users s) \<and> current_company (ctx e) = Some (company_id u)"
  by (auto simp: colleague_def bind_res_Inr_iff the_res_Inr_iff require_current_company_id_def split: option.splits
      dest: find_Some_iff)

lemma apply_user_form_keeps [simp]:
  "pk (apply_user_form form u) = pk u" "company_id (apply_user_form form u) = company_id u"
  "staff_role (apply_user_form form u) = staff_role u" "staff_is_active (apply_user_form form u) = staff_is_active u"
  by (simp_all add: apply_user_form_def)

lemma updated_kept:
  assumes run: "update_colleague e ar k form s = (res, s')" and ok: "people_ok s"
  shows "kept_doors s s'"
proof (cases "colleague e k s")
  case (Inl err)
  with run show ?thesis by (simp add: update_colleague_def)
next
  case (Inr u)
  note u = conjunct1 [OF colleague_in [OF Inr]]
  define u' where "u' = apply_user_form form u"
  define s1 where "s1 = save_user e (\<lambda>_. u') u s"
  have only: "x = u" if "x \<in> set (staff_users s)" "pk x = pk u" for x
    using ok u that distinct_map_unique unfolding people_ok_def by metis
  have keeps: "pk u' = pk x \<and> company_id u' = company_id x" if "x \<in> set (staff_users s)" "pk x = pk u" for x
    using only [OF that] by (simp add: u'_def)
  have spare: "staff_role u = Owner \<Longrightarrow> staff_is_active u \<Longrightarrow> staff_role u' = Owner \<and> staff_is_active u'"
    by (simp add: u'_def)
  have k1: "kept_doors s s1"
    unfolding s1_def by (rule save_user_kept [OF u _ _ ok]) (use keeps spare in simp_all)
  have ok1: "people_ok s1"
    unfolding s1_def by (rule save_user_owners(1) [OF ok u]) (use keeps spare in simp_all)
  have in1: "u'\<lparr>updated_at := now e\<rparr> \<in> set (staff_users s1)"
    unfolding s1_def save_user_def using u by (force simp: set_update_where u'_def)
  consider "s' = s" | "s' = s1" | r s2 where "change_role e u' r s1 = Inr s2" "s' = s2"
    using run Inr unfolding update_colleague_def u'_def s1_def
    by (auto simp: Let_def split: if_splits option.splits sum.splits)
  then show ?thesis
  proof cases
    case 3
    have "change_role e (u'\<lparr>updated_at := now e\<rparr>) r s1 = change_role e u' r s1"
      by (simp add: change_role_def is_last_active_owner_def other_owners_def save_user_def Let_def)
    with 3 have "change_role e (u'\<lparr>updated_at := now e\<rparr>) r s1 = Inr s'" by simp
    from kept_trans [OF k1 role_changed_kept [OF this in1 ok1]] show ?thesis .
  qed (use k1 in simp_all)
qed

section \<open>Every service\<close>

inductive door_service :: "env \<Rightarrow> secrets \<Rightarrow> 'a reception_scheme \<Rightarrow> 'a reception_scheme \<Rightarrow> bool" for e w where
  signing_in: "login e w email pw cl d s = (res, s') \<Longrightarrow> door_service e w s s'"
| refreshing: "rotate_refresh_token e w tok cl d s = (res, s') \<Longrightarrow> door_service e w s s'"
| signing_out: "door_service e w s (revoke_refresh_token e w tok s)"
| ending_one: "end_session e u chain s = Inr s' \<Longrightarrow> door_service e w s s'"
| ending_others: "revoke_other_sessions e u keep s = (n, s') \<Longrightarrow> door_service e w s s'"
| changing_password: "password_change e w u pw raw cookie cl d s = Inr (p, s') \<Longrightarrow> door_service e w s s'"
| asking_reset: "request_password_reset e w email d s = Inr (x, s') \<Longrightarrow> door_service e w s s'"
| resetting: "confirm_password_reset e w tok raw ip s = Inr (u, s') \<Longrightarrow> door_service e w s s'"
| asking_verification: "request_email_verification e w u d s = Inr s' \<Longrightarrow> door_service e w s s'"
| verifying: "confirm_email_verification e w tok s = Inr (u, s') \<Longrightarrow> door_service e w s s'"
| registering: "register_company e w f l email pw d s = Inr (c, u, s') \<Longrightarrow> door_service e w s s'"
| inviting: "invite_colleague e w a email f l r d s = Inr (i, s') \<Longrightarrow> door_service e w s s'"
| resending: "resend_invitation e w i d s = Inr s' \<Longrightarrow> door_service e w s s'"
| withdrawing: "withdraw_invitation e k s = Inr s' \<Longrightarrow> door_service e w s s'"
| joining: "accept_invitation e w tok pw s = Inr (u, s') \<Longrightarrow> door_service e w s s'"
| deactivating: "deactivate_colleague e actor k s = Inr s' \<Longrightarrow> door_service e w s s'"
| updating: "update_colleague e ar k form s = (upd, s') \<Longrightarrow> door_service e w s s'"
| assigning: "assign_customers e k ids s = Inr s' \<Longrightarrow> door_service e w s s'"
| portal_signing_in: "portal_login e w email pw cl d s = (pres, s') \<Longrightarrow> door_service e w s s'"
| portal_refreshing: "rotate_portal_token e w tok cl d s = (rres, s') \<Longrightarrow> door_service e w s s'"
| portal_signing_out: "door_service e w s (revoke_portal_token e w tok s)"
| portal_inviting: "invite_to_portal e w cu co d s = Inr (pa, s') \<Longrightarrow> door_service e w s s'"
| portal_joining: "accept_portal e w tok pw s = Inr (pa, s') \<Longrightarrow> issue_portal_tokens e w pa cl None d s' = Inr (pp, s'') \<Longrightarrow>
    door_service e w s s''"
| portal_closing: "deactivate_portal e pa s = Inr (pb, s') \<Longrightarrow> door_service e w s s'"
| portal_asking_reset: "request_portal_reset e w email d s = Inr (x, s') \<Longrightarrow> door_service e w s s'"
| portal_resetting: "confirm_portal_reset e w tok raw ip s = Inr (pa, s') \<Longrightarrow> door_service e w s s'"
| contact_deleted: "close_accounts_of e k s = Inr (n, s') \<Longrightarrow> door_service e w s s'"

lemmas kept_rules = login_kept rotated_kept password_changed_kept reset_kept registered_kept(1)
  accepted_kept portal_login_kept portal_rotated_kept portal_closed_kept
  portal_reset_kept contact_closed_kept

lemmas quiet_keeps = quiet_kept [OF reset_asked_quiet] quiet_kept [OF verification_asked_quiet]
  quiet_kept [OF verified_quiet] quiet_kept [OF invited_quiet] quiet_kept [OF resent_quiet] quiet_kept [OF withdrawn_quiet]
  quiet_kept [OF portal_invited_quiet] quiet_kept [OF portal_reset_asked_quiet]

theorem door_service_kept:
  assumes "door_service e w s s'" and "doors_ok s"
  shows "doors_ok s' \<and> owners_stay s s'"
proof -
  have ok: "people_ok s" using assms(2) by (simp add: doors_ok_def)
  have "kept_doors s s'"
    using assms(1) ok
  proof (induction rule: door_service.induct)
    case (ending_one u chain s s')
    then have "s' = revoke_sessions e (\<lambda>r. ss_owner r = u \<and> ss_chain r = chain) s"
      by (auto simp: end_session_def revoke_session_def split: prod.splits bool.splits)
    then show ?case by (simp add: revoke_sessions_kept)
  next
    case (ending_others u keep s n s')
    then obtain P where "s' = revoke_sessions e P s" by (auto simp: revoke_other_sessions_def Let_def)
    then show ?case by (simp add: revoke_sessions_kept)
  next
    case (deactivating actor k s s')
    then obtain u where "colleague e k s = Inr u" "deactivate_user e u s = Inr s'"
      by (auto simp: deactivate_colleague_def bind_res_Inr_iff split: if_splits)
    with deactivating(2) show ?case by (blast intro: deactivated_kept dest: colleague_in)
  next
    case (updating ar k form s upd s')
    then show ?case by (blast intro: updated_kept)
  next
    case (assigning k ids s s')
    then show ?case
      by (auto simp: assign_customers_def bind_res_Inr_iff split: if_splits intro: quiet_kept dest: assigned_quiet)
  next
    case (portal_joining tok pw s pa s' cl d pp s'')
    then show ?case by (blast intro: kept_trans quiet_kept portal_accepted_quiet portal_opened_kept)
  qed (unfold revoke_refresh_token_def revoke_portal_token_def,
      ((rule kept_rules quiet_keeps, assumption) | rule revoke_sessions_kept revoke_portal_sessions_kept)+)
  with assms(2) show ?thesis by (simp add: kept_doors_def)
qed

end
