(* ===== verification/Lockout_Laws.thy ===== *)
theory Lockout_Laws
  imports Door_Laws
begin

text \<open>
  What the lockout bounds: of the attempts on one pair of address and network address within fifteen
  minutes, none of which gets in, at most five are told that the password was wrong.
\<close>

fun sign_in_attempts ::
  "secrets \<Rightarrow> string \<Rightarrow> string option \<Rightarrow> (env \<times> string) list \<Rightarrow> 'a entrance_scheme
    \<Rightarrow> staff result list \<times> 'a entrance_scheme" where
  "sign_in_attempts w email ip [] s = ([], s)"
| "sign_in_attempts w email ip ((e, pw) # as) s =
    (let (r, s') = authenticate e w email pw ip s; (rs, s'') = sign_in_attempts w email ip as s'
     in (r # rs, s''))"

definition wrong :: "staff result \<Rightarrow> bool" where
  "wrong r \<longleftrightarrow> r = Inl (refused INVALID_CREDENTIALS)"

text \<open>\<open>n\<close> failures count against the bucket for the whole of a window that starts at \<open>t0\<close>.\<close>

definition failures_counted :: "instant \<Rightarrow> bucket \<Rightarrow> nat \<Rightarrow> lock_cache \<Rightarrow> bool" where
  "failures_counted t0 b n c \<longleftrightarrow>
    (if n = 0 then case failure_counts c b of None \<Rightarrow> True | Some (m, x) \<Rightarrow> x \<le> t0
     else if n < MAX_ATTEMPTS then \<exists>x. failure_counts c b = Some (n, x) \<and> t0 + ATTEMPT_WINDOW \<le> x
     else n = MAX_ATTEMPTS \<and> (\<exists>x. lock_until c b = Some x \<and> t0 + ATTEMPT_WINDOW \<le> x))"

lemma record_failure_counts:
  assumes "failures_counted t0 b n c" and "t0 \<le> t" and "t < t0 + ATTEMPT_WINDOW" and "\<not> is_locked t b c"
  shows "n < MAX_ATTEMPTS" and "failures_counted t0 b (Suc n) (record_failure t b c)"
proof -
  show n: "n < MAX_ATTEMPTS"
    using assms unfolding failures_counted_def is_locked_def by (auto simp: MAX_ATTEMPTS_def split: if_splits)
  have "\<exists>x. counted_failure t b c = (Suc n, x) \<and> t0 + ATTEMPT_WINDOW \<le> x"
    using assms n unfolding failures_counted_def counted_failure_def
    by (auto split: if_splits option.splits prod.splits)
  then obtain x where x: "counted_failure t b c = (Suc n, x)" "t0 + ATTEMPT_WINDOW \<le> x" by blast
  show "failures_counted t0 b (Suc n) (record_failure t b c)"
  proof (cases "MAX_ATTEMPTS \<le> Suc n")
    case True
    with n have "Suc n = MAX_ATTEMPTS" by simp
    with x assms(2) show ?thesis
      unfolding record_failure_def failures_counted_def by (auto simp: LOCKOUT_def ATTEMPT_WINDOW_def)
  next
    case False
    with x show ?thesis unfolding record_failure_def failures_counted_def by auto
  qed
qed

lemma authenticate_cases:
  assumes "authenticate e w email pw ip s = (Inl err, s')"
  obtains "\<not> wrong (Inl err)" and "s' = s"
  | "wrong (Inl err)" and "\<not> is_locked (now e) (bucket_of (lower email) ip) (cache s)"
    and "cache s' = record_failure (now e) (bucket_of (lower email) ip) (cache s)"
  using assms unfolding authenticate_def Let_def wrong_def refused_def
  by (auto split: if_splits option.splits)

theorem at_most_five_wrong:
  assumes "sign_in_attempts w email ip as s = (rs, s')"
    and "failures_counted t0 (bucket_of (lower email) ip) n (cache s)"
    and "\<And>e pw. (e, pw) \<in> set as \<Longrightarrow> t0 \<le> now e \<and> now e < t0 + ATTEMPT_WINDOW"
    and "\<And>r. r \<in> set rs \<Longrightarrow> \<not> returns r"
  shows "length (filter wrong rs) + n \<le> MAX_ATTEMPTS"
  using assms
proof (induction as arbitrary: s n rs)
  case Nil
  then have "n \<le> MAX_ATTEMPTS" unfolding failures_counted_def MAX_ATTEMPTS_def by (auto split: if_splits)
  with Nil show ?case by simp
next
  case (Cons a as)
  obtain e pw where a: "a = (e, pw)" by fastforce
  obtain r s1 where r: "authenticate e w email pw ip s = (r, s1)" by fastforce
  obtain rest s2 where rest: "sign_in_attempts w email ip as s1 = (rest, s2)" by fastforce
  have rs: "rs = r # rest" "s' = s2" using Cons.prems(1) a r rest by simp_all
  have later: "\<And>e pw. (e, pw) \<in> set as \<Longrightarrow> t0 \<le> now e \<and> now e < t0 + ATTEMPT_WINDOW"
    and none: "\<And>r. r \<in> set rest \<Longrightarrow> \<not> returns r" using Cons.prems(3,4) rs by auto
  have t: "t0 \<le> now e" "now e < t0 + ATTEMPT_WINDOW" using Cons.prems(3) [of e pw] a by simp_all
  obtain err where err: "r = Inl err" using Cons.prems(4) [of r] rs by (cases r) auto
  have run: "sign_in_attempts w email ip as s1 = (rest, s')" using rest rs by simp
  show ?case
  proof (rule authenticate_cases [OF r [unfolded err]])
    assume "\<not> wrong (Inl err)" and "s1 = s"
    then show ?thesis using Cons.IH [OF run _ later none] Cons.prems(2) rs err by simp
  next
    assume w: "wrong (Inl err)" and free: "\<not> is_locked (now e) (bucket_of (lower email) ip) (cache s)"
      and c: "cache s1 = record_failure (now e) (bucket_of (lower email) ip) (cache s)"
    have "failures_counted t0 (bucket_of (lower email) ip) (Suc n) (cache s1)"
      unfolding c by (rule record_failure_counts(2) [OF Cons.prems(2) t free])
    from Cons.IH [OF run this later none] show ?thesis using w rs err by simp
  qed
qed

text \<open>The sixth attempt is turned away without a look at the password, for fifteen minutes.\<close>

lemma fifth_failure_locks:
  assumes "authenticate e w email pw ip s = (Inl (refused INVALID_CREDENTIALS), s')"
    and "failures_at (now e) (bucket_of (lower email) ip) (cache s) = 4"
    and "now e \<le> now e'" and "now e' < now e + LOCKOUT"
  shows "authenticate e' w' email pw' ip s' = (Inl (refused ACCOUNT_LOCKED), s')"
proof (rule authenticate_cases [OF assms(1)])
  assume "\<not> wrong (Inl (refused INVALID_CREDENTIALS))"
  then show ?thesis by (simp add: wrong_def)
next
  assume "cache s' = record_failure (now e) (bucket_of (lower email) ip) (cache s)"
  with record_failure_locks [OF assms(2-4)] show ?thesis by (simp add: authenticate_def Let_def)
qed

text \<open>A lock is of the pair: from another network address the right password still gets in.\<close>

lemma lower_char_idem: "lower_char (lower_char c) = lower_char c"
proof (cases "65 \<le> (of_char c :: nat) \<and> (of_char c :: nat) \<le> 90")
  case True
  then have "(of_char (char_of ((of_char c :: nat) + 32) :: char) :: nat) = (of_char c :: nat) + 32" by simp
  with True show ?thesis by (simp add: lower_char_def)
next
  case False
  then have "lower_char c = c" unfolding lower_char_def by (rule if_not_P)
  then show ?thesis by simp
qed

lemma lower_idem [simp]: "lower (lower s) = lower s"
  by (simp add: lower_def lower_char_idem)

lemma other_addresses_free:
  assumes "b' \<noteq> b"
  shows "is_locked t b' (record_failure t' b c) = is_locked t b' c"
    and "failures_at t b' (record_failure t' b c) = failures_at t b' c"
  using assms unfolding record_failure_def is_locked_def failures_at_def
  by (simp_all split: prod.splits)

section \<open>What the services do not promise\<close>

text \<open>
  A refused change of role leaves the other fields of the form written: the names are saved before the
  service decides.
\<close>

lemma half_renamed:
  assumes "colleague e k s = Inr u" and "uf_role form = Some r" and "r \<noteq> staff_role u" and "r \<noteq> Owner"
    and "is_last_active_owner u s" and "people_ok s"
  shows "update_colleague e ar k form s =
    (Inl (refused LAST_OWNER_CANNOT_BE_DEACTIVATED), save_user e (\<lambda>_. apply_user_form form u) u s)"
proof -
  have "is_last_active_owner (apply_user_form form u) (save_user e (\<lambda>_. apply_user_form form u) u s)"
    using assms(5) unfolding is_last_active_owner_def other_owners_def save_user_def
    by (auto simp: filter_empty_conv set_update_where)
  with assms(1-4) show ?thesis
    by (simp add: update_colleague_def change_role_def Let_def)
qed

text \<open>An invitation that is still open opens an account the office has closed.\<close>

lemma closed_account_reopens:
  assumes "consume_portal_link e w tok Portal_invitation s = Inr (a, s1)" and "portal_status_of a = P_inactive"
    and "accept_portal e w tok pw s = Inr (a', s')"
  shows "pk a' = pk a \<and> pa_is_active a'"
  using assms by (auto simp: accept_portal_def Let_def bind_res_Inr_iff split: if_splits)

end
