(* ===== verification/Example_Doors.thy ===== *)
theory Example_Doors
  imports Lockout_Laws Example_Board
begin

text \<open>
  The doors of the small firm: its owner signs in, refreshes, has the exchanged token replayed; somebody
  else guesses six times; the owner resets the password from the mailbox.
\<close>

definition keys0 :: secrets where
  "keys0 = \<lparr>hash_token = (\<lambda>t. CHR ''#'' # t), make_password = (\<lambda>p. CHR ''$'' # p),
    password_matches = (\<lambda>p h. h = CHR ''$'' # p)\<rparr>"

definition phone0 :: caller where "phone0 = \<lparr>cl_agent = ''phone'', cl_ip = Some ''10.0.0.1''\<rparr>"

definition doors0 :: reception where
  "doors0 = entrance.extend
    (board.extend board0 (entrance.fields (\<lambda>k. if k = 15 then Some ''$p'' else None) (\<lambda>_. True) (\<lambda>_. None) [] [] []
      \<lparr>failure_counts = (\<lambda>_. None), lock_until = (\<lambda>_. None)\<rparr> []))
    (reception.fields [] [] [])"

lemma doors0_ok: "doors_ok doors0"
  by (simp add: doors_ok_def people_ok_def doors0_def reception.defs entrance.defs board0_def estate.defs board.defs
      firm0_def staff0_def technician0_def)

definition login0 :: "token_pair result \<times> reception" where
  "login0 = login e0 keys0 (staff_email staff0) ''p'' phone0 ''a'' doors0"

definition refresh0 :: "token_pair result \<times> reception" where
  "refresh0 = rotate_refresh_token e0 keys0 ''a'' phone0 ''b'' (snd login0)"

definition replay0 :: "token_pair result \<times> reception" where
  "replay0 = rotate_refresh_token e0 keys0 ''a'' phone0 ''c'' (snd refresh0)"

lemma refresh0_returns: "returns (fst refresh0)" "map_sum (\<lambda>_. 0 :: nat) tp_user (fst refresh0) = Inr 15"
  by code_simp+

lemma refresh0_run: "refresh0 = (Inr (the_run (fst refresh0)), snd refresh0)"
  using the_run [OF refresh0_returns(1)] by (metis prod.collapse)

lemma sessions0: "map ss_token_hash (refresh_sessions (snd replay0)) = [''#a'', ''#b'']"
  "map ss_owner (refresh_sessions (snd replay0)) = [15, 15]"
  by code_simp+

definition guesses0 :: "(env \<times> string) list" where
  "guesses0 = List.map (\<lambda>p. (e0, p)) [''1'', ''2'', ''3'', ''4'', ''5'', ''6'']"

definition guessed0 :: "staff result list \<times> reception" where
  "guessed0 = sign_in_attempts keys0 (staff_email staff0) None guesses0 doors0"

lemma guessed0_refused: "list_all (\<lambda>r. \<not> returns r) (fst guessed0)" "length (fst guessed0) = 6"
  by code_simp+

definition asked_reset0 :: "(string option \<times> reception) result" where
  "asked_reset0 = request_password_reset e0 keys0 (staff_email staff0) ''link'' (snd login0)"

definition reset0 :: "(staff \<times> reception) result" where
  "reset0 = confirm_password_reset e0 keys0 ''link'' ''new'' None (snd (the_run asked_reset0))"

lemma reset0_returns: "returns reset0"
  by code_simp

end
