(* ===== verification/Callers.thy ===== *)
theory Callers
  imports Documents
begin

text \<open>
  \<open>core/client_ip.py\<close>: the one answer to where a request came from, that the lockout, the rate limit and the
  audit trail share. Only what our own proxies appended counts.
\<close>

text \<open>\<open>str.split(d)\<close>, of one character.\<close>

fun split_on :: "char \<Rightarrow> string \<Rightarrow> string list" where
  "split_on d [] = [[]]"
| "split_on d (c # cs) =
    (if c = d then [] # split_on d cs
     else case split_on d cs of w # ws \<Rightarrow> (c # w) # ws | [] \<Rightarrow> [[c]])"

text \<open>\<open>_usable\<close>; \<open>is_address\<close> is \<open>ipaddress.ip_address\<close>: whether it parses.\<close>

definition usable :: "(string \<Rightarrow> bool) \<Rightarrow> string option \<Rightarrow> string option" where
  "usable is_address v = (case v of None \<Rightarrow> None | Some a \<Rightarrow> if a = [] \<or> \<not> is_address a then None else Some a)"

text \<open>\<open>trusted\<close> is \<open>TRUSTED_PROXY_COUNT\<close>; the header absent is the empty one.\<close>

definition client_ip :: "(string \<Rightarrow> bool) \<Rightarrow> int \<Rightarrow> string option \<Rightarrow> string option \<Rightarrow> string option" where
  "client_ip is_address trusted remote_addr header =
    (let remote = usable is_address remote_addr in
     if trusted \<le> 0 then remote
     else
       let hops = filter (\<lambda>p. p \<noteq> []) (map strip (split_on (CHR '','') (case header of None \<Rightarrow> [] | Some h \<Rightarrow> h))) in
       if hops = [] then remote
       else case usable is_address (Some (hops ! (length hops - min (nat trusted) (length hops)))) of
         Some a \<Rightarrow> Some a
       | None \<Rightarrow> remote)"

lemma split_on_nonempty [simp]: "split_on d v \<noteq> []"
  by (induction v) (auto split: list.splits)

lemma split_on_word: "d \<notin> set b \<Longrightarrow> split_on d b = [b]"
  by (induction b) auto

lemma split_on_first: "d \<notin> set a \<Longrightarrow> split_on d (a @ d # b) = a # split_on d b"
  by (induction a) auto

lemma split_on_snoc:
  "d \<notin> set b \<Longrightarrow> split_on d (a @ d # b) = split_on d a @ [b]"
proof (induction a)
  case Nil
  then show ?case by (simp add: split_on_word)
next
  case (Cons c a)
  show ?case
  proof (cases "c = d")
    case False
    obtain w ws where "split_on d a = w # ws" using split_on_nonempty by (cases "split_on d a") auto
    with Cons False show ?thesis by simp
  qed (use Cons in simp)
qed

text \<open>
  Whatever the caller wrote into the header, the answer is the address our outermost proxy saw: the first
  of the entries the trusted proxies appended.
\<close>

lemma trusted_hops:
  assumes "list_all (\<lambda>a. a \<noteq> [] \<and> strip a = a \<and> CHR '','' \<notin> set a) seen"
  shows "\<exists>front. filter (\<lambda>p. p \<noteq> []) (map strip (split_on (CHR '','') (fold (\<lambda>a h. h @ '','' @ a) seen forged))) = front @ seen"
  using assms
proof (induction seen rule: rev_induct)
  case (snoc a seen)
  then obtain front where "filter (\<lambda>p. p \<noteq> []) (map strip (split_on (CHR '','') (fold (\<lambda>a h. h @ '','' @ a) seen forged))) = front @ seen"
    by auto
  with snoc.prems show ?case by (simp add: split_on_snoc)
qed simp

theorem forged_header_ignored:
  assumes "list_all (\<lambda>a. a \<noteq> [] \<and> strip a = a \<and> CHR '','' \<notin> set a) seen" and "seen \<noteq> []"
    and "is_address (hd seen)"
  shows "client_ip is_address (int (length seen)) remote (Some (fold (\<lambda>a h. h @ '','' @ a) seen forged)) = Some (hd seen)"
proof -
  from trusted_hops [OF assms(1)] obtain front where
    hops: "filter (\<lambda>p. p \<noteq> []) (map strip (split_on (CHR '','') (fold (\<lambda>a h. h @ '','' @ a) seen forged))) = front @ seen" by blast
  have first: "(front @ seen) ! (length (front @ seen) - min (nat (int (length seen))) (length (front @ seen))) = hd seen"
    using assms(2) by (simp add: nth_append hd_conv_nth)
  have "hd seen \<noteq> []" using assms(1,2) by (cases seen) auto
  with assms(2,3) first show ?thesis
    unfolding client_ip_def Let_def option.case hops by (simp add: usable_def)
qed

text \<open>With nothing trusted in front the header is not read at all.\<close>

lemma header_unread: "trusted \<le> 0 \<Longrightarrow> client_ip is_address trusted remote h = client_ip is_address trusted remote h'"
  by (simp add: client_ip_def)

end
