(* ===== verification/Uploads.thy ===== *)
theory Uploads
  imports Maintenance_Laws Callers
begin

text \<open>
  \<open>apps/attachments\<close>: files without their bytes. The client asks for a URL, uploads straight to the bucket
  and confirms; the record is written from what the bucket reports. The bucket is part of the state here:
  what it holds under each backend and key, which only \<open>put_object\<close> (the client's upload) and the deletions
  of this module change. A deletion in the bucket is not undone by an error, so \<open>confirm_upload\<close> returns the
  state beside the answer.
\<close>

section \<open>Constants\<close>

definition ALLOWED_TYPES :: "(string \<times> string) list" where
  "ALLOWED_TYPES = [(''image/jpeg'', ''.jpg''), (''image/png'', ''.png''), (''image/webp'', ''.webp''),
    (''application/pdf'', ''.pdf'')]"

definition MAX_SIZE_BYTES :: int where "MAX_SIZE_BYTES = 10 * 1024 * 1024"

definition OBJECT_TYPES :: "string list" where
  "OBJECT_TYPES = [''elevator'', ''building'', ''contract'', ''customer'', ''company'', ''user'',
    ''maintenance_visit'', ''fault'', ''inspection'']"

definition ATTACHMENT_CATEGORIES :: "string list" where
  "ATTACHMENT_CATEGORIES = [''photo'', ''ce_certificate'', ''declaration_of_conformity'', ''permit'',
    ''signed_contract'', ''inspection_report'', ''logo'', ''signature'', ''monthly_report'', ''other'']"

definition SERVER_ONLY_CATEGORIES :: "string list" where
  "SERVER_ONLY_CATEGORIES = [''monthly_report'']"

definition SIGNATURE_MIME_TYPE :: string where "SIGNATURE_MIME_TYPE = ''image/png''"
definition MAX_SIGNATURE_BYTES :: int where "MAX_SIGNATURE_BYTES = 200 * 1024"
definition ATTACHMENT_PURGE_AFTER :: instant where "ATTACHMENT_PURGE_AFTER = 30 * 24 * 60 * 60 * 1000000"

text \<open>What the bucket says of an object.\<close>

record stored_object =
  so_size_bytes :: int
  so_content_type :: string

record vault = workshop +
  bucket :: "string \<times> string \<Rightarrow> stored_object option"

section \<open>Where a file belongs\<close>

text \<open>\<open>_target_exists\<close>\<close>

definition target_exists :: "pk \<Rightarrow> string \<Rightarrow> pk \<Rightarrow> 'a workshop_scheme \<Rightarrow> bool" where
  "target_exists co ty k s =
    (if ty = ''company'' then k = co \<and> (\<exists>c \<in> set (companies s). co_pk c = k \<and> \<not> co_is_deleted c)
     else if ty = ''elevator'' then (\<exists>r \<in> set (elevators s). pk r = k \<and> company_id r = co \<and> \<not> is_deleted r)
     else if ty = ''building'' then (\<exists>r \<in> set (buildings s). pk r = k \<and> company_id r = co \<and> \<not> is_deleted r)
     else if ty = ''contract'' then (\<exists>r \<in> set (contracts s). pk r = k \<and> company_id r = co \<and> \<not> is_deleted r)
     else if ty = ''customer'' then (\<exists>r \<in> set (customers s). pk r = k \<and> company_id r = co \<and> \<not> is_deleted r)
     else if ty = ''user'' then (\<exists>r \<in> set (staff_users s). pk r = k \<and> company_id r = co \<and> \<not> is_deleted r)
     else if ty = ''maintenance_visit'' then (\<exists>r \<in> set (visits s). pk r = k \<and> company_id r = co \<and> \<not> is_deleted r)
     else if ty = ''fault'' then (\<exists>r \<in> set (faults s). pk r = k \<and> company_id r = co \<and> \<not> is_deleted r)
     else (\<exists>r \<in> set (inspections s). pk r = k \<and> company_id r = co \<and> \<not> is_deleted r))"

text \<open>The key; \<open>name\<close> is the UUID drawn.\<close>

definition storage_key_of :: "pk \<Rightarrow> string \<Rightarrow> pk \<Rightarrow> string \<Rightarrow> string \<Rightarrow> string" where
  "storage_key_of co ty k category file =
    digits co @ ''/'' @ ty @ ''/'' @ digits k @ ''/'' @ category @ ''/'' @ file"

definition parse_key :: "pk \<Rightarrow> string \<Rightarrow> (string \<times> pk \<times> string) result" where
  "parse_key co key =
    (case split_on (CHR ''/'') key of
       [firm, ty, raw, category, file] \<Rightarrow>
         if firm \<noteq> digits co then Inl Drf_not_found
         else if ty \<notin> set OBJECT_TYPES \<or> category \<notin> set ATTACHMENT_CATEGORIES then Inl Drf_not_found
         else (case int_of_text raw of None \<Rightarrow> Inl Drf_not_found | Some k \<Rightarrow> Inr (ty, k, category))
     | _ \<Rightarrow> Inl Drf_not_found)"

section \<open>The building's signature (apps/maintenance/signatures.py)\<close>

definition signed_visit_exists :: "pk \<Rightarrow> pk \<Rightarrow> 'a workshop_scheme \<Rightarrow> bool" where
  "signed_visit_exists co k s \<longleftrightarrow> (\<exists>v \<in> set (visits s). company_id v = co \<and> pk v = k \<and>
    vs_signature_status v = Some Signed \<and> \<not> is_deleted v)"

definition check_image :: "string \<Rightarrow> int \<Rightarrow> unit result" where
  "check_image mime bytes =
    (if mime \<noteq> SIGNATURE_MIME_TYPE then Inl (Business_rule_error UNSUPPORTED_MIME_TYPE)
     else if MAX_SIGNATURE_BYTES < bytes then Inl (Business_rule_error FILE_TOO_LARGE)
     else Inr ())"

definition check_signature_upload :: "pk \<Rightarrow> string \<Rightarrow> pk \<Rightarrow> string \<Rightarrow> int \<Rightarrow> 'a workshop_scheme \<Rightarrow> unit result" where
  "check_signature_upload co ty k mime bytes s =
    (if ty \<noteq> ''maintenance_visit'' then Inl (Business_rule_error SIGNATURE_NOT_EXPECTED)
     else bind_res (check_image mime bytes) (\<lambda>_.
       if signed_visit_exists co k s then Inr () else Inl (Conflict SIGNATURE_NOT_EXPECTED)))"

definition check_signature_confirm :: "pk \<Rightarrow> pk \<Rightarrow> string \<Rightarrow> int \<Rightarrow> 'a workshop_scheme \<Rightarrow> unit result" where
  "check_signature_confirm co k mime bytes s =
    bind_res (check_image mime bytes) (\<lambda>_.
    if \<not> signed_visit_exists co k s then Inl (Conflict SIGNATURE_NOT_EXPECTED)
    else if \<exists>a \<in> set (attachments s). company_id a = co \<and> at_object_type a = ''maintenance_visit'' \<and>
      at_object_id a = k \<and> at_category a = ''signature'' \<and> \<not> is_deleted a
    then Inl (Conflict SIGNATURE_EXISTS) else Inr ())"

section \<open>Uploading\<close>

record upload_ticket =
  tk_storage_key :: string
  tk_content_type :: string

text \<open>\<open>backend_for\<close> reads the settings: where a new file of a category goes.\<close>

definition prepare_upload ::
  "pk \<Rightarrow> string \<Rightarrow> pk \<Rightarrow> string \<Rightarrow> string \<Rightarrow> int \<Rightarrow> string \<Rightarrow> 'a workshop_scheme \<Rightarrow> upload_ticket result" where
  "prepare_upload co ty k category mime bytes drawn s =
    (if category \<in> set SERVER_ONLY_CATEGORIES then Inl (field_error ''category'' CATEGORY_NOT_UPLOADABLE)
     else case map_of ALLOWED_TYPES mime of
       None \<Rightarrow> Inl (Business_rule_error UNSUPPORTED_MIME_TYPE)
     | Some ext \<Rightarrow>
         if bytes \<le> 0 \<or> MAX_SIZE_BYTES < bytes then Inl (Business_rule_error FILE_TOO_LARGE)
         else if \<not> target_exists co ty k s then Inl Drf_not_found
         else
           bind_res (if category = ''signature'' then check_signature_upload co ty k mime bytes s else Inr ()) (\<lambda>_.
           Inr \<lparr>tk_storage_key = storage_key_of co ty k category (drawn @ ext), tk_content_type = mime\<rparr>))"

text \<open>What happens between the two calls, out of this program's sight: the client's PUT.\<close>

definition put_object :: "string \<Rightarrow> string \<Rightarrow> stored_object \<Rightarrow> 'a vault_scheme \<Rightarrow> 'a vault_scheme" where
  "put_object backend key ob s = s\<lparr>bucket := (bucket s)((backend, key) \<mapsto> ob)\<rparr>"

definition delete_object :: "string \<Rightarrow> string \<Rightarrow> 'a vault_scheme \<Rightarrow> 'a vault_scheme" where
  "delete_object backend key s = s\<lparr>bucket := (bucket s)((backend, key) := None)\<rparr>"

definition insert_attachment ::
  "env \<Rightarrow> attachment \<Rightarrow> 'a workshop_scheme \<Rightarrow> (attachment \<times> 'a workshop_scheme) result" where
  "insert_attachment e a s =
    db_insert e attachments_update
      (length (at_original_filename a) \<le> 255 \<and> length (at_mime_type a) \<le> 100 \<and> length (at_storage_key a) \<le> 500 \<and>
        length (at_storage_backend a) \<le> 20)
      (at_object_type a \<in> set OBJECT_TYPES \<and> at_category a \<in> set ATTACHMENT_CATEGORIES \<and>
        0 < at_size_bytes a \<and> at_size_bytes a \<le> MAX_SIZE_BYTES) a s"

definition blank_attachment :: attachment where
  "blank_attachment = \<lparr>pk = 0, company_id = 0, created_at = 0, updated_at = 0, created_by = None, updated_by = None,
    is_deleted = False, deleted_at = None, at_object_type = [], at_object_id = 0, at_category = [],
    at_original_filename = [], at_mime_type = [], at_size_bytes = 0, at_storage_key = [], at_storage_backend = [],
    at_uploaded_by = None\<rparr>"

definition recorded_upload :: "pk \<Rightarrow> string \<Rightarrow> 'a workshop_scheme \<Rightarrow> attachment option" where
  "recorded_upload co key s = List.find (\<lambda>a. company_id a = co \<and> at_storage_key a = key \<and> \<not> is_deleted a) (attachments s)"

definition confirm_upload ::
  "(string \<Rightarrow> string) \<Rightarrow> env \<Rightarrow> pk \<Rightarrow> pk option \<Rightarrow> string \<Rightarrow> string \<Rightarrow> 'a vault_scheme
    \<Rightarrow> attachment result \<times> 'a vault_scheme" where
  "confirm_upload backend_for e co by key filename s =
    (case parse_key co key of
       Inl err \<Rightarrow> (Inl err, s)
     | Inr (ty, k, category) \<Rightarrow>
         let backend = backend_for category in
         if category \<in> set SERVER_ONLY_CATEGORIES then
           (Inl (field_error ''category'' CATEGORY_NOT_UPLOADABLE),
            if \<exists>a \<in> set (attachments s). company_id a = co \<and> at_storage_key a = key then s
            else delete_object backend key s)
         else case recorded_upload co key s of
           Some a \<Rightarrow> (Inr a, s)
         | None \<Rightarrow>
             if \<not> target_exists co ty k s then (Inl Drf_not_found, s)
             else case bucket s (backend, key) of
               None \<Rightarrow> (Inl (Business_rule_error UPLOAD_NOT_COMPLETED), s)
             | Some ob \<Rightarrow>
                 if MAX_SIZE_BYTES < so_size_bytes ob
                 then (Inl (Business_rule_error FILE_TOO_LARGE), delete_object backend key s)
                 else if map_of ALLOWED_TYPES (so_content_type ob) = None
                 then (Inl (Business_rule_error UNSUPPORTED_MIME_TYPE), delete_object backend key s)
                 else
                   case (if category = ''signature''
                     then check_signature_confirm co k (so_content_type ob) (so_size_bytes ob) s else Inr ()) of
                     Inl err \<Rightarrow> (Inl err, delete_object backend key s)
                   | Inr _ \<Rightarrow>
                       (case insert_attachment e (blank_attachment\<lparr>company_id := co, at_object_type := ty,
                            at_object_id := k, at_category := category, at_original_filename := take 255 filename,
                            at_mime_type := so_content_type ob, at_size_bytes := so_size_bytes ob,
                            at_storage_key := key, at_storage_backend := backend, at_uploaded_by := by\<rparr>) s of
                          Inl err \<Rightarrow> (Inl err, s)
                        | Inr (a, s') \<Rightarrow> (Inr a, s')))"

text \<open>A file the server made.\<close>

definition save_bytes ::
  "(string \<Rightarrow> string) \<Rightarrow> env \<Rightarrow> pk \<Rightarrow> string \<Rightarrow> pk \<Rightarrow> string \<Rightarrow> int \<Rightarrow> string \<Rightarrow> string \<Rightarrow> pk option \<Rightarrow> string
    \<Rightarrow> 'a vault_scheme \<Rightarrow> attachment result \<times> 'a vault_scheme" where
  "save_bytes backend_for e co ty k category bytes mime filename by drawn s =
    (case map_of ALLOWED_TYPES mime of
       None \<Rightarrow> (Inl (Crash Key_error), s)
     | Some ext \<Rightarrow>
         let key = storage_key_of co ty k category (drawn @ ext);
             backend = backend_for category;
             s = put_object backend key \<lparr>so_size_bytes = bytes, so_content_type = mime\<rparr> s in
         (case insert_attachment e (blank_attachment\<lparr>company_id := co, at_object_type := ty, at_object_id := k,
              at_category := category, at_original_filename := filename, at_mime_type := mime, at_size_bytes := bytes,
              at_storage_key := key, at_storage_backend := backend, at_uploaded_by := by\<rparr>) s of
            Inl err \<Rightarrow> (Inl err, s)
          | Inr (a, s') \<Rightarrow> (Inr a, s')))"

text \<open>\<open>download_url\<close>, up to the signature on it.\<close>

definition downloadable :: "attachment \<Rightarrow> unit result" where
  "downloadable a = (if at_storage_key a = [] then Inl (Business_rule_error UPLOAD_NOT_COMPLETED) else Inr ())"

section \<open>Deleting, and the sweeper\<close>

text \<open>\<open>AttachmentViewSet.perform_destroy\<close>\<close>

definition delete_attachment :: "env \<Rightarrow> attachment \<Rightarrow> 'a workshop_scheme \<Rightarrow> 'a workshop_scheme result" where
  "delete_attachment e a s =
    (if at_category a = ''signature'' then Inl (Conflict SIGNATURE_CANNOT_BE_DELETED)
     else if at_category a = ''monthly_report'' then Inl (Conflict REPORT_FILE_CANNOT_BE_DELETED)
     else bind_res (save_row e (soft_delete e a) (attachments s)) (\<lambda>rows. Inr (s\<lparr>attachments := rows\<rparr>)))"

definition detached :: "instant \<Rightarrow> instant \<Rightarrow> attachment \<Rightarrow> bool" where
  "detached t after a \<longleftrightarrow> is_deleted a \<and> (\<exists>d. deleted_at a = Some d \<and> d \<le> t - after) \<and> at_storage_key a \<noteq> []"

definition purge_one :: "attachment \<Rightarrow> 'a vault_scheme \<Rightarrow> 'a vault_scheme" where
  "purge_one a s =
    (let s = delete_object (at_storage_backend a) (at_storage_key a) s in
     s\<lparr>attachments := update_where (\<lambda>x. pk x = pk a) (\<lambda>x. x\<lparr>at_storage_key := []\<rparr>) (attachments s)\<rparr>)"

definition purge_detached_objects :: "instant \<Rightarrow> instant \<Rightarrow> 'a vault_scheme \<Rightarrow> nat \<times> 'a vault_scheme" where
  "purge_detached_objects t after s =
    (let stale = filter (detached t after) (attachments s) in (length stale, fold purge_one stale s))"

section \<open>Technicians (apps/attachments/api/v1)\<close>

definition assigned_customers :: "env \<Rightarrow> pk \<Rightarrow> 'a board_scheme \<Rightarrow> pk list" where
  "assigned_customers e u s = map as_customer (filter (\<lambda>a. as_user a = u) (objects (ctx e) (assignments s)))"

definition customer_of_lift :: "pk \<Rightarrow> 'a estate_scheme \<Rightarrow> pk option" where
  "customer_of_lift el s =
    Option.bind (by_pk el (elevators s)) (\<lambda>x. Option.bind (by_pk (el_building x) (buildings s)) (\<lambda>b. Some (bd_customer b)))"

definition of_assigned :: "pk list \<Rightarrow> pk option \<Rightarrow> bool" where
  "of_assigned cs c \<longleftrightarrow> (case c of None \<Rightarrow> False | Some k \<Rightarrow> k \<in> set cs)"

definition may_photograph :: "env \<Rightarrow> pk \<Rightarrow> pk \<Rightarrow> string \<Rightarrow> pk \<Rightarrow> string \<Rightarrow> 'a workshop_scheme \<Rightarrow> bool" where
  "may_photograph e co u ty k category s =
    (if ty = ''maintenance_visit'' then category \<in> {''photo'', ''signature''} \<and>
       (\<exists>v \<in> set (visits s). pk v = k \<and> company_id v = co \<and> \<not> is_deleted v \<and>
         of_assigned (assigned_customers e u s) (customer_of_lift (vs_elevator v) s))
     else if ty = ''fault'' then category = ''photo'' \<and>
       (\<exists>f \<in> set (faults s). pk f = k \<and> company_id f = co \<and> \<not> is_deleted f \<and> fl_technician f = Some u)
     else False)"

definition visible_to_technician :: "env \<Rightarrow> pk \<Rightarrow> attachment \<Rightarrow> 'a workshop_scheme \<Rightarrow> bool" where
  "visible_to_technician e u a s \<longleftrightarrow>
    (let cs = assigned_customers e u s; k = at_object_id a; ty = at_object_type a in
     at_category a \<noteq> ''monthly_report'' \<and>
     ((ty = ''customer'' \<and> k \<in> set cs) \<or>
      (ty = ''building'' \<and> (\<exists>b \<in> set (objects (ctx e) (buildings s)). pk b = k \<and> bd_customer b \<in> set cs)) \<or>
      (ty = ''elevator'' \<and> (\<exists>x \<in> set (objects (ctx e) (elevators s)). pk x = k \<and> of_assigned cs (customer_of_lift k s))) \<or>
      (ty = ''contract'' \<and> (\<exists>c \<in> set (objects (ctx e) (contracts s)). pk c = k \<and> ct_customer c \<in> set cs)) \<or>
      (ty = ''fault'' \<and> (\<exists>f \<in> set (objects (ctx e) (faults s)). pk f = k \<and>
        of_assigned cs (customer_of_lift (fl_elevator f) s))) \<or>
      (ty = ''inspection'' \<and> (\<exists>i \<in> set (objects (ctx e) (inspections s)). pk i = k \<and>
        of_assigned cs (customer_of_lift (ip_elevator i) s)))))"

definition attachment_rows :: "env \<Rightarrow> role \<Rightarrow> pk \<Rightarrow> 'a workshop_scheme \<Rightarrow> attachment list" where
  "attachment_rows e r u s =
    filter (\<lambda>a. r \<noteq> Technician \<or> visible_to_technician e u a s) (objects (ctx e) (attachments s))"

section \<open>A key says where its file belongs\<close>

lemma slash_free:
  "CHR ''/'' \<notin> set (digits n)" "ty \<in> set OBJECT_TYPES \<Longrightarrow> CHR ''/'' \<notin> set ty"
  "c \<in> set ATTACHMENT_CATEGORIES \<Longrightarrow> CHR ''/'' \<notin> set c"
proof -
  have "list_all is_digit (digits n)" by simp
  then show "CHR ''/'' \<notin> set (digits n)" by (auto simp: list_all_iff is_digit_def)
qed (auto simp: OBJECT_TYPES_def ATTACHMENT_CATEGORIES_def)

lemma extension_slash_free: "map_of ALLOWED_TYPES mime = Some ext \<Longrightarrow> CHR ''/'' \<notin> set ext"
  by (auto simp: ALLOWED_TYPES_def split: if_splits)

lemma int_of_digits: "int_of_text (digits n) = Some n"
  using int_of_text_padded [of 0 n] by (simp add: padded_def)

theorem parse_of_key:
  assumes "ty \<in> set OBJECT_TYPES" and "category \<in> set ATTACHMENT_CATEGORIES" and "CHR ''/'' \<notin> set file"
  shows "parse_key co (storage_key_of co ty k category file) = Inr (ty, k, category)"
proof -
  have "split_on (CHR ''/'') (storage_key_of co ty k category file) = [digits co, ty, digits k, category, file]"
    using slash_free assms by (simp add: storage_key_of_def split_on_first split_on_word)
  with assms show ?thesis by (simp add: parse_key_def int_of_digits)
qed

lemma prepared_key_parses:
  assumes "prepare_upload co ty k category mime bytes drawn s = Inr t" and "ty \<in> set OBJECT_TYPES"
    and "category \<in> set ATTACHMENT_CATEGORIES" and "CHR ''/'' \<notin> set drawn"
  shows "parse_key co (tk_storage_key t) = Inr (ty, k, category) \<and> target_exists co ty k s \<and>
    category \<notin> set SERVER_ONLY_CATEGORIES"
proof -
  from assms(1) obtain ext where ext: "map_of ALLOWED_TYPES mime = Some ext"
    and t: "tk_storage_key t = storage_key_of co ty k category (drawn @ ext)"
    and "target_exists co ty k s" "category \<notin> set SERVER_ONLY_CATEGORIES"
    unfolding prepare_upload_def by (auto simp: bind_res_Inr_iff split: if_splits option.splits)
  then show ?thesis
    using parse_of_key [OF assms(2,3), of "drawn @ ext" co k] extension_slash_free [OF ext] assms(4) by simp
qed

text \<open>A key of one firm is no key of another.\<close>

lemma digits_inj: "digits m = digits n \<Longrightarrow> m = n"
  using int_of_digits by (metis option.inject)

lemma foreign_key_refused:
  assumes "parse_key co key = Inr x" and "co' \<noteq> co"
  shows "parse_key co' key = Inl Drf_not_found"
  using assms digits_inj unfolding parse_key_def by (auto split: list.splits if_splits option.splits)

section \<open>What a confirmation records\<close>

lemma confirm_cases:
  assumes "confirm_upload bf e co by key name s = (Inr a, s')"
  obtains ty k category where "parse_key co key = Inr (ty, k, category)" and "category \<notin> set SERVER_ONLY_CATEGORIES"
    and "recorded_upload co key s = Some a" and "s' = s"
  | ty k category ob where "parse_key co key = Inr (ty, k, category)" and "category \<notin> set SERVER_ONLY_CATEGORIES"
    and "recorded_upload co key s = None" and "bucket s (bf category, key) = Some ob"
    and "so_size_bytes ob \<le> MAX_SIZE_BYTES" and "map_of ALLOWED_TYPES (so_content_type ob) \<noteq> None"
    and "target_exists co ty k s"
    and "category = ''signature'' \<longrightarrow> check_signature_confirm co k (so_content_type ob) (so_size_bytes ob) s = Inr ()"
    and "insert_attachment e (blank_attachment\<lparr>company_id := co, at_object_type := ty, at_object_id := k,
      at_category := category, at_original_filename := take 255 name, at_mime_type := so_content_type ob,
      at_size_bytes := so_size_bytes ob, at_storage_key := key, at_storage_backend := bf category,
      at_uploaded_by := by\<rparr>) s = Inr (a, s')"
  using assms unfolding confirm_upload_def
  by (auto simp: Let_def split: sum.splits prod.splits if_split_asm option.splits)

lemma insert_attachment_Inr:
  "insert_attachment e r s = Inr (a, s') \<longleftrightarrow> may_save (ctx e) r \<and>
    (length (at_original_filename r) \<le> 255 \<and> length (at_mime_type r) \<le> 100 \<and> length (at_storage_key r) \<le> 500 \<and>
      length (at_storage_backend r) \<le> 20) \<and>
    (at_object_type r \<in> set OBJECT_TYPES \<and> at_category r \<in> set ATTACHMENT_CATEGORIES \<and>
      0 < at_size_bytes r \<and> at_size_bytes r \<le> MAX_SIZE_BYTES) \<and> a = stamped e (next_pk s) r \<and>
    s' = s\<lparr>next_pk := Suc (next_pk s), attachments := attachments s @ [a]\<rparr>"
  by (auto simp: insert_attachment_def db_insert_Inr_iff)

text \<open>A confirmation sent again - the answer lost, the phone in a basement - finds the record of the first.\<close>

lemma confirm_recorded:
  assumes "confirm_upload bf e co by key name s = (Inr a, s')"
  shows "recorded_upload co key s' = Some a"
    and "\<exists>ty k category. parse_key co key = Inr (ty, k, category) \<and> category \<notin> set SERVER_ONLY_CATEGORIES"
proof -
  have "(\<exists>ty k category. parse_key co key = Inr (ty, k, category) \<and> category \<notin> set SERVER_ONLY_CATEGORIES) \<and>
      recorded_upload co key s' = Some a"
    using assms
  proof (cases rule: confirm_cases)
    case (2 ty k category ob)
    from 2(9) have a: "company_id a = co" "at_storage_key a = key" "\<not> is_deleted a"
      and rows: "attachments s' = attachments s @ [a]"
      by (auto simp: insert_attachment_Inr stamped_def blank_attachment_def)
    have "recorded_upload co key s' = Some a"
      using 2(3) a unfolding recorded_upload_def rows find_append1 by simp
    with 2 show ?thesis by blast
  qed blast
  then show "recorded_upload co key s' = Some a"
    and "\<exists>ty k category. parse_key co key = Inr (ty, k, category) \<and> category \<notin> set SERVER_ONLY_CATEGORIES" by blast+
qed

theorem confirm_again:
  assumes "confirm_upload bf e co by key name s = (Inr a, s')"
  shows "confirm_upload bf e' co by' key name' s' = (Inr a, s')"
  using confirm_recorded [OF assms] by (auto simp: confirm_upload_def Let_def)

text \<open>What is recorded: an allowed type, a size within the limit, as the bucket measured them.\<close>

definition file_ok :: "attachment \<Rightarrow> bool" where
  "file_ok a \<longleftrightarrow> map_of ALLOWED_TYPES (at_mime_type a) \<noteq> None \<and> 0 < at_size_bytes a \<and> at_size_bytes a \<le> MAX_SIZE_BYTES \<and>
    at_object_type a \<in> set OBJECT_TYPES \<and> at_category a \<in> set ATTACHMENT_CATEGORIES"

definition one_signature :: "attachment list \<Rightarrow> bool" where
  "one_signature rows \<longleftrightarrow> (\<forall>a \<in> set rows. \<forall>b \<in> set rows. at_category a = ''signature'' \<longrightarrow> at_category b = ''signature'' \<longrightarrow>
    at_object_type a = ''maintenance_visit'' \<longrightarrow> at_object_type b = ''maintenance_visit'' \<longrightarrow>
    company_id a = company_id b \<longrightarrow> at_object_id a = at_object_id b \<longrightarrow> \<not> is_deleted a \<longrightarrow> \<not> is_deleted b \<longrightarrow> a = b)"

definition files_ok :: "attachment list \<Rightarrow> bool" where
  "files_ok rows \<longleftrightarrow> (\<forall>a \<in> set rows. file_ok a) \<and> one_signature rows"

lemma one_signature_snoc:
  assumes "one_signature rows" and "\<And>x. x \<in> set rows \<Longrightarrow> at_category x = ''signature'' \<Longrightarrow> at_category a = ''signature'' \<Longrightarrow>
    at_object_type x = ''maintenance_visit'' \<Longrightarrow> company_id x = company_id a \<Longrightarrow> at_object_id x = at_object_id a \<Longrightarrow> is_deleted x"
  shows "one_signature (rows @ [a])"
  using assms unfolding one_signature_def by (auto 0 3)

theorem confirm_files_ok:
  assumes run: "confirm_upload bf e co by key name s = (res, s')" and ok: "files_ok (attachments s)"
  shows "files_ok (attachments s')"
proof (cases res)
  case (Inl err)
  then have "attachments s' = attachments s"
    using run unfolding confirm_upload_def delete_object_def
    by (auto simp: Let_def split: sum.splits prod.splits if_split_asm option.splits)
  with ok show ?thesis by simp
next
  case (Inr a)
  with run have run': "confirm_upload bf e co by key name s = (Inr a, s')" by simp
  then show ?thesis
  proof (cases rule: confirm_cases)
    case (2 ty k category ob)
    note rec = 2(9) [unfolded insert_attachment_Inr]
    from rec have a: "company_id a = co" "at_object_id a = k" "at_category a = category" "at_mime_type a = so_content_type ob"
      and rows: "attachments s' = attachments s @ [a]" and fields: "file_ok a"
      using 2(6) by (auto simp: stamped_def blank_attachment_def file_ok_def)
    have "is_deleted x" if x: "x \<in> set (attachments s)" "at_category x = ''signature''" "at_category a = ''signature''"
      "at_object_type x = ''maintenance_visit''" "company_id x = company_id a" "at_object_id x = at_object_id a" for x
    proof (rule ccontr)
      assume "\<not> is_deleted x"
      moreover from 2(8) a(3) x(3) have "check_signature_confirm co k (so_content_type ob) (so_size_bytes ob) s = Inr ()" by simp
      ultimately show False using x a unfolding check_signature_confirm_def
        by (auto simp: bind_res_Inr_iff split: if_split_asm)
    qed
    then have "one_signature (attachments s @ [a])"
      using ok one_signature_snoc unfolding files_ok_def by blast
    with ok fields show ?thesis unfolding files_ok_def rows by auto
  qed (use ok in simp)
qed

lemma delete_files_ok:
  assumes "delete_attachment e a s = Inr s'" and "a \<in> set (attachments s)" and "files_ok (attachments s)"
  shows "files_ok (attachments s')"
proof -
  from assms(1) have rows: "attachments s' = update_where (\<lambda>x. pk x = pk a) (\<lambda>_. (soft_delete e a)\<lparr>updated_at := now e\<rparr>) (attachments s)"
    by (auto simp: delete_attachment_def save_row_def bind_res_Inr_iff soft_delete_def split: if_split_asm)
  have "x = (soft_delete e a)\<lparr>updated_at := now e\<rparr> \<or> x \<in> set (attachments s)" if "x \<in> set (attachments s')" for x
    using that unfolding rows by (auto simp: set_update_where)
  moreover have "file_ok ((soft_delete e a)\<lparr>updated_at := now e\<rparr>)" "is_deleted ((soft_delete e a)\<lparr>updated_at := now e\<rparr>)"
    using assms(2,3) unfolding files_ok_def file_ok_def by (auto simp: soft_delete_def)
  ultimately show ?thesis using assms(3) unfolding files_ok_def one_signature_def by metis
qed

section \<open>The sweeper\<close>

lemma purge_one_bucket: "bucket (purge_one a s) = (bucket s)((at_storage_backend a, at_storage_key a) := None)"
  by (simp add: purge_one_def delete_object_def Let_def)

lemma purge_bucket:
  "bucket (fold purge_one rows s) p = (if p \<in> (\<lambda>a. (at_storage_backend a, at_storage_key a)) ` set rows then None else bucket s p)"
  by (induction rows arbitrary: s) (auto simp: purge_one_bucket)

lemma purge_rows:
  "attachments (fold purge_one rows s) =
    map (\<lambda>x. if pk x \<in> pk ` set rows then x\<lparr>at_storage_key := []\<rparr> else x) (attachments s)"
  by (induction rows arbitrary: s) (auto simp: purge_one_def delete_object_def Let_def update_where_def comp_def)

text \<open>After a sweep nothing is due, the bytes of what was due are gone, and no others.\<close>

theorem sweep_done:
  assumes "purge_detached_objects t after s = (n, s')"
  shows "filter (detached t after) (attachments s') = []"
    and "\<And>p. bucket s' p = (if \<exists>a \<in> set (attachments s). detached t after a \<and> p = (at_storage_backend a, at_storage_key a)
      then None else bucket s p)"
    and "map pk (attachments s') = map pk (attachments s)"
    and "\<And>a. a \<in> set (attachments s) \<Longrightarrow> \<not> detached t after a \<Longrightarrow>
      (\<And>b. b \<in> set (attachments s) \<Longrightarrow> pk b = pk a \<Longrightarrow> b = a) \<Longrightarrow> a \<in> set (attachments s')"
proof -
  define stale where "stale = filter (detached t after) (attachments s)"
  have s': "s' = fold purge_one stale s"
    using assms by (simp add: purge_detached_objects_def Let_def stale_def)
  have rows: "attachments s' = map (\<lambda>x. if pk x \<in> pk ` set stale then x\<lparr>at_storage_key := []\<rparr> else x) (attachments s)"
    unfolding s' by (rule purge_rows)
  have "x \<in> set stale" if "x \<in> set (attachments s)" "detached t after x" for x
    using that by (simp add: stale_def)
  then have "\<not> detached t after x" if "x \<in> set (attachments s')" for x
    using that unfolding rows by (auto simp: detached_def)
  then show "filter (detached t after) (attachments s') = []" by (simp add: filter_empty_conv)
  show "bucket s' p = (if \<exists>a \<in> set (attachments s). detached t after a \<and> p = (at_storage_backend a, at_storage_key a)
      then None else bucket s p)" for p
    unfolding s' purge_bucket stale_def by auto
  show "map pk (attachments s') = map pk (attachments s)" unfolding rows by simp
  show "a \<in> set (attachments s')" if a: "a \<in> set (attachments s)" "\<not> detached t after a"
    "\<And>b. b \<in> set (attachments s) \<Longrightarrow> pk b = pk a \<Longrightarrow> b = a" for a
  proof -
    have "pk a \<notin> pk ` set stale"
    proof
      assume "pk a \<in> pk ` set stale"
      then obtain b where "b \<in> set (attachments s)" "detached t after b" "pk b = pk a"
        unfolding stale_def by auto
      with a(2,3) show False by blast
    qed
    then have "a = (\<lambda>x. if pk x \<in> pk ` set stale then x\<lparr>at_storage_key := []\<rparr> else x) a" by simp
    then show ?thesis unfolding rows set_map by (rule image_eqI) (rule a(1))
  qed
qed

text \<open>
  A key confirmed again after its record was deleted gets a second record; the sweep of the first takes the
  bytes of both.
\<close>

lemma second_owner_loses_bytes:
  assumes "a \<in> set (attachments s)" and "detached t after a" and "b \<in> set (attachments s)" and "\<not> is_deleted b"
    and "at_storage_key b = at_storage_key a" and "at_storage_backend b = at_storage_backend a"
    and "purge_detached_objects t after s = (n, s')"
  shows "bucket s' (at_storage_backend b, at_storage_key b) = None"
  using assms unfolding sweep_done(2) [OF assms(7)] by auto

lemma deleted_key_confirmed_again:
  assumes "recorded_upload co key s = None" and "confirm_upload bf e co by key name s = (Inr b, s')"
  shows "pk b = next_pk s \<and> at_storage_key b = key \<and> \<not> is_deleted b"
  using assms(2)
  by (cases rule: confirm_cases) (use assms(1) in \<open>auto simp: insert_attachment_Inr stamped_def blank_attachment_def\<close>)

section \<open>What a technician reaches\<close>

text \<open>A technician may send the photographs of a visit and is never shown them.\<close>

lemma visit_photos_hidden: "at_object_type a = ''maintenance_visit'' \<Longrightarrow> \<not> visible_to_technician e u a s"
  by (simp add: visible_to_technician_def Let_def)

lemma technician_sees_no_reports: "at_category a = ''monthly_report'' \<Longrightarrow> \<not> visible_to_technician e u a s"
  by (simp add: visible_to_technician_def Let_def)

end
