(* ===== verification/Example_Vault.thy ===== *)
theory Example_Vault
  imports Uploads Example_Workshop
begin

text \<open>
  A photograph of the small firm's lift: the key the server drew, what the bucket holds under it once the
  client has uploaded, and the confirmation.
\<close>

definition photo_key0 :: string where
  "photo_key0 = storage_key_of 1 ''elevator'' 12 ''photo'' ''a.jpg''"

definition vault0 :: vault where
  "vault0 = put_object ''local'' photo_key0 \<lparr>so_size_bytes = 2048, so_content_type = ''image/jpeg''\<rparr>
    (workshop.extend shop0 (vault.fields (\<lambda>_. None)))"

definition confirm0 :: "attachment result \<times> vault" where
  "confirm0 = confirm_upload (\<lambda>_. ''local'') e0 1 (Some 15) photo_key0 ''lift.jpg'' vault0"

lemma confirm0_returns: "returns (fst confirm0)" "map at_mime_type (attachments (snd confirm0)) = [''image/jpeg'']"
  by code_simp+

lemma confirm0_run: "confirm0 = (Inr (the_run (fst confirm0)), snd confirm0)"
  using the_run [OF confirm0_returns(1)] by (metis prod.collapse)

lemma vault0_files: "files_ok (attachments vault0)"
proof -
  have "attachments vault0 = []"
    by (simp add: vault0_def put_object_def workshop.defs shop0_defs)
  then show ?thesis by (simp add: files_ok_def one_signature_def)
qed

end
