(* ===== verification/Routing.thy ===== *)
theory Routing
  imports Errors "HOL-Library.Multiset"
begin

text \<open>
  \<open>apps/maintenance/routing.py\<close>: a day's stops in the order that drives least. Distances are the
  code's floats, idealised: every function takes the distance \<open>km\<close> as an argument over an ordered
  field, and \<open>haversine_km\<close> is the one the program uses. What is proved holds for every distance; where
  the code relies on driving back being as far, symmetry is a hypothesis, and \<open>haversine_km\<close> has it.
\<close>

section \<open>Points and distances\<close>

type_synonym 'n point = "'n \<times> 'n"

record 'n stop =
  stop_id :: string
  latitude :: "'n option"
  longitude :: "'n option"

definition point_of :: "'n stop \<Rightarrow> 'n point option" where
  "point_of s = (case (latitude s, longitude s) of (Some a, Some b) \<Rightarrow> Some (a, b) | _ \<Rightarrow> None)"

definition EARTH_RADIUS_KM :: real where "EARTH_RADIUS_KM = 63710088 / 10000"

definition radians :: "real \<Rightarrow> real" where "radians x = x * pi / 180"

definition haversine_km :: "real point \<Rightarrow> real point \<Rightarrow> real" where
  "haversine_km a b =
    (let lat1 = radians (fst a); lon1 = radians (snd a); lat2 = radians (fst b); lon2 = radians (snd b);
         h = sin ((lat2 - lat1) / 2) ^ 2 + cos lat1 * cos lat2 * sin ((lon2 - lon1) / 2) ^ 2
     in 2 * EARTH_RADIUS_KM * arcsin (min 1 (sqrt h)))"

lemma haversine_sym: "haversine_km a b = haversine_km b a"
proof -
  have "sin ((x - y) / 2) ^ 2 = sin ((y - x) / 2) ^ 2" for x y :: real
  proof -
    have "sin ((x - y) / 2) = - sin ((y - x) / 2)" using sin_minus [of "(y - x) / 2"] by (simp add: minus_divide_left)
    then show ?thesis by simp
  qed
  then show ?thesis unfolding haversine_km_def Let_def by (simp add: mult.commute)
qed

text \<open>\<open>sum(... for a, b in itertools.pairwise(route))\<close>\<close>

definition pairs_km :: "('p \<Rightarrow> 'p \<Rightarrow> 'n::comm_monoid_add) \<Rightarrow> 'p list \<Rightarrow> 'n" where
  "pairs_km km ps = sum_list (map (\<lambda>(a, b). km a b) (zip ps (tl ps)))"

definition path_km :: "('p \<Rightarrow> 'p \<Rightarrow> 'n::comm_monoid_add) \<Rightarrow> 'p option \<Rightarrow> 'p list \<Rightarrow> 'n" where
  "path_km km start points = pairs_km km (case start of Some s \<Rightarrow> s # points | None \<Rightarrow> points)"

section \<open>Nearest neighbour\<close>

text \<open>\<open>min(xs, key=f)\<close>: the first of the least.\<close>

fun argmin :: "('a \<Rightarrow> 'n::linorder) \<Rightarrow> 'a \<Rightarrow> 'a list \<Rightarrow> 'a" where
  "argmin f x [] = x"
| "argmin f x (y # ys) = argmin f (if f y < f x then y else x) ys"

lemma argmin_in: "argmin f x ys \<in> set (x # ys)"
  by (induction f x ys rule: argmin.induct) (auto split: if_splits)

lemma argmin_le: "y \<in> set (x # ys) \<Longrightarrow> f (argmin f x ys) \<le> f y"
proof (induction f x ys arbitrary: y rule: argmin.induct)
  case (2 f x z zs)
  from 2(1) [of "if f z < f x then z else x"] 2(1) [of y] 2(2) show ?case
    by (auto split: if_splits intro: order_trans less_imp_le)
qed simp

function nearest_from :: "('p \<Rightarrow> 'p \<Rightarrow> 'n::linorder) \<Rightarrow> 'p list \<Rightarrow> 'p \<Rightarrow> nat list \<Rightarrow> nat list" where
  "nearest_from km points here [] = []"
| "nearest_from km points here (x # xs) =
    (let i = argmin (\<lambda>i. km here (points ! i)) x xs
     in i # nearest_from km points (points ! i) (remove1 i (x # xs)))"
  by pat_completeness auto
termination
proof (relation "measure (\<lambda>(km, points, here, remaining). length remaining)")
  fix km :: "'p \<Rightarrow> 'p \<Rightarrow> 'n::linorder" and points here x xs i
  assume "i = argmin (\<lambda>i. km here (points ! i)) x xs"
  then have "i \<in> set (x # xs)" using argmin_in by metis
  then show "((km, points, points ! i, remove1 i (x # xs)), km, points, here, x # xs)
      \<in> measure (\<lambda>(km, points, here, remaining). length remaining)"
    by (auto simp: length_remove1 dest: length_pos_if_in_set)
qed simp

definition nearest_neighbour ::
  "('p \<Rightarrow> 'p \<Rightarrow> 'n::linorder) \<Rightarrow> 'p list \<Rightarrow> nat option \<Rightarrow> 'p option \<Rightarrow> nat list result" where
  "nearest_neighbour km points first start =
    (let remaining = [0 ..< length points] in
     case first of
       Some f \<Rightarrow> Inr (f # nearest_from km points (points ! f) (remove1 f remaining))
     | None \<Rightarrow>
         (case start of
            Some s \<Rightarrow> Inr (nearest_from km points s remaining)
          | None \<Rightarrow> if remaining = [] then Inr [] else Inl (Crash Assertion_error)))"

section \<open>2-opt\<close>

definition MAX_IMPROVEMENT_PASSES :: nat where "MAX_IMPROVEMENT_PASSES = 200"
definition MAX_FIRST_STOPS :: nat where "MAX_FIRST_STOPS = 12"

definition TOLERANCE :: "'n::linordered_field" where "TOLERANCE = 1 / 10 ^ 9"

definition edge ::
  "('p \<Rightarrow> 'p \<Rightarrow> 'n::linordered_field) \<Rightarrow> 'p list \<Rightarrow> 'p option \<Rightarrow> nat option \<Rightarrow> nat option \<Rightarrow> 'n" where
  "edge km points start a b =
    (case b of
       None \<Rightarrow> 0
     | Some y \<Rightarrow>
         (case a of
            None \<Rightarrow> (case start of Some s \<Rightarrow> km s (points ! y) | None \<Rightarrow> 0)
          | Some x \<Rightarrow> km (points ! x) (points ! y)))"

definition stretch_gain ::
  "('p \<Rightarrow> 'p \<Rightarrow> 'n::linordered_field) \<Rightarrow> 'p list \<Rightarrow> 'p option \<Rightarrow> nat list \<Rightarrow> nat \<Rightarrow> nat \<Rightarrow> 'n" where
  "stretch_gain km points start best i j =
    (let before = (if 0 < i then Some (best ! (i - 1)) else None);
         after = (if j + 1 < length best then Some (best ! (j + 1)) else None)
     in edge km points start before (Some (best ! i)) + edge km points start (Some (best ! j)) after
        - edge km points start before (Some (best ! j)) - edge km points start (Some (best ! i)) after)"

text \<open>\<open>best[i : j + 1] = best[i : j + 1][::-1]\<close>\<close>

definition reverse_stretch :: "nat \<Rightarrow> nat \<Rightarrow> 'a list \<Rightarrow> 'a list" where
  "reverse_stretch i j xs = take i xs @ rev (take (j + 1 - i) (drop i xs)) @ drop (j + 1) xs"

definition try_stretch ::
  "('p \<Rightarrow> 'p \<Rightarrow> 'n::linordered_field) \<Rightarrow> 'p list \<Rightarrow> 'p option \<Rightarrow> nat \<Rightarrow> nat \<Rightarrow> nat list \<times> bool \<Rightarrow> nat list \<times> bool" where
  "try_stretch km points start i j bi =
    (if TOLERANCE < stretch_gain km points start (fst bi) i j
     then (reverse_stretch i j (fst bi), True) else bi)"

definition improvement_pass ::
  "('p \<Rightarrow> 'p \<Rightarrow> 'n::linordered_field) \<Rightarrow> 'p list \<Rightarrow> 'p option \<Rightarrow> nat list \<Rightarrow> nat list \<times> bool" where
  "improvement_pass km points start best =
    fold (\<lambda>i. fold (try_stretch km points start i) [i + 1 ..< length best]) [0 ..< length best - 1] (best, False)"

fun improve ::
  "nat \<Rightarrow> ('p \<Rightarrow> 'p \<Rightarrow> 'n::linordered_field) \<Rightarrow> 'p list \<Rightarrow> 'p option \<Rightarrow> nat list \<Rightarrow> nat list" where
  "improve 0 km points start best = best"
| "improve (Suc n) km points start best =
    (case improvement_pass km points start best of
       (best, improved) \<Rightarrow> if improved then improve n km points start best else best)"

definition two_opt ::
  "('p \<Rightarrow> 'p \<Rightarrow> 'n::linordered_field) \<Rightarrow> nat list \<Rightarrow> 'p list \<Rightarrow> 'p option \<Rightarrow> nat list" where
  "two_opt km order points start = improve MAX_IMPROVEMENT_PASSES km points start order"

section \<open>The route\<close>

record 'n route =
  route_order :: "string list"
  total_km :: 'n
  route_legs :: "(string \<times> 'n option) list"
  route_unplaced :: "string list"

definition better_order ::
  "('n point \<Rightarrow> 'n point \<Rightarrow> 'n::linordered_field) \<Rightarrow> 'n point list \<Rightarrow> 'n point option \<Rightarrow> nat option
    \<Rightarrow> nat list \<times> 'n \<Rightarrow> (nat list \<times> 'n) result" where
  "better_order km points start first best =
    bind_res (nearest_neighbour km points first start) (\<lambda>order.
    let order = two_opt km order points start; d = path_km km start (map ((!) points) order)
    in Inr (if d < snd best - TOLERANCE then (order, d) else best))"

fun legs_from ::
  "('p \<Rightarrow> 'p \<Rightarrow> 'n) \<Rightarrow> (string \<times> 'p) list \<Rightarrow> 'p option \<Rightarrow> (string \<times> 'n option) list" where
  "legs_from km [] previous = []"
| "legs_from km ((k, here) # rest) previous =
    (k, map_option (\<lambda>p. km p here) previous) # legs_from km rest (Some here)"

definition plan_route ::
  "('n point \<Rightarrow> 'n point \<Rightarrow> 'n::linordered_field) \<Rightarrow> 'n stop list \<Rightarrow> 'n point option \<Rightarrow> 'n route result" where
  "plan_route km stops start =
    (let placed = filter (\<lambda>s. point_of s \<noteq> None) stops;
         unplaced = map stop_id (filter (\<lambda>s. point_of s = None) stops);
         points = map (\<lambda>s. the (point_of s)) placed;
         given = [0 ..< length placed];
         firsts = (if length placed \<le> 1 then []
           else if start \<noteq> None then [None]
           else map Some [0 ..< min (length placed) MAX_FIRST_STOPS])
     in bind_res (fold_res (better_order km points start) firsts (given, path_km km start points)) (\<lambda>(best, best_km).
        Inr \<lparr>route_order = map (\<lambda>i. stop_id (placed ! i)) best @ unplaced, total_km = best_km,
          route_legs = legs_from km (map (\<lambda>i. (stop_id (placed ! i), points ! i)) best) start @
            map (\<lambda>k. (k, None)) unplaced,
          route_unplaced = unplaced\<rparr>))"

section \<open>Lengths\<close>

definition link :: "('p \<Rightarrow> 'p \<Rightarrow> 'n::comm_monoid_add) \<Rightarrow> 'p list \<Rightarrow> 'p list \<Rightarrow> 'n" where
  "link km xs ys = (if xs = [] \<or> ys = [] then 0 else km (last xs) (hd ys))"

lemma pairs_km_simps [simp]:
  "pairs_km km [] = 0" "pairs_km km [x] = 0" "pairs_km km (x # y # zs) = km x y + pairs_km km (y # zs)"
  by (simp_all add: pairs_km_def)

lemma pairs_km_append: "pairs_km km (xs @ ys) = pairs_km km xs + link km xs ys + pairs_km km ys"
proof (induction xs rule: induct_list012)
  case 1
  show ?case by (simp add: link_def)
next
  case (2 x)
  show ?case by (cases ys) (simp_all add: link_def)
next
  case (3 x y zs)
  then show ?case by (simp add: link_def add.assoc split: if_splits)
qed

lemma pairs_km_rev:
  assumes "\<And>a b. km a b = km b a"
  shows "pairs_km km (rev xs) = pairs_km km xs"
proof (induction xs rule: induct_list012)
  case (3 x y zs)
  have "pairs_km km (rev (x # y # zs)) = pairs_km km (rev (y # zs)) + link km (rev (y # zs)) [x]"
    using pairs_km_append [of km "rev (y # zs)" "[x]"] by simp
  also have "link km (rev (y # zs)) [x] = km x y" using assms [of y x] by (simp add: link_def last_rev)
  finally show ?case using 3(2) by (simp add: add.commute)
qed simp_all

text \<open>A stretch turned round changes the two edges at its ends, and nothing else.\<close>

lemma turned_round:
  fixes km :: "'p \<Rightarrow> 'p \<Rightarrow> 'n::linordered_field"
  assumes "\<And>a b. km a b = km b a"
  shows "pairs_km km (a @ m @ b) - pairs_km km (a @ rev m @ b) =
    (if m = [] then 0 else link km a m + link km m b - link km a (rev m) - link km (rev m) b)"
proof (cases "m = []")
  case False
  have "link km a (m @ b) = link km a m" "link km a (rev m @ b) = link km a (rev m)"
    using False by (simp_all add: link_def)
  then show ?thesis using False
    by (simp add: pairs_km_append pairs_km_rev [OF assms] algebra_simps)
qed simp

lemma gain_is_saving:
  fixes km :: "'p \<Rightarrow> 'p \<Rightarrow> 'n::linordered_field"
  assumes sym: "\<And>a b. km a b = km b a" and ij: "i < j" "j < length best"
  shows "path_km km start (map ((!) points) (reverse_stretch i j best)) =
    path_km km start (map ((!) points) best) - stretch_gain km points start best i j"
proof -
  let ?p = "(!) points"
  let ?pre = "(case start of Some s \<Rightarrow> [s] | None \<Rightarrow> [])"
  define a where "a = ?pre @ map ?p (take i best)"
  define m where "m = map ?p (take (j + 1 - i) (drop i best))"
  define b where "b = map ?p (drop (j + 1) best)"
  have pre: "path_km km start xs = pairs_km km (?pre @ xs)" for xs
    by (simp add: path_km_def split: option.split)
  have split: "best = take i best @ take (j + 1 - i) (drop i best) @ drop (j + 1) best"
    using ij by (metis append_take_drop_id drop_drop le_add_diff_inverse2 less_imp_le_nat trans_le_add1)
  have one: "path_km km start (map ?p best) = pairs_km km (a @ m @ b)"
    unfolding pre a_def m_def b_def by (subst split) simp
  have two: "path_km km start (map ?p (reverse_stretch i j best)) = pairs_km km (a @ rev m @ b)"
    unfolding pre a_def m_def b_def reverse_stretch_def by (simp add: rev_map)
  have mne: "m \<noteq> []" using ij by (simp add: m_def)
  have hd: "hd m = ?p (best ! i)" using ij by (simp add: m_def hd_map hd_drop_conv_nth hd_take)
  have "last (take (j + 1 - i) (drop i best)) = best ! j"
    using ij by (simp add: last_conv_nth)
  then have last: "last m = ?p (best ! j)" using ij by (simp add: m_def last_map)
  have before: "link km a ys = edge km points start (if 0 < i then Some (best ! (i - 1)) else None) (Some y)"
    if "ys \<noteq> []" "hd ys = ?p y" for ys y
    using that ij by (auto simp: link_def edge_def a_def last_map last_conv_nth min_def split: option.split)
  have after: "link km xs b = edge km points start (Some x) (if j + 1 < length best then Some (best ! (j + 1)) else None)"
    if "xs \<noteq> []" "last xs = ?p x" for xs x
    using that ij by (auto simp: link_def edge_def b_def hd_map hd_drop_conv_nth)
  have "pairs_km km (a @ m @ b) - pairs_km km (a @ rev m @ b) = stretch_gain km points start best i j"
    unfolding turned_round [OF sym] stretch_gain_def Let_def using mne hd last
    by (simp add: before [of m "best ! i"] before [of "rev m" "best ! j"] after [of m "best ! j"] after [of "rev m" "best ! i"]
        hd_rev last_rev)
  then show ?thesis unfolding one two by (simp add: algebra_simps)
qed

section \<open>What every order keeps\<close>

lemma nearest_from_perm: "mset (nearest_from km points here remaining) = mset remaining"
proof (induction km points here remaining rule: nearest_from.induct)
  case (2 km points here x xs)
  let ?i = "argmin (\<lambda>i. km here (points ! i)) x xs"
  have "mset (nearest_from km points here (x # xs)) = add_mset ?i (mset (remove1 ?i (x # xs)))"
    unfolding nearest_from.simps Let_def using 2 [OF refl] by (simp only: mset.simps)
  also have "\<dots> = mset (x # xs)"
    using argmin_in [of "\<lambda>i. km here (points ! i)" x xs] by (metis mset_remove1 insert_DiffM set_mset_mset)
  finally show ?case .
qed simp

lemma nearest_neighbour_perm:
  assumes "nearest_neighbour km points first start = Inr order" "\<And>f. first = Some f \<Longrightarrow> f < length points"
  shows "mset order = mset [0 ..< length points]"
  using assms
  by (auto simp: nearest_neighbour_def Let_def nearest_from_perm split: option.splits if_splits)

lemma reverse_stretch_perm:
  assumes "i < j" "j < length xs" shows "mset (reverse_stretch i j xs) = mset xs"
proof -
  have "xs = take i xs @ take (j + 1 - i) (drop i xs) @ drop (j + 1) xs"
    using assms by (metis append_take_drop_id drop_drop le_add_diff_inverse2 less_imp_le_nat trans_le_add1)
  then have "mset xs = mset (take i xs) + mset (take (j + 1 - i) (drop i xs)) + mset (drop (j + 1) xs)"
    by (metis mset_append add.assoc)
  then show ?thesis by (simp add: reverse_stretch_def)
qed

lemma length_reverse_stretch [simp]: "i < j \<Longrightarrow> j < length xs \<Longrightarrow> length (reverse_stretch i j xs) = length xs"
  by (simp add: reverse_stretch_def)

text \<open>
  What every reversal the passes may try keeps, a pass and the whole improvement keep: \<open>P\<close> of the
  order, as long as the order has \<open>n\<close> stops.
\<close>

lemma pass_invariant:
  assumes step: "\<And>i j xs. P xs \<Longrightarrow> length xs = n \<Longrightarrow> i < j \<Longrightarrow> j < n \<Longrightarrow>
      TOLERANCE < stretch_gain km points start xs i j \<Longrightarrow> P (reverse_stretch i j xs)"
    and best: "P best" "length best = n"
  shows "P (fst (improvement_pass km points start best)) \<and> length (fst (improvement_pass km points start best)) = n"
proof -
  let ?Q = "\<lambda>bi :: nat list \<times> bool. P (fst bi) \<and> length (fst bi) = n"
  have one: "?Q (try_stretch km points start i j bi)" if "?Q bi" "i < j" "j < n" for i j bi
    using that step by (auto simp: try_stretch_def)
  have row: "?Q (fold (try_stretch km points start i) js bi)" if "?Q bi" "\<forall>j \<in> set js. i < j \<and> j < n" for i js bi
    using that by (induction js arbitrary: bi) (simp_all add: one)
  have all: "?Q (fold (\<lambda>i. fold (try_stretch km points start i) [i + 1 ..< n]) is bi)" if "?Q bi" for "is" bi
    using that by (induction "is" arbitrary: bi) (simp_all add: row)
  show ?thesis unfolding improvement_pass_def best(2) using best by (intro all) simp
qed

lemma improve_invariant:
  assumes step: "\<And>i j xs. P xs \<Longrightarrow> length xs = n \<Longrightarrow> i < j \<Longrightarrow> j < n \<Longrightarrow>
      TOLERANCE < stretch_gain km points start xs i j \<Longrightarrow> P (reverse_stretch i j xs)"
    and best: "P best" "length best = n"
  shows "P (improve k km points start best)"
  using best
proof (induction k arbitrary: best)
  case (Suc k)
  have "P (fst (improvement_pass km points start best)) \<and> length (fst (improvement_pass km points start best)) = n"
    by (rule pass_invariant) (use step Suc.prems in auto)
  with Suc.IH show ?case by (cases "improvement_pass km points start best") auto
qed simp

lemma two_opt_perm: "mset (two_opt km order points start) = mset order"
  unfolding two_opt_def
  by (rule improve_invariant [where P = "\<lambda>xs. mset xs = mset order" and n = "length order"])
    (auto simp: reverse_stretch_perm)

text \<open>2-opt never lengthens the path it was given.\<close>

lemma two_opt_no_longer:
  fixes km :: "'p \<Rightarrow> 'p \<Rightarrow> 'n::linordered_field"
  assumes "\<And>a b. km a b = km b a"
  shows "path_km km start (map ((!) points) (two_opt km order points start)) \<le> path_km km start (map ((!) points) order)"
  unfolding two_opt_def
proof (rule improve_invariant [where P = "\<lambda>xs. path_km km start (map ((!) points) xs) \<le> path_km km start (map ((!) points) order)"
    and n = "length order"])
  fix i j :: nat and xs :: "nat list"
  assume le: "path_km km start (map ((!) points) xs) \<le> path_km km start (map ((!) points) order)"
    and ij: "length xs = length order" "i < j" "j < length order"
    and gain: "TOLERANCE < stretch_gain km points start xs i j"
  have "(0::'n) \<le> TOLERANCE" by (simp add: TOLERANCE_def)
  then have "0 \<le> stretch_gain km points start xs i j" using gain by linarith
  with le show "path_km km start (map ((!) points) (reverse_stretch i j xs)) \<le> path_km km start (map ((!) points) order)"
    using ij by (simp add: gain_is_saving [OF assms])
qed simp_all

text \<open>When a pass improves nothing, no reversal of the order would have saved more than the tolerance.\<close>

lemma try_stretch_sticky: "snd bi \<Longrightarrow> snd (try_stretch km points start i j bi)"
  by (simp add: try_stretch_def)

lemma fold_try_sticky: "snd bi \<Longrightarrow> snd (fold (try_stretch km points start i) js bi)"
  by (induction js arbitrary: bi) (simp_all add: try_stretch_sticky)

lemma fold_rows_sticky: "snd bi \<Longrightarrow> snd (fold (\<lambda>i. fold (try_stretch km points start i) (f i)) rows bi)"
  by (induction rows arbitrary: bi) (simp_all add: fold_try_sticky)

lemma try_stretch_quiet:
  "\<not> snd (try_stretch km points start i j (best, False)) \<Longrightarrow>
    try_stretch km points start i j (best, False) = (best, False) \<and> stretch_gain km points start best i j \<le> TOLERANCE"
  by (auto simp: try_stretch_def not_less split: if_splits)

lemma row_settled:
  "\<not> snd (fold (try_stretch km points start i) js (best, False)) \<Longrightarrow>
    fold (try_stretch km points start i) js (best, False) = (best, False) \<and>
    (\<forall>j \<in> set js. stretch_gain km points start best i j \<le> TOLERANCE)"
proof (induction js)
  case (Cons j js)
  have "\<not> snd (try_stretch km points start i j (best, False))"
    using Cons.prems fold_try_sticky [of "try_stretch km points start i j (best, False)" km points start i js] by auto
  from try_stretch_quiet [OF this] Cons show ?case by simp
qed simp

lemma rows_settled:
  "\<not> snd (fold (\<lambda>i. fold (try_stretch km points start i) (f i)) rows (best, False)) \<Longrightarrow>
    fold (\<lambda>i. fold (try_stretch km points start i) (f i)) rows (best, False) = (best, False) \<and>
    (\<forall>i \<in> set rows. \<forall>j \<in> set (f i). stretch_gain km points start best i j \<le> TOLERANCE)"
proof (induction rows)
  case (Cons i rows)
  have "\<not> snd (fold (try_stretch km points start i) (f i) (best, False))"
    using Cons.prems
      fold_rows_sticky [of "fold (try_stretch km points start i) (f i) (best, False)" km points start f rows] by auto
  from row_settled [OF this] Cons show ?case by simp
qed simp

lemma pass_settled:
  assumes "\<not> snd (improvement_pass km points start best)"
  shows "fst (improvement_pass km points start best) = best"
    and "i < j \<Longrightarrow> j < length best \<Longrightarrow> stretch_gain km points start best i j \<le> TOLERANCE"
  using rows_settled [OF assms [unfolded improvement_pass_def]] by (auto simp: improvement_pass_def)

section \<open>The planned route\<close>

lemma better_order_keeps:
  fixes km :: "'n point \<Rightarrow> 'n point \<Rightarrow> 'n::linordered_field"
  assumes "better_order km points start first (best, d) = Inr (best', d')"
    and "\<And>f. first = Some f \<Longrightarrow> f < length points"
    and "mset best = mset [0 ..< length points]" "d = path_km km start (map ((!) points) best)"
  shows "mset best' = mset [0 ..< length points] \<and> d' = path_km km start (map ((!) points) best') \<and> d' \<le> d"
proof -
  have tol: "x - TOLERANCE \<le> x" for x :: "'n" by (simp add: TOLERANCE_def)
  from assms(1) obtain order where o: "nearest_neighbour km points first start = Inr order"
    and d: "(best', d') = (let order = two_opt km order points start; d' = path_km km start (map ((!) points) order)
      in if d' < d - TOLERANCE then (order, d') else (best, d))"
    by (auto simp: better_order_def bind_res_Inr_iff Let_def split: if_splits)
  have "mset order = mset [0 ..< length points]" by (rule nearest_neighbour_perm [OF o assms(2)])
  then show ?thesis using d assms(3,4) tol [of d]
    by (auto simp: Let_def two_opt_perm split: if_splits)
qed

lemma plan_route_best:
  fixes km :: "'n point \<Rightarrow> 'n point \<Rightarrow> 'n::linordered_field"
  assumes "plan_route km stops start = Inr r"
  defines "placed \<equiv> filter (\<lambda>s. point_of s \<noteq> None) stops"
  defines "points \<equiv> map (\<lambda>s. the (point_of s)) placed"
  obtains best where "mset best = mset [0 ..< length placed]"
    "route_order r = map (\<lambda>i. stop_id (placed ! i)) best @ map stop_id (filter (\<lambda>s. point_of s = None) stops)"
    "total_km r = path_km km start (map ((!) points) best)" "total_km r \<le> path_km km start points"
    "route_legs r = legs_from km (map (\<lambda>i. (stop_id (placed ! i), points ! i)) best) start @
      map (\<lambda>k. (k, None)) (map stop_id (filter (\<lambda>s. point_of s = None) stops))"
proof -
  have len: "length points = length placed" by (simp add: points_def)
  define firsts where "firsts = (if length placed \<le> 1 then []
           else if start \<noteq> None then [None]
           else map Some [0 ..< min (length placed) MAX_FIRST_STOPS])"
  have first: "f < length points" if "Some f \<in> set firsts" for f
    using that by (auto simp: firsts_def len split: if_splits)
  from assms(1) obtain best d where run: "fold_res (better_order km points start) firsts
      ([0 ..< length placed], path_km km start points) = Inr (best, d)"
    and r: "r = \<lparr>route_order = map (\<lambda>i. stop_id (placed ! i)) best @ map stop_id (filter (\<lambda>s. point_of s = None) stops),
      total_km = d, route_legs = legs_from km (map (\<lambda>i. (stop_id (placed ! i), points ! i)) best) start @
        map (\<lambda>k. (k, None)) (map stop_id (filter (\<lambda>s. point_of s = None) stops)),
      route_unplaced = map stop_id (filter (\<lambda>s. point_of s = None) stops)\<rparr>"
    unfolding plan_route_def Let_def placed_def [symmetric] points_def [symmetric] firsts_def [symmetric]
    by (elim run_elims) simp
  let ?I = "\<lambda>(best, d). mset best = mset [0 ..< length points] \<and> d = path_km km start (map ((!) points) best) \<and>
    d \<le> path_km km start points"
  have "?I (best, d)"
  proof (rule fold_res_invariant [OF run])
    have "map ((!) points) [0 ..< length placed] = points" by (simp add: len [symmetric] map_nth)
    then show "?I ([0 ..< length placed], path_km km start points)" by (simp add: len)
  next
    fix x s t
    assume x: "x \<in> set firsts" and s: "?I s" and step: "better_order km points start x s = Inr t"
    obtain b d where bd: "s = (b, d)" by (cases s)
    obtain b' d' where bd': "t = (b', d')" by (cases t)
    have "mset b' = mset [0 ..< length points] \<and> d' = path_km km start (map ((!) points) b') \<and> d' \<le> d"
      by (rule better_order_keeps) (use step s x first in \<open>auto simp: bd bd'\<close>)
    with s show "?I t" by (auto simp: bd bd')
  qed
  then show thesis by (intro that [of best]) (simp_all add: r len)
qed

text \<open>Every stop once, the placed ones first; never longer than the order given.\<close>

lemma plan_route_all:
  assumes "plan_route km stops start = Inr r"
  shows "mset (route_order r) = mset (map stop_id stops)"
proof -
  let ?placed = "filter (\<lambda>s. point_of s \<noteq> None) stops"
  from plan_route_best [OF assms] obtain best where b: "mset best = mset [0 ..< length ?placed]"
    and o: "route_order r = map (\<lambda>i. stop_id (?placed ! i)) best @ map stop_id (filter (\<lambda>s. point_of s = None) stops)"
    by blast
  have "mset (map (\<lambda>i. stop_id (?placed ! i)) best) = image_mset (\<lambda>i. stop_id (?placed ! i)) (mset [0 ..< length ?placed])"
    unfolding mset_map b ..
  also have "\<dots> = mset (map (\<lambda>i. stop_id (?placed ! i)) [0 ..< length ?placed])" by simp
  also have "map (\<lambda>i. stop_id (?placed ! i)) [0 ..< length ?placed] = map stop_id ?placed"
    by (intro nth_equalityI) simp_all
  finally have "mset (route_order r) = mset (map stop_id ?placed) + mset (map stop_id (filter (\<lambda>s. point_of s = None) stops))"
    by (simp add: o)
  also have "\<dots> = mset (map stop_id stops)" by (induction stops) auto
  finally show ?thesis .
qed

text \<open>The planner always answers: whatever the stops, with a start or without.\<close>

lemma nearest_neighbour_returns:
  "first \<noteq> None \<or> start \<noteq> None \<Longrightarrow> returns (nearest_neighbour km points first start)"
  by (auto simp: nearest_neighbour_def Let_def split: option.split)

lemma better_order_returns:
  "first \<noteq> None \<or> start \<noteq> None \<Longrightarrow> \<exists>b. better_order km points start first best = Inr b"
  using nearest_neighbour_returns [of first start km points] by (auto simp: better_order_def returns_def Let_def)

lemma plan_route_returns: "returns (plan_route km stops start)"
proof -
  have "\<exists>b. fold_res (better_order km points start) firsts best = Inr b"
    if "\<forall>f \<in> set firsts. f \<noteq> None \<or> start \<noteq> None" for points firsts best
    using that
  proof (induction firsts arbitrary: best)
    case (Cons f fs)
    with better_order_returns [of f start km points best] show ?case by auto
  qed simp
  then show ?thesis unfolding plan_route_def Let_def returns_def by (simp add: bind_res_Inr_iff split_beta)
qed


text \<open>What the planner promises of the answer.\<close>

definition placed_points :: "'n stop list \<Rightarrow> 'n point list" where
  "placed_points stops = map (\<lambda>s. the (point_of s)) (filter (\<lambda>s. point_of s \<noteq> None) stops)"

lemma plan_route_answers:
  "\<exists>r. plan_route km stops start = Inr r \<and> mset (route_order r) = mset (map stop_id stops) \<and>
    total_km r \<le> path_km km start (placed_points stops)"
  for km :: "'n point \<Rightarrow> 'n point \<Rightarrow> 'n::linordered_field"
proof -
  from plan_route_returns [of km stops start] obtain r where r: "plan_route km stops start = Inr r"
    by (auto simp: returns_def)
  from plan_route_best [OF r] have "total_km r \<le> path_km km start (placed_points stops)"
    unfolding placed_points_def by blast
  with r plan_route_all [OF r] show ?thesis by blast
qed

end
