(* ===== verification/Money.thy ===== *)
theory Money
  imports Decimals
begin

text \<open>
  What \<open>apps/billing/money.py\<close> promises of its arithmetic, proved of the definitions in
  \<open>Decimals\<close>: rounding a prorated fee through the 28-digit context never differs from
  rounding the exact fraction once, and the three figures of an invoice add up.
\<close>

section \<open>Rounding a quotient that carries a small error\<close>

text \<open>
  A fraction \<open>N/D\<close> is at least \<open>1/(2D)\<close> away from the next rounding boundary unless it
  lies on one, so an error smaller than that does not change the rounding.
\<close>

lemma floor_half_stable:
  fixes N D :: int and z :: rat
  assumes D: "0 < D"
    and err: "\<bar>z - of_int N / of_int D\<bar> < 1 / (2 * of_int D)"
    and tie: "(2 * N + D) mod (2 * D) = 0 \<Longrightarrow> z = of_int N / of_int D"
  shows "\<lfloor>z + 1/2\<rfloor> = \<lfloor>of_int N / of_int D + 1/2 :: rat\<rfloor>"
proof (cases "(2 * N + D) mod (2 * D) = 0")
  case True
  then show ?thesis by (simp add: tie)
next
  case False
  define f where "f = (2 * N + D) div (2 * D)"
  define r where "r = (2 * N + D) mod (2 * D)"
  have "0 \<le> r" "r < 2 * D" "r \<noteq> 0"
    using False D by (simp_all add: r_def)
  then have r: "1 \<le> r" "r \<le> 2 * D - 1" by simp_all
  have split: "2 * N + D = 2 * D * f + r" by (simp add: f_def r_def)
  have Dq: "(0::rat) < 2 * of_int D" using D by simp
  have y: "of_int N / of_int D + 1/2 = (of_int f + of_int r / (2 * of_int D) :: rat)"
  proof -
    have "of_int (2 * N + D) = (of_int (2 * D * f + r) :: rat)" using split by simp
    then show ?thesis using D by (simp add: field_simps)
  qed
  have lo: "1 / (2 * of_int D) \<le> (of_int r / (2 * of_int D) :: rat)"
    using r(1) Dq by (intro divide_right_mono) simp_all
  have "(of_int r :: rat) \<le> of_int (2 * D - 1)"
    using r(2) by (simp only: of_int_le_iff)
  then have "(of_int r :: rat) \<le> 2 * of_int D - 1" by simp
  then have "of_int r / (2 * of_int D) \<le> ((2 * of_int D - 1) / (2 * of_int D) :: rat)"
    using Dq by (intro divide_right_mono) simp_all
  then have hi: "of_int r / (2 * of_int D) \<le> 1 - 1 / (2 * of_int D :: rat)"
    using Dq by (simp add: diff_divide_distrib)
  have e: "z - of_int N / of_int D < 1 / (2 * of_int D)" "of_int N / of_int D - z < 1 / (2 * of_int D)"
    using err by (simp_all only: abs_less_iff, linarith+)
  have a: "of_int f < z + 1/2" using e(2) y lo by linarith
  have b: "z + 1/2 < of_int f + 1" using e(1) y hi by linarith
  have "\<lfloor>z + 1/2\<rfloor> = f" using a b by (intro floor_eq_iff [THEN iffD2]) linarith
  moreover have "0 < (1 / (2 * of_int D) :: rat)" using Dq by simp
  then have "\<lfloor>of_int N / of_int D + 1/2 :: rat\<rfloor> = f"
    using y lo hi by (intro floor_eq_iff [THEN iffD2]) linarith
  ultimately show ?thesis by simp
qed

lemma round_up_nonneg_eq: "0 \<le> x \<Longrightarrow> round_up x = \<lfloor>x + 1/2\<rfloor>"
  by (simp add: round_up_def)

section \<open>Products are exact\<close>

lemma d_mul_exact:
  assumes "a * b * 10 ^ j = of_int n" "\<bar>a * b\<bar> < ten_to (28 - int j)"
  shows "d_mul a b = a * b"
  using ctx28_exact [OF assms] by (simp add: d_mul_def)

lemma of_int_abs_less: "\<bar>i\<bar> < m \<Longrightarrow> \<bar>of_int i :: rat\<bar> < of_int m"
  by (metis of_int_abs of_int_less_iff)

text \<open>A unit price of a \<open>numeric(12, 2)\<close> column times two small counts.\<close>

lemma price_times_counts:
  assumes p: "p = of_int i / 100" "0 \<le> i" "i < 10 ^ 12"
    and m: "0 \<le> m" "m \<le> 32767" and c: "0 \<le> c" "c \<le> 32767"
  shows "d_mul (d_mul p (of_int m)) (of_int c) = of_int (i * m * c) / 100"
    and "0 \<le> i * m * c" and "i * m * c < 2 * 10 ^ 21"
proof -
  have im: "0 \<le> i * m" using p(2) m by simp
  have im2: "i * m \<le> 10 ^ 12 * 32767"
    using p(2,3) m by (intro mult_mono) simp_all
  note im = im im2
  show b0: "0 \<le> i * m * c" using im c by simp
  have "i * m * c \<le> 10 ^ 12 * 32767 * 32767"
    using im c by (intro mult_mono [of "i * m" "10 ^ 12 * 32767" c 32767]) simp_all
  then show b1: "i * m * c < 2 * 10 ^ 21" by simp
  have t: "ten_to (28 - int 2) = (of_int (10 ^ 26) :: rat)" by (simp add: ten_to_def)
  have "\<bar>i * m\<bar> < 10 ^ 26" using im by simp
  then have "\<bar>of_int (i * m) :: rat\<bar> < of_int (10 ^ 26)" by (rule of_int_abs_less)
  then have 1: "d_mul p (of_int m) = p * of_int m"
    by (intro d_mul_exact [of _ _ 2 "i * m"])
      (simp_all only: t, simp_all add: p(1) abs_mult power2_eq_square)
  have "\<bar>i * m * c\<bar> < 10 ^ 26" using b0 b1 by simp
  then have "\<bar>of_int (i * m * c) :: rat\<bar> < of_int (10 ^ 26)" by (rule of_int_abs_less)
  then have 2: "d_mul (p * of_int m) (of_int c) = p * of_int m * of_int c"
    by (intro d_mul_exact [of _ _ 2 "i * m * c"])
      (simp_all only: t, simp_all add: p(1) abs_mult power2_eq_square)
  show "d_mul (d_mul p (of_int m)) (of_int c) = of_int (i * m * c) / 100"
    unfolding 1 2 by (simp add: p(1))
qed

section \<open>A prorated fee is rounded once\<close>

text \<open>
  The quotient of the context, rounded to the cent, is the exact fraction rounded to the
  cent: the context's own rounding never moves an amount across a half cent.
\<close>

lemma round_quotient_exact:
  assumes N: "0 \<le> N" "N < 2 * 10 ^ 21" and D: "0 < D" "D \<le> 32767"
  shows "round_up (d_div (of_int N / 100) (of_int D) * 10 ^ 2) = round_up (of_int N / of_int D)"
proof -
  define x where "x = (of_int N / 100 / of_int D :: rat)"
  define z where "z = ctx28 x * 100"
  have Dq: "(1::rat) \<le> of_int D" "(of_int D :: rat) \<le> 32767"
    using D by (metis of_int_1_le_iff int_one_le_iff_zero_less, metis of_int_le_iff of_int_numeral)
  have Nq: "(0::rat) \<le> of_int N" "(of_int N :: rat) < 2 * 10 ^ 21"
    using N by (simp, metis of_int_less_iff of_int_mult of_int_numeral of_int_power)
  have x0: "0 \<le> x" using Nq Dq by (simp add: x_def)
  have "of_int N * 1 \<le> of_int N * (of_int D :: rat)"
    using Nq Dq by (intro mult_left_mono) simp_all
  then have "x \<le> of_int N / 100"
    using Dq by (simp add: x_def pos_divide_le_eq)
  then have xb: "x < 10 ^ 20" using Nq by simp
  have "\<bar>x\<bar> < ten_to 20" using x0 xb by (simp add: ten_to_def)
  then have "\<bar>ctx28 x - x\<bar> \<le> 1 / (2 * ten_to (28 - 20))" by (rule ctx28_error)
  then have cerr: "\<bar>ctx28 x - x\<bar> \<le> 1 / (2 * 10 ^ 8)" by (simp add: ten_to_def)
  have y: "x * 100 = of_int N / of_int D" by (simp add: x_def)
  have zerr: "\<bar>z - of_int N / of_int D\<bar> \<le> 1 / (2 * 10 ^ 6)"
  proof -
    have "z - of_int N / of_int D = (ctx28 x - x) * 100"
      unfolding y [symmetric] z_def by (simp add: left_diff_distrib)
    then have "\<bar>z - of_int N / of_int D\<bar> = \<bar>ctx28 x - x\<bar> * 100" by (simp only: abs_mult abs_numeral)
    also have "\<dots> \<le> 1 / (2 * 10 ^ 8) * 100" using cerr by (intro mult_right_mono) auto
    finally show ?thesis by simp
  qed
  have "(1 / (2 * 10 ^ 6) :: rat) < 1 / (2 * of_int D)"
    using Dq by (intro divide_strict_left_mono) auto
  with zerr have err: "\<bar>z - of_int N / of_int D\<bar> < 1 / (2 * of_int D)" by linarith
  have tie: "z = of_int N / of_int D" if "(2 * N + D) mod (2 * D) = 0"
  proof -
    define f where "f = (2 * N + D) div (2 * D)"
    have "2 * N + D = 2 * D * f" using that by (simp add: f_def dvd_eq_mod_eq_0)
    then have "(of_int (2 * N + D) :: rat) = of_int (2 * D * f)" by simp
    then have "2 * of_int N + of_int D = (2 * of_int D * of_int f :: rat)" by simp
    then have "of_int N / of_int D = (of_int f - 1/2 :: rat)" using Dq by (simp add: field_simps)
    then have "x * 10 ^ 3 = of_int (10 * f - 5)" using y by simp
    moreover have "\<bar>x\<bar> < ten_to (28 - int 3)" using x0 xb by (simp add: ten_to_def)
    ultimately have "ctx28 x = x" by (rule ctx28_exact)
    then show ?thesis by (simp add: z_def y)
  qed
  have "\<lfloor>z + 1/2\<rfloor> = \<lfloor>of_int N / of_int D + 1/2 :: rat\<rfloor>"
    using D(1) err tie by (rule floor_half_stable)
  moreover have "0 \<le> of_int N / (of_int D :: rat)" using Nq Dq by simp
  moreover have "round_up z = \<lfloor>z + 1/2\<rfloor>"
  proof (cases "0 \<le> z")
    case True
    then show ?thesis by (simp add: round_up_def)
  next
    case False
    have "- (z - of_int N / of_int D) \<le> 1 / (2 * 10 ^ 6)"
      using zerr by (simp only: abs_le_iff)
    with calculation(2) have "- z \<le> 1 / (2 * 10 ^ 6)" by linarith
    with False have "\<bar>z\<bar> < 1/2" by simp
    with False have "\<lfloor>z + 1/2\<rfloor> = 0" "\<lfloor>- z + 1/2\<rfloor> = 0"
      by (simp_all add: floor_eq_iff abs_less_iff)
    with False show ?thesis by (simp add: round_up_def)
  qed
  ultimately show ?thesis
    by (simp add: round_up_nonneg_eq z_def x_def d_div_def)
qed

text \<open>The specification: the exact share, rounded half up to the cent.\<close>

definition exact_share :: "rat \<Rightarrow> int \<Rightarrow> int \<Rightarrow> int \<Rightarrow> rat" where
  "exact_share unit_price months covered_days period_days =
    of_int (round_up (unit_price * of_int months * of_int covered_days / of_int period_days * 100)) / 100"

lemma prorated_amount_eq_exact:
  assumes p: "cents p" "0 \<le> p" "p < 10 ^ 10"
    and m: "0 \<le> months" "months \<le> 32767" and c: "0 \<le> covered" "covered \<le> 32767"
    and d: "0 < days" "days \<le> 32767"
  shows "prorated_amount (Some p) months covered days = Inr (exact_share p months covered days)"
proof -
  from p(1) obtain i where i: "p = of_int i / 100" by (rule centsE)
  with p(2) have "0 \<le> i" by simp
  have "(of_int i :: rat) < of_int (10 ^ 12)" using i p(3) by simp
  then have "i < 10 ^ 12" by (simp only: of_int_less_iff)
  note b = price_times_counts [OF i \<open>0 \<le> i\<close> this m c]
  define N where "N = i * months * covered"
  have e: "p * of_int months * of_int covered / of_int days * 100 = (of_int N / of_int days :: rat)"
    by (simp add: N_def i)
  have "round_up (d_div (of_int N / 100) (of_int days) * 10 ^ 2) = round_up (of_int N / of_int days)"
    using b(2,3) d unfolding N_def [symmetric] by (intro round_quotient_exact)
  moreover have "\<bar>round_up (of_int N / of_int days)\<bar> < 10 ^ 28"
  proof -
    have Nn: "(0::rat) \<le> of_int N" "(1::rat) \<le> of_int days"
      using b(2) d by (simp only: N_def of_int_0_le_iff, simp)
    then have "(0::rat) \<le> of_int N / of_int days" by simp
    moreover have "of_int N * 1 \<le> of_int N * (of_int days :: rat)"
      using Nn by (intro mult_left_mono) simp_all
    then have "of_int N / of_int days \<le> (of_int N :: rat)"
      using Nn by (simp add: pos_divide_le_eq)
    ultimately have "0 \<le> round_up (of_int N / of_int days :: rat)"
      "round_up (of_int N / of_int days :: rat) \<le> N"
      using round_up_mono_nonneg [of "of_int N / of_int days" "of_int N"] round_up_nonneg by simp_all
    with b(3) show ?thesis by (simp add: N_def)
  qed
  ultimately have "round_money (d_div (of_int N / 100) (of_int days)) =
      Inr (of_int (round_up (of_int N / of_int days)) / 100)"
    by (simp only: round_money_def quantize_def Let_def if_True) simp
  moreover have "d_mul (d_mul p (of_int months)) (of_int covered) = of_int N / 100"
    using b(1) by (simp only: N_def)
  ultimately have "round_money (d_div (d_mul (d_mul p (of_int months)) (of_int covered)) (of_int days)) =
      Inr (exact_share p months covered days)"
    by (simp only: exact_share_def e)
  then show ?thesis
    using d by (simp add: prorated_amount_def)
qed

text \<open>A share of the period never costs more than the whole, and more days never less.\<close>

lemma exact_share_mono:
  assumes "0 \<le> p" "0 \<le> m" "0 \<le> a" "a \<le> b" "0 < d"
  shows "exact_share p m a d \<le> exact_share p m b d"
proof -
  have "p * of_int m * of_int a / of_int d * 100 \<le> p * of_int m * of_int b / of_int d * 100"
    using assms by (intro mult_right_mono divide_right_mono mult_left_mono) auto
  moreover have "0 \<le> p * of_int m * of_int a / of_int d * 100" using assms by simp
  ultimately show ?thesis
    unfolding exact_share_def by (simp add: round_up_mono_nonneg divide_right_mono)
qed

lemma exact_share_full: "0 < d \<Longrightarrow> cents p \<Longrightarrow> exact_share p m d d = p * of_int m"
  by (auto simp: exact_share_def elim!: centsE simp flip: of_int_mult)

section \<open>The three figures of an invoice\<close>

lemma round_up_cents: "cents x \<Longrightarrow> of_int (round_up (x * 100)) / 100 = x"
  by (auto elim: centsE)

lemma round_money_cents:
  assumes "cents x" "\<bar>x\<bar> < 10 ^ 26" shows "round_money x = Inr x"
proof -
  from assms(1) obtain i where i: "x = of_int i / 100" by (rule centsE)
  have "\<bar>of_int i :: rat\<bar> < of_int (10 ^ 28)" using assms(2) i by simp
  then have "\<bar>i\<bar> < 10 ^ 28" by (simp only: of_int_abs [symmetric] of_int_less_iff)
  then show ?thesis by (simp add: round_money_def quantize_def i Let_def)
qed

lemma round_money_is_cents: "round_money x = Inr y \<Longrightarrow> cents y"
  unfolding round_money_def quantize_def Let_def cents_def
  by (split if_split_asm) (simp, metis Ints_of_int, simp)

lemma totals_add_up:
  assumes "totals amounts rate = Inr (s, v, t)" "\<forall>a \<in> set amounts. cents a"
    "\<bar>sum_list amounts\<bar> < 10 ^ 26"
  shows "s = sum_list amounts \<and> t = s + v \<and> cents v"
  using assms round_money_cents [of "sum_list amounts"] cents_sum_list [of amounts]
  by (auto simp: totals_def bind_res_Inr_iff dest: round_money_is_cents)

end
