(* ===== verification/Validators.thy ===== *)
theory Validators
  imports Contracts Sessions
begin

text \<open>
  \<open>core/validators.py\<close>: the check digits of national identification and tax numbers, and the one form a
  telephone number and an e-mail address are stored in. A single mistyped digit never passes.
\<close>

section \<open>The checks\<close>

definition digit :: "char \<Rightarrow> int" where
  "digit c = int (of_char c :: nat) - 48"

definition all_digits :: "nat \<Rightarrow> string \<Rightarrow> bool" where
  "all_digits n v \<longleftrightarrow> length v = n \<and> (\<forall>c \<in> set v. is_digit c)"

text \<open>\<open>ValidationError(code=...)\<close> names no field here; the serializer adds it.\<close>

definition refused_value :: "error_code \<Rightarrow> exn" where
  "refused_value c = Validation_error (Detail_list [Leaf (Some (Coded c))])"

definition national_check :: "int list \<Rightarrow> bool" where
  "national_check ds \<longleftrightarrow> ds ! 0 \<noteq> 0 \<and>
    ((ds ! 0 + ds ! 2 + ds ! 4 + ds ! 6 + ds ! 8) * 7 - (ds ! 1 + ds ! 3 + ds ! 5 + ds ! 7)) mod 10 = ds ! 9 \<and>
    sum_list (take 10 ds) mod 10 = ds ! 10"

definition validate_national_id :: "string \<Rightarrow> string result" where
  "validate_national_id v =
    (if \<not> all_digits 11 v \<or> \<not> national_check (map digit v) then Inl (refused_value INVALID_NATIONAL_ID) else Inr v)"

text \<open>One turn of the loop over a tax number: what digit \<open>d\<close> at place \<open>i\<close> adds.\<close>

definition tax_term :: "nat \<Rightarrow> int \<Rightarrow> int" where
  "tax_term i d =
    (let temp = (d + 10 - (int i + 1)) mod 10 in if temp = 9 then temp else (temp * 2 ^ (9 - i)) mod 9)"

definition tax_check :: "int list \<Rightarrow> bool" where
  "tax_check ds \<longleftrightarrow> (10 - (\<Sum>i \<leftarrow> [0..<9]. tax_term i (ds ! i)) mod 10) mod 10 = ds ! 9"

definition validate_tax_number :: "string \<Rightarrow> string result" where
  "validate_tax_number v =
    (if length v = 11 then validate_national_id v
     else if \<not> all_digits 10 v \<or> \<not> tax_check (map digit v) then Inl (refused_value INVALID_TAX_NUMBER)
     else Inr v)"

definition starts_with :: "string \<Rightarrow> string \<Rightarrow> bool" where
  "starts_with p v \<longleftrightarrow> take (length p) v = p"

definition normalize_phone :: "string \<Rightarrow> string result" where
  "normalize_phone v =
    (let ds = filter is_digit v;
         ds = (if starts_with ''90'' ds \<and> length ds = 12 then drop 2 ds
           else if starts_with ''0'' ds \<and> length ds = 11 then drop 1 ds else ds)
     in if length ds \<noteq> 10 then Inl (refused_value INVALID_PHONE) else Inr (''+90'' @ ds))"

definition normalize_email :: "string \<Rightarrow> string" where
  "normalize_email v = lower (strip v)"

section \<open>A wrong digit is caught\<close>

lemma digit_range: "is_digit c \<Longrightarrow> 0 \<le> digit c \<and> digit c \<le> 9"
  unfolding is_digit_def digit_def Let_def by linarith

lemma digit_inj: "digit c = digit d \<Longrightarrow> c = d"
  unfolding digit_def by simp

lemma small_differences: "0 \<le> a \<Longrightarrow> a \<le> 9 \<Longrightarrow> 0 \<le> b \<Longrightarrow> b \<le> 9 \<Longrightarrow> a \<noteq> b \<Longrightarrow> (s + a) mod 10 \<noteq> (s + b) mod (10 :: int)"
proof
  assume a: "0 \<le> a" "a \<le> 9" "0 \<le> b" "b \<le> 9" "a \<noteq> b" and "(s + a) mod 10 = (s + b) mod (10 :: int)"
  then have "10 dvd a - b" by (simp add: mod_eq_dvd_iff)
  then obtain k where "a - b = 10 * k" by blast
  with a show False by presburger
qed

lemma mod_sum_differs:
  fixes f :: "nat \<Rightarrow> int"
  assumes "i < n" and "\<And>j. j \<noteq> i \<Longrightarrow> f j = g j" and "0 \<le> f i" "f i \<le> 9" "0 \<le> g i" "g i \<le> 9" and "f i \<noteq> g i"
  shows "(\<Sum>j \<leftarrow> [0..<n]. f j) mod 10 \<noteq> (\<Sum>j \<leftarrow> [0..<n]. g j) mod 10"
proof -
  have split: "(\<Sum>j \<leftarrow> [0..<n]. h j) = (\<Sum>j \<in> {0..<n} - {i}. h j) + h i" for h :: "nat \<Rightarrow> int"
  proof -
    have "(\<Sum>j \<leftarrow> [0..<n]. h j) = (\<Sum>j \<in> {0..<n}. h j)" by (simp add: interv_sum_list_conv_sum_set_nat)
    also have "\<dots> = h i + (\<Sum>j \<in> {0..<n} - {i}. h j)" using assms(1) by (subst sum.remove [of _ i]) auto
    finally show ?thesis by simp
  qed
  have "(\<Sum>j \<in> {0..<n} - {i}. f j) = (\<Sum>j \<in> {0..<n} - {i}. g j)" using assms(2) by (intro sum.cong) auto
  then show ?thesis unfolding split using small_differences [OF assms(3-7)] by simp
qed

lemma sum_take: "length ds \<ge> n \<Longrightarrow> sum_list (take n ds) = (\<Sum>j \<leftarrow> [0..<n]. (ds ! j :: int))"
proof -
  assume "length ds \<ge> n"
  then have "take n ds = map ((!) ds) [0..<n]" by (intro nth_equalityI) simp_all
  then show ?thesis by simp
qed

text \<open>The sum of the first ten digits gives the eleventh.\<close>

lemma national_digit_caught:
  assumes ok: "national_check ds" and n: "length ds = 11" and r: "\<And>x. x \<in> set ds \<Longrightarrow> 0 \<le> x \<and> x \<le> 9"
    and i: "i < 11" and d: "0 \<le> d" "d \<le> 9" "d \<noteq> ds ! i"
  shows "\<not> national_check (ds[i := d])"
proof
  assume bad: "national_check (ds[i := d])"
  have ri: "0 \<le> ds ! i" "ds ! i \<le> 9" using r [of "ds ! i"] i n by auto
  have sums: "(\<Sum>j \<leftarrow> [0..<10]. ds ! j) mod 10 = ds ! 10" "(\<Sum>j \<leftarrow> [0..<10]. ds[i := d] ! j) mod 10 = ds[i := d] ! 10"
    using ok bad n unfolding national_check_def by (simp_all add: sum_take)
  show False
  proof (cases "i = 10")
    case True
    then have "(\<Sum>j \<leftarrow> [0..<10]. ds[i := d] ! j) = (\<Sum>j \<leftarrow> [0..<10]. ds ! j)"
      by (intro arg_cong [where f = sum_list] map_cong) auto
    with sums d n True show False by simp
  next
    case False
    have "(\<Sum>j \<leftarrow> [0..<10]. ds[i := d] ! j) mod 10 \<noteq> (\<Sum>j \<leftarrow> [0..<10]. ds ! j) mod 10"
      by (rule mod_sum_differs [where i = i]) (use False i n d ri in auto)
    with sums False show False by simp
  qed
qed

lemma tax_term_range: "0 \<le> tax_term i d \<and> tax_term i d \<le> 9"
proof -
  have "0 \<le> x mod 9 \<and> x mod 9 \<le> 9" for x :: int
    using pos_mod_bound [of 9 x] pos_mod_sign [of 9 x] by linarith
  then show ?thesis unfolding tax_term_def Let_def by auto
qed

text \<open>At every place the ten digits add ten different numbers.\<close>

lemma tax_terms_differ:
  "list_all (\<lambda>i. list_all (\<lambda>a. list_all (\<lambda>b. a = b \<or> tax_term i a \<noteq> tax_term i b) [0..9]) [0..9]) [0..<9]"
  by code_simp

lemma mod10: "0 \<le> x mod 10 \<and> x mod 10 < (10 :: int)"
  by simp

lemma same_complement:
  "0 \<le> a \<and> a < 10 \<Longrightarrow> 0 \<le> b \<and> b < 10 \<Longrightarrow> (10 - a) mod 10 = (10 - b) mod 10 \<Longrightarrow> a = (b :: int)"
proof -
  have "(10 - x) mod 10 = (if x = 0 then 0 else 10 - x)" if "0 \<le> x \<and> x < 10" for x :: int
  proof (cases "x = 0")
    case False
    then have "(10 - x) mod 10 = 10 - x" using that by (intro mod_pos_pos_trivial) auto
    with False show ?thesis by simp
  qed simp
  then show "0 \<le> a \<and> a < 10 \<Longrightarrow> 0 \<le> b \<and> b < 10 \<Longrightarrow> (10 - a) mod 10 = (10 - b) mod 10 \<Longrightarrow> a = b"
    by (auto split: if_split_asm)
qed

lemma tax_digit_caught:
  assumes ok: "tax_check ds" and n: "length ds = 10" and r: "\<And>x. x \<in> set ds \<Longrightarrow> 0 \<le> x \<and> x \<le> 9"
    and i: "i < 10" and d: "0 \<le> d" "d \<le> 9" "d \<noteq> ds ! i"
  shows "\<not> tax_check (ds[i := d])"
proof
  assume bad: "tax_check (ds[i := d])"
  define f where "f = (\<lambda>ds j. tax_term j (ds ! j))"
  have sums: "(10 - (\<Sum>j \<leftarrow> [0..<9]. f ds j) mod 10) mod 10 = ds ! 9"
    "(10 - (\<Sum>j \<leftarrow> [0..<9]. f (ds[i := d]) j) mod 10) mod 10 = ds[i := d] ! 9"
    using ok bad unfolding tax_check_def f_def by simp_all
  show False
  proof (cases "i = 9")
    case True
    then have "(\<Sum>j \<leftarrow> [0..<9]. f (ds[i := d]) j) = (\<Sum>j \<leftarrow> [0..<9]. f ds j)"
      unfolding f_def by (intro arg_cong [where f = sum_list] map_cong) auto
    with sums d n True show False by simp
  next
    case False
    then have i9: "i < 9" using i by simp
    have ri: "0 \<le> ds ! i" "ds ! i \<le> 9" using r [of "ds ! i"] i n by auto
    have "i \<in> set [0..<9]" "d \<in> set [0..9]" "ds ! i \<in> set [0..9]" using i9 ri d by auto
    then have "tax_term i d \<noteq> tax_term i (ds ! i)"
      using tax_terms_differ d(3) unfolding list_all_iff by blast
    then have "f (ds[i := d]) i \<noteq> f ds i" using i n by (simp add: f_def)
    then have neq: "(\<Sum>j \<leftarrow> [0..<9]. f (ds[i := d]) j) mod 10 \<noteq> (\<Sum>j \<leftarrow> [0..<9]. f ds j) mod 10"
      by (intro mod_sum_differs [where i = i, OF i9]) (use tax_term_range in \<open>auto simp: f_def\<close>)
    have "ds[i := d] ! 9 = ds ! 9" using False by simp
    then have "(10 - (\<Sum>j \<leftarrow> [0..<9]. f (ds[i := d]) j) mod 10) mod 10 = (10 - (\<Sum>j \<leftarrow> [0..<9]. f ds j) mod 10) mod 10"
      using sums by simp
    then show False using neq same_complement [OF mod10 mod10] by blast
  qed
qed

theorem mistyped_digit_refused:
  assumes "validate_tax_number v = Inr v'" and "i < length v" and "is_digit c" and "c \<noteq> v ! i"
  shows "\<exists>code. validate_tax_number (v[i := c]) = Inl (refused_value code)"
proof -
  have dig: "\<forall>x \<in> set v. is_digit x" and n: "length v = 10 \<or> length v = 11"
    and ok: "if length v = 11 then national_check (map digit v) else tax_check (map digit v)"
    using assms(1) unfolding validate_tax_number_def validate_national_id_def all_digits_def by (auto split: if_splits)
  have r: "\<And>x. x \<in> set (map digit v) \<Longrightarrow> 0 \<le> x \<and> x \<le> 9" using dig digit_range by auto
  have d: "0 \<le> digit c" "digit c \<le> 9" "digit c \<noteq> map digit v ! i"
    using digit_range [OF assms(3)] assms(2,4) digit_inj by auto
  have upd: "map digit (v[i := c]) = (map digit v)[i := digit c]" by (simp add: map_update)
  show ?thesis
  proof (cases "length v = 11")
    case True
    with ok have "\<not> national_check (map digit (v[i := c]))"
      unfolding upd by (intro national_digit_caught [OF _ _ r _ d]) (use assms(2) in auto)
    with True show ?thesis by (auto simp: validate_tax_number_def validate_national_id_def)
  next
    case False
    with ok n have "\<not> tax_check (map digit (v[i := c]))"
      unfolding upd by (intro tax_digit_caught [OF _ _ r _ d]) (use assms(2) in auto)
    with False show ?thesis by (auto simp: validate_tax_number_def)
  qed
qed

section \<open>One number, one form\<close>

lemma phone_form:
  assumes "normalize_phone v = Inr p"
  obtains ds where "p = ''+90'' @ ds" and "length ds = 10" and "\<forall>c \<in> set ds. is_digit c"
proof -
  define ds where "ds = filter is_digit v"
  define cut where "cut = (if starts_with ''90'' ds \<and> length ds = 12 then drop 2 ds
    else if starts_with ''0'' ds \<and> length ds = 11 then drop 1 ds else ds)"
  have "p = ''+90'' @ cut" "length cut = 10"
    using assms unfolding normalize_phone_def Let_def cut_def ds_def by (auto split: if_split_asm)
  moreover have "c \<in> set ds" if "c \<in> set cut" for c
    using that unfolding cut_def by (auto split: if_split_asm dest: in_set_dropD)
  then have "\<forall>c \<in> set cut. is_digit c" by (auto simp: ds_def)
  ultimately show ?thesis by (intro that)
qed

theorem phone_normal_form:
  assumes "normalize_phone v = Inr p"
  shows "normalize_phone p = Inr p"
proof -
  from assms obtain ds where p: "p = ''+90'' @ ds" "length ds = 10" "\<forall>c \<in> set ds. is_digit c" by (rule phone_form)
  then have "filter is_digit p = ''90'' @ ds" by (simp add: is_digit_def)
  then show ?thesis using p by (simp add: normalize_phone_def starts_with_def Let_def)
qed

end
