(* ===== verification/Scheduler.thy ===== *)
theory Scheduler
  imports Tenancy
begin

text \<open>
  \<open>core/scheduling.py\<close>: what runs every day, and the tick that starts it. A run is claimed by a row for
  (job, local date) under a unique constraint, in the transaction that enqueues it; schedulers tick side by
  side, so reading the table and claiming a run are two steps.
\<close>

text \<open>\<open>ds_at\<close> in minutes of the local day.\<close>

record daily_schedule =
  ds_name :: string
  ds_at :: nat

definition get_schedules :: "daily_schedule list" where
  "get_schedules = List.map (\<lambda>(n, h, m). \<lparr>ds_name = n, ds_at = 60 * h + m\<rparr>)
    [(''contract_expiry'', 0, 30), (''plan_maintenance'', 1, 0), (''purge_idempotency_keys'', 3, 0),
     (''purge_attachments'', 3, 15), (''prune_task_results'', 3, 30), (''purge_public_reporter_data'', 3, 45),
     (''carry_over_invoices'', 4, 30), (''draft_invoices'', 5, 0), (''contract_renewal_notice'', 6, 0),
     (''inspection_due_notice'', 6, 15), (''correction_deadline_notice'', 6, 30), (''maintenance_overdue'', 7, 0),
     (''monthly_customer_reports'', 8, 0)]"

text \<open>The local clock: the date, and the minute of the day (with the seconds and below cut off).\<close>

record local_clock =
  lc_date :: date
  lc_minute :: nat

definition is_due :: "daily_schedule \<Rightarrow> local_clock \<Rightarrow> bool" where
  "is_due d c \<longleftrightarrow> ds_at d \<le> lc_minute c"

text \<open>\<open>ScheduledRun\<close>, unique by job and period, and the queue a run is put on with it.\<close>

record timetable =
  runs :: "(string \<times> date) list"
  queue :: "(string \<times> date) list"

definition already_ran :: "string \<Rightarrow> date \<Rightarrow> timetable \<Rightarrow> bool" where
  "already_ran job period t \<longleftrightarrow> (job, period) \<in> set (runs t)"

text \<open>\<open>enqueues\<close>: whether \<open>task.enqueue\<close> accepts the job; if it does not, the claim goes with it.\<close>

definition claim :: "(string \<Rightarrow> bool) \<Rightarrow> string \<Rightarrow> date \<Rightarrow> timetable \<Rightarrow> timetable result" where
  "claim enqueues job period t =
    (if already_ran job period t then Inl Integrity_error
     else if \<not> enqueues job then Inl (Crash Runtime_error)
     else Inr (t\<lparr>runs := runs t @ [(job, period)], queue := queue t @ [(job, period)]\<rparr>))"

text \<open>One scheduler alone: \<open>enqueue_due\<close>. An enqueue that raises ends the tick.\<close>

fun enqueue_due ::
  "(string \<Rightarrow> bool) \<Rightarrow> local_clock \<Rightarrow> daily_schedule list \<Rightarrow> timetable \<Rightarrow> string list result \<times> timetable" where
  "enqueue_due enqueues c [] t = (Inr [], t)"
| "enqueue_due enqueues c (d # ds) t =
    (if \<not> is_due d c \<or> already_ran (ds_name d) (lc_date c) t then enqueue_due enqueues c ds t
     else case claim enqueues (ds_name d) (lc_date c) t of
       Inl Integrity_error \<Rightarrow> enqueue_due enqueues c ds t
     | Inl err \<Rightarrow> (Inl err, t)
     | Inr t' \<Rightarrow>
         (case enqueue_due enqueues c ds t' of
            (Inl err, t'') \<Rightarrow> (Inl err, t'')
          | (Inr started, t'') \<Rightarrow> (Inr (ds_name d # started), t'')))"

section \<open>Schedulers side by side\<close>

text \<open>
  Where a scheduler is in its tick: the clock it read, the schedules still before it, and whether the first
  of them was looked up and not found.
\<close>

record ticking =
  tk_clock :: local_clock
  tk_ahead :: "daily_schedule list"
  tk_looked :: bool

record clockwork =
  table :: timetable
  tickers :: "nat \<Rightarrow> ticking option"

inductive clockwork_step :: "(string \<Rightarrow> bool) \<Rightarrow> clockwork \<Rightarrow> clockwork \<Rightarrow> bool" for enqueues where
  begin_tick: "clockwork_step enqueues w (w\<lparr>tickers := (tickers w)(p \<mapsto>
      \<lparr>tk_clock = c, tk_ahead = get_schedules, tk_looked = False\<rparr>)\<rparr>)"
| look: "tickers w p = Some \<lparr>tk_clock = c, tk_ahead = d # ds, tk_looked = False\<rparr> \<Longrightarrow>
    clockwork_step enqueues w (w\<lparr>tickers := (tickers w)(p \<mapsto>
      (if \<not> is_due d c \<or> already_ran (ds_name d) (lc_date c) (table w)
       then \<lparr>tk_clock = c, tk_ahead = ds, tk_looked = False\<rparr>
       else \<lparr>tk_clock = c, tk_ahead = d # ds, tk_looked = True\<rparr>))\<rparr>)"
| claiming: "tickers w p = Some \<lparr>tk_clock = c, tk_ahead = d # ds, tk_looked = True\<rparr> \<Longrightarrow>
    clockwork_step enqueues w
      (case claim enqueues (ds_name d) (lc_date c) (table w) of
         Inr t \<Rightarrow> w\<lparr>table := t, tickers := (tickers w)(p \<mapsto> \<lparr>tk_clock = c, tk_ahead = ds, tk_looked = False\<rparr>)\<rparr>
       | Inl Integrity_error \<Rightarrow> w\<lparr>tickers := (tickers w)(p \<mapsto> \<lparr>tk_clock = c, tk_ahead = ds, tk_looked = False\<rparr>)\<rparr>
       | Inl err \<Rightarrow> w\<lparr>tickers := (tickers w)(p := None)\<rparr>)"
| dying: "clockwork_step enqueues w (w\<lparr>tickers := (tickers w)(p := None)\<rparr>)"

definition stopped_clock :: clockwork where
  "stopped_clock = \<lparr>table = \<lparr>runs = [], queue = []\<rparr>, tickers = (\<lambda>_. None)\<rparr>"

section \<open>Once a day\<close>

definition timetable_ok :: "timetable \<Rightarrow> bool" where
  "timetable_ok t \<longleftrightarrow> distinct (runs t) \<and> queue t = runs t"

lemma claim_ok: "claim enqueues job period t = Inr t' \<Longrightarrow> timetable_ok t \<Longrightarrow> timetable_ok t'"
  by (auto simp: claim_def timetable_ok_def already_ran_def split: if_splits)

lemma clockwork_step_ok: "clockwork_step enqueues w w' \<Longrightarrow> timetable_ok (table w) \<Longrightarrow> timetable_ok (table w')"
  by (induction rule: clockwork_step.induct) (auto split: sum.splits exn.splits dest: claim_ok)

theorem queued_once_a_day:
  assumes "(clockwork_step enqueues)\<^sup>*\<^sup>* stopped_clock w"
  shows "distinct (queue (table w))"
proof -
  have "timetable_ok (table w)"
    using assms
  proof (induction rule: rtranclp_induct)
    case base
    show ?case by (simp add: stopped_clock_def timetable_ok_def)
  next
    case (step y z)
    then show ?case by (blast intro: clockwork_step_ok)
  qed
  then show ?thesis by (simp add: timetable_ok_def)
qed

text \<open>A tick at or after the time of a job leaves it queued for the day, whoever queued it.\<close>

lemma enqueue_due_grows: "enqueue_due enqueues c ds t = (res, t') \<Longrightarrow> set (runs t) \<subseteq> set (runs t')"
proof (induction ds arbitrary: t res t')
  case (Cons d ds)
  show ?case
  proof (cases "\<not> is_due d c \<or> already_ran (ds_name d) (lc_date c) t")
    case True
    with Cons show ?thesis by simp
  next
    case False
    show ?thesis
    proof (cases "claim enqueues (ds_name d) (lc_date c) t")
      case (Inl err)
      with Cons False show ?thesis by (cases err) auto
    next
      case (Inr t1)
      obtain r t2 where rest: "enqueue_due enqueues c ds t1 = (r, t2)" by fastforce
      have "set (runs t) \<subseteq> set (runs t1)" using Inr by (auto simp: claim_def split: if_splits)
      moreover have "t' = t2" using Cons.prems False Inr rest by (auto split: sum.splits)
      ultimately show ?thesis using Cons.IH [OF rest] by blast
    qed
  qed
qed simp

theorem due_jobs_queued:
  assumes "enqueue_due enqueues c ds t = (Inr started, t')" and "d \<in> set ds" and "is_due d c"
  shows "already_ran (ds_name d) (lc_date c) t'"
  using assms
proof (induction ds arbitrary: t started)
  case (Cons x ds)
  show ?case
  proof (cases "\<not> is_due x c \<or> already_ran (ds_name x) (lc_date c) t")
    case True
    then have rest: "enqueue_due enqueues c ds t = (Inr started, t')" using Cons.prems(1) by simp
    show ?thesis
    proof (cases "d \<in> set ds")
      case False
      with Cons.prems True have "already_ran (ds_name d) (lc_date c) t" by auto
      with enqueue_due_grows [OF rest] show ?thesis by (auto simp: already_ran_def)
    qed (use Cons.IH [OF rest] Cons.prems in blast)
  next
    case False
    have fresh: "claim enqueues (ds_name x) (lc_date c) t \<noteq> Inl Integrity_error"
      using False by (simp add: claim_def)
    obtain t1 where t1: "claim enqueues (ds_name x) (lc_date c) t = Inr t1"
      using Cons.prems(1) False fresh by (cases "claim enqueues (ds_name x) (lc_date c) t") (auto split: exn.splits)
    obtain r t2 where r: "enqueue_due enqueues c ds t1 = (r, t2)" by fastforce
    with Cons.prems(1) False t1 obtain s2 where rest: "enqueue_due enqueues c ds t1 = (Inr s2, t')"
      by (auto split: sum.splits)
    have "already_ran (ds_name x) (lc_date c) t1" using t1 by (auto simp: claim_def already_ran_def split: if_splits)
    with enqueue_due_grows [OF rest] have "already_ran (ds_name x) (lc_date c) t'" by (auto simp: already_ran_def)
    then show ?thesis using Cons.IH [OF rest] Cons.prems(2,3) by auto
  qed
qed simp

end
