(* ===== verification/Spec2Isabelle.thy ===== *)
theory Spec2Isabelle
  imports Example_Workshop Example_Replay Example_Doors Example_Vault Routing Permissions Money Validators Scheduler
begin

text \<open>
  \<open>shiftlush-api\<close>: the back end of a lift maintenance business. Several firms share one database; the office
  and its technicians keep customers, buildings, lifts, contracts, visits, faults, inspections, invoices and
  a ledger; customers read along through a portal.

  Parts and how they interact. A request enters through one of two doors (staff or portal), which bind the
  firm it may see (\<open>core/context.py\<close>); a role decides what it may call (\<open>core/permissions.py\<close>); a POST that is
  sent twice under one key runs once (\<open>core/idempotency.py\<close>); the services of each app then change the tables
  in a transaction, raise notifications that leave when it commits, and answer with an error code of
  \<open>core/error_codes.py\<close> when they refuse. Contracts cover lifts; billing drafts invoices from contracts and
  billable faults; issuing an invoice posts to the ledger; collections are applied to invoices and decide
  their status. Inspections stop lifts and open faults; faults stop and restore lifts; visits move the dates
  of a lift and close rows of the monthly plan. A scheduler starts the nightly jobs.

  How code becomes definitions. A table is a list of records in insertion order, a model class a record
  extending \<open>row\<close>; constraints are checks made by the insertions and updates. The state grows by record
  extension, one record per layer: \<open>books\<close> (ledger), \<open>desk\<close> (notifications), \<open>estate\<close> (contracts and lifts), \<open>board\<close> (faults
  and assignments), \<open>inspectorate\<close>, \<open>workshop\<close> (visits and plan), \<open>vault\<close> (the bucket); and from \<open>board\<close>
  also \<open>entrance\<close> (staff accounts) and \<open>reception\<close> (portal). A service is a function from an environment (the
  tenant context, the time, the acting user) and the state to \<open>Inl error\<close> or \<open>Inr (result, state)\<close>: an error
  rolls its transaction back. Where the code keeps changes in spite of an error (a failed sign-in that
  counts, the sessions a replayed token ends, deletions in the bucket, a form saved before a later check)
  the state is returned beside the answer.

  The theories and what they model (paths under \<open>src/\<close>):
  \<^item> Prelude, Errors (\<open>core/exceptions.py\<close>, \<open>core/error_codes.py\<close>), Calendar and Months (\<open>datetime.date\<close>,
    \<open>core/dates.py\<close>), Decimals (\<open>decimal\<close> at 28 digits), Tenancy (\<open>core/context.py\<close>, \<open>managers.py\<close>,
    \<open>models.py\<close>), Permissions (\<open>core/permissions.py\<close>).
  \<^item> Money, Periods: \<open>apps/billing/money.py\<close>, \<open>periods.py\<close>.
  \<^item> Ledger_Model, Balances, Posting, Documents, Parties, Collections, Statement, Finance: \<open>apps/ledger\<close>
    (\<open>models.py\<close>, \<open>balances.py\<close>, \<open>posting.py\<close>, \<open>services.py\<close>, \<open>signals.py\<close>, \<open>statement.py\<close>, \<open>finance.py\<close>).
    Movement_Laws, Document_Laws, Collection_Laws: every document appends the movements that its type
    says and nothing else, a reversal takes them out of every balance, no invoice is paid beyond its total.
  \<^item> Contracts (\<open>apps/contracts/models.py\<close>, \<open>services.py\<close>) with Contract_Laws: renewal, expiry, cover.
  \<^item> Billing (\<open>apps/billing/services.py\<close>, \<open>models.py\<close>) with Billing_Laws: figures are the totals of the live
    lines, a period is drafted once, an issued invoice is frozen.
  \<^item> Notifications (\<open>apps/notifications\<close>) with Notification_Laws: one notice per event, person and day.
  \<^item> Faults (\<open>apps/faults\<close>) with Fault_Laws and Fault_Promises: an abstract life cycle (\<open>moves\<close>, \<open>table_step\<close>) that every
    service refines, histories by rule induction.
  \<^item> Inspections (\<open>apps/inspections\<close>) with Inspection_Laws: lifts show their newest inspection.
  \<^item> Maintenance (\<open>apps/maintenance\<close>) with Maintenance_Laws and Plan_Laws: record and plan agree, the nightly
    plan is complete and idempotent. Routing (\<open>apps/maintenance/routing.py\<close>).
  \<^item> Replay (\<open>core/idempotency.py\<close>) with Replay_Laws: requests side by side, one statement a step.
  \<^item> Sessions, Accounts (\<open>apps/users\<close>), Portal (\<open>apps/portal\<close>) with Session_Laws, Account_Laws, Door_Laws,
    Lockout_Laws: rotation of tokens as an interface with two providers, the invariant of the doors over
    every service, the bound of the lockout.
  \<^item> Validators (\<open>core/validators.py\<close>), Callers (\<open>core/client_ip.py\<close>), Scheduler (\<open>core/scheduling.py\<close>),
    Uploads (\<open>apps/attachments\<close> and the images of \<open>apps/maintenance/signatures.py\<close>).
  \<^item> Example_Firm, Example_Billing, Example_Board, Example_Inspection, Example_Workshop, Example_Replay,
    Example_Doors, Example_Vault: concrete states in which the properties below are applied.

  Bounds and fuel. Recursion is structural or has a measure, except where the code bounds a loop itself,
  and then the bound is the code's: \<open>CANCEL_ATTEMPTS\<close>, \<open>REFERENCE_ATTEMPTS\<close>, \<open>RESERVE_ATTEMPTS\<close>,
  \<open>MAX_IMPROVEMENT_PASSES\<close>. Lists of periods, of months and of places are finite by construction; that the
  planner, the reservation (at most ten statements) and the billing loops end is proved.

  Idealisations. Transactions are atomic and row locks, which order them and change nothing, are left out,
  except where the code retries or races are the point (\<open>cancel_collection\<close>, \<open>replay_step\<close>,
  \<open>clockwork_step\<close>). Keys are drawn from a counter instead of UUIDs. An operation reads the clock once.
  Distances are exact: of any ordered field, \<open>haversine_km\<close> over the reals, where the code has floats. Hashes, tokens and references drawn, the words of an invoice line, \<open>isoformat\<close> and the
  address parser are parameters. Texts are strings of 8-bit characters, so \<open>lower\<close> and \<open>strip\<close> are those of
  ASCII. The columns of a user that only the accounts read are maps beside the table of the ledger; columns
  that no modelled operation reads (phone numbers, certificates, notes) are left out. New assignments of a
  technician are made in the order sent, where the code iterates over a set.

  Not modelled: forms and rendering (serializers, pagination, filters, the API schema) beyond the checks
  named above; migrations, which run once; demonstration data and management commands, which call the
  services; mail, object storage, PDF and QR drawing and the statement's CSV, which are output; monthly
  reports, mostly layout; addresses and geocoding, which match Turkish text and ask a third party; rate
  limits, field encryption, the audit trail, middleware and observability, which wrap third-party code or
  read the state without changing the tables.
\<close>

section \<open>Collections\<close>

text \<open>C1. Recording a collection keeps the books of collections in order (no invoice paid beyond its
  total, no collection applied beyond its amount, every issued invoice reading as its collections
  say), appends exactly one movement, which credits the account and fills the till by the
  amount, and never applies more than was collected.\<close>

theorem collection_recorded:
  assumes "collections_ok s"
    and "record_collection e acc cash amount method_name dt note1 applies by s = Inr (c, s')"
  shows "collections_ok s' \<and> length (movements s') = Suc (length (movements s)) \<and>
    account_total (pk acc) (movements s') = account_total (pk acc) (movements s) - rat_of amount \<and>
    cash_total (pk cash) (movements s') = cash_total (pk cash) (movements s) + rat_of amount \<and>
    sum_list (map (\<lambda>(_, x). rat_of x) applies) \<le> rat_of amount"
  using assms
proof (rule record_collection_effect)
  fix m
  assume m: "movements s' = movements s @ [m]" "sum_list (map (\<lambda>(_, x). rat_of x) applies) \<le> rat_of amount"
    and w: "written (Some acc) (Some cash) (Some Credit) (Some In) (rat_of amount) dt Collection_src
      (collection_type, pk c) m"
  from m written_totals [OF w] record_collection_keeps_ok [OF assms] show ?thesis by simp
qed

lemma collection_recorded_witness:
  "collections_ok (snd (the_run collect0)) \<and> account_total 3 (movements (snd (the_run collect0))) = -60"
  using collection_recorded [OF firm0_collections_ok collect0_run]
  by (simp add: firm0_totals)

text \<open>C2. Cancelling a collection, whatever other transactions commit between its attempts, is one
  cancellation run after some of them, and leaves the books of collections in order as long as
  those transactions do.\<close>

theorem collection_cancelled:
  assumes "collections_ok s" and "\<And>k u. collections_ok u \<Longrightarrow> collections_ok (meanwhile k u)"
    and "cancel_collection e meanwhile c by s = Inr (d, s')"
  shows "collections_ok s' \<and>
    (\<exists>r. 0 < r \<and> r \<le> CANCEL_ATTEMPTS \<and> cancel_once e c by (fold meanwhile [0 ..< r] s) = Inr (d, s'))"
proof -
  obtain r where r: "0 < r" "r \<le> CANCEL_ATTEMPTS"
    "cancel_collection e meanwhile c by s = cancel_once e c by (fold meanwhile [0 ..< r] s)"
    using cancel_collection_serial by blast
  have "collections_ok (fold meanwhile ks s)" for ks
    using assms(1,2) by (induction ks arbitrary: s) simp_all
  with r assms(3) show ?thesis using cancel_once_keeps_ok by metis
qed

lemma collection_cancelled_witness:
  "collections_ok (snd (the_run cancel0))"
  using collection_cancelled [OF collect0_ok _ cancel0_run] by simp

text \<open>C3. Applying more of a collection keeps the books of collections in order: what is left of it is
  never exceeded.\<close>

theorem collection_applied:
  assumes "collections_ok s" and "apply_collection e k applies by s = Inr (c, s')"
  shows "collections_ok s' \<and> (\<forall>d \<in> set (collections s'). allocated (pk d) s' \<le> doc_amount d)"
  using apply_collection_keeps_ok [OF assms] by (simp add: collections_ok_def no_overallocation_def)

lemma collection_applied_witness:
  "collections_ok (snd (the_run apply0))"
  using collection_applied [OF collect0_ok apply0_run] by simp

section \<open>Postings and reversals\<close>

text \<open>C4. A posting only appends: the movement it writes passes every rule (a positive amount of
  whole cents, sides of one firm in one currency, a date neither in the future nor in the
  closed period nor before a later opening balance), and the table of movements stays in order.\<close>

theorem posting_guarded:
  assumes "movements_ok s"
    and "post e acc cash dir cash_dir amount currency dt source document description by s = Inr (m, s')"
  shows "movements s' = movements s @ [m] \<and> posting_ok e acc cash s m \<and> mv_date m = dt \<and>
    mv_amount m = rat_of amount \<and> movements_ok s'"
  using post_Inr [OF assms(2)] post_keeps_ok [OF assms] by simp

lemma posting_guarded_witness:
  "posting_ok e0 (Some account0) (Some till0) firm0 (fst (the_run post0)) \<and>
    movements_ok (snd (the_run post0))"
  using posting_guarded [OF firm0_movements_ok post0_run] by simp

text \<open>C5. Reversing a document takes exactly its movements out of every balance, once: afterwards each
  account and each till stands as if the document had never been, and a second reversal is
  refused as already reversed.\<close>

theorem reversal_undoes:
  assumes "movements_ok s" and "reverse_document e doc dt by source s = Inr (rs, s')"
    and "\<forall>m \<in> set (movements s). of_document doc m \<longrightarrow> visible (ctx e) m"
    and "source' \<in> {Reversal_src, Invoice_cancel_src}"
  shows "account_total k (movements s') = account_total k (filter (\<lambda>m. \<not> of_document doc m) (movements s)) \<and>
    cash_total k (movements s') = cash_total k (filter (\<lambda>m. \<not> of_document doc m) (movements s)) \<and>
    movements_ok s' \<and> reverse_document e' doc dt' by' source' s' = Inl (Conflict ALREADY_REVERSED)"
  using reversal_restores [OF assms(1-3)] reverse_document_keeps_ok [OF assms(1,2)]
    second_reversal_refused [OF assms(2-4)] by simp

lemma reversal_undoes_witness:
  "account_total 3 (movements (snd (the_run reverse0))) = 0 \<and>
    reverse_document e0 doc0 oct None Reversal_src (snd (the_run reverse0)) = Inl (Conflict ALREADY_REVERSED)"
  using reversal_undoes [OF post0_ok reverse0_run post0_visible, of Reversal_src 3 e0 oct None]
  by (simp add: post0_totals)

section \<open>Money and periods\<close>

text \<open>C6. A prorated fee is the exact share \<open>price * months * covered / days\<close> rounded half up to the
  cent, for every amount the columns hold: the 28-digit context never shows.\<close>

theorem prorated_amount_exact:
  assumes "cents p" "0 \<le> p" "p < 10 ^ 10" "0 \<le> months" "months \<le> 32767"
    "0 \<le> covered" "covered \<le> 32767" "0 < days" "days \<le> 32767"
  shows "prorated_amount (Some p) months covered days = Inr (exact_share p months covered days) \<and>
    (covered = days \<longrightarrow> exact_share p months covered days = p * of_int months)"
  using prorated_amount_eq_exact [OF assms] exact_share_full [OF assms(8,1)] by simp

lemma prorated_amount_exact_witness:
  "prorated_amount (Some 100) 1 10 30 = Inr (exact_share 100 1 10 30)"
  using prorated_amount_exact [of 100 1 10 30] by (simp add: cents_def)

text \<open>C7. The periods of a contract tile its term: whatever days one asks about, the days the periods
  share with them add up to the days the term shares with them; no day is billed twice or
  left out.\<close>

theorem periods_tile:
  assumes "valid_date start" "valid_date stop" "start \<le> stop" "month_no stop + MONTHS bp < 120000"
    "valid_date a" "valid_date b"
  shows "(\<forall>r \<in> set (periods start stop bp). returns r) \<and>
    covered_by (periods start stop bp) (a, b) = overlap_days (start, stop) (a, b)"
  by (rule periods_cover [OF assms])

lemma periods_tile_witness:
  "covered_by (periods (Date 2026 1 31) (Date 2026 12 30) Quarterly) (Date 2026 3 1, Date 2026 3 31) =
    overlap_days (Date 2026 1 31, Date 2026 12 30) (Date 2026 3 1, Date 2026 3 31)"
  using periods_tile [of "Date 2026 1 31" "Date 2026 12 30" Quarterly "Date 2026 3 1" "Date 2026 3 31"]
  by (simp add: valid_date_def days_in_month_def is_leap_def month_no_def less_eq_date_def)

section \<open>Contracts\<close>





section \<open>Billing\<close>

text \<open>C10. The daily run keeps billing in order: every draft's figures are those of its live lines, one
  live draft per contract and period, one live line per fault. The drafts it makes are for
  periods that are over and not older than the look-back, of contracts that have their rate.\<close>

theorem drafts_generated:
  assumes "generate e o1 dt s = Inr (r, s')" and "billing_ok s" and "valid_date dt"
  shows "billing_ok s' \<and> (\<forall>d \<in> set (run_created r). inv_status d = Draft \<and> inv_period_end d < dt \<and>
      (\<exists>earliest. add_days dt (- LOOKBACK) = Some earliest \<and> earliest \<le> inv_period_end d) \<and>
      (\<exists>c \<in> set (contracts s). pk c = inv_contract d \<and> ct_vat_rate c \<noteq> None))"
  using generate_Inr [OF assms] by blast

lemma drafts_generated_witness:
  "billing_ok (snd (the_run generate0))"
  using drafts_generated [OF generate0_run firm0_billing_ok]
  by (simp add: valid_date_def days_in_month_def)

text \<open>C11. A period is drafted once: while a live invoice of the contract starts on that day, whatever
  else has changed meanwhile, drafting it again makes nothing and changes nothing.\<close>

theorem period_drafted_once:
  assumes "i \<in> set (invoices s)" "\<not> is_deleted i" "inv_status i \<noteq> Cancelled"
    and "inv_contract i = pk c" "inv_period_start i = p_start p"
    and "billing_ok s" "visible (ctx e) c" "draft_for e o1 c p s = Inr (made, s')"
  shows "made = None \<and> s' = s"
  using draft_for_once [OF assms(1-5,8)] draft_for_Inr(2) [OF assms(6-8)] by blast

lemma period_drafted_once_witness:
  "fst (the_run again0) = None"
  using period_drafted_once [of invoice0 firm0 contract0 september sys0 out0, OF _ _ _ _ _ firm0_billing_ok _ again0_run]
  by (simp add: firm0_def invoice0_def contract0_def september_def visible_def sys0_def)

text \<open>C12. Every edit of a draft (adding, correcting and removing a line, the notes) leaves billing in
  order: the figures of the draft are again the totals of its live lines, and no other moved.\<close>

theorem edits_add_up:
  assumes "billing_ok s" and "in_hand l s"
  shows "(\<forall>x s'. add_line e k text1 q p by s = Inr (x, s') \<longrightarrow> billing_ok s') \<and>
    (\<forall>x s'. edit_line e l changes by s = Inr (x, s') \<longrightarrow> billing_ok s') \<and>
    (\<forall>s'. remove_line e l by s = Inr s' \<longrightarrow> billing_ok s') \<and>
    (\<forall>x s'. edit_draft e k notes by s = Inr (x, s') \<longrightarrow> billing_ok s')"
proof (intro conjI allI impI)
  fix x d s'
  show "billing_ok s'" if "add_line e k text1 q p by s = Inr (x, s')"
    using line_adding.keeps_ok [where s = s and x = "(k, text1, q, p, by)" and e = e and y = x and s' = s'] assms that by simp
  show "billing_ok s'" if "edit_line e l changes by s = Inr (x, s')"
    using line_editing.keeps_ok [where s = s and x = "(l, changes, by)" and e = e and y = x and s' = s'] assms that by simp
  show "billing_ok s'" if "remove_line e l by s = Inr s'"
    using line_removing.keeps_ok [where s = s and x = "(l, by)" and e = e and y = "()" and s' = s'] assms that by simp
  show "billing_ok s'" if "edit_draft e k notes by s = Inr (d, s')"
    using draft_editing.keeps_ok [where s = s and x = "(k, notes, by)" and e = e and y = d and s' = s'] assms that by simp
qed

lemma edits_add_up_witness:
  "billing_ok (the_run removed0)"
  using edits_add_up [OF firm1_billing_ok june_line_in_hand(1)] removed0_run by blast



text \<open>C14. Once an invoice is no draft, nothing about it moves: its notes, its lines and a second issue
  are refused as a transition that is not allowed.\<close>

theorem issued_is_frozen:
  assumes "get_invoice e k s = Inr d" and "inv_status d \<noteq> Draft" and "ln_draft l = k"
  shows "edit_draft e k notes by s = Inl refuse \<and> add_line e k text1 q p by s = Inl refuse \<and>
    edit_line e l changes by s = Inl refuse \<and> remove_line e l by s = Inl refuse \<and>
    issue e k num dt by s = Inl refuse"
proof (intro conjI)
  show "edit_draft e k notes by s = Inl refuse"
    using draft_editing.refused_unless_draft [of e "(k, notes, by)" s d] assms by simp
  show "add_line e k text1 q p by s = Inl refuse"
    using line_adding.refused_unless_draft [of e "(k, text1, q, p, by)" s d] assms by simp
  show "edit_line e l changes by s = Inl refuse"
    using line_editing.refused_unless_draft [of e "(l, changes, by)" s d] assms by simp
  show "remove_line e l by s = Inl refuse"
    using line_removing.refused_unless_draft [of e "(l, by)" s d] assms
    by (cases "remove_line e l by s") simp_all
  show "issue e k num dt by s = Inl refuse"
    using issuing.refused_unless_draft [of e "(k, num, dt, by)" s d] assms by simp
qed

lemma issued_is_frozen_witness:
  "issue e0 10 ''F9'' oct None firm0 = Inl refuse"
proof -
  have "get_invoice e0 10 firm0 = Inr invoice0"
    by (simp add: get_invoice_def get_row_def by_pk_def firm0_def invoice0_def visible_def e0_def)
  from issued_is_frozen [OF this, of "june_line\<lparr>ln_draft := 10\<rparr>"] show ?thesis
    by (simp add: invoice0_def june_line_def)
qed



section \<open>The fault board\<close>

text \<open>C16. Refinement: whatever service of the fault board runs - a report from the firm, the sticker or
  the portal, an assignment, an arrival, a resolution, a close, a cancellation, a correction or the
  nightly purge - the table of faults makes one step of the life cycle (or none), and stays in order.\<close>

theorem fault_services_refine:
  assumes "board_ok t s" and "t \<le> now e" and "fault_service e s s'"
  shows "table_step (now e) (faults s) (faults s') \<and> board_ok (now e) s'"
  using service_step [OF assms(3,1)] life_step_ok [OF service_step [OF assms(3,1)] assms(1,2)]
  by (simp add: life_step_def)

lemma fault_services_refine_witness:
  "table_step 1000 (faults board0) (faults (snd (the_run resolve0))) \<and> board_ok 1000 (snd (the_run resolve0))"
  using fault_services_refine [OF board0_ok _ resolve0_service] by (simp add: e0_def)

text \<open>C17. After every history of services, at times that never go back, each fault's state agrees with its
  time stamps (reached in order, none missing, none from the future), whoever is on site or done is
  a named technician, a fault whose work is done says whether it is billed, and no two live faults
  of a firm share a reference; a fault that was closed or cancelled is so still.\<close>

theorem fault_history_sound:
  assumes "board_ok t0 s0" and "fault_history t0 s0 t s"
  shows "(\<forall>f \<in> set (faults s). life_ok t f) \<and> all_unique faults_clash (faults s) \<and>
    (\<forall>f \<in> set (faults s0). fl_status f \<in> {F_closed, F_cancelled} \<longrightarrow>
      (\<exists>f' \<in> set (faults s). pk f' = pk f \<and> fl_status f' = fl_status f))"
  using history_ok [OF assms(2,1)] history_finished [OF assms(2,1)] by (simp add: board_ok_def faults_ok_def)

lemma fault_history_sound_witness:
  "all_unique faults_clash (faults (snd (the_run resolve0))) \<and>
    (\<exists>f' \<in> set (faults (snd (the_run resolve0))). pk f' = 9 \<and> fl_status f' = F_closed)"
  using fault_history_sound [OF board0_ok resolve0_history] board0_sees(3-5) by (metis insertI1)



text \<open>C19. Public reports of one lift converge: a report within half an hour of the fault the last one
  answered with, while nobody has arrived, opens no second fault. It joins that fault (same
  reference), is listed on it, and never lowers its priority.\<close>

theorem public_reports_converge:
  assumes "board_ok t s" and "t \<le> now e" and "report_public e w el r s = Inr (f, s1)"
    and "now e \<le> now e'" and "ctx e' = ctx e" and "now e' - PUBLIC_MERGE_WINDOW \<le> fl_reported_at f"
    and "report_public e' w' el r' s1 = Inr (f', s2)"
  shows "pk f' = pk f \<and> fl_reference f' = fl_reference f \<and> length (faults s2) = length (faults s1) \<and>
    PRIORITY_RANK (fl_priority f') \<le> PRIORITY_RANK (fl_priority f) \<and>
    length (fl_additional_reports f') = Suc (length (fl_additional_reports f))"
  by (rule second_report_joins [OF assms(3,1,2,7,4,5,6)])

lemma public_reports_converge_witness:
  "fl_reference (fst (the_run public1)) = fl_reference (fst (the_run public0)) \<and>
    length (faults (snd (the_run public1))) = length (faults (snd (the_run public0)))"
  using public_reports_converge [OF board0_ok _ public0_run _ _ _ public1_run]
  by (simp add: e0_def later0_def public0_facts PUBLIC_MERGE_WINDOW_def)


section \<open>Inspections\<close>

text \<open>C21. Every lift shows its newest inspection, in all five columns, and is not in service because of
  one that left it red: recording an inspection (a late one, a follow-up), correcting any earlier one
  and the daily warnings all keep it so, for every lift of every firm.\<close>

theorem lifts_show_newest:
  assumes "lifts_ok s" and "inspection_service e s s'"
  shows "lifts_ok s' \<and> (\<forall>el \<in> set (elevators s'). \<forall>i. live_latest (pk el) s' = Some i \<longrightarrow>
    el_last_inspection_date el = Some (ip_inspected_on i) \<and> el_inspection_label el = Some (ip_label i) \<and>
    el_next_inspection_date el = Some (ip_next_due i) \<and> (ip_label i = Red \<longrightarrow> el_status el \<noteq> E_active))"
  using inspection_service_ok [OF assms(2,1)] lifts_okD(6) by (fastforce simp: shows_inspection_def)

lemma lifts_show_newest_witness:
  "lifts_ok (snd (the_run record0))"
  using lifts_show_newest [OF lifts0_ok record0_service] by blast

text \<open>C22. The deadline of a recorded inspection follows its label: none for green, the next inspection for
  blue, 120 days for yellow and 60 for red, counted from the periodic inspection a follow-up follows
  (no inspection restarts the clock). The new row is the only one written, and its lift shows it
  whenever it is the newest.\<close>

theorem deadline_from_origin:
  assumes "lifts_ok s" and "el \<in> set (elevators s)" and "sees_firm (ctx e) (company_id el)"
    and "record_inspection e el d l by kind follows body number next_due defects s = Inr (i, s')"
  shows "inspections s' = inspections s @ [i] \<and> ip_label i = l \<and>
    (let start = (case follows of Some o1 \<Rightarrow> ip_inspected_on o1 | None \<Rightarrow> d) in
     case l of Green \<Rightarrow> ip_deadline i = None | Blue \<Rightarrow> ip_deadline i = Some (ip_next_due i)
     | Yellow \<Rightarrow> (\<exists>t. ip_deadline i = Some t \<and> ordinal t = ordinal start + 120)
     | Red \<Rightarrow> (\<exists>t. ip_deadline i = Some t \<and> ordinal t = ordinal start + 60))"
  using record_inspection_ok(2,3) [OF assms(4,1,2,3)] deadline_by_label [OF record_inspection_ok(5) [OF assms(4,1,2,3)]]
  by (simp add: Let_def split: label.splits)

lemma deadline_from_origin_witness:
  "\<exists>t. ip_deadline (fst (the_run record0)) = Some t \<and> ordinal t = ordinal (Date 2026 6 20) + 60"
  using deadline_from_origin [OF lifts0_ok lifts0_sees(1,3) record0_run] by (simp add: inspection0_def Let_def)



text \<open>C24. A defect gets one fault: asking again, whoever asks, answers with the fault the first request
  opened and changes nothing.\<close>

theorem defect_has_one_fault:
  assumes "board_ok t s" and "t \<le> now e" and "distinct (map pk (nonconformities s))" and "ctx e' = ctx e"
    and "open_fault e w k by s = Inr (f, s')"
  shows "open_fault e' w' k by' s' = Inr (f, s')"
  by (rule open_fault_again [OF assms(5,1,2,3,4)])

lemma defect_has_one_fault_witness:
  "open_fault e0 w0 7 technician0 (snd (the_run opened0)) = Inr (fst (the_run opened0), snd (the_run opened0))"
  using defect_has_one_fault [OF lifts0_board_ok(1) _ lifts0_board_ok(2) refl opened0_run] by (simp add: e0_def)

text \<open>C25. The record, the lifts and the plan stay in line: whatever the office and the technicians do to
  visits and plan rows - record, correct, move to another lift or month, delete, edit, assign in bulk,
  remind - every lift keeps the dates of its latest completed visit, and every live row that is not
  cancelled says done or planned, and names the visit, as the visits of its month do.\<close>

theorem record_and_plan_agree:
  assumes "workshop_service e s s'" and "tidy s"
  shows "tidy s'"
  by (rule workshop_service_tidy [OF assms])

lemma record_and_plan_agree_witness: "tidy (the_run deleted0)"
  by (rule record_and_plan_agree [OF workshop_service.deleting [OF visit1_sees deleted0_run] shop0_tidy])

text \<open>C26. The nightly plan is complete: when it returns, every lift under contract has exactly one live row
  for this month and exactly one for the next.\<close>

theorem plan_complete:
  assumes "plan_maintenance e s = Inr (run, s')" and "shop_ok s" and "valid_date (today e)"
    and "el \<in> set (covered_elevators (e\<lparr>ctx := system_context (ctx e)\<rparr>) s)"
  shows "\<exists>p. next_period (period_of (today e)) = Inr p \<and>
    (\<exists>!r. r \<in> set (plan s') \<and> \<not> is_deleted r \<and> pv_elevator r = pk el \<and> pv_period r = period_of (today e)) \<and>
    (\<exists>!r. r \<in> set (plan s') \<and> \<not> is_deleted r \<and> pv_elevator r = pk el \<and> pv_period r = p)"
proof -
  let ?e = "e\<lparr>ctx := system_context (ctx e)\<rparr>"
  have vis: "visible (ctx ?e) r \<longleftrightarrow> \<not> is_deleted r" for r :: planned_visit
    by (simp add: visible_def system_context_def)
  from generate_plan_settles [OF assms(1) [unfolded plan_maintenance_def] assms(2,3)] obtain p where
    ok: "shop_ok s'" and one: "month_settled ?e (period_of (today e)) (covered_elevators ?e s) s'"
    and p: "next_period (period_of (today e)) = Inr p" and two: "month_settled ?e p (covered_elevators ?e s) s'" by blast
  from settled_one_row [OF one ok assms(4)] settled_one_row [OF two ok assms(4)] p show ?thesis by (simp only: vis) blast
qed

lemma plan_complete_witness:
  "\<exists>!r. r \<in> set (plan (snd (the_run planned0))) \<and> \<not> is_deleted r \<and> pv_elevator r = 12 \<and> pv_period r = period_of (Date 2026 10 23)"
proof -
  have "valid_date (today e0)" by (simp add: e0_def valid_date_def days_in_month_def)
  from plan_complete [OF planned0_run shop1_ok this shop0_covered(2)]
  have "\<exists>!r. r \<in> set (plan (snd (the_run planned0))) \<and> \<not> is_deleted r \<and> pv_elevator r = pk elevator2 \<and>
    pv_period r = period_of (today e0)" by (elim exE conjE)
  then show ?thesis by (simp add: e0_def elevator2_fields)
qed

text \<open>C27. The nightly plan runs once: a second run the same day finds every row in place, creates, moves,
  cancels and announces nothing, and leaves the state as it is.\<close>

theorem plan_runs_once:
  assumes "plan_maintenance e s = Inr (run, s')" and "shop_ok s" and "valid_date (today e)" and "today e' = today e"
  shows "plan_maintenance e' s' = Inr (fresh_run, s')"
proof -
  have "system_context (ctx e') = system_context (ctx e)" by (simp add: system_context_def)
  then show ?thesis
    using generate_plan_again [OF assms(1) [unfolded plan_maintenance_def] assms(2,3), of "e'\<lparr>ctx := system_context (ctx e')\<rparr>"]
    by (simp add: plan_maintenance_def assms(4))
qed

lemma plan_runs_once_witness:
  "plan_maintenance (e0\<lparr>now := 5000\<rparr>) (snd (the_run planned0)) = Inr (fresh_run, snd (the_run planned0))"
proof (rule plan_runs_once [OF planned0_run shop1_ok])
  show "valid_date (today e0)" by (simp add: e0_def valid_date_def days_in_month_def)
qed simp

text \<open>C28. Every overdue lift is told of: after the daily job, each active person of the office and each active
  technician of the customer holds the notice of the missed date.\<close>

theorem overdue_reaches_everyone:
  assumes "maintenance_overdue_in_scope e t s = Inr (n, s')" and "el \<in> set (overdue_lifts e t s)"
  shows "\<exists>d people. el_next_maintenance_date el = Some d \<and> office_and_technicians el s' = Inr people \<and>
    (\<forall>u \<in> set people. staff_is_active u \<longrightarrow> \<not> is_deleted u \<longrightarrow>
      holds_key (pk u) (''overdue:'' @ digits (pk el) @ '':'' @ isoformat d) s')"
  using overdue_notices.run_reaches [OF assms(1) [unfolded maintenance_overdue_in_scope_def] assms(2)]
  by (simp add: overdue_told_def)

lemma overdue_reaches_everyone_witness:
  "\<exists>people. office_and_technicians elevator2 (snd (the_run overdue0)) = Inr people"
  using overdue_reaches_everyone [OF overdue0_run shop0_covered(1)] by blast

text \<open>C29. A month's text reads back: the bounds of the month a day belongs to are the first and the last day
  of that month, and a day is of the same month exactly when it lies between them.\<close>

theorem month_text_roundtrip:
  assumes "valid_date d" and "valid_date d'"
  shows "month_bounds (period_of d) = Inr (Date (year d) (month d) 1, Date (year d) (month d) (days_in_month (year d) (month d))) \<and>
    (period_of d' = period_of d) = (Date (year d) (month d) 1 \<le> d' \<and> d' \<le> Date (year d) (month d) (days_in_month (year d) (month d)))"
  using month_bounds_of [OF assms(1)] same_period_iff [OF assms(2,1)] by (simp add: first_day_def last_day_def)

lemma month_text_roundtrip_witness: "month_bounds (period_of (Date 2024 2 10)) = Inr (Date 2024 2 1, Date 2024 2 29)"
  using month_text_roundtrip [of "Date 2024 2 10" "Date 2024 2 10"]
  by (simp add: valid_date_def days_in_month_def is_leap_def)

text \<open>C30. A due date stays within bounds: never past its month, never past the day the lift itself falls due,
  and that very day when it is not after the month.\<close>

theorem due_date_within_bounds:
  assumes "valid_date d" and "due_date_in (period_of d) (Some x) = Inr due"
  shows "due \<le> Date (year d) (month d) (days_in_month (year d) (month d)) \<and> due \<le> x \<and>
    (due = x) = (x \<le> Date (year d) (month d) (days_in_month (year d) (month d)))"
  using due_date_bounds [OF assms] by (auto simp: last_day_def)

lemma due_date_within_bounds_witness:
  "due_date_in (period_of (Date 2026 10 1)) (Some (Date 2026 11 4)) = Inr (Date 2026 10 31) \<and> Date 2026 10 31 \<le> Date 2026 11 4"
proof -
  have v: "valid_date (Date 2026 10 1)" by (simp add: valid_date_def days_in_month_def)
  have d: "due_date_in (period_of (Date 2026 10 1)) (Some (Date 2026 11 4)) = Inr (Date 2026 10 31)"
    unfolding due_date_in_of [OF v] by (simp add: last_day_def days_in_month_def min_def)
  from due_date_within_bounds [OF v d] d show ?thesis by blast
qed


text \<open>C32. What a recorded visit says of the building's signature is well formed: a completed visit says
  something; a signed one names a person and a role, at a time not after the server's; any other names
  nobody and has no time.\<close>

theorem signature_well_formed:
  assumes "check_signature_fields e st f = Inr g"
  shows "sg_status g = sg_status f \<and> (st = Completed \<longrightarrow> sg_status g \<noteq> None) \<and>
    (if sg_status g = Some Signed then sg_name g \<noteq> [] \<and> sg_role g \<noteq> None \<and> (\<exists>t. sg_at g = Some t \<and> t \<le> now e)
     else strip (sg_name g) = [] \<and> sg_role g = None \<and> sg_at g = None)"
  using signature_fields_ok [OF assms] by simp

lemma signature_well_formed_witness:
  "\<exists>g. check_signature_fields e0 Completed \<lparr>sg_status = Some Signed, sg_name = ''S'', sg_role = Some Signer_staff, sg_at = Some 2000\<rparr> =
    Inr g \<and> sg_at g = Some 1000 \<and> sg_name g \<noteq> []"
proof -
  let ?f = "\<lparr>sg_status = Some Signed, sg_name = ''S'', sg_role = Some Signer_staff, sg_at = Some 2000\<rparr>"
  have "strip ''S'' = ''S''" by code_simp
  then have c: "check_signature_fields e0 Completed ?f = Inr (?f\<lparr>sg_at := Some 1000\<rparr>)"
    by (simp add: check_signature_fields_def e0_def)
  from signature_well_formed [OF c] c show ?thesis by auto
qed


section \<open>Requests sent twice\<close>

text \<open>C34. A POST sent again under its idempotency key does its work once: whatever requests, workers that
  die, purges and clock ticks interleave, two commits of one key of one principal are at least the
  retention of the first apart; and a request that is answered from the store gets the status and the body
  of a commit of the same key, endpoint and body.\<close>

theorem replay_once:
  assumes "replay_reachable w"
  shows "(\<forall>i j. i < j \<and> j < length (work w) \<and> same_request_key (cm_request (work w ! i)) (cm_request (work w ! j)) \<longrightarrow>
      cm_at (work w ! i) + rq_retention (cm_request (work w ! i)) \<le> cm_at (work w ! j)) \<and>
    (\<forall>p r st body. requests w p = Some (r, Finished (Stored st body)) \<longrightarrow>
      (\<exists>c \<in> set (work w). same_request r (cm_request c) \<and> cm_status c = st \<and> cm_body c = body))"
  using work_spaced [OF assms] replayed_is_own [OF assms] by blast+

lemma replay_once_witness:
  "cm_at (work third_done ! 0) + RETENTION \<le> cm_at (work third_done ! 1)"
proof -
  have n: "length (work third_done) = 2" using arg_cong [OF third_work(1), of length] by simp
  have r: "cm_request (work third_done ! 0) = asked" "cm_request (work third_done ! 1) = asked"
    using arg_cong [OF third_work(3), of "\<lambda>xs. xs ! 0"] arg_cong [OF third_work(3), of "\<lambda>xs. xs ! 1"] n by simp_all
  have "cm_at (work third_done ! 0) + rq_retention (cm_request (work third_done ! 0)) \<le> cm_at (work third_done ! 1)"
    using replay_once [OF third_done_reachable, THEN conjunct1, rule_format, of 0 1] n r by (simp add: same_request_key_def)
  then show ?thesis using r by (simp add: asked_def)
qed

section \<open>The doors\<close>

text \<open>C35. Along every history of sign-ins, refreshes, resets, invitations and changes to accounts, of staff
  and of the portal, every device keeps at most one live refresh token, people keep keys of their own, and
  a firm that has an active owner always has one.\<close>

theorem doors_kept:
  assumes "(\<lambda>s s'. \<exists>e w. door_service e w s s')\<^sup>*\<^sup>* s s'" and "doors_ok s"
  shows "doors_ok s' \<and> owners_stay s s'"
  using assms
proof (induction rule: rtranclp_induct)
  case base
  then show ?case by (simp add: owners_stay_def)
next
  case (step y z)
  then obtain e w where "door_service e w y z" by blast
  from door_service_kept [OF this] step show ?case by (auto simp: owners_stay_def)
qed

lemma doors_kept_witness:
  "doors_ok (snd refresh0) \<and> has_owner 1 (snd refresh0)"
proof -
  let ?R = "\<lambda>s s'. \<exists>e w. door_service e w s s'"
  have "door_service e0 keys0 doors0 (snd login0)"
    by (rule signing_in [where res = "fst login0"]) (simp add: login0_def)
  then have "?R\<^sup>*\<^sup>* doors0 (snd login0)" by (intro r_into_rtranclp exI)
  also have "door_service e0 keys0 (snd login0) (snd refresh0)"
    by (rule refreshing [where res = "fst refresh0"]) (simp add: refresh0_def)
  then have "?R (snd login0) (snd refresh0)" by blast
  finally have "?R\<^sup>*\<^sup>* doors0 (snd refresh0)" .
  moreover have "has_owner 1 doors0"
    by (simp add: has_owner_def doors0_def reception.defs entrance.defs board0_def estate.defs board.defs
      firm0_def staff0_def technician0_def)
  ultimately show ?thesis using doors_kept [OF _ doors0_ok] unfolding owners_stay_def by blast
qed





text \<open>C38. A password reset takes an unused, unexpired link of that person, sets the password, ends every
  session of theirs, lifts the lock of the address it came from, and leaves the link useless.\<close>

theorem password_reset_completes:
  assumes "confirm_password_reset e w tok raw ip s = Inr (u, s')"
  shows "(\<exists>k \<in> set (one_time_tokens s). ot_user k = Some (pk u) \<and> ot_purpose k = Password_reset \<and>
      ot_token_hash k = hash_token w tok \<and> ot_used_at k = None \<and> now e < ot_expires_at k) \<and>
    passwords s' (pk u) = Some (make_password w raw) \<and>
    (\<forall>x \<in> set (refresh_sessions s'). ss_owner x = pk u \<longrightarrow> \<not> live_session x) \<and>
    (\<forall>t. \<not> is_locked t (bucket_of (staff_email u) ip) (cache s')) \<and>
    (\<forall>e' raw' ip'. confirm_password_reset e' w tok raw' ip' s' = Inl (refused TOKEN_INVALID))"
proof -
  have "confirm_password_reset e' w tok raw' ip' s' = Inl (refused TOKEN_INVALID)" for e' raw' ip'
    using reset_done(3) [OF assms] by (simp add: confirm_password_reset_def consume_one_time_token_def)
  with reset_done(1,2,4,5) [OF assms] show ?thesis by blast
qed

lemma password_reset_completes_witness:
  "passwords (snd (the_run reset0)) (pk (fst (the_run reset0))) = Some ''$new'' \<and>
    confirm_password_reset e0 keys0 ''link'' ''other'' None (snd (the_run reset0)) = Inl (refused TOKEN_INVALID)"
proof -
  have "confirm_password_reset e0 keys0 ''link'' ''new'' None (snd (the_run asked_reset0)) =
      Inr (fst (the_run reset0), snd (the_run reset0))"
    using the_run [OF reset0_returns] by (simp add: reset0_def)
  from password_reset_completes [OF this] show ?thesis by (simp add: keys0_def)
qed

section \<open>Forms and files\<close>

text \<open>C39. A tax number (ten digits) or national identity number (eleven) with any one digit mistyped is
  refused.\<close>

theorem mistyped_digit_caught:
  assumes "validate_tax_number v = Inr v'" and "i < length v" and "is_digit c" and "c \<noteq> v ! i"
  shows "\<exists>code. validate_tax_number (v[i := c]) = Inl (refused_value code)"
  using mistyped_digit_refused [OF assms] .

lemma mistyped_digit_caught_witness:
  "validate_tax_number ''10000000146'' = Inr ''10000000146'' \<and> (\<exists>code. validate_tax_number ''10000000145'' = Inl (refused_value code))"
proof -
  have "map_sum (\<lambda>_. 0 :: nat) id (validate_tax_number ''10000000146'') = Inr ''10000000146''" by code_simp
  then have v: "validate_tax_number ''10000000146'' = Inr ''10000000146''"
    by (cases "validate_tax_number ''10000000146''") simp_all
  show ?thesis using mistyped_digit_caught [OF v, of 10 "CHR ''5''"] v by (simp add: is_digit_def)
qed

text \<open>C40. A confirmed upload leaves the files in order (an allowed type and size as the bucket measured
  them, at most one live signature per visit), answers with a live record of the firm under that key, and
  confirming it again, from any other call, answers with the same record and changes nothing.\<close>

theorem upload_confirmed:
  assumes "confirm_upload backend_for e co by key name s = (Inr a, s')" and "files_ok (attachments s)"
  shows "files_ok (attachments s') \<and> a \<in> set (attachments s') \<and> \<not> is_deleted a \<and> at_storage_key a = key \<and>
    company_id a = co \<and> (\<forall>e' by' name'. confirm_upload backend_for e' co by' key name' s' = (Inr a, s'))"
proof -
  from confirm_again [OF assms(1)] have again: "confirm_upload backend_for e' co by' key name' s' = (Inr a, s')" for e' by' name' .
  from assms(1) have "recorded_upload co key s' = Some a" by (rule confirm_recorded)
  from find_Some_iff [OF this [unfolded recorded_upload_def]]
  show ?thesis using again confirm_files_ok [OF assms] by blast
qed

lemma upload_confirmed_witness:
  "files_ok (attachments (snd confirm0)) \<and> at_storage_key (the_run (fst confirm0)) = photo_key0"
proof -
  have "confirm_upload (\<lambda>_. ''local'') e0 1 (Some 15) photo_key0 ''lift.jpg'' vault0 =
      (Inr (the_run (fst confirm0)), snd confirm0)"
    using confirm0_run by (simp add: confirm0_def)
  from upload_confirmed [OF this vault0_files] show ?thesis by blast
qed

end
